(* ===== verification/Prelude.thy ===== *)
theory Prelude
  imports Complex_Main "HOL-Library.Multiset"
begin

text \<open>
  Shared vocabulary of the development: the errors the services throw, a result type in which
  every throw is a value, the few list operations that stand for the table queries of the
  persistence layer (find, update-where, sums over a column), and the lemmas on them that all
  component theories use.  The collections \<open>row_simps\<close> and \<open>result_simps\<close> gather the facts that
  the component proofs hand to the simplifier.
\<close>

named_theorems row_simps "lookups and updates of table rows"
named_theorems result_simps "results and their sequential composition"

section \<open>Errors and results\<close>

text \<open>
  The HTTP exceptions of the framework, the plain \<open>Error\<close>, and the two exceptions the
  persistence layer raises itself: a violated unique constraint and a row that
  \<open>findUniqueOrThrow\<close>/\<open>update\<close> did not find; and the error of a wallet's RPC client, with its code.
\<close>

datatype error =
    NotFoundException string
  | ConflictException string
  | BadRequestException string
  | UnauthorizedException string
  | ForbiddenException string
  | TooManyRequests string
  | Error string
  | UniqueConstraint string
  | RecordNotFound string
  | RpcError int string

text \<open>The message of an exception, which is what the handlers log and store.\<close>

fun error_message :: "error \<Rightarrow> string" where
  "error_message (NotFoundException m) = m"
| "error_message (ConflictException m) = m"
| "error_message (BadRequestException m) = m"
| "error_message (UnauthorizedException m) = m"
| "error_message (ForbiddenException m) = m"
| "error_message (TooManyRequests m) = m"
| "error_message (Error m) = m"
| "error_message (UniqueConstraint m) = m"
| "error_message (RecordNotFound m) = m"
| "error_message (RpcError code m) = m"

type_synonym 'a result = "error + 'a"

definition ebind :: "'a result \<Rightarrow> ('a \<Rightarrow> 'b result) \<Rightarrow> 'b result" where
  "ebind r f = (case r of Inl e \<Rightarrow> Inl e | Inr x \<Rightarrow> f x)"

definition guard_or :: "bool \<Rightarrow> error \<Rightarrow> unit result" where
  "guard_or b e = (if b then Inr () else Inl e)"

fun map_result :: "('a \<Rightarrow> 'b result) \<Rightarrow> 'a list \<Rightarrow> 'b list result" where
  "map_result f [] = Inr []"
| "map_result f (x # xs) = ebind (f x) (\<lambda>y. ebind (map_result f xs) (\<lambda>ys. Inr (y # ys)))"

fun fold_result :: "('a \<Rightarrow> 's \<Rightarrow> 's result) \<Rightarrow> 'a list \<Rightarrow> 's \<Rightarrow> 's result" where
  "fold_result f [] s = Inr s"
| "fold_result f (x # xs) s = ebind (f x s) (fold_result f xs)"

lemma ebind_simps [simp, result_simps]:
  "ebind (Inl e) f = Inl e" "ebind (Inr x) f = f x"
  by (simp_all add: ebind_def)

lemma ebind_eq_Inr [result_simps]:
  "ebind r f = Inr y \<longleftrightarrow> (\<exists>x. r = Inr x \<and> f x = Inr y)"
  by (cases r) simp_all

lemma ebind_eq_Inl [result_simps]:
  "ebind r f = Inl e \<longleftrightarrow> r = Inl e \<or> (\<exists>x. r = Inr x \<and> f x = Inl e)"
  by (cases r) simp_all

lemma guard_or_eq_Inr [simp, result_simps]: "guard_or b e = Inr u \<longleftrightarrow> b"
  by (simp add: guard_or_def)

lemma guard_or_eq_Inl [simp, result_simps]: "guard_or b e = Inl e' \<longleftrightarrow> \<not> b \<and> e' = e"
  by (auto simp: guard_or_def)

lemma guard_or_simps [simp]: "guard_or True e = Inr ()" "guard_or False e = Inl e"
  by (simp_all add: guard_or_def)

lemma map_result_Inr_length: "map_result f xs = Inr ys \<Longrightarrow> length ys = length xs"
  by (induction xs arbitrary: ys) (auto simp: ebind_eq_Inr)

lemma map_result_Inr_nth:
  "map_result f xs = Inr ys \<Longrightarrow> i < length xs \<Longrightarrow> f (xs ! i) = Inr (ys ! i)"
proof (induction xs arbitrary: ys i)
  case Nil
  then show ?case by simp
next
  case (Cons x xs)
  then show ?case by (cases i) (auto simp: ebind_eq_Inr)
qed

lemma map_result_total:
  "(\<And>x. x \<in> set xs \<Longrightarrow> f x = Inr (g x)) \<Longrightarrow> map_result f xs = Inr (map g xs)"
  by (induction xs) auto

text \<open>An invariant kept by every step is kept by the whole loop.\<close>

lemma fold_result_invariant:
  assumes "fold_result f xs s = Inr t" and "I s"
    and "\<And>x s s'. x \<in> set xs \<Longrightarrow> I s \<Longrightarrow> f x s = Inr s' \<Longrightarrow> I s'"
  shows "I t"
  using assms by (induction xs arbitrary: s) (auto simp: ebind_eq_Inr)

section \<open>Numbers\<close>

text \<open>\<open>BigInt\<close> division truncates towards zero.\<close>

definition bigint_div :: "int \<Rightarrow> int \<Rightarrow> int" where
  "bigint_div a b = sgn a * sgn b * (\<bar>a\<bar> div \<bar>b\<bar>)"

lemma bigint_div_nonneg [simp]: "0 \<le> a \<Longrightarrow> 0 < b \<Longrightarrow> bigint_div a b = a div b"
  by (cases "a = 0") (simp_all add: bigint_div_def)

section \<open>Rows of a table\<close>

definition update_where :: "('a \<Rightarrow> bool) \<Rightarrow> ('a \<Rightarrow> 'a) \<Rightarrow> 'a list \<Rightarrow> 'a list" where
  "update_where P f = map (\<lambda>x. if P x then f x else x)"

definition sum_where :: "('a \<Rightarrow> bool) \<Rightarrow> ('a \<Rightarrow> 'b) \<Rightarrow> 'a list \<Rightarrow> 'b::comm_monoid_add" where
  "sum_where P f xs = sum_list (map f (filter P xs))"

text \<open>Rows are identified by a key: at most one row carries a given key value.\<close>

abbreviation unique_on :: "('a \<Rightarrow> 'k) \<Rightarrow> 'a list \<Rightarrow> bool" where
  "unique_on key xs \<equiv> distinct (map key xs)"

lemma update_where_simps [simp, row_simps]:
  "update_where P f [] = []"
  "update_where P f (x # xs) = (if P x then f x else x) # update_where P f xs"
  "update_where P f (xs @ ys) = update_where P f xs @ update_where P f ys"
  by (simp_all add: update_where_def)

lemma length_update_where [simp]: "length (update_where P f xs) = length xs"
  by (simp add: update_where_def)

lemma map_update_where [row_simps]:
  "(\<And>x. P x \<Longrightarrow> g (f x) = g x) \<Longrightarrow> map g (update_where P f xs) = map g xs"
  by (simp add: update_where_def)

lemma set_update_where:
  "x \<in> set (update_where P f xs) \<longleftrightarrow>
     (\<exists>y \<in> set xs. if P y then x = f y else x = y)"
  by (auto simp: update_where_def)

lemma update_where_none [simp]: "(\<And>x. x \<in> set xs \<Longrightarrow> \<not> P x) \<Longrightarrow> update_where P f xs = xs"
  by (induction xs) auto

lemma sum_where_simps [simp, row_simps]:
  "sum_where P f [] = 0"
  "sum_where P f (x # xs) = (if P x then f x + sum_where P f xs else sum_where P f xs)"
  "sum_where P f (xs @ ys) = sum_where P f xs + sum_where P f ys"
  by (simp_all add: sum_where_def)

lemma sum_where_none [simp]: "(\<And>x. x \<in> set xs \<Longrightarrow> \<not> P x) \<Longrightarrow> sum_where P f xs = 0"
  by (induction xs) auto

lemma sum_where_cong:
  "(\<And>x. x \<in> set xs \<Longrightarrow> P x \<longleftrightarrow> Q x) \<Longrightarrow> (\<And>x. x \<in> set xs \<Longrightarrow> P x \<Longrightarrow> f x = g x) \<Longrightarrow>
   sum_where P f xs = sum_where Q g xs"
  by (induction xs) auto

lemma sum_where_update_where:
  "(\<And>x. P x \<Longrightarrow> Q (h x) = Q x \<and> f (h x) = f x) \<Longrightarrow>
   sum_where Q f (update_where P h xs) = sum_where Q f xs"
  by (induction xs) auto

lemma sum_where_nonneg:
  "(\<And>x. x \<in> set xs \<Longrightarrow> P x \<Longrightarrow> (0::'b::ordered_comm_monoid_add) \<le> f x) \<Longrightarrow> 0 \<le> sum_where P f xs"
  by (induction xs) (auto intro: add_nonneg_nonneg)

lemma sum_where_mono_pred:
  "(\<And>x. x \<in> set xs \<Longrightarrow> P x \<Longrightarrow> Q x) \<Longrightarrow>
   (\<And>x. x \<in> set xs \<Longrightarrow> (0::'b::ordered_comm_monoid_add) \<le> f x) \<Longrightarrow>
   sum_where P f xs \<le> sum_where Q f xs"
proof (induction xs)
  case Nil
  then show ?case by simp
next
  case (Cons x xs)
  then have IH: "sum_where P f xs \<le> sum_where Q f xs" and x: "0 \<le> f x" by auto
  from x IH have "sum_where P f xs \<le> f x + sum_where Q f xs"
    using add_mono [OF x IH] by simp
  with IH Cons.prems(1) [of x] show ?case by (auto intro: add_left_mono)
qed

lemma find_Some_iff_unique:
  assumes "unique_on key xs"
  shows "List.find (\<lambda>x. key x = k) xs = Some r \<longleftrightarrow> r \<in> set xs \<and> key r = k"
  using assms
  by (induction xs) (auto simp: rev_image_eqI)

lemma find_None_key [row_simps]:
  "List.find (\<lambda>x. key x = k) xs = None \<longleftrightarrow> k \<notin> key ` set xs"
  by (auto simp: find_None_iff)

lemma find_SomeD: "List.find P xs = Some x \<Longrightarrow> x \<in> set xs \<and> P x"
  by (auto simp: find_Some_iff)

lemma find_update_where [row_simps]:
  "(\<And>x. P x \<Longrightarrow> Q (f x) = Q x) \<Longrightarrow>
   List.find Q (update_where P f xs) = map_option (\<lambda>x. if P x then f x else x) (List.find Q xs)"
  by (induction xs) auto

text \<open>Updating the single row with a given key, seen by a sum over a column.\<close>

lemma sum_where_update_unique:
  fixes f :: "'a \<Rightarrow> 'b::ab_group_add"
  assumes "unique_on key xs" and "r \<in> set xs" and "\<And>x. key (h x) = key x"
  shows "sum_where Q f (update_where (\<lambda>x. key x = key r) h xs) =
         sum_where Q f xs - (if Q r then f r else 0) + (if Q (h r) then f (h r) else 0)"
  using assms
proof (induction xs)
  case Nil
  then show ?case by simp
next
  case (Cons x xs)
  show ?case
  proof (cases "x = r")
    case True
    with Cons.prems have "update_where (\<lambda>x. key x = key r) h xs = xs"
      by (intro update_where_none) (auto simp: image_iff)
    with True show ?thesis by simp
  next
    case False
    with Cons.prems have "key x \<noteq> key r" and "r \<in> set xs" by (auto simp: rev_image_eqI)
    with Cons show ?thesis by simp
  qed
qed

section \<open>Rational and integer sums\<close>

lemma sum_list_map_mono:
  "(\<And>x. x \<in> set xs \<Longrightarrow> f x \<le> (g x :: 'b::ordered_comm_monoid_add)) \<Longrightarrow>
   (\<Sum>x\<leftarrow>xs. f x) \<le> (\<Sum>x\<leftarrow>xs. g x)"
  by (induction xs) (auto intro: add_mono)

lemma sum_list_map_strict_mono:
  "xs \<noteq> [] \<Longrightarrow> (\<And>x. x \<in> set xs \<Longrightarrow> f x < (g x :: 'b::strict_ordered_comm_monoid_add)) \<Longrightarrow>
   (\<Sum>x\<leftarrow>xs. f x) < (\<Sum>x\<leftarrow>xs. g x)"
proof (induction xs)
  case Nil
  then show ?case by simp
next
  case (Cons x xs)
  then show ?case by (cases "xs = []") (auto intro: add_strict_mono)
qed

lemma sum_list_map_cong:
  "(\<And>x. x \<in> set xs \<Longrightarrow> f x = g x) \<Longrightarrow> (\<Sum>x\<leftarrow>xs. f x) = (\<Sum>x\<leftarrow>xs. g x)"
  by (induction xs) auto

lemma sum_list_map_zero:
  "(\<And>x. x \<in> set xs \<Longrightarrow> f x = (0 :: 'b::comm_monoid_add)) \<Longrightarrow> (\<Sum>x\<leftarrow>xs. f x) = 0"
  by (induction xs) auto

lemma sum_list_if_unique:
  "unique_on key xs \<Longrightarrow> a \<in> set xs \<Longrightarrow> key a = k \<Longrightarrow>
   (\<Sum>b\<leftarrow>xs. if key b = k then x else (0 :: 'b::comm_monoid_add)) = x"
proof (induction xs)
  case Nil
  then show ?case by simp
next
  case (Cons b xs)
  show ?case
  proof (cases "key b = k")
    case True
    with Cons.prems(1) have z: "map (\<lambda>b. if key b = k then x else 0) xs = map (\<lambda>b. 0) xs"
      by (intro map_cong) (auto simp: image_iff)
    from True show ?thesis by (simp only: list.map z) simp
  next
    case False
    with Cons show ?thesis by auto
  qed
qed

lemma sum_list_div_right:
  "(\<Sum>x\<leftarrow>xs. f x / (c::'b::field)) = (\<Sum>x\<leftarrow>xs. f x) / c"
  by (induction xs) (auto simp: add_divide_distrib)

end
