(* ===== verification/Allocation.thy ===== *)
theory Allocation
  imports Prelude "HOL-Library.Product_Lexorder"
begin

text \<open>
  The allocation arithmetic of \<open>apps/server/src/ledger/allocation.ts\<close>: \<open>largestRemainder\<close>
  distributes an integral amount over weighted items and \<open>splitBasisPoints\<close> splits an amount
  between a customer and the operator.

  The weights are values of the package decimal.js.  Its operations are a parameter of the
  model, the record \<open>decimal_lib\<close>; a decimal is represented by the rational number it denotes.
  What the package documents of its rounding (every operation is correctly rounded to a fixed
  number of significant digits, 20 by default) is the locale \<open>decimal_arith\<close>: a relative
  error of at most \<open>u\<close> per operation.
\<close>

section \<open>The decimal package\<close>

record decimal_lib =
  dec_add :: "rat \<Rightarrow> rat \<Rightarrow> rat"
  dec_sub :: "rat \<Rightarrow> rat \<Rightarrow> rat"
  dec_mul :: "rat \<Rightarrow> rat \<Rightarrow> rat"
  dec_div :: "rat \<Rightarrow> rat \<Rightarrow> rat"
  dec_toFixed :: "nat \<Rightarrow> rat \<Rightarrow> rat"

section \<open>Largest remainder\<close>

record 'k weighted_item =
  wi_key :: 'k
  wi_weight :: rat

record 'k allocated_item =
  ai_key :: 'k
  ai_amount :: int

record 'k calculated =
  c_key :: 'k
  c_amount :: int
  c_remainder :: rat
  c_index :: nat

definition totalWeight :: "decimal_lib \<Rightarrow> 'k weighted_item list \<Rightarrow> rat" where
  "totalWeight D items = fold (\<lambda>item acc. dec_add D acc (wi_weight item)) items 0"

definition exact_share :: "decimal_lib \<Rightarrow> int \<Rightarrow> rat \<Rightarrow> rat \<Rightarrow> rat" where
  "exact_share D tot weight total_weight =
     dec_div D (dec_mul D (of_int tot) weight) total_weight"

definition calculate ::
    "decimal_lib \<Rightarrow> int \<Rightarrow> 'k weighted_item list \<Rightarrow> 'k calculated list" where
  "calculate D tot items =
     (let total_weight = totalWeight D items in
      map (\<lambda>(i, item).
             let exact = exact_share D tot (wi_weight item) total_weight;
                 amount = \<lfloor>exact\<rfloor>
             in \<lparr>c_key = wi_key item, c_amount = amount,
                 c_remainder = dec_sub D exact (of_int amount), c_index = i\<rparr>)
        (enumerate 0 items))"

text \<open>
  The loop \<open>for (index = 0; missing > 0n; index = (index + 1) % length)\<close>: the first argument
  is the number of units still missing.
\<close>

fun distribute :: "nat \<Rightarrow> nat \<Rightarrow> 'k calculated list \<Rightarrow> 'k calculated list" where
  "distribute 0 index cs = cs"
| "distribute (Suc missing) index cs =
     distribute missing ((index + 1) mod length cs)
       (cs[index := (cs ! index)\<lparr>c_amount := c_amount (cs ! index) + 1\<rparr>])"

definition by_remainder :: "'k calculated list \<Rightarrow> 'k calculated list" where
  "by_remainder = sort_key (\<lambda>c. (- c_remainder c, c_index c))"

definition largestRemainder ::
    "decimal_lib \<Rightarrow> int \<Rightarrow> 'k weighted_item list \<Rightarrow> 'k allocated_item list result" where
  "largestRemainder D tot items =
     (if tot < 0 then Inl (Error ''Total cannot be negative'')
      else if items = [] then Inr []
      else if totalWeight D items \<le> 0 then Inl (Error ''Allocation weight must be positive'')
      else
        let calculated = calculate D tot items;
            missing = tot - sum_list (map c_amount calculated);
            bumped = distribute (nat missing) 0 (by_remainder calculated)
        in Inr (map (\<lambda>c. \<lparr>ai_key = c_key c, ai_amount = c_amount c\<rparr>) (sort_key c_index bumped)))"

section \<open>Basis points\<close>

definition js_is_integer :: "rat \<Rightarrow> bool" where
  "js_is_integer x \<longleftrightarrow> of_int \<lfloor>x\<rfloor> = x"

record split =
  split_customer :: int
  split_operator :: int

definition splitBasisPoints :: "int \<Rightarrow> rat \<Rightarrow> split result" where
  "splitBasisPoints tot customerBps =
     (if \<not> js_is_integer customerBps \<or> customerBps < 0 \<or> customerBps > 10000
      then Inl (Error ''customerBps must be an integer between 0 and 10000'')
      else let customer = bigint_div (tot * \<lfloor>customerBps\<rfloor>) 10000
           in Inr \<lparr>split_customer = customer, split_operator = tot - customer\<rparr>)"

section \<open>The loop that hands out the missing units\<close>

lemma length_distribute [simp]: "length (distribute m i cs) = length cs"
  by (induction m i cs rule: distribute.induct) auto

lemma map_c_pair_update:
  "i < length cs \<Longrightarrow>
   map (\<lambda>c. (c_index c, c_key c)) (cs[i := (cs ! i)\<lparr>c_amount := a\<rparr>]) =
   map (\<lambda>c. (c_index c, c_key c)) cs"
  by (simp add: map_update list_update_same_conv)

lemma distribute_pairs:
  "i < length cs \<Longrightarrow>
   map (\<lambda>c. (c_index c, c_key c)) (distribute m i cs) = map (\<lambda>c. (c_index c, c_key c)) cs"
proof (induction m i cs rule: distribute.induct)
  case (2 m i cs)
  then have "0 < length cs" by linarith
  then have "(i + 1) mod length cs < length cs" by (rule mod_less_divisor)
  with 2 show ?case by (simp only: distribute.simps length_list_update map_c_pair_update)
qed simp

lemma sum_list_nth_update:
  "i < length xs \<Longrightarrow> sum_list (xs[i := v]) = sum_list xs - xs ! i + (v :: int)"
  by (induction xs arbitrary: i) (auto split: nat.split)

lemma distribute_sum:
  "i < length cs \<Longrightarrow>
   sum_list (map c_amount (distribute m i cs)) = sum_list (map c_amount cs) + int m"
proof (induction m i cs rule: distribute.induct)
  case (2 m i cs)
  have "sum_list (map c_amount (cs[i := (cs ! i)\<lparr>c_amount := c_amount (cs ! i) + 1\<rparr>])) =
        sum_list (map c_amount cs) + 1"
    using 2(2) by (simp add: map_update sum_list_nth_update)
  with 2 show ?case by (cases "length cs = 0") simp_all
qed simp

text \<open>One pass over the list: the elements from \<open>i\<close> on that are reached get one unit.\<close>

lemma distribute_one_pass:
  assumes "i + m \<le> length cs" "j < length cs"
  shows "distribute m i cs ! j =
    (if i \<le> j \<and> j < i + m then (cs ! j)\<lparr>c_amount := c_amount (cs ! j) + 1\<rparr> else cs ! j)"
  using assms
proof (induction m arbitrary: i cs)
  case (Suc m)
  show ?case
  proof (cases "m = 0")
    case True
    with Suc.prems show ?thesis by (auto simp: nth_list_update)
  next
    case False
    with Suc.prems have "(i + 1) mod length cs = i + 1" by simp
    with Suc.prems Suc.IH [of "i + 1" "cs[i := (cs ! i)\<lparr>c_amount := c_amount (cs ! i) + 1\<rparr>]"]
    show ?thesis by (auto simp: nth_list_update)
  qed
qed simp

section \<open>Result of \<open>largestRemainder\<close>\<close>

lemma calculate_length [simp]: "length (calculate D tot items) = length items"
  by (simp add: calculate_def Let_def)

lemma calculate_nth:
  "i < length items \<Longrightarrow>
   calculate D tot items ! i =
     (let exact = exact_share D tot (wi_weight (items ! i)) (totalWeight D items) in
      \<lparr>c_key = wi_key (items ! i), c_amount = \<lfloor>exact\<rfloor>,
       c_remainder = dec_sub D exact (of_int \<lfloor>exact\<rfloor>), c_index = i\<rparr>)"
  by (simp add: calculate_def nth_enumerate_eq Let_def)

lemma calculate_index [simp]: "map c_index (calculate D tot items) = [0..<length items]"
  by (rule nth_equalityI) (simp_all add: calculate_nth Let_def)

lemma calculate_key [simp]: "map c_key (calculate D tot items) = map wi_key items"
  by (rule nth_equalityI) (simp_all add: calculate_nth Let_def)

lemma mset_by_remainder [simp]: "mset (by_remainder cs) = mset cs"
  by (simp add: by_remainder_def)

lemma length_by_remainder [simp]: "length (by_remainder cs) = length cs"
  by (simp add: by_remainder_def)

lemma set_by_remainder [simp]: "set (by_remainder cs) = set cs"
  by (simp add: by_remainder_def)

definition bumped :: "decimal_lib \<Rightarrow> int \<Rightarrow> 'k weighted_item list \<Rightarrow> 'k calculated list" where
  "bumped D tot items =
     distribute (nat (tot - sum_list (map c_amount (calculate D tot items)))) 0
       (by_remainder (calculate D tot items))"

lemma largestRemainder_Inr_iff:
  "largestRemainder D tot items = Inr rs \<longleftrightarrow>
     0 \<le> tot \<and>
     (items = [] \<and> rs = [] \<or>
      items \<noteq> [] \<and> 0 < totalWeight D items \<and>
      rs = map (\<lambda>c. \<lparr>ai_key = c_key c, ai_amount = c_amount c\<rparr>)
             (sort_key c_index (bumped D tot items)))"
  by (auto simp: largestRemainder_def bumped_def Let_def)

lemma mset_bumped_pairs:
  assumes "items \<noteq> []"
  shows "mset (map (\<lambda>c. (c_index c, c_key c)) (bumped D tot items)) =
         mset (map (\<lambda>c. (c_index c, c_key c)) (calculate D tot items))"
proof -
  let ?f = "\<lambda>c :: 'a calculated. (c_index c, c_key c)"
  have "map ?f (bumped D tot items) = map ?f (by_remainder (calculate D tot items))"
    unfolding bumped_def using assms by (intro distribute_pairs) simp
  then show ?thesis by (simp only: mset_map mset_by_remainder)
qed

text \<open>
  Sorting by a distinct key is determined by the multiset of keys: the final sort puts the
  element that carries index \<open>i\<close> back at position \<open>i\<close>.
\<close>

lemma map_sort_key: "map f (sort_key f xs) = sort (map f xs)"
proof -
  have "map f (insort_key f x ys) = insort (f x) (map f ys)" for x ys
    by (induction ys) auto
  then show ?thesis by (induction xs) simp_all
qed

lemma sort_index_nth:
  assumes "mset (map c_index ys) = mset [0..<n]" "i < n"
  shows "sort_key c_index ys ! i \<in> set ys" "c_index (sort_key c_index ys ! i) = i"
proof -
  have "sort (map c_index ys) = [0..<n]" using assms(1) by (intro properties_for_sort) simp_all
  then have eq: "map c_index (sort_key c_index ys) = [0..<n]" by (simp add: map_sort_key)
  then have len: "length (sort_key c_index ys) = n" by (metis length_map length_upt minus_nat.diff_0)
  with assms(2) show "sort_key c_index ys ! i \<in> set ys" by (metis nth_mem set_sort)
  from eq len assms(2) show "c_index (sort_key c_index ys ! i) = i"
    by (metis nth_map nth_upt plus_nat.add_0)
qed

lemma mset_bumped_index:
  assumes "items \<noteq> []"
  shows "mset (map c_index (bumped D tot items)) = mset [0..<length items]"
proof -
  have "mset (map fst (map (\<lambda>c. (c_index c, c_key c)) (bumped D tot items))) =
        mset (map fst (map (\<lambda>c. (c_index c, c_key c)) (calculate D tot items)))"
    using mset_bumped_pairs [OF assms, of D tot] by (simp only: mset_map)
  then have "mset (map c_index (bumped D tot items)) = mset (map c_index (calculate D tot items))"
    by (simp add: comp_def)
  then show ?thesis by (simp only: calculate_index)
qed

lemma bumped_key:
  assumes "items \<noteq> []" "c \<in> set (bumped D tot items)"
  shows "c_key c = wi_key (items ! c_index c)" "c_index c < length items"
proof -
  have "(c_index c, c_key c) \<in> set (map (\<lambda>c. (c_index c, c_key c)) (calculate D tot items))"
    using mset_bumped_pairs [OF assms(1), of D tot] assms(2)
    by (metis (no_types, lifting) image_eqI list.set_map set_mset_mset)
  then obtain i where "i < length items" "c_index c = i" "c_key c = wi_key (items ! i)"
    by (auto simp: in_set_conv_nth calculate_nth Let_def)
  then show "c_key c = wi_key (items ! c_index c)" "c_index c < length items" by simp_all
qed

lemma length_bumped [simp]: "length (bumped D tot items) = length items"
  by (simp add: bumped_def)

text \<open>The keys come back in the order of the items, whatever the decimal arithmetic does.\<close>

lemma largestRemainder_keys:
  assumes "largestRemainder D tot items = Inr rs"
  shows "map ai_key rs = map wi_key items"
proof (cases "items = []")
  case True
  with assms show ?thesis by (simp add: largestRemainder_Inr_iff)
next
  case False
  with assms have rs: "rs = map (\<lambda>c. \<lparr>ai_key = c_key c, ai_amount = c_amount c\<rparr>)
      (sort_key c_index (bumped D tot items))"
    by (simp add: largestRemainder_Inr_iff)
  show ?thesis
  proof (rule nth_equalityI)
    show "length (map ai_key rs) = length (map wi_key items)" by (simp add: rs)
  next
    fix i assume "i < length (map ai_key rs)"
    then have i: "i < length items" by (simp add: rs)
    note nth = sort_index_nth [OF mset_bumped_index [OF False, of D tot] i]
    show "map ai_key rs ! i = map wi_key items ! i"
      using i bumped_key(1) [OF False nth(1)] nth(2) by (simp add: rs)
  qed
qed

text \<open>The amounts add up to the total as soon as the floors do not exceed it.\<close>

lemma largestRemainder_sum:
  assumes "largestRemainder D tot items = Inr rs" "items \<noteq> []"
    and "sum_list (map c_amount (calculate D tot items)) \<le> tot"
  shows "sum_list (map ai_amount rs) = tot"
proof -
  from assms(1,2) have rs: "rs = map (\<lambda>c. \<lparr>ai_key = c_key c, ai_amount = c_amount c\<rparr>)
      (sort_key c_index (bumped D tot items))"
    by (simp add: largestRemainder_Inr_iff)
  have sum_mset: "sum_list (map c_amount xs) = sum_list (map c_amount ys)"
    if "mset xs = mset ys" for xs ys :: "'a calculated list"
    using that by (metis mset_map sum_mset_sum_list)
  have "sum_list (map ai_amount rs) = sum_list (map c_amount (bumped D tot items))"
    using sum_mset [of "sort_key c_index (bumped D tot items)" "bumped D tot items"]
    by (simp add: rs comp_def)
  also have "\<dots> = sum_list (map c_amount (by_remainder (calculate D tot items))) +
      (tot - sum_list (map c_amount (calculate D tot items)))"
    using assms(2,3) by (simp add: bumped_def distribute_sum)
  also have "\<dots> = tot"
    using sum_mset [of "by_remainder (calculate D tot items)" "calculate D tot items"] by simp
  finally show ?thesis .
qed

text \<open>
  With at most one unit per item missing, an item gets one unit more than its floor exactly when
  its place in the order by remainder is among the first \<open>missing\<close> ones.
\<close>

lemma largestRemainder_place:
  assumes "largestRemainder D tot items = Inr rs" "i < length items"
    and "tot - sum_list (map c_amount (calculate D tot items)) \<le> int (length items)"
  obtains j where "j < length items"
    and "by_remainder (calculate D tot items) ! j = calculate D tot items ! i"
    and "ai_amount (rs ! i) = c_amount (calculate D tot items ! i) +
      (if j < nat (tot - sum_list (map c_amount (calculate D tot items))) then 1 else 0)"
proof -
  let ?m = "nat (tot - sum_list (map c_amount (calculate D tot items)))"
  from assms(2) have ne: "items \<noteq> []" by auto
  with assms(1) have rs: "rs = map (\<lambda>c. \<lparr>ai_key = c_key c, ai_amount = c_amount c\<rparr>)
      (sort_key c_index (bumped D tot items))"
    by (simp add: largestRemainder_Inr_iff)
  define c where "c = sort_key c_index (bumped D tot items) ! i"
  have c: "c \<in> set (bumped D tot items)" "c_index c = i"
    using sort_index_nth [OF mset_bumped_index [OF ne] assms(2)] by (simp_all add: c_def)
  from c(1) obtain j where j: "j < length items" "c = bumped D tot items ! j"
    by (auto simp: in_set_conv_nth)
  define r where "r = by_remainder (calculate D tot items) ! j"
  have upd: "c = (if j < ?m then r\<lparr>c_amount := c_amount r + 1\<rparr> else r)"
    using j assms(3) unfolding bumped_def r_def by (subst (asm) distribute_one_pass) auto
  then have idx: "c_index r = i" using c(2) by (auto split: if_splits)
  have "r \<in> set (calculate D tot items)"
    using j by (metis length_by_remainder calculate_length nth_mem r_def set_by_remainder)
  then obtain k where k: "k < length items" "r = calculate D tot items ! k"
    by (auto simp: in_set_conv_nth)
  then have "c_index r = k" by (simp add: calculate_nth Let_def)
  with idx k have r: "r = calculate D tot items ! i" by simp
  have "ai_amount (rs ! i) = c_amount c" using assms(2) by (simp add: rs c_def)
  with upd r show ?thesis using that [of j] j(1) r_def by simp
qed

lemma largestRemainder_quota:
  assumes "largestRemainder D tot items = Inr rs" "i < length items"
    and "tot - sum_list (map c_amount (calculate D tot items)) \<le> int (length items)"
  shows "ai_amount (rs ! i) - c_amount (calculate D tot items ! i) \<in> {0, 1}"
  by (rule largestRemainder_place [OF assms]) simp

lemma by_remainder_sorted:
  assumes "j < k" "k < length cs"
  shows "(- c_remainder (by_remainder cs ! j), c_index (by_remainder cs ! j))
      \<le> (- c_remainder (by_remainder cs ! k), c_index (by_remainder cs ! k))"
proof -
  have "sorted (map (\<lambda>c. (- c_remainder c, c_index c)) (by_remainder cs))"
    by (simp add: by_remainder_def)
  from sorted_nth_mono [OF this, of j k] assms show ?thesis by simp
qed

section \<open>Rounding errors of the decimal package\<close>

locale decimal_arith =
  fixes D :: decimal_lib and u :: rat
  assumes u_range: "0 \<le> u" "u < 1"
    and add_err: "0 \<le> x \<Longrightarrow> 0 \<le> y \<Longrightarrow>
      (x + y) * (1 - u) \<le> dec_add D x y \<and> dec_add D x y \<le> (x + y) * (1 + u)"
    and mul_err: "0 \<le> x \<Longrightarrow> 0 \<le> y \<Longrightarrow>
      (x * y) * (1 - u) \<le> dec_mul D x y \<and> dec_mul D x y \<le> (x * y) * (1 + u)"
    and div_err: "0 \<le> x \<Longrightarrow> 0 < y \<Longrightarrow>
      (x / y) * (1 - u) \<le> dec_div D x y \<and> dec_div D x y \<le> (x / y) * (1 + u)"
begin

lemma fold_add_bounds:
  assumes "\<forall>item \<in> set items. 0 \<le> wi_weight item" "0 \<le> acc"
    and "s * (1 - u) ^ k \<le> acc" "acc \<le> s * (1 + u) ^ k" "0 \<le> s"
  shows "(s + (\<Sum>item\<leftarrow>items. wi_weight item)) * (1 - u) ^ (k + length items)
      \<le> fold (\<lambda>item acc. dec_add D acc (wi_weight item)) items acc \<and>
    fold (\<lambda>item acc. dec_add D acc (wi_weight item)) items acc
      \<le> (s + (\<Sum>item\<leftarrow>items. wi_weight item)) * (1 + u) ^ (k + length items)"
  using assms
proof (induction items arbitrary: acc s k)
  case Nil
  then show ?case by simp
next
  case (Cons item items)
  let ?w = "wi_weight item"
  let ?acc = "dec_add D acc ?w"
  from Cons.prems have w: "0 \<le> ?w" by simp
  have lo: "(acc + ?w) * (1 - u) \<le> ?acc" and hi: "?acc \<le> (acc + ?w) * (1 + u)"
    using add_err [OF Cons.prems(2) w] by simp_all
  have p1: "(1 - u) ^ k \<le> 1" using u_range by (intro power_le_one) auto
  have p2: "1 \<le> (1 + u) ^ k" using u_range by (intro one_le_power) auto
  have "(s + ?w) * (1 - u) ^ Suc k = (s * (1 - u) ^ k + ?w * (1 - u) ^ k) * (1 - u)"
    by (simp add: algebra_simps)
  also have "\<dots> \<le> (acc + ?w) * (1 - u)"
    using Cons.prems(3) mult_left_mono [OF p1 w] u_range by (intro mult_right_mono add_mono) auto
  finally have lo': "(s + ?w) * (1 - u) ^ Suc k \<le> ?acc" using lo by linarith
  have "(acc + ?w) * (1 + u) \<le> (s * (1 + u) ^ k + ?w * (1 + u) ^ k) * (1 + u)"
    using Cons.prems(4) mult_left_mono [OF p2 w] u_range by (intro mult_right_mono add_mono) auto
  also have "\<dots> = (s + ?w) * (1 + u) ^ Suc k" by (simp add: algebra_simps)
  finally have hi': "?acc \<le> (s + ?w) * (1 + u) ^ Suc k" using hi by linarith
  have nonneg: "0 \<le> ?acc" 
    using order_trans [OF mult_nonneg_nonneg lo] Cons.prems(2) w u_range by simp
  have "0 \<le> s + ?w" using Cons.prems(5) w by simp
  with Cons.IH [OF _ nonneg lo' hi'] Cons.prems(1)
  show ?case by (simp add: add.assoc [symmetric])
qed

lemma totalWeight_bounds:
  assumes "\<forall>item \<in> set items. 0 \<le> wi_weight item"
  shows "(\<Sum>item\<leftarrow>items. wi_weight item) * (1 - u) ^ length items \<le> totalWeight D items"
    and "totalWeight D items \<le> (\<Sum>item\<leftarrow>items. wi_weight item) * (1 + u) ^ length items"
  using fold_add_bounds [OF assms, of 0 0 0] by (simp_all add: totalWeight_def)

lemma exact_share_bounds:
  assumes "0 \<le> tot" "0 \<le> w" "0 < W"
  shows "of_int tot * w * (1 - u)\<^sup>2 / W \<le> exact_share D tot w W"
    and "exact_share D tot w W \<le> of_int tot * w * (1 + u)\<^sup>2 / W"
    and "0 \<le> exact_share D tot w W"
proof -
  let ?m = "dec_mul D (of_int tot) w"
  have m: "of_int tot * w * (1 - u) \<le> ?m" "?m \<le> of_int tot * w * (1 + u)"
    using mul_err [of "of_int tot" w] assms by simp_all
  have m0: "0 \<le> ?m"
    using m(1) assms u_range by (intro order_trans [OF _ m(1)] mult_nonneg_nonneg) auto
  have d: "?m / W * (1 - u) \<le> exact_share D tot w W" "exact_share D tot w W \<le> ?m / W * (1 + u)"
    using div_err [OF m0 assms(3)] by (simp_all add: exact_share_def)
  have "of_int tot * w * (1 - u)\<^sup>2 / W = of_int tot * w * (1 - u) / W * (1 - u)"
    by (simp add: power2_eq_square)
  also have "\<dots> \<le> ?m / W * (1 - u)"
    using m(1) assms u_range by (intro mult_right_mono divide_right_mono) auto
  finally show "of_int tot * w * (1 - u)\<^sup>2 / W \<le> exact_share D tot w W" using d(1) by linarith
  have "?m / W * (1 + u) \<le> of_int tot * w * (1 + u) / W * (1 + u)"
    using m(2) assms u_range by (intro mult_right_mono divide_right_mono) auto
  also have "\<dots> = of_int tot * w * (1 + u)\<^sup>2 / W" by (simp add: power2_eq_square)
  finally show "exact_share D tot w W \<le> of_int tot * w * (1 + u)\<^sup>2 / W" using d(2) by linarith
  show "0 \<le> exact_share D tot w W"
    using m0 assms u_range by (intro order_trans [OF _ d(1)] mult_nonneg_nonneg) auto
qed

text \<open>The sum of the rounded shares stays within one unit of the total.\<close>

lemma exact_share_sum_bounds:
  assumes nonneg: "\<forall>item \<in> set items. 0 \<le> wi_weight item"
    and pos: "0 < (\<Sum>item\<leftarrow>items. wi_weight item)" and tot: "0 \<le> tot"
    and adequate: "of_int tot * (1 + u)\<^sup>2 < (of_int tot + 1) * (1 - u) ^ length items"
      "(of_int tot - 1) * (1 + u) ^ length items < of_int tot * (1 - u)\<^sup>2"
  defines "E \<equiv> \<Sum>item\<leftarrow>items. exact_share D tot (wi_weight item) (totalWeight D items)"
  shows "0 < totalWeight D items" "E < of_int tot + 1" "of_int tot - 1 < E"
proof -
  let ?S = "\<Sum>item\<leftarrow>items. wi_weight item"
  let ?W = "totalWeight D items"
  let ?n = "length items"
  have lo: "?S * (1 - u) ^ ?n \<le> ?W" and hi: "?W \<le> ?S * (1 + u) ^ ?n"
    using totalWeight_bounds [OF nonneg] by simp_all
  have q: "0 < (1 - u) ^ ?n" and q': "0 < (1 + u) ^ ?n" using u_range by simp_all
  show W: "0 < ?W" using less_le_trans [OF mult_pos_pos [OF pos q] lo] .
  have sum_up: "E \<le> (\<Sum>item\<leftarrow>items. of_int tot * wi_weight item * (1 + u)\<^sup>2 / ?W)"
    unfolding E_def using exact_share_bounds(2) [OF tot _ W] nonneg by (intro sum_list_map_mono) auto
  have sum_lo: "(\<Sum>item\<leftarrow>items. of_int tot * wi_weight item * (1 - u)\<^sup>2 / ?W) \<le> E"
    unfolding E_def using exact_share_bounds(1) [OF tot _ W] nonneg by (intro sum_list_map_mono) auto
  have fac: "(\<Sum>item\<leftarrow>xs. of_int tot * wi_weight item * c / V) =
      of_int tot * c * (\<Sum>item\<leftarrow>xs. wi_weight item) / V" for c V and xs :: "'b weighted_item list"
    by (induction xs) (simp_all add: algebra_simps add_divide_distrib)
  have "E \<le> of_int tot * (1 + u)\<^sup>2 * ?S / ?W" using sum_up by (simp add: fac)
  also have "\<dots> \<le> of_int tot * (1 + u)\<^sup>2 * ?S / (?S * (1 - u) ^ ?n)"
    using lo W pos q tot by (intro divide_left_mono mult_nonneg_nonneg) auto
  also have "\<dots> = of_int tot * (1 + u)\<^sup>2 / (1 - u) ^ ?n" using pos by simp
  also have "\<dots> < of_int tot + 1" using adequate(1) q by (simp add: pos_divide_less_eq)
  finally show "E < of_int tot + 1" .
  have "of_int tot - 1 < of_int tot * (1 - u)\<^sup>2 / (1 + u) ^ ?n"
    using adequate(2) q' by (simp add: pos_less_divide_eq)
  also have "\<dots> = of_int tot * (1 - u)\<^sup>2 * ?S / (?S * (1 + u) ^ ?n)" using pos by simp
  also have "\<dots> \<le> of_int tot * (1 - u)\<^sup>2 * ?S / ?W"
    using hi W pos q' tot by (intro divide_left_mono mult_nonneg_nonneg mult_pos_pos) auto
  also have "\<dots> \<le> E" using sum_lo by (simp add: fac)
  finally show "of_int tot - 1 < E" .
qed

end

text \<open>
  \<open>decimal_adequate u n tot\<close>: a precision \<open>u\<close> that is fine enough for an amount \<open>tot\<close> shared by
  \<open>n\<close> items.  With the 20 digits of the package's default and the whole bitcoin supply of
  \<open>2.1 * 10^15\<close> satoshi this still holds for thousands of items.
\<close>

definition decimal_adequate :: "rat \<Rightarrow> nat \<Rightarrow> int \<Rightarrow> bool" where
  "decimal_adequate u n tot \<longleftrightarrow>
     of_int tot * (1 + u)\<^sup>2 < (of_int tot + 1) * (1 - u) ^ n \<and>
     (of_int tot - 1) * (1 + u) ^ n < of_int tot * (1 - u)\<^sup>2"

lemma sum_c_amount:
  "sum_list (map c_amount (calculate D tot items)) =
   (\<Sum>item\<leftarrow>items. \<lfloor>exact_share D tot (wi_weight item) (totalWeight D items)\<rfloor>)"
proof -
  have "map c_amount (calculate D tot items) =
      map (\<lambda>item. \<lfloor>exact_share D tot (wi_weight item) (totalWeight D items)\<rfloor>) items"
    by (rule nth_equalityI) (simp_all add: calculate_nth Let_def)
  then show ?thesis by simp
qed

lemma floor_sum_bounds:
  fixes f :: "'a \<Rightarrow> rat"
  shows "of_int (\<Sum>x\<leftarrow>xs. \<lfloor>f x\<rfloor>) \<le> (\<Sum>x\<leftarrow>xs. f x)"
    and "(\<Sum>x\<leftarrow>xs. f x) \<le> of_int (\<Sum>x\<leftarrow>xs. \<lfloor>f x\<rfloor>) + of_nat (length xs)"
proof (induction xs)
  case (Cons x xs)
  have "of_int \<lfloor>f x\<rfloor> \<le> f x" "f x \<le> of_int \<lfloor>f x\<rfloor> + 1" by linarith+
  then show "of_int (\<Sum>x\<leftarrow>x # xs. \<lfloor>f x\<rfloor>) \<le> (\<Sum>x\<leftarrow>x # xs. f x)"
    and "(\<Sum>x\<leftarrow>x # xs. f x) \<le> of_int (\<Sum>x\<leftarrow>x # xs. \<lfloor>f x\<rfloor>) + of_nat (length (x # xs))"
    using Cons by (simp_all add: add_mono)
qed simp_all

context decimal_arith
begin

lemma largestRemainder_allocates:
  assumes "\<forall>item \<in> set items. 0 \<le> wi_weight item"
    and "0 < (\<Sum>item\<leftarrow>items. wi_weight item)" and "0 \<le> tot"
    and "decimal_adequate u (length items) tot"
  obtains rs where "largestRemainder D tot items = Inr rs"
    and "map ai_key rs = map wi_key items" and "sum_list (map ai_amount rs) = tot"
    and "\<And>i. i < length items \<Longrightarrow>
      ai_amount (rs ! i) - \<lfloor>exact_share D tot (wi_weight (items ! i)) (totalWeight D items)\<rfloor> \<in> {0, 1}"
    and "\<And>i. i < length items \<Longrightarrow> 0 \<le> ai_amount (rs ! i)"
proof -
  let ?E = "\<Sum>item\<leftarrow>items. exact_share D tot (wi_weight item) (totalWeight D items)"
  let ?F = "sum_list (map c_amount (calculate D tot items))"
  from assms(2) have ne: "items \<noteq> []" by auto
  have b: "0 < totalWeight D items" "?E < of_int tot + 1" "of_int tot - 1 < ?E"
    using exact_share_sum_bounds [OF assms(1,2,3)] assms(4) by (simp_all add: decimal_adequate_def)
  have f: "of_int ?F \<le> ?E" "?E \<le> of_int ?F + of_nat (length items)"
    using floor_sum_bounds [of "\<lambda>item. exact_share D tot (wi_weight item) (totalWeight D items)" items]
    by (simp_all add: sum_c_amount)
  from f(1) b(2) have le: "?F \<le> tot" by linarith
  from f(2) b(3) have missing: "tot - ?F \<le> int (length items)" by linarith
  from ne assms(3) b(1) obtain rs where rs: "largestRemainder D tot items = Inr rs"
    by (simp add: largestRemainder_def Let_def)
  have quota: "ai_amount (rs ! i) -
      \<lfloor>exact_share D tot (wi_weight (items ! i)) (totalWeight D items)\<rfloor> \<in> {0, 1}"
    if "i < length items" for i
    using largestRemainder_quota [OF rs that missing] that by (simp add: calculate_nth Let_def)
  have nonneg: "0 \<le> ai_amount (rs ! i)" if i: "i < length items" for i
  proof -
    have "0 \<le> exact_share D tot (wi_weight (items ! i)) (totalWeight D items)"
      using exact_share_bounds(3) [OF assms(3) _ b(1)] assms(1) i by simp
    then have "0 \<le> \<lfloor>exact_share D tot (wi_weight (items ! i)) (totalWeight D items)\<rfloor>" by simp
    moreover from quota [OF i] have "ai_amount (rs ! i) -
        \<lfloor>exact_share D tot (wi_weight (items ! i)) (totalWeight D items)\<rfloor> \<ge> 0" by auto
    ultimately show ?thesis by linarith
  qed
  show ?thesis
    by (rule that [OF rs largestRemainder_keys [OF rs] largestRemainder_sum [OF rs ne le] quota nonneg])
qed

lemma missing_at_most_one_each:
  assumes "\<forall>item \<in> set items. 0 \<le> wi_weight item"
    and "0 < (\<Sum>item\<leftarrow>items. wi_weight item)" and "0 \<le> tot"
    and "decimal_adequate u (length items) tot"
  shows "tot - sum_list (map c_amount (calculate D tot items)) \<le> int (length items)"
proof -
  have "of_int tot - 1 <
      (\<Sum>item\<leftarrow>items. exact_share D tot (wi_weight item) (totalWeight D items))"
    using exact_share_sum_bounds(3) [OF assms(1,2,3)] assms(4) by (simp add: decimal_adequate_def)
  then show ?thesis
    using floor_sum_bounds(2)
      [of "\<lambda>item. exact_share D tot (wi_weight item) (totalWeight D items)" items]
    unfolding sum_c_amount by linarith
qed

lemma largestRemainder_prefers_large_remainders:
  assumes "\<forall>item \<in> set items. 0 \<le> wi_weight item"
    and "0 < (\<Sum>item\<leftarrow>items. wi_weight item)" and "0 \<le> tot"
    and "decimal_adequate u (length items) tot"
    and rs: "largestRemainder D tot items = Inr rs"
    and i: "i < length items" and j: "j < length items"
    and "ai_amount (rs ! i) = c_amount (calculate D tot items ! i) + 1"
    and "ai_amount (rs ! j) = c_amount (calculate D tot items ! j)"
  shows "c_remainder (calculate D tot items ! j) < c_remainder (calculate D tot items ! i) \<or>
    c_remainder (calculate D tot items ! j) = c_remainder (calculate D tot items ! i) \<and> i < j"
proof -
  note m = missing_at_most_one_each [OF assms(1-4)]
  let ?cs = "calculate D tot items"
  obtain p where p: "p < length items" "by_remainder ?cs ! p = ?cs ! i"
    "p < nat (tot - sum_list (map c_amount ?cs))"
    using assms(8) by (rule_tac largestRemainder_place [OF rs i m]) (auto split: if_splits)
  obtain q where q: "q < length items" "by_remainder ?cs ! q = ?cs ! j"
    "\<not> q < nat (tot - sum_list (map c_amount ?cs))"
    using assms(9) by (rule_tac largestRemainder_place [OF rs j m]) (auto split: if_splits)
  from p(3) q(3) have "p < q" by simp
  from by_remainder_sorted [OF this, of ?cs] q(1)
  have "(- c_remainder (?cs ! i), c_index (?cs ! i)) \<le> (- c_remainder (?cs ! j), c_index (?cs ! j))"
    by (simp add: p(2) q(2))
  moreover have "c_index (?cs ! i) = i" "c_index (?cs ! j) = j"
    using i j by (simp_all add: calculate_nth Let_def)
  moreover have "i \<noteq> j" using assms(8,9) by auto
  ultimately show ?thesis by (auto simp: less_eq_prod_simp)
qed

end

section \<open>The default configuration of the package\<close>

text \<open>
  An instance of the parameter: correct rounding, half away from zero, to 20 significant
  digits, which is the documented default configuration of decimal.js.
\<close>

definition round_half_up :: "rat \<Rightarrow> int" where
  "round_half_up x = (if 0 \<le> x then \<lfloor>x + 1 / 2\<rfloor> else - \<lfloor>1 / 2 - x\<rfloor>)"

fun digits10 :: "nat \<Rightarrow> nat" where
  "digits10 n = (if n = 0 then 0 else Suc (digits10 (n div 10)))"

declare digits10.simps [simp del]

definition magnitude :: "rat \<Rightarrow> int" where
  "magnitude x =
     (if 1 \<le> \<bar>x\<bar> then int (digits10 (nat \<lfloor>\<bar>x\<bar>\<rfloor>))
      else 1 - int (digits10 (nat (\<lceil>1 / \<bar>x\<bar>\<rceil> - 1))))"

definition round_sig :: "nat \<Rightarrow> rat \<Rightarrow> rat" where
  "round_sig p x =
     (if x = 0 then 0
      else let s = 10 powi (int p - magnitude x) in of_int (round_half_up (x * s)) / s)"

definition decimal_js :: decimal_lib where
  "decimal_js =
     \<lparr>dec_add = (\<lambda>x y. round_sig 20 (x + y)), dec_sub = (\<lambda>x y. round_sig 20 (x - y)),
      dec_mul = (\<lambda>x y. round_sig 20 (x * y)), dec_div = (\<lambda>x y. round_sig 20 (x / y)),
      dec_toFixed = (\<lambda>n x. of_int (round_half_up (x * 10 ^ n)) / 10 ^ n)\<rparr>"

lemma digits10_bounds:
  "n < 10 ^ digits10 n" "0 < n \<Longrightarrow> 10 ^ (digits10 n - 1) \<le> n"
proof (induction n rule: digits10.induct)
  case (1 n)
  {
    case 1
    show ?case
    proof (cases "n = 0")
      case False
      with "1.IH"(1) have "n div 10 < 10 ^ digits10 (n div 10)" by simp
      then show ?thesis using False by (subst digits10.simps) simp
    qed (simp add: digits10.simps)
  next
    case 2
    show ?case
    proof (cases "n div 10 = 0")
      case True
      with 2 show ?thesis by (subst digits10.simps) (simp add: digits10.simps)
    next
      case False
      with "1.IH"(2) 2 have le: "10 ^ (digits10 (n div 10) - 1) \<le> n div 10" by simp
      obtain d where d: "digits10 (n div 10) = Suc d"
        using False digits10.simps [of "n div 10"] by simp
      with le have "10 * 10 ^ d \<le> n" by (simp add: less_eq_div_iff_mult_less_eq)
      with 2 d show ?thesis using digits10.simps [of n] by simp
    qed
  }
qed

lemma magnitude_lower:
  assumes "0 < x"
  shows "10 powi (magnitude x - 1) \<le> x"
proof (cases "1 \<le> x")
  case True
  define n where "n = nat \<lfloor>x\<rfloor>"
  from True have n: "0 < n" "of_nat n \<le> x" by (simp_all add: n_def zero_less_nat_eq)
  then have "0 < digits10 n" by (subst digits10.simps) simp
  then have "10 powi (int (digits10 n) - 1) = (10::rat) ^ (digits10 n - 1)"
    by (metis One_nat_def Suc_leI int_ops(2) of_nat_diff power_int_of_nat)
  also have "\<dots> = of_nat (10 ^ (digits10 n - 1))" by simp
  also have "\<dots> \<le> of_nat n" using digits10_bounds(2) [OF n(1)] of_nat_le_iff by blast
  finally have "10 powi (int (digits10 n) - 1) \<le> x" using n(2) by (rule order_trans)
  then show ?thesis using True by (simp add: magnitude_def n_def)
next
  case False
  define m where "m = nat (\<lceil>1 / x\<rceil> - 1)"
  have y: "1 < 1 / x" using False assms by simp
  then have "1 < \<lceil>1 / x\<rceil>" by (simp add: less_ceiling_iff)
  then have "of_int \<lceil>1 / x\<rceil> = of_nat m + (1::rat)" 
    unfolding m_def using assms by (subst of_nat_nat) auto
  then have "1 / x \<le> of_nat (Suc m)" using le_of_int_ceiling [of "1 / x"] by simp
  also have "\<dots> \<le> of_nat (10 ^ digits10 m)" using digits10_bounds(1) [of m] by (simp only: of_nat_le_iff Suc_leI)
  finally have "1 / x \<le> 10 ^ digits10 m" by simp
  then have "1 / 10 ^ digits10 m \<le> x" using assms by (simp add: field_simps)
  moreover have "10 powi (- int (digits10 m)) = (1 :: rat) / 10 ^ digits10 m"
    by (simp add: power_int_minus divide_inverse)
  ultimately show ?thesis using False assms by (simp add: magnitude_def m_def)
qed

definition js_unit :: rat where
  "js_unit = 5 / 10 ^ 20"

lemma js_unit_facts: "0 \<le> js_unit" "js_unit < 1" "10 ^ 19 * js_unit = 1 / 2"
  by (simp_all add: js_unit_def)

lemma round_half_up_err:
  assumes "0 \<le> x"
  shows "x - 1 / 2 \<le> of_int (round_half_up x)" "of_int (round_half_up x) \<le> x + 1 / 2"
  using assms unfolding round_half_up_def by (simp_all, linarith)

lemma round_sig_err:
  assumes "0 \<le> x"
  shows "x * (1 - js_unit) \<le> round_sig 20 x \<and> round_sig 20 x \<le> x * (1 + js_unit)"
proof (cases "x = 0")
  case False
  with assms have x: "0 < x" by simp
  define s where "s = (10::rat) powi (20 - magnitude x)"
  define r where "r = (of_int (round_half_up (x * s)) :: rat)"
  have s: "0 < s" by (simp add: s_def)
  have "(10::rat) ^ 19 = 10 powi (magnitude x - 1) * s"
    by (simp add: s_def flip: power_int_add)
  also have "\<dots> \<le> x * s" using magnitude_lower [OF x] s by (intro mult_right_mono) auto
  finally have "10 ^ 19 * js_unit \<le> x * s * js_unit"
    using js_unit_facts(1) by (rule mult_right_mono)
  then have "1 / 2 \<le> x * s * js_unit" by (simp only: js_unit_facts(3))
  then have half: "1 / 2 \<le> x * js_unit * s" by (simp only: ac_simps)
  have r: "x * s - 1 / 2 \<le> r" "r \<le> x * s + 1 / 2"
    using round_half_up_err [of "x * s"] x s by (simp_all add: r_def)
  have "x * s - x * js_unit * s \<le> r" "r \<le> x * s + x * js_unit * s" using half r by linarith+
  then have "(x - x * js_unit) * s \<le> r" "r \<le> (x + x * js_unit) * s"
    by (simp_all only: left_diff_distrib distrib_right)
  then have "x - x * js_unit \<le> r / s" "r / s \<le> x + x * js_unit"
    using s by (simp_all add: pos_le_divide_eq pos_divide_le_eq)
  moreover have "round_sig 20 x = r / s" using False by (simp add: round_sig_def Let_def s_def r_def)
  ultimately show ?thesis by (simp add: right_diff_distrib distrib_left)
qed (simp add: round_sig_def)

text \<open>Exact rational arithmetic is the limit case without any rounding.\<close>

definition decimal_exact :: decimal_lib where
  "decimal_exact =
     \<lparr>dec_add = (+), dec_sub = (-), dec_mul = (*), dec_div = (/), dec_toFixed = (\<lambda>n x. x)\<rparr>"

interpretation exact: decimal_arith decimal_exact 0
  by unfold_locales (simp_all add: decimal_exact_def)

lemma decimal_adequate_exact [simp]: "0 \<le> tot \<Longrightarrow> decimal_adequate 0 n tot"
  by (simp add: decimal_adequate_def)

interpretation js: decimal_arith decimal_js js_unit
  by unfold_locales
    (simp_all only: decimal_js_def decimal_lib.simps js_unit_facts round_sig_err
      add_nonneg_nonneg mult_nonneg_nonneg divide_nonneg_pos)

section \<open>Properties\<close>

definition three_thirds :: "string weighted_item list" where
  "three_thirds = [\<lparr>wi_key = ''a'', wi_weight = 1\<rparr>, \<lparr>wi_key = ''b'', wi_weight = 1\<rparr>,
     \<lparr>wi_key = ''c'', wi_weight = 1\<rparr>]"

lemma three_thirds_weight: "totalWeight decimal_exact three_thirds = 3"
  by (simp add: totalWeight_def three_thirds_def decimal_exact_def)

lemma three_thirds_calculated:
  "calculate decimal_exact 100 three_thirds =
     [\<lparr>c_key = ''a'', c_amount = 33, c_remainder = 1 / 3, c_index = 0\<rparr>,
      \<lparr>c_key = ''b'', c_amount = 33, c_remainder = 1 / 3, c_index = 1\<rparr>,
      \<lparr>c_key = ''c'', c_amount = 33, c_remainder = 1 / 3, c_index = 2\<rparr>]"
proof -
  have "\<lfloor>100 / 3 :: rat\<rfloor> = 33" by (simp add: floor_eq_iff)
  then show ?thesis
    by (simp add: calculate_def three_thirds_weight exact_share_def Let_def)
      (simp add: three_thirds_def decimal_exact_def)
qed

lemma three_thirds_allocated:
  "largestRemainder decimal_exact 100 three_thirds =
     Inr [\<lparr>ai_key = ''a'', ai_amount = 34\<rparr>, \<lparr>ai_key = ''b'', ai_amount = 33\<rparr>,
          \<lparr>ai_key = ''c'', ai_amount = 33\<rparr>]"
proof -
  have "distribute 1 0 (by_remainder (calculate decimal_exact 100 three_thirds)) =
     [\<lparr>c_key = ''a'', c_amount = 34, c_remainder = 1 / 3, c_index = 0\<rparr>,
      \<lparr>c_key = ''b'', c_amount = 33, c_remainder = 1 / 3, c_index = 1\<rparr>,
      \<lparr>c_key = ''c'', c_amount = 33, c_remainder = 1 / 3, c_index = 2\<rparr>]"
    by (simp add: three_thirds_calculated by_remainder_def less_eq_prod_simp One_nat_def)
  then show ?thesis
    by (simp add: largestRemainder_def three_thirds_weight Let_def three_thirds_calculated)
      (simp add: three_thirds_def)
qed

text \<open>C9: \<open>largestRemainder\<close> is exact.  For nonnegative weights with a positive sum and a precision
  of the decimal package that is adequate for the amount, the function returns, one amount per
  item in the order of the items; the amounts are nonnegative, add up to the total to the last
  unit, and each is the floor of the item's computed share or one unit more.\<close>

theorem largestRemainder_exact:
  assumes "decimal_arith D u"
    and "\<forall>item \<in> set items. 0 \<le> wi_weight item"
    and "0 < (\<Sum>item\<leftarrow>items. wi_weight item)" and "0 \<le> tot"
    and "decimal_adequate u (length items) tot"
  shows "\<exists>rs. largestRemainder D tot items = Inr rs \<and> map ai_key rs = map wi_key items \<and>
    sum_list (map ai_amount rs) = tot \<and>
    (\<forall>i < length items. 0 \<le> ai_amount (rs ! i) \<and>
       ai_amount (rs ! i) - \<lfloor>exact_share D tot (wi_weight (items ! i)) (totalWeight D items)\<rfloor> \<in> {0, 1})"
  by (rule decimal_arith.largestRemainder_allocates [OF assms]) blast

theorem largestRemainder_exact_witness:
  "\<exists>rs. largestRemainder decimal_js 100 three_thirds = Inr rs \<and>
     map ai_key rs = [''a'', ''b'', ''c''] \<and> sum_list (map ai_amount rs) = 100"
proof -
  have "decimal_adequate js_unit (length three_thirds) 100"
    by (simp add: three_thirds_def decimal_adequate_def js_unit_def power_divide)
  from largestRemainder_exact [OF js.decimal_arith_axioms _ _ _ this]
  obtain rs where "largestRemainder decimal_js 100 three_thirds = Inr rs"
    "map ai_key rs = map wi_key three_thirds" "sum_list (map ai_amount rs) = 100"
    by (auto simp: three_thirds_def)
  then show ?thesis by (auto simp: three_thirds_def)
qed

text \<open>C14: The units that the floors leave over go to the largest remainders, and to the earlier
  item among equal remainders: an item that received one unit more than its floor has a larger
  remainder than one that did not, or the same remainder and a smaller index.\<close>

theorem largestRemainder_fair:
  assumes "decimal_arith D u"
    and "\<forall>item \<in> set items. 0 \<le> wi_weight item"
    and "0 < (\<Sum>item\<leftarrow>items. wi_weight item)" and "0 \<le> tot"
    and "decimal_adequate u (length items) tot"
    and "largestRemainder D tot items = Inr rs"
    and "i < length items" and "j < length items"
    and "ai_amount (rs ! i) = c_amount (calculate D tot items ! i) + 1"
    and "ai_amount (rs ! j) = c_amount (calculate D tot items ! j)"
  shows "c_remainder (calculate D tot items ! j) < c_remainder (calculate D tot items ! i) \<or>
    c_remainder (calculate D tot items ! j) = c_remainder (calculate D tot items ! i) \<and> i < j"
  by (rule decimal_arith.largestRemainder_prefers_large_remainders [OF assms])

theorem largestRemainder_fair_witness:
  "(0::nat) < 1 \<and> c_remainder (calculate decimal_exact 100 three_thirds ! 1) =
     c_remainder (calculate decimal_exact 100 three_thirds ! 0)"
proof -
  have "c_remainder (calculate decimal_exact 100 three_thirds ! 1) <
      c_remainder (calculate decimal_exact 100 three_thirds ! 0) \<or>
    c_remainder (calculate decimal_exact 100 three_thirds ! 1) =
      c_remainder (calculate decimal_exact 100 three_thirds ! 0) \<and> (0::nat) < 1"
    by (rule largestRemainder_fair [OF exact.decimal_arith_axioms _ _ _ _ three_thirds_allocated])
      (simp_all add: three_thirds_calculated, simp_all add: three_thirds_def)
  then show ?thesis by (simp add: three_thirds_calculated)
qed

text \<open>\<open>largestRemainder\<close> throws exactly in two cases: a negative total, and a nonempty list of
  items whose total weight is not positive.  An empty list yields an empty allocation.\<close>

theorem largestRemainder_errors:
  "largestRemainder D tot items =
     Inl e \<longleftrightarrow> tot < 0 \<and> e = Error ''Total cannot be negative'' \<or>
       0 \<le> tot \<and> items \<noteq> [] \<and> totalWeight D items \<le> 0 \<and>
       e = Error ''Allocation weight must be positive''"
  by (auto simp: largestRemainder_def Let_def)

text \<open>C15: \<open>splitBasisPoints\<close> conserves the amount.  For a nonnegative amount and an integral rate
  between 0 and 10000 it returns, both parts are nonnegative and add up to the amount, and the
  customer receives the rate rounded down, so the operator keeps the fraction; for any other rate
  it throws.\<close>

theorem splitBasisPoints_conserves:
  assumes "0 \<le> tot"
  shows "(js_is_integer bps \<and> 0 \<le> bps \<and> bps \<le> 10000 \<and>
      (\<exists>s. splitBasisPoints tot bps = Inr s \<and> split_customer s + split_operator s = tot \<and>
        0 \<le> split_customer s \<and> 0 \<le> split_operator s \<and>
        of_int (split_customer s) \<le> of_int tot * bps / 10000 \<and>
        of_int tot * bps / 10000 < of_int (split_customer s) + 1)) \<or>
    (\<not> (js_is_integer bps \<and> 0 \<le> bps \<and> bps \<le> 10000) \<and>
      splitBasisPoints tot bps = Inl (Error ''customerBps must be an integer between 0 and 10000''))"
proof (cases "js_is_integer bps \<and> 0 \<le> bps \<and> bps \<le> 10000")
  case True
  then obtain k where k: "bps = of_int k" "0 \<le> k" "k \<le> 10000"
    by (metis js_is_integer_def of_int_0_le_iff of_int_le_numeral_iff)
  let ?c = "tot * k div 10000"
  have split: "splitBasisPoints tot bps = Inr \<lparr>split_customer = ?c, split_operator = tot - ?c\<rparr>"
    using k assms by (simp add: splitBasisPoints_def js_is_integer_def Let_def)
  have "?c \<le> tot * 10000 div 10000" using k assms by (intro zdiv_mono1 mult_left_mono) auto
  then have le: "?c \<le> tot" by simp
  have c0: "0 \<le> ?c" using k assms by (simp add: pos_imp_zdiv_nonneg_iff)
  have "t div 10000 * 10000 \<le> t" "t < (t div 10000 + 1) * 10000" for t :: int
    by presburger+
  then have "?c * 10000 \<le> tot * k" "tot * k < (?c + 1) * 10000" by blast+
  then have "of_int (?c * 10000) \<le> (of_int (tot * k) :: rat)"
    "(of_int (tot * k) :: rat) < of_int ((?c + 1) * 10000)"
    by (simp_all only: of_int_le_iff of_int_less_iff)
  then have "of_int ?c \<le> of_int tot * bps / (10000 :: rat)"
    "of_int tot * bps / 10000 < (of_int ?c + 1 :: rat)"
    by (simp_all add: k(1))
  with split le c0 k True show ?thesis by auto
next
  case False
  then show ?thesis by (auto simp: splitBasisPoints_def)
qed

theorem splitBasisPoints_conserves_witness:
  "\<exists>s. splitBasisPoints 999 8000 = Inr s \<and> split_customer s = 799 \<and> split_operator s = 200"
  using splitBasisPoints_conserves [of 999 8000]
  by (auto simp: js_is_integer_def splitBasisPoints_def Let_def)

end
