(* ===== verification/Json.thy ===== *)
theory Json
  imports Text
begin

text \<open>
  JSON values, \<open>JSON.stringify\<close>, \<open>JSON.parse\<close>, \<open>Date.toISOString\<close>, and \<open>jsonSafe\<close> of
  \<open>apps/server/src/common/json.ts\<close>.  The main lemma is the round trip: parsing what was
  stringified gives the value back.

  A number is represented by its literal, a big integer inside an object that is about to be
  stringified by \<open>JBig\<close>, a date by \<open>JDate\<close> with its milliseconds.  A character is a byte, so a
  string is the UTF-8 form of the text.
\<close>

datatype json =
    JNull
  | JBool bool
  | JNum string
  | JStr string
  | JBig int
  | JDate int
  | JArr "json list"
  | JObj "(string \<times> json) list"

section \<open>Dates\<close>

text \<open>The civil date of a day number, counted from 1 January 1970.\<close>

definition civil_from_days :: "int \<Rightarrow> int \<times> int \<times> int" where
  "civil_from_days days =
     (let z = days + 719468;
          era = z div 146097;
          doe = z mod 146097;
          yoe = (doe - doe div 1460 + doe div 36524 - doe div 146096) div 365;
          doy = doe - (365 * yoe + yoe div 4 - yoe div 100);
          mp = (5 * doy + 2) div 153;
          d = doy - (153 * mp + 2) div 5 + 1;
          m = (if mp < 10 then mp + 3 else mp - 9)
      in (yoe + era * 400 + (if m \<le> 2 then 1 else 0), m, d))"

definition pad2 :: "int \<Rightarrow> string" where
  "pad2 n = padStart 2 CHR ''0'' (show_int n)"

definition pad3 :: "int \<Rightarrow> string" where
  "pad3 n = padStart 3 CHR ''0'' (show_int n)"

definition pad4 :: "int \<Rightarrow> string" where
  "pad4 n = padStart 4 CHR ''0'' (show_int n)"

text \<open>For the years 0 to 9999.\<close>

definition toISOString :: "int \<Rightarrow> string" where
  "toISOString ms =
     (let (y, m, d) = civil_from_days (ms div 86400000);
          t = ms mod 86400000
      in pad4 y @ ''-'' @ pad2 m @ ''-'' @ pad2 d @ ''T'' @ pad2 (t div 3600000) @ '':'' @
         pad2 (t div 60000 mod 60) @ '':'' @ pad2 (t div 1000 mod 60) @ ''.'' @ pad3 (t mod 1000) @ ''Z'')"

section \<open>Printing\<close>

definition hex_char :: "nat \<Rightarrow> char" where
  "hex_char n = (if n < 10 then char_of (48 + n) else char_of (87 + n))"

definition quote_char :: "char \<Rightarrow> string" where
  "quote_char c =
     (if c = CHR 0x22 then [CHR 0x5C, CHR 0x22]
      else if c = CHR 0x5C then [CHR 0x5C, CHR 0x5C]
      else if c = CHR 0x08 then [CHR 0x5C, CHR ''b'']
      else if c = CHR 0x0C then [CHR 0x5C, CHR ''f'']
      else if c = CHR 0x0A then [CHR 0x5C, CHR ''n'']
      else if c = CHR 0x0D then [CHR 0x5C, CHR ''r'']
      else if c = CHR 0x09 then [CHR 0x5C, CHR ''t'']
      else if (of_char c :: nat) < 32
      then [CHR 0x5C, CHR ''u'', CHR ''0'', CHR ''0'',
            hex_char ((of_char c :: nat) div 16), hex_char ((of_char c :: nat) mod 16)]
      else [c])"

definition json_quote :: "string \<Rightarrow> string" where
  "json_quote s = CHR 0x22 # concat (map quote_char s) @ [CHR 0x22]"

text \<open>A big integer cannot be stringified: \<open>JSON.stringify\<close> throws, here \<open>None\<close>.\<close>

fun has_big :: "json \<Rightarrow> bool" where
  "has_big (JBig n) = True"
| "has_big (JArr xs) = list_ex has_big xs"
| "has_big (JObj kvs) = list_ex (\<lambda>(k, v). has_big v) kvs"
| "has_big _ = False"

fun print_json :: "json \<Rightarrow> string" where
  "print_json JNull = ''null''"
| "print_json (JBool b) = (if b then ''true'' else ''false'')"
| "print_json (JNum t) = t"
| "print_json (JStr s) = json_quote s"
| "print_json (JBig n) = show_int n"
| "print_json (JDate ms) = json_quote (toISOString ms)"
| "print_json (JArr xs) = ''['' @ join '','' (map print_json xs) @ '']''"
| "print_json (JObj kvs) =
     ''{'' @ join '','' (map (\<lambda>(k, v). json_quote k @ '':'' @ print_json v) kvs) @ ''}''"

definition stringify :: "json \<Rightarrow> string option" where
  "stringify v = (if has_big v then None else Some (print_json v))"

section \<open>Parsing\<close>

definition is_ws :: "char \<Rightarrow> bool" where
  "is_ws c \<longleftrightarrow> c \<in> {CHR '' '', CHR 0x09, CHR 0x0A, CHR 0x0D}"

definition skip_ws :: "string \<Rightarrow> string" where
  "skip_ws = dropWhile is_ws"

definition hex_value :: "char \<Rightarrow> nat option" where
  "hex_value c =
     (let n = of_char c in
      if 48 \<le> n \<and> n \<le> 57 then Some (n - 48)
      else if 97 \<le> n \<and> n \<le> 102 then Some (n - 87)
      else if 65 \<le> n \<and> n \<le> 70 then Some (n - 55) else None)"

definition hex4 :: "char \<Rightarrow> char \<Rightarrow> char \<Rightarrow> char \<Rightarrow> nat option" where
  "hex4 a b c d =
     (case (hex_value a, hex_value b, hex_value c, hex_value d) of
        (Some w, Some x, Some y, Some z) \<Rightarrow> Some (((w * 16 + x) * 16 + y) * 16 + z)
      | _ \<Rightarrow> None)"

definition utf8 :: "nat \<Rightarrow> string" where
  "utf8 n =
     (if n < 128 then [char_of n]
      else if n < 2048 then [char_of (192 + n div 64), char_of (128 + n mod 64)]
      else [char_of (224 + n div 4096), char_of (128 + n div 64 mod 64), char_of (128 + n mod 64)])"

definition unescape :: "char \<Rightarrow> char option" where
  "unescape c =
     (if c = CHR 0x22 \<or> c = CHR 0x5C \<or> c = CHR ''/'' then Some c
      else if c = CHR ''b'' then Some CHR 0x08 else if c = CHR ''f'' then Some CHR 0x0C
      else if c = CHR ''n'' then Some CHR 0x0A else if c = CHR ''r'' then Some CHR 0x0D
      else if c = CHR ''t'' then Some CHR 0x09 else None)"

text \<open>The rest of a string literal after its opening quote.\<close>

fun parse_str :: "string \<Rightarrow> (string \<times> string) option" where
  "parse_str [] = None"
| "parse_str (c # cs) =
     (if c = CHR 0x22 then Some ([], cs)
      else if c = CHR 0x5C then
        (case cs of
           [] \<Rightarrow> None
         | e # es \<Rightarrow>
             if e = CHR ''u'' then
               (case es of
                  h1 # h2 # h3 # h4 # rest \<Rightarrow>
                    (case hex4 h1 h2 h3 h4 of
                       None \<Rightarrow> None
                     | Some n \<Rightarrow> map_option (\<lambda>(s, r). (utf8 n @ s, r)) (parse_str rest))
                | _ \<Rightarrow> None)
             else
               (case unescape e of
                  None \<Rightarrow> None
                | Some d \<Rightarrow> map_option (\<lambda>(s, r). (d # s, r)) (parse_str es)))
      else if (of_char c :: nat) < 32 then None
      else map_option (\<lambda>(s, r). (c # s, r)) (parse_str cs))"

definition number_chars :: "char \<Rightarrow> bool" where
  "number_chars c \<longleftrightarrow> is_digit c \<or> c \<in> {CHR ''-'', CHR ''+'', CHR ''.'', CHR ''e'', CHR ''E''}"

definition all_digits :: "string \<Rightarrow> bool" where
  "all_digits t \<longleftrightarrow> t \<noteq> [] \<and> list_all is_digit t"

text \<open>The number grammar: sign, integer part without leading zeros, fraction, exponent.\<close>

definition valid_exponent :: "string \<Rightarrow> bool" where
  "valid_exponent t \<longleftrightarrow>
     (case t of
        [] \<Rightarrow> True
      | e # r \<Rightarrow> (e = CHR ''e'' \<or> e = CHR ''E'') \<and>
          (case r of
             [] \<Rightarrow> False
           | c # q \<Rightarrow> if c = CHR ''-'' \<or> c = CHR ''+'' then all_digits q else all_digits r))"

definition valid_fraction :: "string \<Rightarrow> bool" where
  "valid_fraction t \<longleftrightarrow>
     (case t of
        [] \<Rightarrow> True
      | c # r \<Rightarrow>
          if c = CHR ''.''
          then takeWhile is_digit r \<noteq> [] \<and> valid_exponent (dropWhile is_digit r)
          else valid_exponent t)"

definition valid_unsigned :: "string \<Rightarrow> bool" where
  "valid_unsigned t \<longleftrightarrow>
     (let digits = takeWhile is_digit t; rest = dropWhile is_digit t
      in digits \<noteq> [] \<and> (hd digits = CHR ''0'' \<longrightarrow> length digits = 1) \<and> valid_fraction rest)"

definition valid_number :: "string \<Rightarrow> bool" where
  "valid_number t \<longleftrightarrow>
     (case t of [] \<Rightarrow> False | c # r \<Rightarrow> if c = CHR ''-'' then valid_unsigned r else valid_unsigned t)"

text \<open>A repeated key of an object keeps its first place and its last value.\<close>

fun obj_put :: "string \<Rightarrow> json \<Rightarrow> (string \<times> json) list \<Rightarrow> (string \<times> json) list" where
  "obj_put k v [] = [(k, v)]"
| "obj_put k v ((l, w) # m) = (if k = l then (k, v) # m else (l, w) # obj_put k v m)"

definition make_obj :: "(string \<times> json) list \<Rightarrow> json" where
  "make_obj kvs = JObj (foldl (\<lambda>m (k, v). obj_put k v m) [] kvs)"

fun parse_value :: "nat \<Rightarrow> string \<Rightarrow> (json \<times> string) option"
and parse_elems :: "nat \<Rightarrow> string \<Rightarrow> (json list \<times> string) option"
and parse_members :: "nat \<Rightarrow> string \<Rightarrow> ((string \<times> json) list \<times> string) option" where
  "parse_value 0 cs = None"
| "parse_value (Suc n) cs =
     (case skip_ws cs of
        [] \<Rightarrow> None
      | c # r \<Rightarrow>
          if c = CHR ''['' then
            (case skip_ws r of
               [] \<Rightarrow> None
             | d # q \<Rightarrow>
                 if d = CHR '']'' then Some (JArr [], q)
                 else map_option (\<lambda>(xs, q). (JArr xs, q)) (parse_elems n (d # q)))
          else if c = CHR ''{'' then
            (case skip_ws r of
               [] \<Rightarrow> None
             | d # q \<Rightarrow>
                 if d = CHR ''}'' then Some (JObj [], q)
                 else map_option (\<lambda>(kvs, q). (make_obj kvs, q)) (parse_members n (d # q)))
          else if c = CHR 0x22 then map_option (\<lambda>(s, q). (JStr s, q)) (parse_str r)
          else if startsWith (c # r) ''null'' then Some (JNull, drop 4 (c # r))
          else if startsWith (c # r) ''true'' then Some (JBool True, drop 4 (c # r))
          else if startsWith (c # r) ''false'' then Some (JBool False, drop 5 (c # r))
          else
            (let t = takeWhile number_chars (c # r)
             in if valid_number t then Some (JNum t, dropWhile number_chars (c # r)) else None))"
| "parse_elems 0 cs = None"
| "parse_elems (Suc n) cs =
     (case parse_value n cs of
        None \<Rightarrow> None
      | Some (v, r) \<Rightarrow>
          (case skip_ws r of
             [] \<Rightarrow> None
           | d # q \<Rightarrow>
               if d = CHR '']'' then Some ([v], q)
               else if d = CHR '','' then map_option (\<lambda>(xs, q). (v # xs, q)) (parse_elems n q)
               else None))"
| "parse_members 0 cs = None"
| "parse_members (Suc n) cs =
     (case skip_ws cs of
        [] \<Rightarrow> None
      | c # r \<Rightarrow>
          if c \<noteq> CHR 0x22 then None
          else
            (case parse_str r of
               None \<Rightarrow> None
             | Some (k, r1) \<Rightarrow>
                 (case skip_ws r1 of
                    [] \<Rightarrow> None
                  | d # r2 \<Rightarrow>
                      if d \<noteq> CHR '':'' then None
                      else
                        (case parse_value n r2 of
                           None \<Rightarrow> None
                         | Some (v, r3) \<Rightarrow>
                             (case skip_ws r3 of
                                [] \<Rightarrow> None
                              | e # q \<Rightarrow>
                                  if e = CHR ''}'' then Some ([(k, v)], q)
                                  else if e = CHR '','' then
                                    map_option (\<lambda>(kvs, q). ((k, v) # kvs, q)) (parse_members n q)
                                  else None)))))"

text \<open>Every level of the recursion is paid by a character, so the fuel below is always enough.\<close>

definition json_parse :: "string \<Rightarrow> json option" where
  "json_parse cs =
     (case parse_value (2 * length cs + 2) cs of
        None \<Rightarrow> None
      | Some (v, r) \<Rightarrow> if skip_ws r = [] then Some v else None)"

section \<open>\<open>jsonSafe\<close>\<close>

text \<open>The replacer turns big integers into strings before anything is printed.\<close>

fun replace_big :: "json \<Rightarrow> json" where
  "replace_big (JBig n) = JStr (show_int n)"
| "replace_big (JArr xs) = JArr (map replace_big xs)"
| "replace_big (JObj kvs) = JObj (map (\<lambda>(k, v). (k, replace_big v)) kvs)"
| "replace_big v = v"

definition jsonSafe :: "json \<Rightarrow> json option" where
  "jsonSafe v = Option.bind (stringify (replace_big v)) json_parse"

section \<open>Strings come back\<close>

lemma hex_value_char: "n < 16 \<Longrightarrow> hex_value (hex_char n) = Some n"
  by (auto simp: hex_value_def hex_char_def of_char_of Let_def)

lemma hex4_control:
  assumes "n < 256" shows "hex4 CHR ''0'' CHR ''0'' (hex_char (n div 16)) (hex_char (n mod 16)) = Some n"
proof -
  have "hex_value CHR ''0'' = Some 0" by (simp add: hex_value_def)
  moreover have "hex_value (hex_char (n div 16)) = Some (n div 16)"
    using assms by (intro hex_value_char) (simp add: less_mult_imp_div_less)
  ultimately show ?thesis by (simp add: hex4_def hex_value_char)
qed

lemma parse_quoted_char: "parse_str (quote_char c @ cs) = map_option (\<lambda>(s, r). (c # s, r)) (parse_str cs)"
proof (cases "(of_char c :: nat) < 32 \<and> c \<notin> {CHR 0x08, CHR 0x0C, CHR 0x0A, CHR 0x0D, CHR 0x09}")
  case True
  then have lt: "(of_char c :: nat) < 32" by blast
  have "c \<noteq> CHR 0x22" "c \<noteq> CHR 0x5C" using lt by auto
  moreover have "utf8 (of_char c) = [c]" using True by (simp add: utf8_def)
  ultimately show ?thesis using True hex4_control [of "of_char c"] by (simp add: quote_char_def)
next
  case False
  then consider "c = CHR 0x08" | "c = CHR 0x0C" | "c = CHR 0x0A" | "c = CHR 0x0D" | "c = CHR 0x09"
    | "c = CHR 0x22" | "c = CHR 0x5C" | "\<not> (of_char c :: nat) < 32" "c \<noteq> CHR 0x22" "c \<noteq> CHR 0x5C"
    by blast
  then show ?thesis
  proof cases
    case 8
    then have "c \<noteq> CHR 0x08" "c \<noteq> CHR 0x0C" "c \<noteq> CHR 0x0A" "c \<noteq> CHR 0x0D" "c \<noteq> CHR 0x09" by auto
    with 8 show ?thesis by (simp add: quote_char_def)
  qed (simp_all add: quote_char_def unescape_def)
qed

lemma parse_quoted: "parse_str (concat (map quote_char s) @ CHR 0x22 # r) = Some (s, r)"
  by (induction s) (simp_all add: parse_quoted_char)

section \<open>Values come back\<close>

text \<open>The values \<open>JSON.parse\<close> can return.\<close>

fun json_ok :: "json \<Rightarrow> bool" where
  "json_ok (JNum t) \<longleftrightarrow> valid_number t \<and> list_all number_chars t"
| "json_ok (JArr xs) \<longleftrightarrow> list_all json_ok xs"
| "json_ok (JObj kvs) \<longleftrightarrow> unique_on fst kvs \<and> list_all (\<lambda>(k, v). json_ok v) kvs"
| "json_ok (JBig n) \<longleftrightarrow> False"
| "json_ok (JDate d) \<longleftrightarrow> False"
| "json_ok _ \<longleftrightarrow> True"

definition stops :: "string \<Rightarrow> bool" where
  "stops r \<longleftrightarrow> (case r of [] \<Rightarrow> True | c # _ \<Rightarrow> \<not> number_chars c)"

lemma valid_number_head: "valid_number t \<Longrightarrow> \<exists>c r. t = c # r \<and> (c = CHR ''-'' \<or> is_digit c)"
  by (cases t) (auto simp: valid_number_def valid_unsigned_def Let_def split: if_splits)

lemma digit_or_minus:
  assumes "c = CHR ''-'' \<or> is_digit c"
  shows "\<not> is_ws c" "c \<noteq> CHR ''[''" "c \<noteq> CHR ''{''" "c \<noteq> CHR 0x22" "c \<noteq> CHR '']''" "c \<noteq> CHR ''}''"
    "c \<noteq> CHR ''n''" "c \<noteq> CHR ''t''" "c \<noteq> CHR ''f''"
  using assms by (auto simp: is_ws_def is_digit_def)

lemma print_json_head:
  assumes "json_ok v"
  shows "\<exists>c r. print_json v = c # r \<and> \<not> is_ws c \<and> c \<noteq> CHR '']'' \<and> c \<noteq> CHR ''}''"
proof (cases v)
  case (JNum t)
  with assms valid_number_head [of t] obtain c r where c: "t = c # r" "c = CHR ''-'' \<or> is_digit c" by auto
  with digit_or_minus [OF c(2)] JNum show ?thesis by simp
qed (use assms in \<open>auto simp: json_quote_def is_ws_def\<close>)

lemma number_token:
  "list_all number_chars t \<Longrightarrow> stops r \<Longrightarrow> takeWhile number_chars (t @ r) = t"
  "list_all number_chars t \<Longrightarrow> stops r \<Longrightarrow> dropWhile number_chars (t @ r) = r"
  by (induction t) (auto simp: stops_def split: list.splits)

lemma parse_number:
  assumes "valid_number t" and "list_all number_chars t" and "stops r"
  shows "parse_value (Suc n) (t @ r) = Some (JNum t, r)"
proof -
  from valid_number_head [OF assms(1)] obtain c q where t: "t = c # q" "c = CHR ''-'' \<or> is_digit c" by blast
  note h = digit_or_minus [OF t(2)]
  have "skip_ws (t @ r) = c # (q @ r)" using h by (simp add: t skip_ws_def)
  moreover have "takeWhile number_chars (c # (q @ r)) = t" "dropWhile number_chars (c # (q @ r)) = r"
    using number_token [OF assms(2,3)] by (simp_all add: t)
  moreover have "\<not> startsWith (c # (q @ r)) ''null''" "\<not> startsWith (c # (q @ r)) ''true''"
    "\<not> startsWith (c # (q @ r)) ''false''" using h by (auto simp: startsWith_def)
  ultimately show ?thesis using h assms(1) by simp
qed

lemma skip_ws_noop: "\<not> is_ws c \<Longrightarrow> skip_ws (c # r) = c # r"
  by (simp add: skip_ws_def)

lemma ws_facts [simp]: "\<not> is_ws CHR '']''" "\<not> is_ws CHR '',''" "\<not> is_ws CHR ''}''" "\<not> is_ws CHR '':''"
  "\<not> is_ws CHR 0x22" "\<not> is_ws CHR ''[''" "\<not> is_ws CHR ''{''"
  by (simp_all add: is_ws_def)

lemma stops_facts [simp]: "stops []" "stops (CHR '']'' # r)" "stops (CHR '','' # r)" "stops (CHR ''}'' # r)"
  by (simp_all add: stops_def number_chars_def is_digit_def)

definition comes_back :: "json \<Rightarrow> bool" where
  "comes_back v \<longleftrightarrow> (\<forall>n r. stops r \<longrightarrow> 2 * length (print_json v) \<le> n \<longrightarrow>
     parse_value n (print_json v @ r) = Some (v, r))"

lemma comes_backD:
  "comes_back v \<Longrightarrow> stops r \<Longrightarrow> 2 * length (print_json v) \<le> n \<Longrightarrow>
   parse_value n (print_json v @ r) = Some (v, r)"
  by (simp add: comes_back_def)

lemma elems_come_back:
  "xs \<noteq> [] \<Longrightarrow> (\<And>x. x \<in> set xs \<Longrightarrow> comes_back x) \<Longrightarrow>
   2 * length (join '','' (map print_json xs)) + 1 \<le> n \<Longrightarrow>
   parse_elems n (join '','' (map print_json xs) @ CHR '']'' # r) = Some (xs, r)"
proof (induction xs arbitrary: n)
  case (Cons x xs)
  then obtain m where n: "n = Suc m" by (cases n) auto
  show ?case
  proof (cases xs)
    case Nil
    with Cons.prems n comes_backD [of x "CHR '']'' # r" m] show ?thesis by (simp add: skip_ws_noop)
  next
    case (Cons y ys)
    let ?rest = "join '','' (map print_json xs)"
    have j: "join '','' (map print_json (x # xs)) = print_json x @ '','' @ ?rest" by (simp add: Cons)
    from Cons.prems(3) have len: "2 * length (print_json x @ '','' @ ?rest) + 1 \<le> Suc m" unfolding j n .
    have "parse_value m (print_json x @ CHR '','' # ?rest @ CHR '']'' # r) = Some (x, CHR '','' # ?rest @ CHR '']'' # r)"
      using Cons.prems(2) [of x] len by (intro comes_backD) simp_all
    moreover have "parse_elems m (?rest @ CHR '']'' # r) = Some (xs, r)"
      using Cons.prems(2) Cons len by (intro Cons.IH) simp_all
    ultimately show ?thesis unfolding j by (simp add: n skip_ws_noop)
  qed
qed simp

abbreviation member_text :: "string \<times> json \<Rightarrow> string" where
  "member_text \<equiv> \<lambda>(k, v). json_quote k @ '':'' @ print_json v"

lemma members_come_back:
  "kvs \<noteq> [] \<Longrightarrow> (\<And>k v. (k, v) \<in> set kvs \<Longrightarrow> comes_back v) \<Longrightarrow>
   2 * length (join '','' (map member_text kvs)) + 1 \<le> n \<Longrightarrow>
   parse_members n (join '','' (map member_text kvs) @ CHR ''}'' # r) = Some (kvs, r)"
proof (induction kvs arbitrary: n)
  case (Cons kv kvs)
  obtain k v where kv: "kv = (k, v)" by fastforce
  from Cons.prems obtain m where n: "n = Suc m" by (cases n) auto
  have q: "parse_str (concat (map quote_char k) @ CHR 0x22 # w) = Some (k, w)" for w
    by (rule parse_quoted)
  show ?case
  proof (cases kvs)
    case Nil
    have "parse_value m (print_json v @ CHR ''}'' # r) = Some (v, CHR ''}'' # r)"
      using Cons.prems(2) [of k v] Cons.prems(3) by (intro comes_backD) (auto simp: kv n Nil json_quote_def)
    with Nil show ?thesis by (simp add: kv n json_quote_def skip_ws_noop q)
  next
    case (Cons kw kws)
    let ?rest = "join '','' (map member_text kvs)"
    have j: "join '','' (map member_text (kv # kvs)) = json_quote k @ '':'' @ print_json v @ '','' @ ?rest"
      by (simp add: Cons kv)
    from Cons.prems(3) have len: "2 * length (json_quote k @ '':'' @ print_json v @ '','' @ ?rest) + 1 \<le> Suc m"
      unfolding j n .
    have "parse_value m (print_json v @ CHR '','' # ?rest @ CHR ''}'' # r) = Some (v, CHR '','' # ?rest @ CHR ''}'' # r)"
      using Cons.prems(2) [of k v] len by (intro comes_backD) (simp_all add: kv)
    moreover have "parse_members m (?rest @ CHR ''}'' # r) = Some (kvs, r)"
    proof (rule Cons.IH)
      show "kvs \<noteq> []" by (simp add: Cons)
      show "comes_back v'" if "(k', v') \<in> set kvs" for k' v'
        using that by (intro Cons.prems(2) [of k' v']) simp
      show "2 * length ?rest + 1 \<le> m" using len by simp
    qed
    ultimately show ?thesis unfolding j by (simp add: n kv json_quote_def skip_ws_noop q)
  qed
qed simp

lemma make_obj_distinct: "unique_on fst kvs \<Longrightarrow> make_obj kvs = JObj kvs"
proof -
  have put: "k \<notin> fst ` set m \<Longrightarrow> obj_put k v m = m @ [(k, v)]" for k v m
    by (induction k v m rule: obj_put.induct) auto
  have "unique_on fst (m @ kvs) \<Longrightarrow> foldl (\<lambda>m (k, v). obj_put k v m) m kvs = m @ kvs" for m
    by (induction kvs arbitrary: m) (auto simp: put)
  from this [of "[]"] show "unique_on fst kvs \<Longrightarrow> make_obj kvs = JObj kvs" by (simp add: make_obj_def)
qed

lemma json_comes_back: "json_ok v \<Longrightarrow> comes_back v"
proof (induction v)
  case (JArr xs)
  show ?case unfolding comes_back_def
  proof (intro allI impI)
    fix n r assume r: "stops r" and n: "2 * length (print_json (JArr xs)) \<le> n"
    then obtain m where m: "n = Suc m" by (cases n) auto
    show "parse_value n (print_json (JArr xs) @ r) = Some (JArr xs, r)"
    proof (cases xs)
      case Nil
      then show ?thesis by (simp add: m skip_ws_noop)
    next
      case (Cons y ys)
      with JArr.prems print_json_head [of y] obtain c q where c: "print_json y = c # q" "\<not> is_ws c" "c \<noteq> CHR '']''"
        by auto
      then have hd: "\<exists>w. join '','' (map print_json xs) = c # w" by (cases ys) (auto simp: Cons)
      then obtain w where w: "join '','' (map print_json xs) = c # w" by blast
      have "parse_elems m (join '','' (map print_json xs) @ CHR '']'' # r) = Some (xs, r)"
        using JArr n by (intro elems_come_back) (auto simp: Cons m list_all_iff)
      with c w show ?thesis by (simp add: m skip_ws_noop)
    qed
  qed
next
  case (JObj kvs)
  show ?case unfolding comes_back_def
  proof (intro allI impI)
    fix n r assume r: "stops r" and n: "2 * length (print_json (JObj kvs)) \<le> n"
    then obtain m where m: "n = Suc m" by (cases n) auto
    show "parse_value n (print_json (JObj kvs) @ r) = Some (JObj kvs, r)"
    proof (cases kvs)
      case Nil
      then show ?thesis by (simp add: m skip_ws_noop)
    next
      case (Cons kv kvs')
      then have hd: "\<exists>w. join '','' (map member_text kvs) = CHR 0x22 # w"
        by (cases kv; cases kvs') (auto simp: json_quote_def)
      then obtain w where w: "join '','' (map member_text kvs) = CHR 0x22 # w" by blast
      have vs: "comes_back v" if "(k, v) \<in> set kvs" for k v
        using JObj.IH [OF that, of v] JObj.prems that by (auto simp: list_all_iff)
      have "parse_members m (join '','' (map member_text kvs) @ CHR ''}'' # r) = Some (kvs, r)"
        using vs n by (intro members_come_back) (simp_all add: Cons m)
      with w JObj.prems show ?thesis by (simp add: m skip_ws_noop make_obj_distinct)
    qed
  qed
next
  case (JNum t)
  then show ?case
    unfolding comes_back_def using valid_number_head [of t] parse_number
    by (metis json_ok.simps(1) length_0_conv list.distinct(1) le_zero_eq mult_is_0 not0_implies_Suc print_json.simps(3) zero_neq_numeral)
next
  case (JStr s)
  show ?case unfolding comes_back_def
  proof (intro allI impI)
    fix n r assume "2 * length (print_json (JStr s)) \<le> n"
    then obtain m where "n = Suc m" by (cases n) (auto simp: json_quote_def)
    then show "parse_value n (print_json (JStr s) @ r) = Some (JStr s, r)"
      by (simp add: json_quote_def skip_ws_noop parse_quoted)
  qed
next
  case JNull
  show ?case unfolding comes_back_def
  proof (intro allI impI)
    fix n r assume "2 * length (print_json JNull) \<le> n"
    then obtain m where "n = Suc m" by (cases n) auto
    then show "parse_value n (print_json JNull @ r) = Some (JNull, r)"
      by (simp add: skip_ws_def is_ws_def startsWith_def)
  qed
next
  case (JBool b)
  show ?case unfolding comes_back_def
  proof (intro allI impI)
    fix n r assume "2 * length (print_json (JBool b)) \<le> n"
    then obtain m where "n = Suc m" by (cases n; cases b) auto
    then show "parse_value n (print_json (JBool b) @ r) = Some (JBool b, r)"
      by (simp add: skip_ws_def is_ws_def startsWith_def)
  qed
qed simp_all

lemma json_ok_no_big: "json_ok v \<Longrightarrow> \<not> has_big v"
  by (induction v) (auto simp: list_all_iff list_ex_iff)

lemma parse_print: "json_ok v \<Longrightarrow> json_parse (print_json v) = Some v"
  using comes_backD [OF json_comes_back, of v "[]" "2 * length (print_json v) + 2"]
  by (simp add: json_parse_def skip_ws_def)

section \<open>What \<open>jsonSafe\<close> returns\<close>

fun safe_form :: "json \<Rightarrow> json" where
  "safe_form (JBig n) = JStr (show_int n)"
| "safe_form (JDate d) = JStr (toISOString d)"
| "safe_form (JArr xs) = JArr (map safe_form xs)"
| "safe_form (JObj kvs) = JObj (map (\<lambda>(k, v). (k, safe_form v)) kvs)"
| "safe_form v = v"

text \<open>A value of the program: its numbers print as literals and its keys are distinct.\<close>

fun json_value :: "json \<Rightarrow> bool" where
  "json_value (JNum t) \<longleftrightarrow> valid_number t \<and> list_all number_chars t"
| "json_value (JArr xs) \<longleftrightarrow> list_all json_value xs"
| "json_value (JObj kvs) \<longleftrightarrow> unique_on fst kvs \<and> list_all (\<lambda>(k, v). json_value v) kvs"
| "json_value _ \<longleftrightarrow> True"

lemma map_fst_safe: "map fst (map (\<lambda>(k, v). (k, f v)) kvs) = map fst kvs"
  by (induction kvs) auto

lemma safe_form_ok: "json_value v \<Longrightarrow> json_ok (safe_form v)"
proof (induction v)
  case (JObj kvs)
  have "json_ok (safe_form v)" if "(k, v) \<in> set kvs" for k v
    using JObj.IH [OF that, of v] JObj.prems that by (auto simp: list_all_iff)
  moreover have "unique_on fst (map (\<lambda>(k, v). (k, safe_form v)) kvs)"
    using JObj.prems by (simp only: map_fst_safe json_value.simps)
  ultimately show ?case by (auto simp: list_all_iff)
qed (auto simp: list_all_iff)

lemma safe_form_print: "print_json (replace_big v) = print_json (safe_form v) \<and> \<not> has_big (replace_big v)"
proof (induction v)
  case (JArr xs)
  then have "map (print_json \<circ> replace_big) xs = map (print_json \<circ> safe_form) xs" by simp
  with JArr show ?case by (auto simp: list_ex_iff simp del: map_eq_conv)
next
  case (JObj kvs)
  have IH: "print_json (replace_big v) = print_json (safe_form v) \<and> \<not> has_big (replace_big v)"
    if "(k, v) \<in> set kvs" for k v using JObj.IH [OF that, of v] by simp
  then have "map ((\<lambda>(k, v). json_quote k @ '':'' @ print_json v) \<circ> (\<lambda>(k, v). (k, replace_big v))) kvs =
      map ((\<lambda>(k, v). json_quote k @ '':'' @ print_json v) \<circ> (\<lambda>(k, v). (k, safe_form v))) kvs" by auto
  with IH show ?case by (auto simp: list_ex_iff simp del: map_eq_conv)
qed simp_all

lemma jsonSafe_safe_form: "json_value v \<Longrightarrow> jsonSafe v = Some (safe_form v)"
  using safe_form_print [of v] parse_print [OF safe_form_ok, of v]
  by (simp add: jsonSafe_def stringify_def)

lemma json_ok_value: "json_ok v \<Longrightarrow> json_value v"
  by (induction v) (auto simp: list_all_iff)

lemma safe_form_id: "json_ok v \<Longrightarrow> safe_form v = v"
proof (induction v)
  case (JObj kvs)
  have "safe_form v = v" if "(k, v) \<in> set kvs" for k v
    using JObj.IH [OF that, of v] JObj.prems that by (auto simp: list_all_iff)
  then show ?case by (auto intro: map_idI)
next
  case (JArr xs)
  then show ?case by (auto simp: list_all_iff intro: map_idI)
qed simp_all

text \<open>A printed integer is a number literal.\<close>

lemma digit_zero: "d < 10 \<Longrightarrow> digit_char d = CHR ''0'' \<Longrightarrow> d = 0"
proof -
  assume "d < 10" "digit_char d = CHR ''0''"
  then have "digit_value (digit_char d) = digit_value CHR ''0''" by simp
  with \<open>d < 10\<close> show "d = 0" by (simp add: digit_value_def)
qed

lemma show_nat_leading: "hd (show_nat n) = CHR ''0'' \<Longrightarrow> n = 0"
proof (induction n rule: show_nat.induct)
  case (1 n)
  then show ?case
    by (cases "n < 10") (auto simp: show_nat.simps [of n] hd_append digit_zero)
qed

lemma show_nat_number: "valid_unsigned (show_nat n)"
proof -
  have all: "list_all is_digit (show_nat n)" using show_nat_digits by (auto simp: list_all_iff)
  then have "takeWhile is_digit (show_nat n) = show_nat n" "dropWhile is_digit (show_nat n) = []"
    by (auto simp: list_all_iff takeWhile_eq_all_conv dropWhile_eq_Nil_conv)
  moreover have "length (show_nat n) = 1" if "hd (show_nat n) = CHR ''0''"
    using show_nat_leading [OF that] by (simp add: show_nat.simps)
  ultimately show ?thesis unfolding valid_unsigned_def Let_def by (simp only:) (simp add: valid_fraction_def)
qed

lemma number_show_int [simp]: "valid_number (show_int n)" "list_all number_chars (show_int n)"
proof -
  show "list_all number_chars (show_int n)"
    by (auto simp: show_int_def list_all_iff number_chars_def dest: show_nat_digits)
  show "valid_number (show_int n)"
    using show_nat_number [of "nat n"] show_nat_number [of "nat (- n)"]
    by (cases "show_nat (nat n)") (auto simp: show_int_def valid_number_def)
qed

text \<open>Printing and parsing are inverse.  \<open>JSON.parse\<close> gives back every value that
  \<open>JSON.stringify\<close> printed, at any nesting and with any characters in its strings.\<close>

theorem json_round_trip:
  assumes "json_ok v" shows "\<exists>t. stringify v = Some t \<and> json_parse t = Some v"
  using parse_print [OF assms] json_ok_no_big [OF assms] by (simp add: stringify_def)

theorem json_round_trip_witness:
  "json_parse ''{\"a\":[1,null],\"b\":\"x\"}'' =
     Some (JObj [(''a'', JArr [JNum ''1'', JNull]), (''b'', JStr ''x'')])"
proof -
  let ?v = "JObj [(''a'', JArr [JNum ''1'', JNull]), (''b'', JStr ''x'')]"
  have "json_ok ?v = True" by code_simp
  then have "json_ok ?v" by simp
  from json_round_trip [OF this] have rt: "json_parse (print_json ?v) = Some ?v"
    by (simp add: stringify_def split: if_splits)
  have printed: "print_json ?v = ''{\"a\":[1,null],\"b\":\"x\"}''" by code_simp
  show ?thesis using rt unfolding printed .
qed

text \<open>\<open>jsonSafe\<close> never throws on a value of the program: it returns the value with its big
  integers and dates replaced by their texts, and applying it again changes nothing.\<close>

theorem jsonSafe_normalises:
  assumes "json_value v"
  shows "jsonSafe v = Some (safe_form v) \<and> jsonSafe (safe_form v) = Some (safe_form v)"
  using assms jsonSafe_safe_form safe_form_ok json_ok_value safe_form_id by metis

theorem jsonSafe_normalises_witness:
  "jsonSafe (JObj [(''total'', JBig 12), (''at'', JDate 0)]) =
     Some (JObj [(''total'', JStr ''12''), (''at'', JStr ''1970-01-01T00:00:00.000Z'')])"
proof -
  have "toISOString 0 = ''1970-01-01T00:00:00.000Z''" "show_int 12 = ''12''" by code_simp+
  then show ?thesis
    using jsonSafe_normalises [of "JObj [(''total'', JBig 12), (''at'', JDate 0)]"] by simp
qed

end
