(* ===== verification/Schema.thy ===== *)
theory Schema
  imports Json
begin

text \<open>
  The persistent state: the enums and tables of \<open>apps/server/prisma/schema.prisma\<close>, the values
  kept in the table \<open>SystemSetting\<close>, and the record \<open>store\<close> that holds one list of rows per
  table together with the log of published events.

  A row is a record with the columns of its model that some modelled operation reads or writes;
  time stamps the database fills in and nothing reads are left out.  UUID columns are strings; the identifiers
  that the database generates are a parameter of the model, the field \<open>uuids\<close>: the \<open>n\<close>-th
  identifier drawn is \<open>uuids n\<close>, and \<open>minted\<close> counts how many have been drawn.  That generated
  identifiers never repeat is the hypothesis \<open>inj uuids\<close> of \<open>ids_ok\<close>.  Instants are milliseconds
  since the epoch, exact decimals are rational numbers.  A table is a list whose order is
  arbitrary, so a statement about all stores covers every order in which a query without
  \<open>orderBy\<close> may return its rows.
\<close>

section \<open>Enums\<close>

datatype AssetCode = BTC | XMR
datatype AdminRole = OWNER | OPERATOR | VIEWER
datatype EntityStatus = ACTIVE | DISABLED | ARCHIVED
datatype PoolProtocol = BITCOIN_STRATUM_V1 | MONERO_JSON_RPC
datatype ShareStatus = PENDING | ACCEPTED | REJECTED | UNKNOWN
datatype DepositStatus = OBSERVED | CONFIRMED | ALLOCATED | REORGED | IGNORED
datatype LedgerAccountType = ASSET | LIABILITY | REVENUE | EXPENSE | CLEARING
datatype LedgerDirection = DEBIT | CREDIT
datatype JournalType = DEPOSIT | ALLOCATION | PAYOUT | NETWORK_FEE | ADJUSTMENT | REVERSAL
datatype PayoutState =
  PLANNED | APPROVAL_REQUIRED | AUTO_APPROVED | SIGNED | BROADCAST | CONFIRMED | FAILED | CANCELLED
datatype PayoutKind = CUSTOMER | OPERATOR
datatype DestinationStatus = PENDING | ACTIVE | REVOKED
datatype AlertSeverity = INFO | WARNING | CRITICAL
datatype AlertStatus = OPEN | ACKNOWLEDGED | RESOLVED

type_synonym uuid = string
type_synonym instant = int
type_synonym atomic = int

section \<open>Tables\<close>

record customer =
  cust_id :: uuid
  cust_slug :: string
  cust_displayName :: string
  cust_status :: EntityStatus
  cust_notes :: "string option"
  cust_createdAt :: instant

record worker =
  wk_id :: uuid
  wk_customerId :: uuid
  wk_slug :: string
  wk_asset :: AssetCode
  wk_status :: EntityStatus
  wk_maxConnections :: int
  wk_allowedIps :: "string list"
  wk_lastSeenAt :: "instant option"

record worker_credential =
  wc_id :: uuid
  wc_workerId :: uuid
  wc_tokenHash :: string
  wc_tokenPrefix :: string
  wc_activeFrom :: instant
  wc_expiresAt :: "instant option"
  wc_revokedAt :: "instant option"
  wc_createdAt :: instant

record portal_credential =
  pc_customerId :: uuid
  pc_tokenHash :: string
  pc_tokenPrefix :: string
  pc_createdAt :: instant
  pc_revokedAt :: "instant option"

record split_policy =
  sp_id :: uuid
  sp_customerId :: uuid
  sp_asset :: AssetCode
  sp_customerBps :: int
  sp_operatorBps :: int
  sp_effectiveAt :: instant
  sp_createdById :: "uuid option"

record upstream =
  up_id :: uuid
  up_accountKey :: string
  up_asset :: AssetCode
  up_protocol :: PoolProtocol
  up_name :: string
  up_host :: string
  up_port :: int
  up_tls :: bool
  up_priority :: int
  up_enabled :: bool
  up_usernameTemplate :: string
  up_passwordCiphertext :: "string option"
  up_receiveAddress :: "string option"
  up_connectionTimeoutMs :: int
  up_failbackCooldownSeconds :: int
  up_lastHealthAt :: "instant option"
  up_lastHealthOk :: "bool option"
  up_lastHealthMessage :: "string option"

record connection_session =
  cn_id :: uuid
  cn_workerId :: uuid
  cn_upstreamId :: "uuid option"
  cn_asset :: AssetCode
  cn_remoteIp :: string
  cn_clientAgent :: "string option"
  cn_acceptedCount :: int
  cn_rejectedCount :: int
  cn_connectedAt :: instant
  cn_disconnectedAt :: "instant option"
  cn_disconnectCode :: "string option"

record share_event =
  sh_id :: uuid
  sh_asset :: AssetCode
  sh_customerId :: uuid
  sh_workerId :: uuid
  sh_upstreamId :: uuid
  sh_connectionId :: uuid
  sh_splitPolicyId :: uuid
  sh_requestKey :: string
  sh_status :: ShareStatus
  sh_difficulty :: rat
  sh_normalizedWork :: rat
  sh_submittedAt :: instant
  sh_resolvedAt :: "instant option"
  sh_upstreamLatencyMs :: "int option"
  sh_rejectReason :: "string option"
  sh_allocationBatchId :: "uuid option"

record deposit =
  dp_id :: uuid
  dp_asset :: AssetCode
  dp_upstreamId :: uuid
  dp_txid :: string
  dp_outputRef :: string
  dp_amountAtomic :: atomic
  dp_confirmations :: int
  dp_locked :: bool
  dp_status :: DepositStatus
  dp_confirmedAt :: "instant option"
  dp_allocatedAt :: "instant option"

record allocation_item =
  al_customerId :: uuid
  al_splitPolicyId :: uuid
  al_work :: rat
  al_grossAtomic :: atomic
  al_customerAtomic :: atomic
  al_operatorAtomic :: atomic

record allocation_batch =
  ab_id :: uuid
  ab_asset :: AssetCode
  ab_upstreamId :: uuid
  ab_depositId :: uuid
  ab_totalAtomic :: atomic
  ab_customerTotalAtomic :: atomic
  ab_operatorTotalAtomic :: atomic
  ab_items :: "allocation_item list"
  ab_createdAt :: instant

record ledger_account =
  la_id :: uuid
  la_asset :: AssetCode
  la_customerId :: "uuid option"
  la_code :: string
  la_name :: string
  la_type :: LedgerAccountType

record journal_entry =
  je_accountId :: uuid
  je_direction :: LedgerDirection
  je_amountAtomic :: atomic

record journal_transaction =
  jt_id :: uuid
  jt_asset :: AssetCode
  jt_type :: JournalType
  jt_referenceType :: string
  jt_referenceId :: string
  jt_description :: string
  jt_entries :: "journal_entry list"

record payout_destination =
  pd_id :: uuid
  pd_customerId :: uuid
  pd_asset :: AssetCode
  pd_address :: string
  pd_status :: DestinationStatus
  pd_effectiveAt :: instant
  pd_minPayoutAtomic :: atomic
  pd_createdAt :: instant
  pd_revokedAt :: "instant option"

datatype NetworkFeePayer = CUSTOMER | OPERATOR

text \<open>The JSON column \<open>policySnapshot\<close>: its members may be missing in rows written earlier.\<close>

record policy_snapshot =
  ps_feePayer :: "NetworkFeePayer option"
  ps_maxFeeBps :: "int option"
  ps_maxBatchItems :: "int option"

record payout_item =
  pi_id :: uuid
  pi_customerId :: "uuid option"
  pi_destination :: string
  pi_grossAtomic :: atomic
  pi_allocatedFeeAtomic :: atomic
  pi_netAtomic :: atomic
  pi_journalTransactionId :: "uuid option"

record payout_batch =
  pb_id :: uuid
  pb_asset :: AssetCode
  pb_kind :: PayoutKind
  pb_state :: PayoutState
  pb_scheduledFor :: instant
  pb_totalGrossAtomic :: atomic
  pb_totalFeeAtomic :: atomic
  pb_totalNetAtomic :: atomic
  pb_transactionIds :: "string list"
  pb_signedPayload :: "string option"
  pb_approvalThresholdHit :: bool
  pb_policySnapshot :: "policy_snapshot option"
  pb_approvedById :: "uuid option"
  pb_approvedAt :: "instant option"
  pb_broadcastAt :: "instant option"
  pb_confirmedAt :: "instant option"
  pb_errorCode :: "string option"
  pb_errorMessage :: "string option"
  pb_createdAt :: instant
  pb_items :: "payout_item list"

record audit_event =
  ae_id :: uuid
  ae_sequence :: nat
  ae_actorId :: "uuid option"
  ae_action :: string
  ae_entityType :: string
  ae_entityId :: "string option"
  ae_ipAddress :: "string option"
  ae_before :: json
  ae_after :: json
  ae_previousHash :: "string option"
  ae_eventHash :: string
  ae_createdAt :: instant

record alert =
  at_id :: uuid
  at_dedupeKey :: string
  at_severity :: AlertSeverity
  at_status :: AlertStatus
  at_title :: string
  at_message :: string
  at_firstSeenAt :: instant
  at_lastSeenAt :: instant
  at_resolvedAt :: "instant option"

record admin =
  ad_id :: uuid
  ad_email :: string
  ad_displayName :: string
  ad_passwordHash :: string
  ad_role :: AdminRole
  ad_status :: EntityStatus
  ad_totpSecretCiphertext :: "string option"
  ad_totpEnabled :: bool
  ad_failedLoginCount :: int
  ad_lockedUntil :: "instant option"
  ad_lastLoginAt :: "instant option"

record backup_code =
  bc_id :: uuid
  bc_adminId :: uuid
  bc_codeHash :: string
  bc_usedAt :: "instant option"

section \<open>Values of the settings table\<close>

datatype OperatorPayoutMode = RETAIN | DAILY | WEEKLY | MANUAL
datatype PayoutScheduleMode = DAILY | INTERVAL

record payout_policy_setting =
  pp_mode :: PayoutScheduleMode
  pp_intervalMinutes :: int
  pp_minuteOffset :: int
  pp_dailyTime :: string
  pp_timezone :: string
  pp_feePayer :: NetworkFeePayer
  pp_maxFeeBps :: int
  pp_maxBatchItems :: int
  pp_minimumAtomic :: "AssetCode \<Rightarrow> atomic"
  pp_dailyAutoLimitAtomic :: "AssetCode \<Rightarrow> atomic"

text \<open>The stored form of the policy, in which every member may be missing.\<close>

record stored_policy =
  st_mode :: "PayoutScheduleMode option"
  st_intervalMinutes :: "int option"
  st_minuteOffset :: "int option"
  st_dailyTime :: "string option"
  st_time :: "string option"
  st_timezone :: "string option"
  st_feePayer :: "NetworkFeePayer option"
  st_maxFeeBps :: "int option"
  st_maxBatchItems :: "int option"
  st_minimumAtomic :: "AssetCode \<Rightarrow> atomic option"
  st_dailyAutoLimitAtomic :: "AssetCode \<Rightarrow> atomic option"

record operator_payout_setting =
  os_asset :: AssetCode
  os_mode :: OperatorPayoutMode
  os_address :: string
  os_minPayoutAtomic :: atomic
  os_weekday :: int
  os_effectiveAt :: instant

datatype ProxyProtocol = SOCKS5 | HTTP
datatype ProxyMode = ALWAYS_ON | FAILOVER
datatype VpnConfigType = NONE | OPENVPN | WIREGUARD

record proxy_setting =
  px_enabled :: bool
  px_mode :: ProxyMode
  px_applyToGateway :: bool
  px_applyToSystem :: bool
  px_protocol :: ProxyProtocol
  px_host :: string
  px_port :: int
  px_username :: "string option"
  px_passwordCiphertext :: "string option"
  px_healthCheckHost :: string
  px_healthCheckPort :: int
  px_healthCheckIntervalSeconds :: int
  px_healthCheckFailureThreshold :: int
  px_vpnConfigType :: VpnConfigType
  px_vpnConfigCiphertext :: "string option"

datatype setting_value =
    PolicyValue stored_policy
  | OperatorValue operator_payout_setting
  | SlotValue string
  | ProxyValue proxy_setting

record event =
  ev_name :: string
  ev_subject :: string

section \<open>The store\<close>

record store =
  uuids :: "nat \<Rightarrow> uuid"
  minted :: nat
  customers :: "customer list"
  workers :: "worker list"
  workerCredentials :: "worker_credential list"
  portalCredentials :: "portal_credential list"
  splitPolicies :: "split_policy list"
  upstreams :: "upstream list"
  connectionSessions :: "connection_session list"
  shareEvents :: "share_event list"
  deposits :: "deposit list"
  allocationBatches :: "allocation_batch list"
  ledgerAccounts :: "ledger_account list"
  journalTransactions :: "journal_transaction list"
  payoutDestinations :: "payout_destination list"
  payoutBatches :: "payout_batch list"
  auditEvents :: "audit_event list"
  alerts :: "alert list"
  systemSettings :: "(string \<times> setting_value) list"
  admins :: "admin list"
  backupCodes :: "backup_code list"
  eventLog :: "event list"

definition empty_store :: "(nat \<Rightarrow> uuid) \<Rightarrow> store" where
  "empty_store supply =
     \<lparr>uuids = supply, minted = 0, customers = [], workers = [], workerCredentials = [],
      portalCredentials = [], splitPolicies = [], upstreams = [], connectionSessions = [],
      shareEvents = [], deposits = [], allocationBatches = [], ledgerAccounts = [],
      journalTransactions = [], payoutDestinations = [], payoutBatches = [], auditEvents = [],
      alerts = [], systemSettings = [], admins = [], backupCodes = [], eventLog = []\<rparr>"

text \<open>Drawing a generated identifier.\<close>

definition new_id :: "store \<Rightarrow> uuid \<times> store" where
  "new_id s = (uuids s (minted s), s\<lparr>minted := Suc (minted s)\<rparr>)"

definition minted_ids :: "store \<Rightarrow> uuid set" where
  "minted_ids s = uuids s ` {..<minted s}"

text \<open>
  \<open>EventsService.publish\<close> appends to the stream of events; of the payload the identifier of the
  row the event is about is kept.
\<close>

definition publish :: "string \<Rightarrow> string \<Rightarrow> store \<Rightarrow> store" where
  "publish name subject s = s\<lparr>eventLog := eventLog s @ [\<lparr>ev_name = name, ev_subject = subject\<rparr>]\<rparr>"

text \<open>
  A database transaction: an exception inside rolls every change back.  A handler returns the
  store it leaves behind also when it throws.
\<close>

definition transaction :: "(store \<Rightarrow> (store \<times> 'a) result) \<Rightarrow> store \<Rightarrow> store \<times> 'a result" where
  "transaction body s = (case body s of Inl e \<Rightarrow> (s, Inl e) | Inr (s', x) \<Rightarrow> (s', Inr x))"

section \<open>Identifiers\<close>

definition ids_ok :: "store \<Rightarrow> bool" where
  "ids_ok s \<longleftrightarrow> inj (uuids s) \<and>
     la_id ` set (ledgerAccounts s) \<union> jt_id ` set (journalTransactions s) \<union>
     ab_id ` set (allocationBatches s) \<union> pb_id ` set (payoutBatches s) \<union>
     dp_id ` set (deposits s) \<union> pd_id ` set (payoutDestinations s) \<union>
     sh_id ` set (shareEvents s) \<union> cn_id ` set (connectionSessions s) \<subseteq> minted_ids s"

lemma new_id_eq [simp]:
  "fst (new_id s) = uuids s (minted s)" "snd (new_id s) = s\<lparr>minted := Suc (minted s)\<rparr>"
  by (simp_all add: new_id_def)

lemma minted_ids_Suc [simp]:
  "minted_ids (s\<lparr>minted := Suc (minted s)\<rparr>) = insert (uuids s (minted s)) (minted_ids s)"
  by (simp add: minted_ids_def lessThan_Suc)

lemma new_id_fresh: "inj (uuids s) \<Longrightarrow> uuids s (minted s) \<notin> minted_ids s"
  by (auto simp: minted_ids_def inj_eq)

lemma transaction_cases:
  "transaction body s = (s', r) \<longleftrightarrow>
     (\<exists>e. body s = Inl e \<and> s' = s \<and> r = Inl e) \<or> (\<exists>x. body s = Inr (s', x) \<and> r = Inr x)"
  by (auto simp: transaction_def split: sum.splits prod.splits)

lemma publish_simps [simp]:
  "uuids (publish n x s) = uuids s" "minted (publish n x s) = minted s"
  "minted_ids (publish n x s) = minted_ids s"
  "ledgerAccounts (publish n x s) = ledgerAccounts s"
  "journalTransactions (publish n x s) = journalTransactions s"
  "payoutBatches (publish n x s) = payoutBatches s"
  "deposits (publish n x s) = deposits s"
  "shareEvents (publish n x s) = shareEvents s"
  "allocationBatches (publish n x s) = allocationBatches s"
  "payoutDestinations (publish n x s) = payoutDestinations s"
  "customers (publish n x s) = customers s"
  "systemSettings (publish n x s) = systemSettings s"
  "alerts (publish n x s) = alerts s"
  "auditEvents (publish n x s) = auditEvents s"
  by (simp_all add: publish_def minted_ids_def)

end
