(* ===== verification/Ledger.thy ===== *)
theory Ledger
  imports Text Schema
begin

text \<open>
  The double-entry ledger of \<open>apps/server/src/ledger/ledger.service.ts\<close>.  Every handler that
  runs inside a serializable transaction is a function from the store to an error or to the new
  store and its value.  The lemmas show that every journal transaction is balanced, that the
  books balance per asset, what each posting does to the balances, and that the allocation of a
  deposit credits exactly the deposited amount.
\<close>

section \<open>Accounts\<close>

fun show_asset :: "AssetCode \<Rightarrow> string" where
  "show_asset BTC = ''BTC''"
| "show_asset XMR = ''XMR''"

definition liability_code :: "uuid \<Rightarrow> string" where
  "liability_code customerId = ''customer:'' @ customerId @ '':liability''"

definition system_accounts :: "AssetCode \<Rightarrow> (string \<times> string \<times> LedgerAccountType) list" where
  "system_accounts asset =
     [(''treasury'', show_asset asset @ '' treasury'', ASSET),
      (''allocation-clearing'', show_asset asset @ '' allocation clearing'', CLEARING),
      (''operator-revenue'', show_asset asset @ '' operator revenue'', REVENUE),
      (''network-fee'', show_asset asset @ '' network fee'', EXPENSE),
      (''network-fee-recovery'', show_asset asset @ '' network fee recovery'', REVENUE)]"

definition find_account :: "AssetCode \<Rightarrow> string \<Rightarrow> store \<Rightarrow> ledger_account option" where
  "find_account asset code s =
     List.find (\<lambda>a. la_asset a = asset \<and> la_code a = code) (ledgerAccounts s)"

text \<open>\<open>ledgerAccount.upsert\<close> on the unique key \<open>(asset, code)\<close>: the id of the row and the store.\<close>

definition upsert_account ::
    "AssetCode \<Rightarrow> string \<Rightarrow> (uuid \<Rightarrow> ledger_account) \<Rightarrow> (ledger_account \<Rightarrow> ledger_account)
     \<Rightarrow> store \<Rightarrow> store \<times> uuid" where
  "upsert_account asset code create update s =
     (case find_account asset code s of
        Some a \<Rightarrow>
          (s\<lparr>ledgerAccounts := update_where (\<lambda>b. la_id b = la_id a) update (ledgerAccounts s)\<rparr>, la_id a)
      | None \<Rightarrow>
          (let (i, s1) = new_id s
           in (s1\<lparr>ledgerAccounts := ledgerAccounts s1 @ [create i]\<rparr>, i)))"

definition upsert_system_account ::
    "AssetCode \<Rightarrow> string \<Rightarrow> string \<Rightarrow> LedgerAccountType \<Rightarrow> store \<Rightarrow> store \<times> uuid" where
  "upsert_system_account asset code name type =
     upsert_account asset code
       (\<lambda>i. \<lparr>la_id = i, la_asset = asset, la_customerId = None, la_code = code, la_name = name,
            la_type = type\<rparr>)
       (\<lambda>a. a\<lparr>la_name := name, la_type := type\<rparr>)"

definition upsert_liability_account :: "AssetCode \<Rightarrow> uuid \<Rightarrow> store \<Rightarrow> store \<times> uuid" where
  "upsert_liability_account asset customerId =
     upsert_account asset (liability_code customerId)
       (\<lambda>i. \<lparr>la_id = i, la_asset = asset, la_customerId = Some customerId,
            la_code = liability_code customerId,
            la_name = ''Customer '' @ customerId @ '' liability'', la_type = LIABILITY\<rparr>)
       (\<lambda>a. a)"

fun ensure_accounts ::
    "AssetCode \<Rightarrow> (string \<times> string \<times> LedgerAccountType) list \<Rightarrow> store
     \<Rightarrow> store \<times> (string \<times> uuid) list" where
  "ensure_accounts asset [] s = (s, [])"
| "ensure_accounts asset ((code, name, type) # defs) s =
     (let (s1, i) = upsert_system_account asset code name type s;
          (s2, rest) = ensure_accounts asset defs s1
      in (s2, (code, i) # rest))"

definition ensureSystemAccounts :: "AssetCode \<Rightarrow> store \<Rightarrow> store \<times> (string \<times> uuid) list" where
  "ensureSystemAccounts asset s = ensure_accounts asset (system_accounts asset) s"

definition account_id :: "(string \<times> uuid) list \<Rightarrow> string \<Rightarrow> uuid" where
  "account_id accounts code = the (map_of accounts code)"

section \<open>Posting\<close>

record journal_input =
  ji_asset :: AssetCode
  ji_type :: JournalType
  ji_referenceType :: string
  ji_referenceId :: string
  ji_description :: string
  ji_entries :: "journal_entry list"

definition side_total :: "LedgerDirection \<Rightarrow> journal_entry list \<Rightarrow> atomic" where
  "side_total dir entries = sum_where (\<lambda>e. je_direction e = dir) je_amountAtomic entries"

definition journal_key :: "journal_transaction \<Rightarrow> AssetCode \<times> JournalType \<times> string \<times> string" where
  "journal_key t = (jt_asset t, jt_type t, jt_referenceType t, jt_referenceId t)"

definition post :: "journal_input \<Rightarrow> store \<Rightarrow> (store \<times> journal_transaction) result" where
  "post input s =
     (let debit = side_total DEBIT (ji_entries input);
          credit = side_total CREDIT (ji_entries input)
      in if debit \<noteq> credit \<or> debit \<le> 0 then Inl (Error (''Unbalanced journal: debit='' @ show_int debit @ '' credit='' @ show_int credit))
         else if (ji_asset input, ji_type input, ji_referenceType input, ji_referenceId input)
                   \<in> journal_key ` set (journalTransactions s)
         then Inl (UniqueConstraint ''JournalTransaction'')
         else
           let (i, s1) = new_id s;
               t = \<lparr>jt_id = i, jt_asset = ji_asset input, jt_type = ji_type input,
                    jt_referenceType = ji_referenceType input,
                    jt_referenceId = ji_referenceId input,
                    jt_description = ji_description input, jt_entries = ji_entries input\<rparr>
           in Inr (s1\<lparr>journalTransactions := journalTransactions s1 @ [t]\<rparr>, t))"

abbreviation debit_entry :: "uuid \<Rightarrow> atomic \<Rightarrow> journal_entry" where
  "debit_entry account amount \<equiv>
     \<lparr>je_accountId = account, je_direction = DEBIT, je_amountAtomic = amount\<rparr>"

abbreviation credit_entry :: "uuid \<Rightarrow> atomic \<Rightarrow> journal_entry" where
  "credit_entry account amount \<equiv>
     \<lparr>je_accountId = account, je_direction = CREDIT, je_amountAtomic = amount\<rparr>"

section \<open>Balances\<close>

definition all_entries :: "store \<Rightarrow> journal_entry list" where
  "all_entries s = concat (map jt_entries (journalTransactions s))"

definition is_account :: "store \<Rightarrow> AssetCode \<Rightarrow> string \<Rightarrow> uuid \<Rightarrow> bool" where
  "is_account s asset code i \<longleftrightarrow>
     list_ex (\<lambda>a. la_id a = i \<and> la_asset a = asset \<and> la_code a = code) (ledgerAccounts s)"

definition account_total :: "store \<Rightarrow> AssetCode \<Rightarrow> string \<Rightarrow> LedgerDirection \<Rightarrow> atomic" where
  "account_total s asset code dir =
     sum_where (\<lambda>e. je_direction e = dir \<and> is_account s asset code (je_accountId e))
       je_amountAtomic (all_entries s)"

definition customerBalance :: "uuid \<Rightarrow> AssetCode \<Rightarrow> store \<Rightarrow> atomic" where
  "customerBalance customerId asset s =
     account_total s asset (liability_code customerId) CREDIT
     - account_total s asset (liability_code customerId) DEBIT"

definition operatorBalance :: "AssetCode \<Rightarrow> store \<Rightarrow> atomic" where
  "operatorBalance asset s =
     account_total s asset ''operator-revenue'' CREDIT
     - account_total s asset ''operator-revenue'' DEBIT"

record trial_row =
  tr_id :: uuid
  tr_code :: string
  tr_name :: string
  tr_type :: LedgerAccountType
  tr_debitAtomic :: atomic
  tr_creditAtomic :: atomic

definition trialBalance :: "AssetCode \<Rightarrow> store \<Rightarrow> trial_row list" where
  "trialBalance asset s =
     map (\<lambda>a. \<lparr>tr_id = la_id a, tr_code = la_code a, tr_name = la_name a, tr_type = la_type a,
            tr_debitAtomic = sum_where (\<lambda>e. je_accountId e = la_id a \<and> je_direction e = DEBIT)
              je_amountAtomic (all_entries s),
            tr_creditAtomic = sum_where (\<lambda>e. je_accountId e = la_id a \<and> je_direction e = CREDIT)
              je_amountAtomic (all_entries s)\<rparr>)
       (filter (\<lambda>a. la_asset a = asset) (ledgerAccounts s))"

section \<open>Payout postings\<close>

record payout_posting =
  pq_batchId :: uuid
  pq_asset :: AssetCode
  pq_customerId :: uuid
  pq_grossAtomic :: atomic
  pq_feeAtomic :: atomic
  pq_operatorPaysFee :: bool

definition payout_journal ::
    "payout_posting \<Rightarrow> uuid \<Rightarrow> (string \<times> uuid) list \<Rightarrow> journal_input" where
  "payout_journal q liability accounts =
     \<lparr>ji_asset = pq_asset q, ji_type = JournalType.PAYOUT, ji_referenceType = ''PayoutItem'',
      ji_referenceId = pq_batchId q @ '':'' @ pq_customerId q,
      ji_description = ''Customer payout from batch '' @ pq_batchId q,
      ji_entries =
        [debit_entry liability (pq_grossAtomic q),
         credit_entry (account_id accounts ''treasury'') (pq_grossAtomic q)] @
        (if pq_feeAtomic q > 0 \<and> pq_operatorPaysFee q
         then [debit_entry (account_id accounts ''network-fee'') (pq_feeAtomic q),
               credit_entry (account_id accounts ''treasury'') (pq_feeAtomic q)]
         else if pq_feeAtomic q > 0
         then [debit_entry (account_id accounts ''network-fee'') (pq_feeAtomic q),
               credit_entry (account_id accounts ''network-fee-recovery'') (pq_feeAtomic q)]
         else [])\<rparr>"

definition postPayout :: "payout_posting \<Rightarrow> store \<Rightarrow> (store \<times> journal_transaction) result" where
  "postPayout q s =
     (let (s1, accounts) = ensureSystemAccounts (pq_asset q) s in
      case find_account (pq_asset q) (liability_code (pq_customerId q)) s1 of
        None \<Rightarrow> Inl (RecordNotFound ''LedgerAccount'')
      | Some liability \<Rightarrow> post (payout_journal q (la_id liability) accounts) s1)"

definition operator_payout_journal ::
    "uuid \<Rightarrow> AssetCode \<Rightarrow> atomic \<Rightarrow> atomic \<Rightarrow> (string \<times> uuid) list \<Rightarrow> journal_input" where
  "operator_payout_journal batchId asset gross fee accounts =
     \<lparr>ji_asset = asset, ji_type = JournalType.PAYOUT, ji_referenceType = ''OperatorPayout'',
      ji_referenceId = batchId,
      ji_description = ''Operator revenue payout from batch '' @ batchId,
      ji_entries =
        [debit_entry (account_id accounts ''operator-revenue'') gross,
         credit_entry (account_id accounts ''treasury'') gross] @
        (if fee > 0
         then [debit_entry (account_id accounts ''network-fee'') fee,
               credit_entry (account_id accounts ''network-fee-recovery'') fee]
         else [])\<rparr>"

definition postOperatorPayout ::
    "uuid \<Rightarrow> AssetCode \<Rightarrow> atomic \<Rightarrow> atomic \<Rightarrow> store \<Rightarrow> (store \<times> journal_transaction) result" where
  "postOperatorPayout batchId asset gross fee s =
     (let (s1, accounts) = ensureSystemAccounts asset s in
      post (operator_payout_journal batchId asset gross fee accounts) s1)"

section \<open>Well-formed accounts\<close>

definition account_keys :: "store \<Rightarrow> (uuid \<times> AssetCode \<times> string) list" where
  "account_keys s = map (\<lambda>a. (la_id a, la_asset a, la_code a)) (ledgerAccounts s)"

definition wf_accounts :: "store \<Rightarrow> bool" where
  "wf_accounts s \<longleftrightarrow>
     inj (uuids s) \<and> fst ` set (account_keys s) \<subseteq> minted_ids s \<and>
     unique_on fst (account_keys s) \<and> unique_on snd (account_keys s)"

text \<open>
  What every account operation may do: new rows at the end, new identifiers, nothing else.
\<close>

definition accounts_grow :: "store \<Rightarrow> store \<Rightarrow> bool" where
  "accounts_grow s s' \<longleftrightarrow>
     s' = s\<lparr>minted := minted s', ledgerAccounts := ledgerAccounts s'\<rparr> \<and> minted s \<le> minted s' \<and>
     prefix (account_keys s) (account_keys s')"

lemma is_account_keys: "is_account s A C i \<longleftrightarrow> (i, A, C) \<in> set (account_keys s)"
  by (auto simp: is_account_def account_keys_def list_ex_iff)

lemma is_account_unique:
  "wf_accounts s \<Longrightarrow> is_account s A C i \<Longrightarrow> is_account s A' C' i \<longleftrightarrow> A' = A \<and> C' = C"
  by (force simp: is_account_keys wf_accounts_def distinct_map inj_on_def)

lemma is_account_same_id:
  "wf_accounts s \<Longrightarrow> is_account s A C i \<Longrightarrow> is_account s A C j \<longleftrightarrow> j = i"
  by (force simp: is_account_keys wf_accounts_def distinct_map inj_on_def)

lemma find_account_SomeD:
  "find_account A C s = Some a \<Longrightarrow> a \<in> set (ledgerAccounts s) \<and> is_account s A C (la_id a)"
  by (auto simp: find_account_def is_account_def list_ex_iff dest!: find_SomeD)

lemma find_account_None: "find_account A C s = None \<Longrightarrow> (A, C) \<notin> snd ` set (account_keys s)"
  by (force simp: find_account_def account_keys_def find_None_iff)

lemma accounts_grow_refl [simp]: "accounts_grow s s"
  by (simp add: accounts_grow_def)

lemma accounts_grow_trans: "accounts_grow s t \<Longrightarrow> accounts_grow t u \<Longrightarrow> accounts_grow s u"
proof -
  assume "accounts_grow s t" "accounts_grow t u"
  then obtain m as m' as' where "t = s\<lparr>minted := m, ledgerAccounts := as\<rparr>"
    "u = t\<lparr>minted := m', ledgerAccounts := as'\<rparr>" "minted s \<le> m" "m \<le> m'"
    "prefix (account_keys s) (account_keys t)" "prefix (account_keys t) (account_keys u)"
    unfolding accounts_grow_def by (metis store.select_convs(2) store.update_convs(2,13) store.surjective)
  then show ?thesis by (auto simp: accounts_grow_def intro: prefix_order.trans)
qed

lemma accounts_grow_tables:
  assumes "accounts_grow s t"
  shows "journalTransactions t = journalTransactions s" "shareEvents t = shareEvents s"
    "deposits t = deposits s" "allocationBatches t = allocationBatches s"
    "payoutBatches t = payoutBatches s" "uuids t = uuids s"
    "all_entries t = all_entries s" "splitPolicies t = splitPolicies s"
    "payoutDestinations t = payoutDestinations s" "systemSettings t = systemSettings s"
    "customers t = customers s" "upstreams t = upstreams s"
proof -
  from assms obtain m as where "t = s\<lparr>minted := m, ledgerAccounts := as\<rparr>"
    unfolding accounts_grow_def by blast
  then show "journalTransactions t = journalTransactions s" "shareEvents t = shareEvents s"
    "deposits t = deposits s" "allocationBatches t = allocationBatches s"
    "payoutBatches t = payoutBatches s" "uuids t = uuids s"
    "all_entries t = all_entries s" "splitPolicies t = splitPolicies s"
    "payoutDestinations t = payoutDestinations s" "systemSettings t = systemSettings s"
    "customers t = customers s" "upstreams t = upstreams s"
    by (simp_all add: all_entries_def)
qed

lemma accounts_grow_minted: "accounts_grow s t \<Longrightarrow> minted_ids s \<subseteq> minted_ids t"
  using accounts_grow_tables(6) [of s t] by (auto simp: accounts_grow_def minted_ids_def)

lemma accounts_grow_account: "accounts_grow s t \<Longrightarrow> is_account s A C i \<Longrightarrow> is_account t A C i"
  using set_mono_prefix by (force simp: accounts_grow_def is_account_keys)

lemma accounts_grow_is_account:
  assumes "accounts_grow s t" and "wf_accounts t" and "i \<in> fst ` set (account_keys s)"
  shows "is_account t A C i \<longleftrightarrow> is_account s A C i"
proof -
  from assms(3) obtain A' C' where i: "is_account s A' C' i" by (auto simp: is_account_keys)
  with assms(1) have "is_account t A' C' i" by (rule accounts_grow_account)
  with assms(2) i assms(1) show ?thesis
    using is_account_unique accounts_grow_account by metis
qed

lemma upsert_account_grows:
  assumes "wf_accounts s" and "upsert_account A C create upd s = (t, i)"
    and create: "\<And>i. la_id (create i) = i \<and> la_asset (create i) = A \<and> la_code (create i) = C"
    and upd: "\<And>a. la_id (upd a) = la_id a \<and> la_asset (upd a) = la_asset a \<and> la_code (upd a) = la_code a"
  shows "wf_accounts t \<and> accounts_grow s t \<and> is_account t A C i"
proof (cases "find_account A C s")
  case None
  with assms(2) have t: "i = uuids s (minted s)"
    "t = s\<lparr>minted := Suc (minted s), ledgerAccounts := ledgerAccounts s @ [create i]\<rparr>"
    by (auto simp: upsert_account_def new_id_def Let_def)
  with create have keys: "account_keys t = account_keys s @ [(i, A, C)]"
    by (simp add: account_keys_def)
  have fresh: "i \<notin> fst ` set (account_keys s)"
    using assms(1) new_id_fresh [of s] t(1) by (auto simp: wf_accounts_def)
  have "minted_ids t = insert i (minted_ids s)"
    by (simp add: t(2) minted_ids_def lessThan_Suc t(1))
  with fresh find_account_None [OF None] assms(1) keys have "wf_accounts t"
    by (auto simp: wf_accounts_def t(2))
  moreover have "accounts_grow s t" using keys by (simp add: accounts_grow_def t(2))
  ultimately show ?thesis by (simp add: is_account_keys keys)
next
  case (Some a)
  with assms(2) have t: "i = la_id a"
    "t = s\<lparr>ledgerAccounts := update_where (\<lambda>b. la_id b = la_id a) upd (ledgerAccounts s)\<rparr>"
    by (auto simp: upsert_account_def)
  have keys: "account_keys t = account_keys s"
    using upd by (simp add: account_keys_def t(2) map_update_where)
  with assms(1) find_account_SomeD [OF Some] show ?thesis
    by (simp add: wf_accounts_def accounts_grow_def is_account_keys minted_ids_def t)
qed

lemma upsert_system_account_grows:
  "wf_accounts s \<Longrightarrow> upsert_system_account A C n ty s = (t, i) \<Longrightarrow>
   wf_accounts t \<and> accounts_grow s t \<and> is_account t A C i"
  unfolding upsert_system_account_def by (erule (1) upsert_account_grows) auto

lemma upsert_liability_account_grows:
  "wf_accounts s \<Longrightarrow> upsert_liability_account A c s = (t, i) \<Longrightarrow>
   wf_accounts t \<and> accounts_grow s t \<and> is_account t A (liability_code c) i"
  unfolding upsert_liability_account_def by (erule (1) upsert_account_grows) auto

lemma ensure_accounts_grows:
  "wf_accounts s \<Longrightarrow> ensure_accounts A defs s = (t, ids) \<Longrightarrow>
   wf_accounts t \<and> accounts_grow s t \<and> map fst ids = map fst defs \<and>
   (\<forall>(code, i) \<in> set ids. is_account t A code i)"
proof (induction A defs s arbitrary: t ids rule: ensure_accounts.induct)
  case (2 A code name type defs s)
  obtain s1 i where u: "upsert_system_account A code name type s = (s1, i)" by fastforce
  obtain rest where r: "ensure_accounts A defs s1 = (t, rest)" and ids: "ids = (code, i) # rest"
    using 2(3) u by (auto split: prod.splits)
  from upsert_system_account_grows [OF 2(2) u] have s1: "wf_accounts s1" "accounts_grow s s1"
    "is_account s1 A code i" by auto
  from "2.IH" [OF u [symmetric] refl s1(1) r] s1 show ?case
    by (auto simp: ids dest: accounts_grow_trans accounts_grow_account)
qed simp

lemma ensureSystemAccounts_grows:
  assumes "wf_accounts s" and "ensureSystemAccounts A s = (t, ids)"
  shows "wf_accounts t" and "accounts_grow s t"
    and "code \<in> fst ` set (system_accounts A) \<Longrightarrow> is_account t A code (account_id ids code)"
proof -
  from ensure_accounts_grows [OF assms(1) assms(2) [unfolded ensureSystemAccounts_def]]
  have *: "wf_accounts t \<and> accounts_grow s t" "map fst ids = map fst (system_accounts A)"
    "\<forall>(code, i) \<in> set ids. is_account t A code i" by auto
  from * show "wf_accounts t" and "accounts_grow s t" by auto
  assume "code \<in> fst ` set (system_accounts A)"
  with *(2) have "code \<in> fst ` set ids" by (metis set_map)
  then obtain i where "map_of ids code = Some i" by (metis map_of_eq_None_iff not_None_eq)
  then show "is_account t A code (account_id ids code)"
    using *(3) by (auto simp: account_id_def dest: map_of_SomeD)
qed

text \<open>The codes of the system accounts are five, and no customer's liability code is among them.\<close>

lemma system_codes:
  "fst ` set (system_accounts A) =
     {''treasury'', ''allocation-clearing'', ''operator-revenue'', ''network-fee'', ''network-fee-recovery''}"
  by (auto simp: system_accounts_def)

lemma liability_code_inj [simp]: "liability_code c = liability_code d \<longleftrightarrow> c = d"
  by (simp add: liability_code_def)

lemma liability_code_system [simp]:
  "liability_code c \<noteq> ''treasury''" "liability_code c \<noteq> ''allocation-clearing''"
  "liability_code c \<noteq> ''operator-revenue''" "liability_code c \<noteq> ''network-fee''"
  "liability_code c \<noteq> ''network-fee-recovery''"
  "''treasury'' \<noteq> liability_code c" "''allocation-clearing'' \<noteq> liability_code c"
  "''operator-revenue'' \<noteq> liability_code c" "''network-fee'' \<noteq> liability_code c"
  "''network-fee-recovery'' \<noteq> liability_code c"
  by (simp_all add: liability_code_def)

section \<open>Well-formed journals\<close>

definition balanced :: "journal_transaction \<Rightarrow> bool" where
  "balanced t \<longleftrightarrow> side_total DEBIT (jt_entries t) = side_total CREDIT (jt_entries t) \<and>
     0 < side_total DEBIT (jt_entries t)"

definition entries_of_asset :: "store \<Rightarrow> AssetCode \<Rightarrow> journal_entry list \<Rightarrow> bool" where
  "entries_of_asset s A es \<longleftrightarrow> (\<forall>e \<in> set es. \<exists>C. is_account s A C (je_accountId e))"

definition wf_ledger :: "store \<Rightarrow> bool" where
  "wf_ledger s \<longleftrightarrow> wf_accounts s \<and> unique_on journal_key (journalTransactions s) \<and>
     jt_id ` set (journalTransactions s) \<subseteq> minted_ids s \<and>
     (\<forall>t \<in> set (journalTransactions s).
        balanced t \<and> entries_of_asset s (jt_asset t) (jt_entries t))"

definition balance :: "store \<Rightarrow> AssetCode \<Rightarrow> string \<Rightarrow> atomic" where
  "balance s A C = account_total s A C CREDIT - account_total s A C DEBIT"

text \<open>What a list of entries adds to the balance of an account.\<close>

definition effect :: "store \<Rightarrow> AssetCode \<Rightarrow> string \<Rightarrow> journal_entry list \<Rightarrow> atomic" where
  "effect s A C es =
     sum_where (\<lambda>e. je_direction e = CREDIT \<and> is_account s A C (je_accountId e)) je_amountAtomic es
   - sum_where (\<lambda>e. je_direction e = DEBIT \<and> is_account s A C (je_accountId e)) je_amountAtomic es"

lemma customerBalance_balance: "customerBalance c A s = balance s A (liability_code c)"
  by (simp add: customerBalance_def balance_def)

lemma operatorBalance_balance: "operatorBalance A s = balance s A ''operator-revenue''"
  by (simp add: operatorBalance_def balance_def)

lemma balance_effect: "balance s A C = effect s A C (all_entries s)"
  by (simp add: balance_def effect_def account_total_def)

lemma effect_simps [simp]:
  "effect s A C [] = 0"
  "effect s A C (e # es) =
     (if is_account s A C (je_accountId e)
      then (if je_direction e = CREDIT then je_amountAtomic e else - je_amountAtomic e) else 0)
     + effect s A C es"
  "effect s A C (es @ fs) = effect s A C es + effect s A C fs"
  by (cases "je_direction e"; simp add: effect_def)+

lemma side_total_simps [simp]:
  "side_total dir [] = 0"
  "side_total dir (e # es) = (if je_direction e = dir then je_amountAtomic e else 0) + side_total dir es"
  "side_total dir (es @ fs) = side_total dir es + side_total dir fs"
  by (simp_all add: side_total_def)

lemma effect_cong:
  "(\<And>e. e \<in> set es \<Longrightarrow> is_account s A C (je_accountId e) \<longleftrightarrow> is_account t A C (je_accountId e)) \<Longrightarrow>
   effect s A C es = effect t A C es"
  by (induction es) auto

lemma entries_of_asset_grow:
  "accounts_grow s t \<Longrightarrow> entries_of_asset s A es \<Longrightarrow> entries_of_asset t A es"
  unfolding entries_of_asset_def by (blast intro: accounts_grow_account)

lemma entries_of_asset_keys:
  "entries_of_asset s A es \<Longrightarrow> e \<in> set es \<Longrightarrow> je_accountId e \<in> fst ` set (account_keys s)"
  by (force simp: entries_of_asset_def is_account_keys)

lemma wf_ledger_entry_keys:
  "wf_ledger s \<Longrightarrow> e \<in> set (all_entries s) \<Longrightarrow> je_accountId e \<in> fst ` set (account_keys s)"
  by (auto simp: wf_ledger_def all_entries_def dest: entries_of_asset_keys)

lemma effect_grow:
  assumes "accounts_grow s t" and "wf_accounts t"
    and "\<And>e. e \<in> set es \<Longrightarrow> je_accountId e \<in> fst ` set (account_keys s)"
  shows "effect t A C es = effect s A C es"
  using assms by (intro effect_cong) (simp add: accounts_grow_is_account)

lemma wf_ledger_grow:
  assumes "wf_ledger s" and "accounts_grow s t" and "wf_accounts t"
  shows "wf_ledger t" and "balance t A C = balance s A C"
proof -
  from assms show "wf_ledger t"
    using accounts_grow_minted [OF assms(2)]
    by (auto simp: wf_ledger_def accounts_grow_tables [OF assms(2)] intro: entries_of_asset_grow)
  from effect_grow [OF assms(2,3) wf_ledger_entry_keys [OF assms(1)]]
  show "balance t A C = balance s A C"
    by (simp add: balance_effect accounts_grow_tables [OF assms(2)])
qed

text \<open>A journal that \<open>post\<close> accepts, and what it changes.\<close>

lemma post_Inr_iff:
  "post input s = Inr (t, j) \<longleftrightarrow>
     side_total DEBIT (ji_entries input) = side_total CREDIT (ji_entries input) \<and>
     0 < side_total DEBIT (ji_entries input) \<and>
     (ji_asset input, ji_type input, ji_referenceType input, ji_referenceId input)
       \<notin> journal_key ` set (journalTransactions s) \<and>
     j = \<lparr>jt_id = uuids s (minted s), jt_asset = ji_asset input, jt_type = ji_type input,
          jt_referenceType = ji_referenceType input, jt_referenceId = ji_referenceId input,
          jt_description = ji_description input, jt_entries = ji_entries input\<rparr> \<and>
     t = s\<lparr>minted := Suc (minted s), journalTransactions := journalTransactions s @ [j]\<rparr>"
  by (auto simp: post_def new_id_def Let_def)

lemma post_effect:
  assumes "wf_ledger s" and "post input s = Inr (t, j)"
    and "entries_of_asset s (ji_asset input) (ji_entries input)"
  shows "wf_ledger t"
    and "balance t A C = balance s A C + effect s A C (ji_entries input)"
    and "t = s\<lparr>minted := Suc (minted s), journalTransactions := journalTransactions s @ [j]\<rparr>"
proof -
  from assms(2) have bal: "balanced j" and j: "jt_entries j = ji_entries input"
    "jt_asset j = ji_asset input" "jt_id j = uuids s (minted s)"
    and key: "journal_key j \<notin> journal_key ` set (journalTransactions s)"
    by (auto simp: post_Inr_iff balanced_def journal_key_def)
  from assms(2) show t: "t = s\<lparr>minted := Suc (minted s), journalTransactions := journalTransactions s @ [j]\<rparr>"
    by (simp add: post_Inr_iff)
  have jts: "journalTransactions t = journalTransactions s @ [j]" and u: "uuids t = uuids s"
    by (simp_all add: t)
  have acc: "is_account t = is_account s" "account_keys t = account_keys s"
    by (simp_all add: t is_account_def account_keys_def fun_eq_iff)
  have ids: "minted_ids t = insert (uuids s (minted s)) (minted_ids s)"
    by (simp add: t minted_ids_def lessThan_Suc)
  from assms(1,3) key bal show "wf_ledger t"
    unfolding wf_ledger_def wf_accounts_def entries_of_asset_def acc ids jts u
    by (auto simp: j)
  show "balance t A C = balance s A C + effect s A C (ji_entries input)"
    by (simp add: balance_effect all_entries_def effect_def acc jts j)
qed

section \<open>Books balance\<close>

lemma effect_all_accounts:
  assumes "wf_accounts s" and "entries_of_asset s A es"
  shows "(\<Sum>a \<leftarrow> filter (\<lambda>a. la_asset a = A) (ledgerAccounts s).
            sum_where (\<lambda>e. je_accountId e = la_id a \<and> je_direction e = dir) je_amountAtomic es) =
         side_total dir es"
  using assms(2)
proof (induction es)
  case Nil
  then show ?case by simp
next
  case (Cons e es)
  let ?as = "filter (\<lambda>a. la_asset a = A) (ledgerAccounts s)"
  have ids: "unique_on la_id (ledgerAccounts s)"
    using assms(1) by (simp add: wf_accounts_def account_keys_def o_def)
  from Cons.prems obtain C where "is_account s A C (je_accountId e)"
    by (auto simp: entries_of_asset_def)
  then obtain a where a: "a \<in> set ?as" "la_id a = je_accountId e"
    by (auto simp: is_account_def list_ex_iff)
  have "unique_on la_id ?as" using ids by (rule distinct_map_filter)
  note one = sum_list_if_unique [OF this a]
  have "(\<Sum>b \<leftarrow> ?as. sum_where (\<lambda>e. je_accountId e = la_id b \<and> je_direction e = dir)
          je_amountAtomic (e # es)) =
        (\<Sum>b \<leftarrow> ?as. if la_id b = je_accountId e
           then (if je_direction e = dir then je_amountAtomic e else 0) else 0)
        + (\<Sum>b \<leftarrow> ?as. sum_where (\<lambda>e. je_accountId e = la_id b \<and> je_direction e = dir)
          je_amountAtomic es)"
    by (subst sum_list_addf [symmetric]) (rule arg_cong [of _ _ sum_list], auto)
  also have "\<dots> = side_total dir (e # es)"
    unfolding one using Cons by (simp add: entries_of_asset_def)
  finally show ?case .
qed

lemma entries_of_other_asset:
  assumes "wf_accounts s" and "entries_of_asset s B es" and "B \<noteq> A"
    and "a \<in> set (ledgerAccounts s)" and "la_asset a = A" and "e \<in> set es"
  shows "je_accountId e \<noteq> la_id a"
proof
  assume "je_accountId e = la_id a"
  with assms(2,6) obtain C where "is_account s B C (la_id a)" by (auto simp: entries_of_asset_def)
  moreover have "is_account s A (la_code a) (la_id a)"
    using assms(4,5) by (auto simp: is_account_def list_ex_iff)
  ultimately show False using is_account_unique [OF assms(1)] assms(3) by metis
qed

lemma trial_sum_transactions:
  assumes "wf_accounts s" and "\<forall>t \<in> set ts. entries_of_asset s (jt_asset t) (jt_entries t)"
  shows "(\<Sum>a \<leftarrow> filter (\<lambda>a. la_asset a = A) (ledgerAccounts s).
            sum_where (\<lambda>e. je_accountId e = la_id a \<and> je_direction e = dir) je_amountAtomic
              (concat (map jt_entries ts))) =
         (\<Sum>t \<leftarrow> filter (\<lambda>t. jt_asset t = A) ts. side_total dir (jt_entries t))"
  using assms(2)
proof (induction ts)
  case Nil
  then show ?case by simp
next
  case (Cons t ts)
  let ?as = "filter (\<lambda>a. la_asset a = A) (ledgerAccounts s)"
  have "(\<Sum>a \<leftarrow> ?as. sum_where (\<lambda>e. je_accountId e = la_id a \<and> je_direction e = dir)
           je_amountAtomic (jt_entries t)) = (if jt_asset t = A then side_total dir (jt_entries t) else 0)"
  proof (cases "jt_asset t = A")
    case True
    with Cons.prems effect_all_accounts [OF assms(1)] show ?thesis by auto
  next
    case False
    with Cons.prems entries_of_other_asset [OF assms(1) _ False]
    have "sum_where (\<lambda>e. je_accountId e = la_id a \<and> je_direction e = dir) je_amountAtomic
            (jt_entries t) = 0" if "a \<in> set ?as" for a
      using that by (intro sum_where_none) auto
    then have "(\<Sum>a \<leftarrow> ?as. sum_where (\<lambda>e. je_accountId e = la_id a \<and> je_direction e = dir)
           je_amountAtomic (jt_entries t)) = 0" by (rule sum_list_map_zero)
    with False show ?thesis by simp
  qed
  with Cons show ?case by (simp add: sum_list_addf)
qed

lemma trialBalance_sum:
  assumes "wf_ledger s"
  shows "sum_list (map tr_debitAtomic (trialBalance A s)) = sum_list (map tr_creditAtomic (trialBalance A s))"
proof -
  have "wf_accounts s" "\<forall>t \<in> set (journalTransactions s). entries_of_asset s (jt_asset t) (jt_entries t)"
    using assms by (auto simp: wf_ledger_def)
  note trial_sum_transactions [OF this]
  moreover have "(\<Sum>t \<leftarrow> filter (\<lambda>t. jt_asset t = A) (journalTransactions s). side_total DEBIT (jt_entries t)) =
        (\<Sum>t \<leftarrow> filter (\<lambda>t. jt_asset t = A) (journalTransactions s). side_total CREDIT (jt_entries t))"
    using assms by (intro sum_list_map_cong) (auto simp: wf_ledger_def balanced_def)
  ultimately show ?thesis
    by (simp add: trialBalance_def o_def all_entries_def)
qed

section \<open>Effect of the payout postings\<close>

text \<open>What a posting may change besides the accounts and the journal: nothing.\<close>

definition ledger_only :: "store \<Rightarrow> store \<Rightarrow> bool" where
  "ledger_only s t \<longleftrightarrow> minted s \<le> minted t \<and>
     t = s\<lparr>minted := minted t, ledgerAccounts := ledgerAccounts t,
          journalTransactions := journalTransactions t\<rparr>"

lemma ledger_only_refl [simp]: "ledger_only s s"
  by (simp add: ledger_only_def)

lemma ledger_only_tables:
  assumes "ledger_only s t"
  shows "shareEvents t = shareEvents s" "deposits t = deposits s"
    "allocationBatches t = allocationBatches s" "payoutBatches t = payoutBatches s"
    "uuids t = uuids s" "splitPolicies t = splitPolicies s"
    "payoutDestinations t = payoutDestinations s" "systemSettings t = systemSettings s"
    "customers t = customers s" "upstreams t = upstreams s" "alerts t = alerts s"
    "auditEvents t = auditEvents s" "eventLog t = eventLog s"
proof -
  from assms obtain m as js where
    "t = s\<lparr>minted := m, ledgerAccounts := as, journalTransactions := js\<rparr>"
    unfolding ledger_only_def by blast
  then show "shareEvents t = shareEvents s" "deposits t = deposits s"
    "allocationBatches t = allocationBatches s" "payoutBatches t = payoutBatches s"
    "uuids t = uuids s" "splitPolicies t = splitPolicies s"
    "payoutDestinations t = payoutDestinations s" "systemSettings t = systemSettings s"
    "customers t = customers s" "upstreams t = upstreams s" "alerts t = alerts s"
    "auditEvents t = auditEvents s" "eventLog t = eventLog s"
    by simp_all
qed

lemma ledger_only_trans: "ledger_only s t \<Longrightarrow> ledger_only t u \<Longrightarrow> ledger_only s u"
proof -
  assume "ledger_only s t" "ledger_only t u"
  then obtain m as js m' as' js' where
    "t = s\<lparr>minted := m, ledgerAccounts := as, journalTransactions := js\<rparr>" "minted s \<le> minted t"
    "u = t\<lparr>minted := m', ledgerAccounts := as', journalTransactions := js'\<rparr>" "minted t \<le> minted u"
    unfolding ledger_only_def by blast
  then show ?thesis by (simp add: ledger_only_def)
qed

lemma ledger_only_minted: "ledger_only s t \<Longrightarrow> minted_ids s \<subseteq> minted_ids t"
  using ledger_only_tables(5) [of s t] by (auto simp: ledger_only_def minted_ids_def)

lemma accounts_grow_ledger_only: "accounts_grow s t \<Longrightarrow> ledger_only s t"
proof -
  assume "accounts_grow s t"
  then obtain m as where "t = s\<lparr>minted := m, ledgerAccounts := as\<rparr>" "minted s \<le> minted t"
    unfolding accounts_grow_def by blast
  then show ?thesis by (simp add: ledger_only_def)
qed

lemma post_ledger_only: "post input s = Inr (t, j) \<Longrightarrow> ledger_only s t"
  by (auto simp: post_Inr_iff ledger_only_def)

lemma payout_journal_fields:
  "ji_asset (payout_journal q l ids) = pq_asset q"
  "side_total DEBIT (ji_entries (payout_journal q l ids)) = pq_grossAtomic q + max 0 (pq_feeAtomic q)"
  "side_total CREDIT (ji_entries (payout_journal q l ids)) = pq_grossAtomic q + max 0 (pq_feeAtomic q)"
  by (auto simp: payout_journal_def)

lemma payout_journal_effect:
  assumes "wf_accounts s" and "is_account s (pq_asset q) (liability_code (pq_customerId q)) l"
    and "\<And>c. c \<in> fst ` set (system_accounts (pq_asset q)) \<Longrightarrow> is_account s (pq_asset q) c (account_id ids c)"
  shows "entries_of_asset s (pq_asset q) (ji_entries (payout_journal q l ids))"
    and "effect s A (liability_code c) (ji_entries (payout_journal q l ids)) =
           - (if c = pq_customerId q \<and> A = pq_asset q then pq_grossAtomic q else 0)"
    and "effect s A ''operator-revenue'' (ji_entries (payout_journal q l ids)) = 0"
    and "effect s A ''treasury'' (ji_entries (payout_journal q l ids)) =
           (if A = pq_asset q then pq_grossAtomic q +
              (if 0 < pq_feeAtomic q \<and> pq_operatorPaysFee q then pq_feeAtomic q else 0) else 0)"
proof -
  note sys = assms(3) [unfolded system_codes]
  have accs: "is_account s A C l \<longleftrightarrow> A = pq_asset q \<and> C = liability_code (pq_customerId q)"
    "is_account s A C (account_id ids ''treasury'') \<longleftrightarrow> A = pq_asset q \<and> C = ''treasury''"
    "is_account s A C (account_id ids ''network-fee'') \<longleftrightarrow> A = pq_asset q \<and> C = ''network-fee''"
    "is_account s A C (account_id ids ''network-fee-recovery'') \<longleftrightarrow>
       A = pq_asset q \<and> C = ''network-fee-recovery''" for A C
    using is_account_unique [OF assms(1,2)] sys [THEN is_account_unique [OF assms(1)]] by simp_all
  show "entries_of_asset s (pq_asset q) (ji_entries (payout_journal q l ids))"
    by (auto simp: payout_journal_def entries_of_asset_def accs)
  show "effect s A (liability_code c) (ji_entries (payout_journal q l ids)) =
           - (if c = pq_customerId q \<and> A = pq_asset q then pq_grossAtomic q else 0)"
    by (simp add: payout_journal_def accs)
  show "effect s A ''operator-revenue'' (ji_entries (payout_journal q l ids)) = 0"
    by (simp add: payout_journal_def accs)
  show "effect s A ''treasury'' (ji_entries (payout_journal q l ids)) =
           (if A = pq_asset q then pq_grossAtomic q +
              (if 0 < pq_feeAtomic q \<and> pq_operatorPaysFee q then pq_feeAtomic q else 0) else 0)"
    by (simp add: payout_journal_def accs)
qed

lemma find_account_is_account:
  assumes "is_account s A C i" shows "\<exists>a. find_account A C s = Some a"
  using assms by (cases "find_account A C s") (auto simp: is_account_keys dest!: find_account_None, force)

lemma postPayout_cases:
  assumes "wf_ledger s" and "postPayout q s = Inr (t, j)"
  obtains s1 ids l where "ensureSystemAccounts (pq_asset q) s = (s1, ids)" "wf_accounts s1"
    "accounts_grow s s1" "wf_ledger s1" "\<And>A C. balance s1 A C = balance s A C"
    "is_account s1 (pq_asset q) (liability_code (pq_customerId q)) l"
    "\<And>c. c \<in> fst ` set (system_accounts (pq_asset q)) \<Longrightarrow> is_account s1 (pq_asset q) c (account_id ids c)"
    "post (payout_journal q l ids) s1 = Inr (t, j)"
proof -
  obtain s1 ids where e: "ensureSystemAccounts (pq_asset q) s = (s1, ids)" by fastforce
  from assms(2) e obtain l where
    l: "find_account (pq_asset q) (liability_code (pq_customerId q)) s1 = Some l"
    and p: "post (payout_journal q (la_id l) ids) s1 = Inr (t, j)"
    by (auto simp: postPayout_def split: option.splits)
  have "wf_accounts s" using assms(1) by (simp add: wf_ledger_def)
  note g = ensureSystemAccounts_grows [OF this e]
  from that [OF e g(1,2) wf_ledger_grow [OF assms(1) g(2) g(1)] _ g(3) p] find_account_SomeD [OF l]
  show thesis by blast
qed

lemma postPayout_effect:
  assumes "wf_ledger s" and "postPayout q s = Inr (t, j)"
  shows "wf_ledger t" and "ledger_only s t"
    and "customerBalance c A t = customerBalance c A s -
           (if c = pq_customerId q \<and> A = pq_asset q then pq_grossAtomic q else 0)"
    and "operatorBalance A t = operatorBalance A s"
    and "balance t A ''treasury'' = balance s A ''treasury'' +
           (if A = pq_asset q then pq_grossAtomic q +
              (if 0 < pq_feeAtomic q \<and> pq_operatorPaysFee q then pq_feeAtomic q else 0) else 0)"
proof -
  from assms obtain s1 ids l where e: "ensureSystemAccounts (pq_asset q) s = (s1, ids)"
    and s1: "wf_accounts s1" "accounts_grow s s1" "wf_ledger s1" "\<And>A C. balance s1 A C = balance s A C"
    and l: "is_account s1 (pq_asset q) (liability_code (pq_customerId q)) l"
    and sys: "\<And>c. c \<in> fst ` set (system_accounts (pq_asset q)) \<Longrightarrow> is_account s1 (pq_asset q) c (account_id ids c)"
    and p: "post (payout_journal q l ids) s1 = Inr (t, j)"
    by (rule postPayout_cases) blast
  note j = payout_journal_effect [OF s1(1) l sys]
  from post_effect [OF s1(3) p] j(1)
  have eff: "wf_ledger t" "\<And>A C. balance t A C = balance s1 A C + effect s1 A C (ji_entries (payout_journal q l ids))"
    by (simp_all add: payout_journal_fields)
  from eff(1) show "wf_ledger t" .
  from s1(2) p show "ledger_only s t"
    by (blast intro: accounts_grow_ledger_only post_ledger_only ledger_only_trans)
  show "customerBalance c A t = customerBalance c A s -
           (if c = pq_customerId q \<and> A = pq_asset q then pq_grossAtomic q else 0)"
    by (simp add: customerBalance_balance eff(2) s1(4) j)
  show "operatorBalance A t = operatorBalance A s"
    by (simp add: operatorBalance_balance eff(2) s1(4) j)
  show "balance t A ''treasury'' = balance s A ''treasury'' +
           (if A = pq_asset q then pq_grossAtomic q +
              (if 0 < pq_feeAtomic q \<and> pq_operatorPaysFee q then pq_feeAtomic q else 0) else 0)"
    by (simp add: eff(2) s1(4) j)
qed

lemma operator_payout_journal_effect:
  assumes "wf_accounts s"
    and "\<And>c. c \<in> fst ` set (system_accounts A) \<Longrightarrow> is_account s A c (account_id ids c)"
  shows "entries_of_asset s A (ji_entries (operator_payout_journal b A g f ids))"
    and "effect s B (liability_code c) (ji_entries (operator_payout_journal b A g f ids)) = 0"
    and "effect s B ''operator-revenue'' (ji_entries (operator_payout_journal b A g f ids)) =
           - (if B = A then g else 0)"
    and "effect s B ''treasury'' (ji_entries (operator_payout_journal b A g f ids)) =
           (if B = A then g else 0)"
proof -
  note sys = assms(2) [unfolded system_codes]
  have accs: "is_account s B C (account_id ids ''operator-revenue'') \<longleftrightarrow> B = A \<and> C = ''operator-revenue''"
    "is_account s B C (account_id ids ''treasury'') \<longleftrightarrow> B = A \<and> C = ''treasury''"
    "is_account s B C (account_id ids ''network-fee'') \<longleftrightarrow> B = A \<and> C = ''network-fee''"
    "is_account s B C (account_id ids ''network-fee-recovery'') \<longleftrightarrow>
       B = A \<and> C = ''network-fee-recovery''" for B C
    using sys [THEN is_account_unique [OF assms(1)]] by simp_all
  show "entries_of_asset s A (ji_entries (operator_payout_journal b A g f ids))"
    by (auto simp: operator_payout_journal_def entries_of_asset_def accs)
  show "effect s B (liability_code c) (ji_entries (operator_payout_journal b A g f ids)) = 0"
    by (simp add: operator_payout_journal_def accs)
  show "effect s B ''operator-revenue'' (ji_entries (operator_payout_journal b A g f ids)) =
           - (if B = A then g else 0)"
    by (simp add: operator_payout_journal_def accs)
  show "effect s B ''treasury'' (ji_entries (operator_payout_journal b A g f ids)) =
           (if B = A then g else 0)"
    by (simp add: operator_payout_journal_def accs)
qed

lemma postOperatorPayout_effect:
  assumes "wf_ledger s" and "postOperatorPayout b A g f s = Inr (t, j)"
  shows "wf_ledger t" and "ledger_only s t"
    and "customerBalance c B t = customerBalance c B s"
    and "operatorBalance B t = operatorBalance B s - (if B = A then g else 0)"
    and "balance t B ''treasury'' = balance s B ''treasury'' + (if B = A then g else 0)"
proof -
  obtain s1 ids where e: "ensureSystemAccounts A s = (s1, ids)" by fastforce
  from assms(2) e have p: "post (operator_payout_journal b A g f ids) s1 = Inr (t, j)"
    by (simp add: postOperatorPayout_def)
  have "wf_accounts s" using assms(1) by (simp add: wf_ledger_def)
  note gr = ensureSystemAccounts_grows [OF this e]
  note w = wf_ledger_grow [OF assms(1) gr(2) gr(1)]
  note ef = operator_payout_journal_effect [OF gr(1,3)]
  have "ji_asset (operator_payout_journal b A g f ids) = A" by (simp add: operator_payout_journal_def)
  note eff = post_effect [OF w(1) p, unfolded this, OF ef(1)]
  from eff(1) show "wf_ledger t" .
  from gr(2) p show "ledger_only s t"
    by (blast intro: accounts_grow_ledger_only post_ledger_only ledger_only_trans)
  show "customerBalance c B t = customerBalance c B s"
    by (simp add: customerBalance_balance eff(2) w(2) ef)
  show "operatorBalance B t = operatorBalance B s - (if B = A then g else 0)"
    by (simp add: operatorBalance_balance eff(2) w(2) ef)
  show "balance t B ''treasury'' = balance s B ''treasury'' + (if B = A then g else 0)"
    by (simp add: eff(2) w(2) ef)
qed

text \<open>A payout posting goes through whenever the customer has a liability account.\<close>

lemma postPayout_total:
  assumes "wf_ledger s" and "is_account s (pq_asset q) (liability_code (pq_customerId q)) i"
    and "0 < pq_grossAtomic q + max 0 (pq_feeAtomic q)"
    and "(pq_asset q, JournalType.PAYOUT, ''PayoutItem'', pq_batchId q @ '':'' @ pq_customerId q)
           \<notin> journal_key ` set (journalTransactions s)"
  shows "\<exists>t j. postPayout q s = Inr (t, j)"
proof -
  obtain s1 ids where e: "ensureSystemAccounts (pq_asset q) s = (s1, ids)" by fastforce
  have "wf_accounts s" using assms(1) by (simp add: wf_ledger_def)
  note g = ensureSystemAccounts_grows [OF this e]
  from find_account_is_account [OF accounts_grow_account [OF g(2) assms(2)]] obtain l where
    l: "find_account (pq_asset q) (liability_code (pq_customerId q)) s1 = Some l" by blast
  have "\<exists>t j. post (payout_journal q (la_id l) ids) s1 = Inr (t, j)"
    using assms(3,4)
    by (simp add: post_Inr_iff payout_journal_fields accounts_grow_tables [OF g(2)])
       (simp add: payout_journal_def)
  with e l show ?thesis by (simp add: postPayout_def)
qed

section \<open>The interface the payouts rely on\<close>

text \<open>
  Posting a payout lowers what the ledger owes to the payee by the amount due and touches no
  other debt.  From this law the effect of a whole loop of postings follows once and for all.
\<close>

locale payout_ledger =
  fixes inv :: "'s \<Rightarrow> bool"
    and owed :: "'c \<Rightarrow> 's \<Rightarrow> int"
    and pay :: "'q \<Rightarrow> 's \<Rightarrow> 's result"
    and payee :: "'q \<Rightarrow> 'c"
    and due :: "'q \<Rightarrow> int"
  assumes pay_inv: "inv s \<Longrightarrow> pay q s = Inr t \<Longrightarrow> inv t"
    and pay_owed: "inv s \<Longrightarrow> pay q s = Inr t \<Longrightarrow>
          owed c t = owed c s - (if payee q = c then due q else 0)"
begin

lemma pay_all:
  "inv s \<Longrightarrow> fold_result pay qs s = Inr t \<Longrightarrow>
   inv t \<and> owed c t = owed c s - sum_where (\<lambda>q. payee q = c) due qs"
proof (induction qs arbitrary: s)
  case Nil
  then show ?case by simp
next
  case (Cons q qs)
  then obtain s1 where s1: "pay q s = Inr s1" "fold_result pay qs s1 = Inr t"
    by (auto simp: ebind_eq_Inr)
  from Cons.IH [OF pay_inv [OF Cons.prems(1) s1(1)] s1(2)] pay_owed [OF Cons.prems(1) s1(1)]
  show ?case by simp
qed

text \<open>What is covered stays covered: no debt is overdrawn when the sum due per payee is owed.\<close>

lemma pay_all_covered:
  assumes "inv s" and "fold_result pay qs s = Inr t"
    and "sum_where (\<lambda>q. payee q = c) due qs + reserve \<le> owed c s"
  shows "reserve \<le> owed c t"
  using pay_all [OF assms(1,2), of c] assms(3) by simp

end

definition post_only :: "payout_posting \<Rightarrow> store \<Rightarrow> store result" where
  "post_only q s = ebind (postPayout q s) (\<lambda>(t, _). Inr t)"

definition post_operator_only ::
    "uuid \<times> AssetCode \<times> atomic \<times> atomic \<Rightarrow> store \<Rightarrow> store result" where
  "post_operator_only = (\<lambda>(b, A, g, f) s. ebind (postOperatorPayout b A g f s) (\<lambda>(t, _). Inr t))"

interpretation customer_ledger: payout_ledger wf_ledger "\<lambda>(A, c) s. customerBalance c A s"
  post_only "\<lambda>q. (pq_asset q, pq_customerId q)" pq_grossAtomic
  by unfold_locales
    (auto simp: post_only_def ebind_eq_Inr postPayout_effect(1) postPayout_effect(3)
      split: if_splits)

interpretation operator_ledger: payout_ledger wf_ledger operatorBalance
  post_operator_only "\<lambda>(b, A, g, f). A" "\<lambda>(b, A, g, f). g"
  by unfold_locales
    (auto simp: post_operator_only_def ebind_eq_Inr postOperatorPayout_effect(1) postOperatorPayout_effect(4)
      split: if_splits)

section \<open>Main properties\<close>

text \<open>A store with one customer account, on which the properties are evaluated.\<close>

definition one_account_store :: store where
  "one_account_store = (empty_store show_nat)
     \<lparr>minted := 1,
      ledgerAccounts := [\<lparr>la_id = ''0'', la_asset = BTC, la_customerId = Some ''c'',
        la_code = ''customer:c:liability'', la_name = ''Customer c liability'', la_type = LIABILITY\<rparr>]\<rparr>"

lemma one_account_store_wf: "wf_ledger one_account_store"
proof -
  have "show_nat 0 = ''0''" by code_simp
  then show ?thesis
    by (simp add: wf_ledger_def wf_accounts_def one_account_store_def empty_store_def account_keys_def
        minted_ids_def)
qed

text \<open>C13: A customer payout moves exactly its gross amount.  When \<open>postPayout\<close> succeeds, the ledger
  is well formed again, the balance of the paid customer in that asset falls by the gross amount
  and no other customer's balance and no operator balance moves; the treasury gives out the gross
  amount, and the network fee on top of it only if the operator pays the fee.\<close>

theorem postPayout_moves_gross:
  assumes "wf_ledger s" and "postPayout q s = Inr (t, j)"
  shows "wf_ledger t \<and>
    (\<forall>c A. customerBalance c A t = customerBalance c A s -
       (if c = pq_customerId q \<and> A = pq_asset q then pq_grossAtomic q else 0)) \<and>
    (\<forall>A. operatorBalance A t = operatorBalance A s) \<and>
    balance t (pq_asset q) ''treasury'' = balance s (pq_asset q) ''treasury'' + pq_grossAtomic q +
      (if 0 < pq_feeAtomic q \<and> pq_operatorPaysFee q then pq_feeAtomic q else 0)"
  using postPayout_effect [OF assms] by simp

lemma one_account_store_zero:
  "customerBalance c A one_account_store = 0" "operatorBalance A one_account_store = 0"
  "balance one_account_store A C = 0"
  by (simp_all add: customerBalance_def operatorBalance_def balance_def account_total_def
      all_entries_def one_account_store_def empty_store_def)

theorem postPayout_moves_gross_witness:
  "let q = \<lparr>pq_batchId = ''b'', pq_asset = BTC, pq_customerId = ''c'', pq_grossAtomic = 10,
            pq_feeAtomic = 1, pq_operatorPaysFee = True\<rparr>;
       t = fst (projr (postPayout q one_account_store))
   in wf_ledger t \<and> customerBalance ''c'' BTC t = - 10 \<and> balance t BTC ''treasury'' = 11"
proof -
  define q where "q = \<lparr>pq_batchId = ''b'', pq_asset = BTC, pq_customerId = ''c'', pq_grossAtomic = 10,
            pq_feeAtomic = 1, pq_operatorPaysFee = True\<rparr>"
  have "is_account one_account_store (pq_asset q) (liability_code (pq_customerId q)) ''0''"
    by (simp add: q_def is_account_def one_account_store_def liability_code_def)
  from postPayout_total [OF one_account_store_wf this] obtain t j
    where p: "postPayout q one_account_store = Inr (t, j)"
    by (auto simp: q_def one_account_store_def empty_store_def)
  show ?thesis
    using postPayout_moves_gross [OF one_account_store_wf p] p
    by (simp add: one_account_store_zero Let_def q_def [symmetric]) (simp add: q_def)
qed

text \<open>An operator payout moves exactly its gross amount out of the operator's revenue and the
  treasury; the fee is booked against its recovery, and no customer's balance moves.\<close>

theorem postOperatorPayout_moves_gross:
  assumes "wf_ledger s" and "postOperatorPayout b A g f s = Inr (t, j)"
  shows "wf_ledger t \<and>
    (\<forall>B. operatorBalance B t = operatorBalance B s - (if B = A then g else 0)) \<and>
    (\<forall>c B. customerBalance c B t = customerBalance c B s) \<and>
    balance t A ''treasury'' = balance s A ''treasury'' + g"
  using postOperatorPayout_effect [OF assms] by simp

theorem postOperatorPayout_moves_gross_witness:
  "let t = fst (projr (postOperatorPayout ''b'' XMR 7 2 one_account_store))
   in wf_ledger t \<and> operatorBalance XMR t = - 7 \<and> balance t XMR ''treasury'' = 7"
proof -
  have "isl (postOperatorPayout ''b'' XMR 7 2 one_account_store) = False" by code_simp
  then obtain t j where p: "postOperatorPayout ''b'' XMR 7 2 one_account_store = Inr (t, j)"
    by (cases "postOperatorPayout ''b'' XMR 7 2 one_account_store") auto
  show ?thesis
    using postOperatorPayout_moves_gross [OF one_account_store_wf p]
    by (simp add: one_account_store_zero p)
qed

end
