(* ===== verification/DepositAllocation.thy ===== *)
theory DepositAllocation
  imports Allocation Ledger
begin

text \<open>
  The allocation of a confirmed deposit, \<open>LedgerService.allocateDeposit\<close> of
  \<open>apps/server/src/ledger/ledger.service.ts\<close>: the accepted, not yet allocated shares of the
  pool account are grouped, the amount is distributed over the groups by
  \<open>largestRemainder\<close>, each part is split by the policy in force when the shares were submitted,
  and two balanced journals carry the amount to the customers and the operator.
\<close>

section \<open>Allocation of a deposit\<close>

record work_group =
  wg_customerId :: uuid
  wg_splitPolicyId :: uuid
  wg_work :: rat

definition unallocated :: "uuid list \<Rightarrow> share_event \<Rightarrow> bool" where
  "unallocated endpointIds sh \<longleftrightarrow>
     sh_upstreamId sh \<in> set endpointIds \<and> sh_status sh = ACCEPTED \<and> sh_allocationBatchId sh = None"

definition work_groups :: "uuid list \<Rightarrow> store \<Rightarrow> work_group list" where
  "work_groups endpointIds s =
     (let shares = filter (unallocated endpointIds) (shareEvents s);
          keys = remdups (map (\<lambda>sh. (sh_customerId sh, sh_splitPolicyId sh)) shares)
      in filter (\<lambda>g. wg_work g > 0)
           (map (\<lambda>(c, p). \<lparr>wg_customerId = c, wg_splitPolicyId = p,
                   wg_work = sum_where (\<lambda>sh. sh_customerId sh = c \<and> sh_splitPolicyId sh = p)
                     sh_normalizedWork shares\<rparr>) keys))"

definition allocation_item_of ::
    "decimal_lib \<Rightarrow> split_policy list \<Rightarrow> work_group allocated_item \<Rightarrow> allocation_item result" where
  "allocation_item_of D policies a =
     (let g = ai_key a in
      case List.find (\<lambda>p. sp_id p = wg_splitPolicyId g) policies of
        None \<Rightarrow> Inl (Error (''Missing split policy '' @ wg_splitPolicyId g))
      | Some policy \<Rightarrow>
          ebind (splitBasisPoints (ai_amount a) (of_int (sp_customerBps policy)))
            (\<lambda>sp. Inr \<lparr>al_customerId = wg_customerId g, al_splitPolicyId = wg_splitPolicyId g,
                     al_work = dec_toFixed D 18 (wg_work g), al_grossAtomic = ai_amount a,
                     al_customerAtomic = split_customer sp, al_operatorAtomic = split_operator sp\<rparr>))"

definition allocation_items ::
    "decimal_lib \<Rightarrow> atomic \<Rightarrow> work_group list \<Rightarrow> split_policy list \<Rightarrow> allocation_item list result" where
  "allocation_items D amount groups policies =
     ebind (largestRemainder D amount (map (\<lambda>g. \<lparr>wi_key = g, wi_weight = wg_work g\<rparr>) groups))
       (map_result (allocation_item_of D policies))"

text \<open>The insertion-ordered map \<open>customerTotals\<close>.\<close>

fun add_amount :: "uuid \<Rightarrow> atomic \<Rightarrow> (uuid \<times> atomic) list \<Rightarrow> (uuid \<times> atomic) list" where
  "add_amount c x [] = [(c, x)]"
| "add_amount c x ((d, y) # m) = (if c = d then (d, y + x) # m else (d, y) # add_amount c x m)"

definition customer_totals :: "allocation_item list \<Rightarrow> (uuid \<times> atomic) list" where
  "customer_totals items =
     fold (\<lambda>item m. add_amount (al_customerId item) (al_customerAtomic item) m) items []"

fun liability_entries ::
    "AssetCode \<Rightarrow> (uuid \<times> atomic) list \<Rightarrow> store \<Rightarrow> store \<times> journal_entry list" where
  "liability_entries asset [] s = (s, [])"
| "liability_entries asset ((customerId, amount) # rest) s =
     (if amount \<le> 0 then liability_entries asset rest s
      else let (s1, i) = upsert_liability_account asset customerId s;
               (s2, es) = liability_entries asset rest s1
           in (s2, credit_entry i amount # es))"

definition create_allocation_batch ::
    "instant \<Rightarrow> deposit \<Rightarrow> allocation_item list \<Rightarrow> atomic \<Rightarrow> atomic \<Rightarrow> store
     \<Rightarrow> (store \<times> allocation_batch) result" where
  "create_allocation_batch now d items customerTotal operatorTotal s =
     (if dp_id d \<in> ab_depositId ` set (allocationBatches s)
      then Inl (UniqueConstraint ''AllocationBatch'')
      else
        let (i, s1) = new_id s;
            b = \<lparr>ab_id = i, ab_asset = dp_asset d, ab_upstreamId = dp_upstreamId d,
                 ab_depositId = dp_id d, ab_totalAtomic = dp_amountAtomic d,
                 ab_customerTotalAtomic = customerTotal, ab_operatorTotalAtomic = operatorTotal,
                 ab_items = items, ab_createdAt = now\<rparr>
        in Inr (s1\<lparr>allocationBatches := allocationBatches s1 @ [b]\<rparr>, b))"

definition mark_allocated :: "uuid list \<Rightarrow> uuid \<Rightarrow> store \<Rightarrow> store" where
  "mark_allocated endpointIds batchId s =
     s\<lparr>shareEvents := update_where (unallocated endpointIds)
         (\<lambda>sh. sh\<lparr>sh_allocationBatchId := Some batchId\<rparr>) (shareEvents s)\<rparr>"

definition set_deposit_allocated :: "instant \<Rightarrow> uuid \<Rightarrow> store \<Rightarrow> store" where
  "set_deposit_allocated now depositId s =
     s\<lparr>deposits := update_where (\<lambda>d. dp_id d = depositId)
         (\<lambda>d. d\<lparr>dp_status := DepositStatus.ALLOCATED, dp_allocatedAt := Some now\<rparr>) (deposits s)\<rparr>"

text \<open>The two journal postings of an allocation, with the liability accounts they need.\<close>

definition deposit_journal :: "deposit \<Rightarrow> (string \<times> uuid) list \<Rightarrow> journal_input" where
  "deposit_journal d accounts =
     \<lparr>ji_asset = dp_asset d, ji_type = JournalType.DEPOSIT,
      ji_referenceType = ''Deposit'', ji_referenceId = dp_id d,
      ji_description = ''Confirmed upstream deposit '' @ dp_txid d,
      ji_entries = [debit_entry (account_id accounts ''treasury'') (dp_amountAtomic d),
                    credit_entry (account_id accounts ''allocation-clearing'') (dp_amountAtomic d)]\<rparr>"

definition allocation_journal ::
    "deposit \<Rightarrow> uuid \<Rightarrow> journal_entry list \<Rightarrow> atomic \<Rightarrow> (string \<times> uuid) list \<Rightarrow> journal_input" where
  "allocation_journal d batchId liabilityEntries operatorTotal accounts =
     \<lparr>ji_asset = dp_asset d, ji_type = JournalType.ALLOCATION,
      ji_referenceType = ''AllocationBatch'', ji_referenceId = batchId,
      ji_description = ''Allocate deposit '' @ dp_txid d,
      ji_entries =
        [debit_entry (account_id accounts ''allocation-clearing'') (dp_amountAtomic d)] @
        liabilityEntries @
        (if operatorTotal > 0
         then [credit_entry (account_id accounts ''operator-revenue'') operatorTotal] else [])\<rparr>"

definition post_allocation ::
    "deposit \<Rightarrow> allocation_batch \<Rightarrow> allocation_item list \<Rightarrow> atomic \<Rightarrow> store \<Rightarrow> store result" where
  "post_allocation d batch items operatorTotal s =
     (let (s1, accounts) = ensureSystemAccounts (dp_asset d) s
      in ebind (post (deposit_journal d accounts) s1)
           (\<lambda>(s2, _).
              let (s3, liabilities) = liability_entries (dp_asset d) (customer_totals items) s2
              in ebind (post (allocation_journal d (ab_id batch) liabilities operatorTotal accounts) s3)
                   (\<lambda>(s4, _). Inr s4)))"

definition account_endpoints :: "deposit \<Rightarrow> upstream \<Rightarrow> store \<Rightarrow> uuid list" where
  "account_endpoints d depositUpstream s =
     map up_id (filter (\<lambda>u. up_asset u = dp_asset d \<and>
        up_accountKey u = up_accountKey depositUpstream) (upstreams s))"

text \<open>The read-only half: who gets which part of the deposit.\<close>

definition plan_allocation ::
    "decimal_lib \<Rightarrow> deposit \<Rightarrow> uuid list \<Rightarrow> store \<Rightarrow> allocation_item list result" where
  "plan_allocation D d endpointIds s =
     (let groups = work_groups endpointIds s
      in if groups = []
         then Inl (ConflictException ''No accepted unallocated work for this upstream'')
         else
           let policies = filter (\<lambda>p. sp_id p \<in> set (map wg_splitPolicyId groups)) (splitPolicies s)
           in ebind (allocation_items D (dp_amountAtomic d) groups policies) (\<lambda>items.
                if sum_list (map al_customerAtomic items) + sum_list (map al_operatorAtomic items)
                     \<noteq> dp_amountAtomic d
                then Inl (Error ''Allocation invariant failed'')
                else Inr items))"

text \<open>The writing half: the batch, the shares, the two journals and the deposit.\<close>

definition commit_allocation ::
    "instant \<Rightarrow> deposit \<Rightarrow> uuid list \<Rightarrow> allocation_item list \<Rightarrow> store \<Rightarrow> (store \<times> allocation_batch) result" where
  "commit_allocation now d endpointIds items s =
     (let customerTotal = sum_list (map al_customerAtomic items);
          operatorTotal = sum_list (map al_operatorAtomic items)
      in ebind (create_allocation_batch now d items customerTotal operatorTotal s)
           (\<lambda>(s1, batch).
              ebind (post_allocation d batch items operatorTotal
                       (mark_allocated endpointIds (ab_id batch) s1))
                (\<lambda>s2. Inr (set_deposit_allocated now (dp_id d) s2, batch))))"

definition allocate_confirmed ::
    "decimal_lib \<Rightarrow> instant \<Rightarrow> deposit \<Rightarrow> store \<Rightarrow> (store \<times> allocation_batch) result" where
  "allocate_confirmed D now d s =
     (case List.find (\<lambda>u. up_id u = dp_upstreamId d) (upstreams s) of
        None \<Rightarrow> Inl (RecordNotFound ''Upstream'')
      | Some depositUpstream \<Rightarrow>
          let endpointIds = account_endpoints d depositUpstream s
          in ebind (plan_allocation D d endpointIds s)
               (\<lambda>items. commit_allocation now d endpointIds items s))"

definition allocate_body ::
    "decimal_lib \<Rightarrow> instant \<Rightarrow> uuid \<Rightarrow> store \<Rightarrow> (store \<times> allocation_batch) result" where
  "allocate_body D now depositId s =
     (case List.find (\<lambda>d. dp_id d = depositId) (deposits s) of
        None \<Rightarrow> Inl (NotFoundException ''Deposit not found'')
      | Some d \<Rightarrow>
          if dp_status d = DepositStatus.ALLOCATED
          then (case List.find (\<lambda>b. ab_depositId b = depositId) (allocationBatches s) of
                  None \<Rightarrow> Inl (ConflictException ''Deposit state is inconsistent'')
                | Some existing \<Rightarrow> Inr (s, existing))
          else if dp_status d \<noteq> DepositStatus.CONFIRMED
          then Inl (ConflictException ''Deposit is not confirmed'')
          else allocate_confirmed D now d s)"

definition allocateDeposit ::
    "decimal_lib \<Rightarrow> instant \<Rightarrow> uuid \<Rightarrow> store \<Rightarrow> store \<times> allocation_batch result" where
  "allocateDeposit D now depositId s =
     (case transaction (allocate_body D now depositId) s of
        (s1, Inl e) \<Rightarrow> (s1, Inl e)
      | (s1, Inr batch) \<Rightarrow> (publish ''deposit.allocated'' depositId s1, Inr batch))"

section \<open>Totals per customer\<close>

lemma add_amount_keys: "fst ` set (add_amount c x m) = insert c (fst ` set m)"
  by (induction c x m rule: add_amount.induct) auto

lemma add_amount_distinct: "unique_on fst m \<Longrightarrow> unique_on fst (add_amount c x m)"
  by (induction c x m rule: add_amount.induct) (auto simp: add_amount_keys image_iff)

lemma add_amount_sum: "sum_list (map snd (add_amount c x m)) = sum_list (map snd m) + x"
  by (induction c x m rule: add_amount.induct) auto

lemma add_amount_sum_where:
  "sum_where (\<lambda>p. fst p = d) snd (add_amount c x m) =
     sum_where (\<lambda>p. fst p = d) snd m + (if d = c then x else 0)"
  by (induction c x m rule: add_amount.induct) auto

lemma customer_totals_facts:
  "unique_on fst (customer_totals items)"
  "sum_list (map snd (customer_totals items)) = sum_list (map al_customerAtomic items)"
  "sum_where (\<lambda>p. fst p = c) snd (customer_totals items) =
     sum_where (\<lambda>i. al_customerId i = c) al_customerAtomic items"
proof -
  have "unique_on fst (fold (\<lambda>item m. add_amount (al_customerId item) (al_customerAtomic item) m) items m)"
    if "unique_on fst m" for m
    using that by (induction items arbitrary: m) (auto simp: add_amount_distinct)
  then show "unique_on fst (customer_totals items)" by (simp add: customer_totals_def)
  have "sum_list (map snd (fold (\<lambda>item m. add_amount (al_customerId item) (al_customerAtomic item) m) items m))
      = sum_list (map snd m) + sum_list (map al_customerAtomic items)" for m
    by (induction items arbitrary: m) (auto simp: add_amount_sum)
  then show "sum_list (map snd (customer_totals items)) = sum_list (map al_customerAtomic items)"
    by (simp add: customer_totals_def)
  have "sum_where (\<lambda>p. fst p = c) snd
          (fold (\<lambda>item m. add_amount (al_customerId item) (al_customerAtomic item) m) items m)
      = sum_where (\<lambda>p. fst p = c) snd m + sum_where (\<lambda>i. al_customerId i = c) al_customerAtomic items" for m
    by (induction items arbitrary: m) (auto simp: add_amount_sum_where)
  then show "sum_where (\<lambda>p. fst p = c) snd (customer_totals items) =
     sum_where (\<lambda>i. al_customerId i = c) al_customerAtomic items"
    by (simp add: customer_totals_def)
qed

lemma customer_totals_nonneg:
  assumes "\<forall>i \<in> set items. 0 \<le> al_customerAtomic i"
  shows "\<forall>p \<in> set (customer_totals items). 0 \<le> snd p"
proof -
  have add: "\<forall>p \<in> set (add_amount c x m). 0 \<le> snd p" if "\<forall>p \<in> set m. 0 \<le> snd p" "0 \<le> x" for c x m
    using that by (induction c x m rule: add_amount.induct) auto
  have "\<forall>p \<in> set (fold (\<lambda>item m. add_amount (al_customerId item) (al_customerAtomic item) m) items m). 0 \<le> snd p"
    if "\<forall>p \<in> set m. 0 \<le> snd p" for m
    using assms that
  proof (induction items arbitrary: m)
    case (Cons i items)
    then show ?case using add [OF Cons.prems(2), of "al_customerAtomic i" "al_customerId i"] by simp
  qed simp
  from this [of "[]"] show ?thesis by (simp add: customer_totals_def)
qed

section \<open>Liability entries\<close>

text \<open>The accounts the loop needs exist afterwards, and its entries credit what is positive.\<close>

lemma liability_entries_grows:
  "wf_accounts s \<Longrightarrow> liability_entries A totals s = (t, es) \<Longrightarrow>
   wf_accounts t \<and> accounts_grow s t \<and> entries_of_asset t A es \<and>
   side_total DEBIT es = 0 \<and> side_total CREDIT es = sum_where (\<lambda>p. 0 < snd p) snd totals \<and>
   (\<forall>B c. effect t B (liability_code c) es =
      (if B = A then sum_where (\<lambda>p. 0 < snd p \<and> fst p = c) snd totals else 0)) \<and>
   (\<forall>B C. (\<forall>c. C \<noteq> liability_code c) \<longrightarrow> effect t B C es = 0)"
proof (induction A totals s arbitrary: t es rule: liability_entries.induct)
  case (1 A s)
  then show ?case by (simp add: entries_of_asset_def)
next
  case (2 A c amount rest s)
  show ?case
  proof (cases "amount \<le> 0")
    case True
    with 2 show ?thesis by auto
  next
    case False
    obtain s1 i where u: "upsert_liability_account A c s = (s1, i)" by fastforce
    obtain es' where r: "liability_entries A rest s1 = (t, es')" and es: "es = credit_entry i amount # es'"
      using 2(4) False u by (auto split: prod.splits)
    from upsert_liability_account_grows [OF 2(3) u] have s1: "wf_accounts s1" "accounts_grow s s1"
      "is_account s1 A (liability_code c) i" by auto
    note IH = "2.IH"(2) [OF False u [symmetric] refl s1(1) r]
    then have t: "wf_accounts t" "accounts_grow s1 t" by auto
    note i = is_account_unique [OF t(1) accounts_grow_account [OF t(2) s1(3)]]
    from IH False s1(2) show ?thesis
      by (auto simp: es i entries_of_asset_def intro: accounts_grow_trans)
  qed
qed

lemma sum_positive_part:
  "sum_where (\<lambda>p. 0 < snd p \<and> P p) snd ps \<ge> sum_where P snd (ps :: ('a \<times> int) list)"
  by (induction ps) auto

text \<open>When the positive totals already add up to the whole, no total is negative.\<close>

lemma positive_part_all:
  assumes "sum_where (\<lambda>p. 0 < snd p) snd (ps :: ('a \<times> int) list) = sum_list (map snd ps)"
  shows "sum_where (\<lambda>p. 0 < snd p \<and> P p) snd ps = sum_where P snd ps"
proof -
  have all: "sum_where (\<lambda>p. 0 < snd p) snd ps \<ge> sum_list (map snd ps)" for ps :: "('a \<times> int) list"
    using sum_positive_part [of "\<lambda>_. True" ps] by (simp add: sum_where_def)
  have "\<forall>p \<in> set ps. 0 \<le> snd p"
    using assms
  proof (induction ps)
    case (Cons p ps)
    with all [of ps] show ?case by (auto split: if_splits)
  qed simp
  then show ?thesis by (induction ps) auto
qed

section \<open>The two journals of an allocation\<close>

definition has_system_accounts :: "store \<Rightarrow> AssetCode \<Rightarrow> (string \<times> uuid) list \<Rightarrow> bool" where
  "has_system_accounts s A ids \<longleftrightarrow>
     (\<forall>c \<in> fst ` set (system_accounts A). is_account s A c (account_id ids c))"

lemma deposit_journal_effect:
  assumes "wf_accounts s"
    and "has_system_accounts s (dp_asset d) ids"
  shows "entries_of_asset s (dp_asset d) (ji_entries (deposit_journal d ids))"
    and "effect s B (liability_code c) (ji_entries (deposit_journal d ids)) = 0"
    and "effect s B ''operator-revenue'' (ji_entries (deposit_journal d ids)) = 0"
    and "effect s B ''treasury'' (ji_entries (deposit_journal d ids)) =
           - (if B = dp_asset d then dp_amountAtomic d else 0)"
proof -
  note sys = assms(2) [unfolded has_system_accounts_def system_codes, rule_format]
  have accs: "is_account s B C (account_id ids ''treasury'') \<longleftrightarrow> B = dp_asset d \<and> C = ''treasury''"
    "is_account s B C (account_id ids ''allocation-clearing'') \<longleftrightarrow>
       B = dp_asset d \<and> C = ''allocation-clearing''" for B C
    using sys [THEN is_account_unique [OF assms(1)]] by simp_all
  show "entries_of_asset s (dp_asset d) (ji_entries (deposit_journal d ids))"
    by (auto simp: deposit_journal_def entries_of_asset_def accs)
  show "effect s B (liability_code c) (ji_entries (deposit_journal d ids)) = 0"
    "effect s B ''operator-revenue'' (ji_entries (deposit_journal d ids)) = 0"
    "effect s B ''treasury'' (ji_entries (deposit_journal d ids)) =
           - (if B = dp_asset d then dp_amountAtomic d else 0)"
    by (simp_all add: deposit_journal_def accs)
qed

lemma allocation_journal_effect:
  assumes "wf_accounts s"
    and "has_system_accounts s (dp_asset d) ids"
    and "entries_of_asset s (dp_asset d) es"
  shows "entries_of_asset s (dp_asset d) (ji_entries (allocation_journal d i es op ids))"
    and "effect s B (liability_code c) (ji_entries (allocation_journal d i es op ids)) =
           effect s B (liability_code c) es"
    and "effect s B ''operator-revenue'' (ji_entries (allocation_journal d i es op ids)) =
           effect s B ''operator-revenue'' es + (if B = dp_asset d then max 0 op else 0)"
    and "effect s B ''treasury'' (ji_entries (allocation_journal d i es op ids)) =
           effect s B ''treasury'' es"
proof -
  note sys = assms(2) [unfolded has_system_accounts_def system_codes, rule_format]
  have accs: "is_account s B C (account_id ids ''operator-revenue'') \<longleftrightarrow>
       B = dp_asset d \<and> C = ''operator-revenue''"
    "is_account s B C (account_id ids ''allocation-clearing'') \<longleftrightarrow>
       B = dp_asset d \<and> C = ''allocation-clearing''" for B C
    using sys [THEN is_account_unique [OF assms(1)]] by simp_all
  show "entries_of_asset s (dp_asset d) (ji_entries (allocation_journal d i es op ids))"
    using assms(3) by (auto simp: allocation_journal_def entries_of_asset_def accs)
  show "effect s B (liability_code c) (ji_entries (allocation_journal d i es op ids)) =
           effect s B (liability_code c) es"
    "effect s B ''operator-revenue'' (ji_entries (allocation_journal d i es op ids)) =
           effect s B ''operator-revenue'' es + (if B = dp_asset d then max 0 op else 0)"
    "effect s B ''treasury'' (ji_entries (allocation_journal d i es op ids)) =
           effect s B ''treasury'' es"
    by (simp_all add: allocation_journal_def accs)
qed

lemma journal_sides:
  "ji_asset (deposit_journal d ids) = dp_asset d"
  "ji_asset (allocation_journal d i es op ids) = dp_asset d"
  "side_total dir (ji_entries (deposit_journal d ids)) = dp_amountAtomic d"
  "side_total DEBIT (ji_entries (allocation_journal d i es op ids)) =
     dp_amountAtomic d + side_total DEBIT es"
  "side_total CREDIT (ji_entries (allocation_journal d i es op ids)) = side_total CREDIT es + max 0 op"
  by (cases dir; auto simp: deposit_journal_def allocation_journal_def)+

text \<open>The states between the two postings.\<close>

lemma post_allocation_cases:
  assumes "wf_ledger s" and "post_allocation d batch items op s = Inr t"
  obtains s1 ids s2 s3 es j1 j2 where
    "wf_accounts s1" "wf_ledger s1" "accounts_grow s s1"
    "\<And>A C. balance s1 A C = balance s A C"
    "has_system_accounts s1 (dp_asset d) ids"
    "post (deposit_journal d ids) s1 = Inr (s2, j1)"
    "liability_entries (dp_asset d) (customer_totals items) s2 = (s3, es)"
    "post (allocation_journal d (ab_id batch) es op ids) s3 = Inr (t, j2)"
proof -
  obtain s1 ids where e: "ensureSystemAccounts (dp_asset d) s = (s1, ids)" by fastforce
  with assms(2) obtain s2 j1 where p1: "post (deposit_journal d ids) s1 = Inr (s2, j1)"
    by (auto simp: post_allocation_def ebind_eq_Inr)
  obtain s3 es where l: "liability_entries (dp_asset d) (customer_totals items) s2 = (s3, es)" by fastforce
  from assms(2) e p1 l obtain j2 where
    p2: "post (allocation_journal d (ab_id batch) es op ids) s3 = Inr (t, j2)"
    by (auto simp: post_allocation_def ebind_eq_Inr)
  have "wf_accounts s" using assms(1) by (simp add: wf_ledger_def)
  note g = ensureSystemAccounts_grows [OF this e]
  note w = wf_ledger_grow [OF assms(1) g(2) g(1)]
  have "has_system_accounts s1 (dp_asset d) ids" using g(3) by (simp add: has_system_accounts_def)
  from that [OF g(1) w(1) g(2) w(2) this p1 l p2] show thesis by blast
qed

lemma post_allocation_effect:
  assumes "wf_ledger s" and "post_allocation d batch items op s = Inr t"
    and tot: "sum_list (map al_customerAtomic items) + op = dp_amountAtomic d"
  shows "wf_ledger t" and "ledger_only s t"
    and "customerBalance c B t = customerBalance c B s +
           (if B = dp_asset d then sum_where (\<lambda>i. al_customerId i = c) al_customerAtomic items else 0)"
    and "operatorBalance B t = operatorBalance B s + (if B = dp_asset d then op else 0)"
    and "balance t B ''treasury'' = balance s B ''treasury'' -
           (if B = dp_asset d then dp_amountAtomic d else 0)"
    and "0 < dp_amountAtomic d"
proof -
  from assms(1,2) obtain s1 ids s2 s3 es j1 j2 where
    s1: "wf_accounts s1" "wf_ledger s1" "accounts_grow s s1" "\<And>A C. balance s1 A C = balance s A C"
    and sys: "has_system_accounts s1 (dp_asset d) ids"
    and p1: "post (deposit_journal d ids) s1 = Inr (s2, j1)"
    and l: "liability_entries (dp_asset d) (customer_totals items) s2 = (s3, es)"
    and p2: "post (allocation_journal d (ab_id batch) es op ids) s3 = Inr (t, j2)"
    by (rule post_allocation_cases) blast
  note e1 = deposit_journal_effect [OF s1(1) sys]
  note q1 = post_effect [OF s1(2) p1, unfolded journal_sides, OF e1(1)]
  have wa2: "wf_accounts s2" using q1(1) by (simp add: wf_ledger_def)
  note le = liability_entries_grows [OF wa2 l]
  then have g3: "wf_accounts s3" "accounts_grow s2 s3" "entries_of_asset s3 (dp_asset d) es" by auto
  note w3 = wf_ledger_grow [OF q1(1) g3(2,1)]
  have "is_account s2 = is_account s1" by (simp add: q1(3) is_account_def fun_eq_iff)
  then have sys3: "has_system_accounts s3 (dp_asset d) ids"
    using sys accounts_grow_account [OF g3(2)] by (simp add: has_system_accounts_def)
  note e2 = allocation_journal_effect [OF g3(1) sys3 g3(3)]
  note q2 = post_effect [OF w3(1) p2, unfolded journal_sides, OF e2(1)]
  have "dp_amountAtomic d = sum_where (\<lambda>p. 0 < snd p) snd (customer_totals items) + max 0 op"
    using p2 le by (simp add: post_Inr_iff journal_sides)
  moreover have "sum_where (\<lambda>p. 0 < snd p) snd (customer_totals items) \<ge> sum_list (map al_customerAtomic items)"
    using sum_positive_part [of "\<lambda>_. True" "customer_totals items"]
    by (simp add: sum_where_def customer_totals_facts(2) [symmetric])
  ultimately have pos: "sum_where (\<lambda>p. 0 < snd p) snd (customer_totals items) =
      sum_list (map snd (customer_totals items))" and op: "max 0 op = op"
    using tot by (auto simp: customer_totals_facts(2))
  have noliab: "effect s3 B ''operator-revenue'' es = 0" "effect s3 B ''treasury'' es = 0" for B
    using le by simp_all
  have liab: "effect s3 B (liability_code c) es =
      (if B = dp_asset d then sum_where (\<lambda>i. al_customerId i = c) al_customerAtomic items else 0)" for B c
    using le positive_part_all [OF pos] by (simp add: customer_totals_facts(3))
  show "wf_ledger t" by (rule q2(1))
  show "ledger_only s t"
    by (meson s1(3) g3(2) p1 p2 accounts_grow_ledger_only post_ledger_only ledger_only_trans)
  show "customerBalance c B t = customerBalance c B s +
           (if B = dp_asset d then sum_where (\<lambda>i. al_customerId i = c) al_customerAtomic items else 0)"
    by (simp add: customerBalance_balance q2(2) w3(2) q1(2) s1(4) e1 e2 liab)
  show "operatorBalance B t = operatorBalance B s + (if B = dp_asset d then op else 0)"
    by (simp add: operatorBalance_balance q2(2) w3(2) q1(2) s1(4) e1 e2 noliab op)
  show "balance t B ''treasury'' = balance s B ''treasury'' -
           (if B = dp_asset d then dp_amountAtomic d else 0)"
    by (simp add: q2(2) w3(2) q1(2) s1(4) e1 e2 noliab)
  show "0 < dp_amountAtomic d" using p1 by (simp add: post_Inr_iff journal_sides)
qed

lemma post_wf_accounts:
  assumes "post input s = Inr (t, j)" and "wf_accounts s"
  shows "wf_accounts t"
proof -
  from assms(1) have "account_keys t = account_keys s" "uuids t = uuids s"
    "minted_ids t = insert (uuids s (minted s)) (minted_ids s)"
    by (auto simp: post_Inr_iff account_keys_def minted_ids_def lessThan_Suc)
  with assms(2) show ?thesis by (auto simp: wf_accounts_def)
qed

lemma post_allocation_journals:
  assumes "wf_ledger s" and "post_allocation d batch items op s = Inr t"
  shows "\<exists>j1 j2. journalTransactions t = journalTransactions s @ [j1, j2] \<and>
    jt_referenceType j1 = ''Deposit'' \<and> jt_referenceId j1 = dp_id d \<and>
    jt_referenceType j2 = ''AllocationBatch'' \<and> jt_referenceId j2 = ab_id batch"
proof -
  from assms obtain s1 ids s2 s3 es j1 j2 where s1: "wf_accounts s1" "accounts_grow s s1"
    and p1: "post (deposit_journal d ids) s1 = Inr (s2, j1)"
    and l: "liability_entries (dp_asset d) (customer_totals items) s2 = (s3, es)"
    and p2: "post (allocation_journal d (ab_id batch) es op ids) s3 = Inr (t, j2)"
    by (rule post_allocation_cases) blast
  from p1 s1(1) have "wf_accounts s2" by (rule post_wf_accounts)
  then have "accounts_grow s2 s3" using l liability_entries_grows by blast
  with s1(2) p1 p2 have "journalTransactions t = journalTransactions s @ [j1, j2]"
    by (simp add: post_Inr_iff accounts_grow_tables)
  with p1 p2 show ?thesis
    by (auto simp: post_Inr_iff deposit_journal_def allocation_journal_def)
qed

lemma post_allocation_total:
  assumes "wf_ledger s" and "0 < dp_amountAtomic d" and "0 \<le> op"
    and "\<forall>i \<in> set items. 0 \<le> al_customerAtomic i"
    and "sum_list (map al_customerAtomic items) + op = dp_amountAtomic d"
    and "\<forall>t \<in> set (journalTransactions s). jt_referenceType t = ''Deposit'' \<longrightarrow> jt_referenceId t \<noteq> dp_id d"
    and "\<forall>t \<in> set (journalTransactions s). jt_referenceType t = ''AllocationBatch'' \<longrightarrow>
           jt_referenceId t \<noteq> ab_id batch"
  shows "\<exists>t. post_allocation d batch items op s = Inr t"
proof -
  obtain s1 ids where e: "ensureSystemAccounts (dp_asset d) s = (s1, ids)" by fastforce
  have "wf_accounts s" using assms(1) by (simp add: wf_ledger_def)
  note g = ensureSystemAccounts_grows [OF this e]
  have "\<exists>s2 j1. post (deposit_journal d ids) s1 = Inr (s2, j1)"
    using assms(2,6) by (simp add: post_Inr_iff journal_sides accounts_grow_tables [OF g(2)])
      (auto simp: deposit_journal_def journal_key_def)
  then obtain s2 j1 where p1: "post (deposit_journal d ids) s1 = Inr (s2, j1)" by blast
  obtain s3 es where l: "liability_entries (dp_asset d) (customer_totals items) s2 = (s3, es)" by fastforce
  from p1 g(1) have "wf_accounts s2" by (rule post_wf_accounts)
  note le = liability_entries_grows [OF this l]
  have "sum_where (\<lambda>p. 0 < snd p) snd ps = sum_list (map snd ps)" if "\<forall>p \<in> set ps. 0 \<le> snd p"
    for ps :: "(uuid \<times> int) list" using that by (induction ps) auto
  with customer_totals_nonneg [OF assms(4)]
  have credit: "side_total CREDIT es = sum_list (map al_customerAtomic items)" "side_total DEBIT es = 0"
    using le by (simp_all add: customer_totals_facts(2))
  have "accounts_grow s2 s3" using le by blast
  then have "journalTransactions s3 = journalTransactions s @ [j1]" "jt_referenceType j1 = ''Deposit''"
    using p1 by (auto simp: accounts_grow_tables accounts_grow_tables [OF g(2)] post_Inr_iff deposit_journal_def)
  then have "\<exists>t j2. post (allocation_journal d (ab_id batch) es op ids) s3 = Inr (t, j2)"
    using assms(2,3,5,7) by (simp add: post_Inr_iff journal_sides credit)
      (auto simp: allocation_journal_def journal_key_def)
  with e p1 l show ?thesis by (auto simp: post_allocation_def)
qed

section \<open>Planning\<close>

lemma work_groups_positive: "g \<in> set (work_groups endpoints s) \<Longrightarrow> 0 < wg_work g"
  by (auto simp: work_groups_def Let_def)

lemma allocation_item_of_Inr:
  "allocation_item_of D policies a = Inr item \<Longrightarrow>
   al_customerId item = wg_customerId (ai_key a) \<and> al_splitPolicyId item = wg_splitPolicyId (ai_key a) \<and>
   al_work item = dec_toFixed D 18 (wg_work (ai_key a)) \<and> al_grossAtomic item = ai_amount a \<and>
   al_customerAtomic item + al_operatorAtomic item = ai_amount a"
  by (auto simp: allocation_item_of_def Let_def ebind_eq_Inr splitBasisPoints_def
      split: option.splits if_splits)

lemma allocation_item_of_total:
  assumes "List.find (\<lambda>p. sp_id p = wg_splitPolicyId (ai_key a)) policies = Some p"
    and "0 \<le> sp_customerBps p" and "sp_customerBps p \<le> 10000" and "0 \<le> ai_amount a"
  shows "\<exists>item. allocation_item_of D policies a = Inr item \<and>
    0 \<le> al_customerAtomic item \<and> 0 \<le> al_operatorAtomic item"
proof -
  let ?c = "ai_amount a * sp_customerBps p div 10000"
  have "?c \<le> ai_amount a * 10000 div 10000"
    using assms by (intro zdiv_mono1 mult_left_mono) auto
  then have "0 \<le> ?c" "?c \<le> ai_amount a" using assms by (simp_all add: pos_imp_zdiv_nonneg_iff)
  with assms show ?thesis
    by (simp add: allocation_item_of_def Let_def splitBasisPoints_def js_is_integer_def)
qed

lemma find_filtered:
  "(\<And>x. Q x \<Longrightarrow> P x) \<Longrightarrow> List.find Q (filter P xs) = List.find Q xs"
  by (induction xs) auto

lemma plan_allocation_Inr:
  assumes "plan_allocation D d endpoints s = Inr items"
  shows "work_groups endpoints s \<noteq> []" and "length items = length (work_groups endpoints s)"
    and "sum_list (map al_customerAtomic items) + sum_list (map al_operatorAtomic items) = dp_amountAtomic d"
    and "i < length items \<Longrightarrow> al_customerId (items ! i) = wg_customerId (work_groups endpoints s ! i) \<and>
      al_splitPolicyId (items ! i) = wg_splitPolicyId (work_groups endpoints s ! i) \<and>
      al_work (items ! i) = dec_toFixed D 18 (wg_work (work_groups endpoints s ! i))"
proof -
  let ?g = "work_groups endpoints s"
  let ?ps = "filter (\<lambda>p. sp_id p \<in> set (map wg_splitPolicyId ?g)) (splitPolicies s)"
  from assms show "?g \<noteq> []" by (auto simp: plan_allocation_def Let_def)
  from assms show "sum_list (map al_customerAtomic items) + sum_list (map al_operatorAtomic items) = dp_amountAtomic d"
    by (auto simp: plan_allocation_def Let_def ebind_eq_Inr split: if_splits)
  from assms have "allocation_items D (dp_amountAtomic d) ?g ?ps = Inr items"
    by (auto simp: plan_allocation_def Let_def ebind_eq_Inr split: if_splits)
  then obtain rs where rs: "largestRemainder D (dp_amountAtomic d)
        (map (\<lambda>g. \<lparr>wi_key = g, wi_weight = wg_work g\<rparr>) ?g) = Inr rs"
    and items: "map_result (allocation_item_of D ?ps) rs = Inr items"
    by (auto simp: allocation_items_def ebind_eq_Inr)
  from largestRemainder_keys [OF rs] have keys: "map ai_key rs = ?g" by (simp add: o_def)
  then have "length rs = length ?g" by (metis length_map)
  with map_result_Inr_length [OF items] show len: "length items = length ?g" by simp
  assume "i < length items"
  with len \<open>length rs = length ?g\<close> have i: "i < length rs" by simp
  then have "ai_key (rs ! i) = ?g ! i" using keys by (metis nth_map)
  with allocation_item_of_Inr [OF map_result_Inr_nth [OF items i]]
  show "al_customerId (items ! i) = wg_customerId (?g ! i) \<and>
      al_splitPolicyId (items ! i) = wg_splitPolicyId (?g ! i) \<and>
      al_work (items ! i) = dec_toFixed D 18 (wg_work (?g ! i))" by simp
qed

text \<open>Every policy in use exists and has a rate between 0 and 10000.\<close>

definition policies_ok :: "uuid list \<Rightarrow> store \<Rightarrow> bool" where
  "policies_ok endpoints s \<longleftrightarrow> (\<forall>g \<in> set (work_groups endpoints s).
     case List.find (\<lambda>p. sp_id p = wg_splitPolicyId g) (splitPolicies s) of
       None \<Rightarrow> False | Some p \<Rightarrow> 0 \<le> sp_customerBps p \<and> sp_customerBps p \<le> 10000)"

lemma map_result_exists:
  "(\<And>x. x \<in> set xs \<Longrightarrow> \<exists>y. f x = Inr y \<and> Q x y) \<Longrightarrow>
   \<exists>ys. map_result f xs = Inr ys \<and> list_all2 Q xs ys"
  by (induction xs) fastforce+

lemma plan_allocation_total:
  assumes "decimal_arith D u" and "work_groups endpoints s \<noteq> []" and "policies_ok endpoints s"
    and "0 \<le> dp_amountAtomic d"
    and "decimal_adequate u (length (work_groups endpoints s)) (dp_amountAtomic d)"
  shows "\<exists>items. plan_allocation D d endpoints s = Inr items \<and>
    (\<forall>i \<in> set items. 0 \<le> al_customerAtomic i \<and> 0 \<le> al_operatorAtomic i)"
proof -
  let ?g = "work_groups endpoints s"
  let ?w = "map (\<lambda>g. \<lparr>wi_key = g, wi_weight = wg_work g\<rparr>) ?g"
  let ?ps = "filter (\<lambda>p. sp_id p \<in> set (map wg_splitPolicyId ?g)) (splitPolicies s)"
  let ?Q = "\<lambda>a item. al_customerAtomic item + al_operatorAtomic item = ai_amount a \<and>
      0 \<le> al_customerAtomic item \<and> 0 \<le> al_operatorAtomic item"
  have pos: "0 < (\<Sum>x\<leftarrow>?w. wi_weight x)"
    using sum_list_map_strict_mono [of ?g "\<lambda>_. 0" wg_work] assms(2) work_groups_positive
    by (simp add: o_def)
  have nn: "\<forall>x \<in> set ?w. 0 \<le> wi_weight x" using work_groups_positive by (auto intro: less_imp_le)
  obtain rs where rs: "largestRemainder D (dp_amountAtomic d) ?w = Inr rs"
    and keys: "map ai_key rs = map wi_key ?w" and sum: "sum_list (map ai_amount rs) = dp_amountAtomic d"
    and amounts: "\<And>i. i < length ?w \<Longrightarrow> 0 \<le> ai_amount (rs ! i)"
    by (rule decimal_arith.largestRemainder_allocates [OF assms(1) nn pos assms(4)])
      (use assms(5) in auto)
  have "map ai_key rs = ?g" using keys by (simp add: o_def)
  then have len: "length rs = length ?g" and key: "\<And>a. a \<in> set rs \<Longrightarrow> ai_key a \<in> set ?g"
    by (metis length_map, metis imageI set_map)
  have "\<exists>item. allocation_item_of D ?ps a = Inr item \<and> ?Q a item" if a: "a \<in> set rs" for a
  proof -
    from a amounts len have "0 \<le> ai_amount a" by (auto simp: in_set_conv_nth)
    moreover from assms(3) key [OF a] obtain p where
      p: "List.find (\<lambda>p. sp_id p = wg_splitPolicyId (ai_key a)) (splitPolicies s) = Some p"
      "0 \<le> sp_customerBps p" "sp_customerBps p \<le> 10000"
      by (auto simp: policies_ok_def split: option.splits)
    moreover have "List.find (\<lambda>p. sp_id p = wg_splitPolicyId (ai_key a)) ?ps = Some p"
      using p(1) key [OF a] by (subst find_filtered) auto
    ultimately show ?thesis
      using allocation_item_of_total allocation_item_of_Inr by blast
  qed
  then have "\<exists>items. map_result (allocation_item_of D ?ps) rs = Inr items \<and> list_all2 ?Q rs items"
    by (rule map_result_exists)
  then obtain items where items: "map_result (allocation_item_of D ?ps) rs = Inr items"
    and all: "list_all2 ?Q rs items" by blast
  from all have "sum_list (map al_customerAtomic items) + sum_list (map al_operatorAtomic items) =
      sum_list (map ai_amount rs)" by (induction rule: list_all2_induct) auto
  with items rs sum assms(2) have "plan_allocation D d endpoints s = Inr items"
    by (simp add: plan_allocation_def Let_def allocation_items_def)
  moreover from all have "\<forall>i \<in> set items. 0 \<le> al_customerAtomic i \<and> 0 \<le> al_operatorAtomic i"
    by (induction rule: list_all2_induct) auto
  ultimately show ?thesis by blast
qed

section \<open>The invariant of allocations\<close>

definition batch_adds_up :: "allocation_batch \<Rightarrow> bool" where
  "batch_adds_up b \<longleftrightarrow>
     sum_list (map al_customerAtomic (ab_items b)) = ab_customerTotalAtomic b \<and>
     sum_list (map al_operatorAtomic (ab_items b)) = ab_operatorTotalAtomic b \<and>
     ab_customerTotalAtomic b + ab_operatorTotalAtomic b = ab_totalAtomic b"

definition references_ok :: "store \<Rightarrow> journal_transaction \<Rightarrow> bool" where
  "references_ok s t \<longleftrightarrow>
     (jt_referenceType t = ''Deposit'' \<longrightarrow> jt_referenceId t \<in> ab_depositId ` set (allocationBatches s)) \<and>
     (jt_referenceType t = ''AllocationBatch'' \<longrightarrow> jt_referenceId t \<in> ab_id ` set (allocationBatches s))"

definition alloc_inv :: "store \<Rightarrow> bool" where
  "alloc_inv s \<longleftrightarrow> wf_ledger s \<and> unique_on dp_id (deposits s) \<and>
     unique_on ab_depositId (allocationBatches s) \<and> ab_id ` set (allocationBatches s) \<subseteq> minted_ids s \<and>
     (\<forall>b \<in> set (allocationBatches s). batch_adds_up b) \<and>
     (\<forall>t \<in> set (journalTransactions s). references_ok s t) \<and>
     (\<forall>d \<in> set (deposits s). dp_status d = DepositStatus.ALLOCATED \<longrightarrow>
        dp_id d \<in> ab_depositId ` set (allocationBatches s)) \<and>
     (\<forall>sh \<in> set (shareEvents s). \<forall>i. sh_allocationBatchId sh = Some i \<longrightarrow>
        i \<in> ab_id ` set (allocationBatches s))"

lemma wf_ledger_cong:
  assumes "ledgerAccounts t = ledgerAccounts s" "journalTransactions t = journalTransactions s"
    "uuids t = uuids s" "minted s \<le> minted t"
  shows "wf_ledger s \<Longrightarrow> wf_ledger t" and "balance t A C = balance s A C"
proof -
  have eq: "account_keys t = account_keys s" "is_account t = is_account s" "all_entries t = all_entries s"
    using assms by (simp_all add: account_keys_def is_account_def all_entries_def fun_eq_iff)
  have "minted_ids s \<subseteq> minted_ids t" using assms(3,4) by (auto simp: minted_ids_def)
  then show "wf_ledger s \<Longrightarrow> wf_ledger t"
    by (auto simp: wf_ledger_def wf_accounts_def entries_of_asset_def eq assms)
  show "balance t A C = balance s A C"
    by (simp add: balance_def account_total_def eq)
qed

text \<open>The states through which the writing half of an allocation goes.\<close>

lemma commit_allocation_cases:
  assumes "commit_allocation now d endpoints items s = Inr (t, b)"
  obtains s1 s2 where "dp_id d \<notin> ab_depositId ` set (allocationBatches s)"
    "b = \<lparr>ab_id = uuids s (minted s), ab_asset = dp_asset d, ab_upstreamId = dp_upstreamId d,
         ab_depositId = dp_id d, ab_totalAtomic = dp_amountAtomic d,
         ab_customerTotalAtomic = sum_list (map al_customerAtomic items),
         ab_operatorTotalAtomic = sum_list (map al_operatorAtomic items),
         ab_items = items, ab_createdAt = now\<rparr>"
    "s1 = s\<lparr>minted := Suc (minted s), allocationBatches := allocationBatches s @ [b],
           shareEvents := update_where (unallocated endpoints)
             (\<lambda>sh. sh\<lparr>sh_allocationBatchId := Some (ab_id b)\<rparr>) (shareEvents s)\<rparr>"
    "post_allocation d b items (sum_list (map al_operatorAtomic items)) s1 = Inr s2"
    "t = set_deposit_allocated now (dp_id d) s2"
proof -
  from assms obtain sb where
    c: "create_allocation_batch now d items (sum_list (map al_customerAtomic items))
          (sum_list (map al_operatorAtomic items)) s = Inr (sb, b)"
    and "\<exists>s2. post_allocation d b items (sum_list (map al_operatorAtomic items))
           (mark_allocated endpoints (ab_id b) sb) = Inr s2 \<and> t = set_deposit_allocated now (dp_id d) s2"
    by (auto simp: commit_allocation_def Let_def ebind_eq_Inr)
  then obtain s2 where p: "post_allocation d b items (sum_list (map al_operatorAtomic items))
           (mark_allocated endpoints (ab_id b) sb) = Inr s2" and t: "t = set_deposit_allocated now (dp_id d) s2"
    by blast
  from c have "dp_id d \<notin> ab_depositId ` set (allocationBatches s)"
    and "b = \<lparr>ab_id = uuids s (minted s), ab_asset = dp_asset d, ab_upstreamId = dp_upstreamId d,
         ab_depositId = dp_id d, ab_totalAtomic = dp_amountAtomic d,
         ab_customerTotalAtomic = sum_list (map al_customerAtomic items),
         ab_operatorTotalAtomic = sum_list (map al_operatorAtomic items),
         ab_items = items, ab_createdAt = now\<rparr>"
    and sb: "sb = s\<lparr>minted := Suc (minted s), allocationBatches := allocationBatches s @ [b]\<rparr>"
    by (auto simp: create_allocation_batch_def new_id_def Let_def split: if_splits)
  then show thesis
    using that [OF _ _ refl, of s2] p t by (simp add: mark_allocated_def)
qed

lemma commit_allocation_effect:
  assumes "alloc_inv s" and "d \<in> set (deposits s)"
    and "commit_allocation now d endpoints items s = Inr (t, b)"
    and tot: "sum_list (map al_customerAtomic items) + sum_list (map al_operatorAtomic items) = dp_amountAtomic d"
  shows "alloc_inv t"
    and "customerBalance c B t = customerBalance c B s +
           (if B = dp_asset d then sum_where (\<lambda>i. al_customerId i = c) al_customerAtomic items else 0)"
    and "operatorBalance B t = operatorBalance B s +
           (if B = dp_asset d then sum_list (map al_operatorAtomic items) else 0)"
    and "balance t B ''treasury'' = balance s B ''treasury'' -
           (if B = dp_asset d then dp_amountAtomic d else 0)"
    and "ab_items b = items" and "ab_depositId b = dp_id d"
    and "ab_operatorTotalAtomic b = sum_list (map al_operatorAtomic items)"
    and "ab_id b \<notin> ab_id ` set (allocationBatches s)"
    and "allocationBatches t = allocationBatches s @ [b]"
    and "shareEvents t = update_where (unallocated endpoints)
             (\<lambda>sh. sh\<lparr>sh_allocationBatchId := Some (ab_id b)\<rparr>) (shareEvents s)"
    and "deposits t = update_where (\<lambda>e. dp_id e = dp_id d)
             (\<lambda>e. e\<lparr>dp_status := DepositStatus.ALLOCATED, dp_allocatedAt := Some now\<rparr>) (deposits s)"
proof -
  from assms(3) obtain s1 s2 where new: "dp_id d \<notin> ab_depositId ` set (allocationBatches s)"
    and b: "b = \<lparr>ab_id = uuids s (minted s), ab_asset = dp_asset d, ab_upstreamId = dp_upstreamId d,
         ab_depositId = dp_id d, ab_totalAtomic = dp_amountAtomic d,
         ab_customerTotalAtomic = sum_list (map al_customerAtomic items),
         ab_operatorTotalAtomic = sum_list (map al_operatorAtomic items),
         ab_items = items, ab_createdAt = now\<rparr>"
    and s1: "s1 = s\<lparr>minted := Suc (minted s), allocationBatches := allocationBatches s @ [b],
           shareEvents := update_where (unallocated endpoints)
             (\<lambda>sh. sh\<lparr>sh_allocationBatchId := Some (ab_id b)\<rparr>) (shareEvents s)\<rparr>"
    and p: "post_allocation d b items (sum_list (map al_operatorAtomic items)) s1 = Inr s2"
    and t: "t = set_deposit_allocated now (dp_id d) s2"
    by (rule commit_allocation_cases)
  have wf: "wf_ledger s" using assms(1) by (simp add: alloc_inv_def)
  have w1: "wf_ledger s1" "\<And>A C. balance s1 A C = balance s A C"
    using wf_ledger_cong [of s1 s] wf by (simp_all add: s1)
  note e = post_allocation_effect [OF w1(1) p tot]
  have wt: "wf_ledger t" "\<And>A C. balance t A C = balance s2 A C"
    using wf_ledger_cong [of t s2] e(1) by (simp_all add: t set_deposit_allocated_def)
  note bal = customerBalance_balance operatorBalance_balance wt(2) w1(2)
  show "customerBalance c B t = customerBalance c B s +
           (if B = dp_asset d then sum_where (\<lambda>i. al_customerId i = c) al_customerAtomic items else 0)"
    using e(3) by (simp add: bal)
  show "operatorBalance B t = operatorBalance B s +
           (if B = dp_asset d then sum_list (map al_operatorAtomic items) else 0)"
    using e(4) by (simp add: bal)
  show "balance t B ''treasury'' = balance s B ''treasury'' -
           (if B = dp_asset d then dp_amountAtomic d else 0)"
    using e(5) by (simp add: bal)
  show "ab_items b = items" "ab_depositId b = dp_id d"
    "ab_operatorTotalAtomic b = sum_list (map al_operatorAtomic items)" by (simp_all add: b)
  note tab = ledger_only_tables [OF e(2)]
  show batches: "allocationBatches t = allocationBatches s @ [b]"
    and shares: "shareEvents t = update_where (unallocated endpoints)
             (\<lambda>sh. sh\<lparr>sh_allocationBatchId := Some (ab_id b)\<rparr>) (shareEvents s)"
    and deps: "deposits t = update_where (\<lambda>e. dp_id e = dp_id d)
             (\<lambda>e. e\<lparr>dp_status := DepositStatus.ALLOCATED, dp_allocatedAt := Some now\<rparr>) (deposits s)"
    by (simp_all add: t set_deposit_allocated_def tab s1)
  show fresh: "ab_id b \<notin> ab_id ` set (allocationBatches s)"
    using assms(1) new_id_fresh [of s]
    by (auto simp: alloc_inv_def wf_ledger_def wf_accounts_def b)
  from post_allocation_journals [OF w1(1) p] obtain j1 j2 where
    js: "journalTransactions t = journalTransactions s @ [j1, j2]"
    "jt_referenceType j1 = ''Deposit''" "jt_referenceId j1 = dp_id d"
    "jt_referenceType j2 = ''AllocationBatch''" "jt_referenceId j2 = ab_id b"
    by (auto simp: t set_deposit_allocated_def s1)
  have "minted_ids s1 = insert (ab_id b) (minted_ids s)" "minted_ids t = minted_ids s2"
    by (simp_all add: s1 t set_deposit_allocated_def minted_ids_def lessThan_Suc b)
  then have ids: "insert (ab_id b) (minted_ids s) \<subseteq> minted_ids t"
    using ledger_only_minted [OF e(2)] by simp
  have "batch_adds_up b" using tot by (simp add: batch_adds_up_def b)
  moreover have "ab_depositId b = dp_id d" by (simp add: b)
  moreover have "\<forall>u \<in> set (journalTransactions t). references_ok t u"
    using assms(1) by (auto simp: js references_ok_def batches alloc_inv_def \<open>ab_depositId b = dp_id d\<close>)
  moreover have "unique_on dp_id (deposits t)"
    using assms(1) by (simp add: deps map_update_where alloc_inv_def)
  ultimately show "alloc_inv t"
    using assms(1) wt(1) ids new fresh unfolding alloc_inv_def batches
    by (auto simp: shares deps set_update_where split: if_splits)
qed

text \<open>The shares that carry a fresh batch afterwards are those that were unallocated before.\<close>

lemma marked_work:
  "(\<And>sh. sh \<in> set shs \<Longrightarrow> sh_allocationBatchId sh \<noteq> Some b) \<Longrightarrow>
   sum_where (\<lambda>sh. sh_allocationBatchId sh = Some b \<and> sh_customerId sh = c \<and> sh_splitPolicyId sh = p)
     sh_normalizedWork (update_where P (\<lambda>sh. sh\<lparr>sh_allocationBatchId := Some b\<rparr>) shs) =
   sum_where (\<lambda>sh. sh_customerId sh = c \<and> sh_splitPolicyId sh = p) sh_normalizedWork (filter P shs)"
  by (induction shs) auto

section \<open>The handler\<close>

lemma allocateDeposit_confirmed:
  assumes "List.find (\<lambda>d. dp_id d = i) (deposits s) = Some d" and "dp_status d = DepositStatus.CONFIRMED"
    and "allocateDeposit D now i s = (t, Inr b)"
  obtains u items t' where "List.find (\<lambda>u. up_id u = dp_upstreamId d) (upstreams s) = Some u"
    "plan_allocation D d (account_endpoints d u s) s = Inr items"
    "commit_allocation now d (account_endpoints d u s) items s = Inr (t', b)"
    "t = publish ''deposit.allocated'' i t'"
proof -
  from assms(3) obtain t' where "transaction (allocate_body D now i) s = (t', Inr b)"
    and t: "t = publish ''deposit.allocated'' i t'"
    by (auto simp: allocateDeposit_def split: prod.splits sum.splits)
  then have "allocate_body D now i s = Inr (t', b)" by (auto simp: transaction_cases)
  with assms(1,2) have "allocate_confirmed D now d s = Inr (t', b)" by (simp add: allocate_body_def)
  then show thesis
    using that t by (auto simp: allocate_confirmed_def Let_def ebind_eq_Inr split: option.splits)
qed

lemma allocateDeposit_error: "allocateDeposit D now i s = (t, Inl e) \<Longrightarrow> t = s"
  by (auto simp: allocateDeposit_def transaction_cases split: prod.splits sum.splits)

lemma publish_alloc:
  "alloc_inv (publish n x s) = alloc_inv s" "wf_ledger (publish n x s) = wf_ledger s"
  "balance (publish n x s) = balance s" "customerBalance c A (publish n x s) = customerBalance c A s"
  "operatorBalance A (publish n x s) = operatorBalance A s"
proof -
  have eq: "account_keys (publish n x s) = account_keys s" "is_account (publish n x s) = is_account s"
    "all_entries (publish n x s) = all_entries s" "minted_ids (publish n x s) = minted_ids s"
    by (simp_all add: account_keys_def is_account_def all_entries_def fun_eq_iff)
  show w: "wf_ledger (publish n x s) = wf_ledger s"
    by (simp add: wf_ledger_def wf_accounts_def entries_of_asset_def eq)
  show "alloc_inv (publish n x s) = alloc_inv s"
    by (simp add: alloc_inv_def w references_ok_def eq)
  show "balance (publish n x s) = balance s" "customerBalance c A (publish n x s) = customerBalance c A s"
    "operatorBalance A (publish n x s) = operatorBalance A s"
    by (simp_all add: balance_def customerBalance_def operatorBalance_def account_total_def eq fun_eq_iff)
qed

lemma commit_allocation_wf_ledger:
  assumes "wf_ledger s" and "commit_allocation now d endpoints items s = Inr (t, b)"
    and "sum_list (map al_customerAtomic items) + sum_list (map al_operatorAtomic items) = dp_amountAtomic d"
  shows "wf_ledger t"
proof -
  from assms(2) obtain s1 s2 where
    s1: "s1 = s\<lparr>minted := Suc (minted s), allocationBatches := allocationBatches s @ [b],
           shareEvents := update_where (unallocated endpoints)
             (\<lambda>sh. sh\<lparr>sh_allocationBatchId := Some (ab_id b)\<rparr>) (shareEvents s)\<rparr>"
    and p: "post_allocation d b items (sum_list (map al_operatorAtomic items)) s1 = Inr s2"
    and t: "t = set_deposit_allocated now (dp_id d) s2"
    by (rule commit_allocation_cases) blast
  have "wf_ledger s1" using wf_ledger_cong(1) [of s1 s] assms(1) by (simp add: s1)
  from post_allocation_effect(1) [OF this p assms(3)] show ?thesis
    using wf_ledger_cong(1) [of t s2] by (simp add: t set_deposit_allocated_def)
qed

lemma allocateDeposit_wf_ledger:
  assumes "wf_ledger s" shows "wf_ledger (fst (allocateDeposit D now i s))"
proof (cases "allocate_body D now i s")
  case (Inl e)
  with assms show ?thesis by (simp add: allocateDeposit_def transaction_def)
next
  case (Inr p)
  obtain t b where p: "p = (t, b)" by fastforce
  have "wf_ledger t"
  proof (cases "List.find (\<lambda>d. dp_id d = i) (deposits s)")
    case None
    with Inr show ?thesis by (simp add: allocate_body_def)
  next
    case (Some d)
    show ?thesis
    proof (cases "dp_status d = DepositStatus.CONFIRMED")
      case True
      with Some Inr p obtain u items where
        "plan_allocation D d (account_endpoints d u s) s = Inr items"
        "commit_allocation now d (account_endpoints d u s) items s = Inr (t, b)"
        by (auto simp: allocate_body_def allocate_confirmed_def Let_def ebind_eq_Inr split: option.splits)
      with commit_allocation_wf_ledger [OF assms] plan_allocation_Inr(3) show ?thesis by blast
    next
      case False
      with Some Inr p assms show ?thesis
        by (auto simp: allocate_body_def split: if_splits option.splits)
    qed
  qed
  with Inr p show ?thesis by (simp add: allocateDeposit_def transaction_def publish_alloc)
qed

section \<open>A deposit shared by two customers\<close>

definition share_of :: "string \<Rightarrow> uuid \<Rightarrow> uuid \<Rightarrow> rat \<Rightarrow> share_event" where
  "share_of key customer policy work =
     \<lparr>sh_id = key, sh_asset = BTC, sh_customerId = customer, sh_workerId = ''w'', sh_upstreamId = ''u'',
      sh_connectionId = ''k'', sh_splitPolicyId = policy, sh_requestKey = key, sh_status = ACCEPTED,
      sh_difficulty = work, sh_normalizedWork = work, sh_submittedAt = 0, sh_resolvedAt = Some 0,
      sh_upstreamLatencyMs = None, sh_rejectReason = None, sh_allocationBatchId = None\<rparr>"

definition policy_of :: "uuid \<Rightarrow> uuid \<Rightarrow> int \<Rightarrow> split_policy" where
  "policy_of i customer bps =
     \<lparr>sp_id = i, sp_customerId = customer, sp_asset = BTC, sp_customerBps = bps,
      sp_operatorBps = 10000 - bps, sp_effectiveAt = 0, sp_createdById = None\<rparr>"

definition two_customers_deposit :: deposit where
  "two_customers_deposit =
     \<lparr>dp_id = ''d'', dp_asset = BTC, dp_upstreamId = ''u'', dp_txid = ''tx'', dp_outputRef = ''0'',
      dp_amountAtomic = 1000, dp_confirmations = 6, dp_locked = False,
      dp_status = DepositStatus.CONFIRMED, dp_confirmedAt = Some 0, dp_allocatedAt = None\<rparr>"

definition two_customers_store :: store where
  "two_customers_store = (empty_store show_nat)
     \<lparr>upstreams := [\<lparr>up_id = ''u'', up_accountKey = ''acct'', up_asset = BTC,
         up_protocol = BITCOIN_STRATUM_V1, up_name = ''pool'', up_host = ''h'', up_port = 3333,
         up_tls = False, up_priority = 1, up_enabled = True, up_usernameTemplate = ''x'',
         up_passwordCiphertext = None, up_receiveAddress = None, up_connectionTimeoutMs = 10000, up_failbackCooldownSeconds = 60,
         up_lastHealthAt = None, up_lastHealthOk = None, up_lastHealthMessage = None\<rparr>],
      splitPolicies := [policy_of ''p'' ''c'' 8000, policy_of ''q'' ''e'' 9000],
      shareEvents := [share_of ''1'' ''c'' ''p'' 1, share_of ''2'' ''e'' ''q'' 2],
      deposits := [two_customers_deposit]\<rparr>"

lemma two_customers_inv: "alloc_inv two_customers_store"
  by (simp add: alloc_inv_def wf_ledger_def wf_accounts_def two_customers_store_def empty_store_def
      two_customers_deposit_def share_of_def account_keys_def)

lemma two_customers_allocated:
  "\<exists>t b. allocateDeposit decimal_exact 5 ''d'' two_customers_store = (t, Inr b)"
proof -
  have "isl (snd (allocateDeposit decimal_exact 5 ''d'' two_customers_store)) = False" by code_simp
  then show ?thesis
    by (cases "allocateDeposit decimal_exact 5 ''d'' two_customers_store"; cases "snd (allocateDeposit decimal_exact 5 ''d'' two_customers_store)") auto
qed

section \<open>Main properties\<close>

text \<open>C1: Allocating a confirmed deposit credits exactly the deposited amount.  Every customer's
  balance in the deposit's asset grows by the customer parts of the batch's items for that customer,
  the operator's balance by the batch's operator total, the treasury receives the deposited amount,
  no balance in another asset moves, the parts add up to the deposit to the last unit, and the
  invariant of the ledger and of the allocations holds afterwards.\<close>

theorem allocateDeposit_credits_deposit:
  assumes "alloc_inv s" and "List.find (\<lambda>d. dp_id d = i) (deposits s) = Some d"
    and "dp_status d = DepositStatus.CONFIRMED" and "allocateDeposit D now i s = (t, Inr b)"
  shows "alloc_inv t \<and>
    (\<forall>c A. customerBalance c A t = customerBalance c A s + (if A = dp_asset d
       then sum_where (\<lambda>item. al_customerId item = c) al_customerAtomic (ab_items b) else 0)) \<and>
    (\<forall>A. operatorBalance A t = operatorBalance A s + (if A = dp_asset d
       then ab_operatorTotalAtomic b else 0)) \<and>
    balance t (dp_asset d) ''treasury'' = balance s (dp_asset d) ''treasury'' - dp_amountAtomic d \<and>
    sum_list (map al_customerAtomic (ab_items b)) + ab_operatorTotalAtomic b = dp_amountAtomic d"
proof -
  from assms(2-4) obtain u items t' where
    plan: "plan_allocation D d (account_endpoints d u s) s = Inr items"
    and commit: "commit_allocation now d (account_endpoints d u s) items s = Inr (t', b)"
    and t: "t = publish ''deposit.allocated'' i t'"
    by (rule allocateDeposit_confirmed) blast
  note tot = plan_allocation_Inr(3) [OF plan]
  have d: "d \<in> set (deposits s)" using find_SomeD [OF assms(2)] by simp
  note e = commit_allocation_effect [OF assms(1) d commit tot]
  show ?thesis
    using e(1) tot by (simp add: t publish_alloc e(2,3,4,5,7))
qed

theorem allocateDeposit_credits_deposit_witness:
  "let (t, r) = allocateDeposit decimal_exact 5 ''d'' two_customers_store
   in \<exists>b. r = Inr b \<and> alloc_inv t \<and>
      sum_list (map al_customerAtomic (ab_items b)) + ab_operatorTotalAtomic b = 1000 \<and>
      customerBalance ''c'' BTC t = sum_where (\<lambda>item. al_customerId item = ''c'') al_customerAtomic (ab_items b)"
proof -
  from two_customers_allocated obtain t b where
    r: "allocateDeposit decimal_exact 5 ''d'' two_customers_store = (t, Inr b)" by blast
  have "List.find (\<lambda>d. dp_id d = ''d'') (deposits two_customers_store) = Some two_customers_deposit"
    "dp_status two_customers_deposit = DepositStatus.CONFIRMED"
    by (simp_all add: two_customers_store_def two_customers_deposit_def)
  note p = allocateDeposit_credits_deposit [OF two_customers_inv this r]
  have "customerBalance ''c'' BTC two_customers_store = 0"
    by (simp add: customerBalance_def account_total_def all_entries_def two_customers_store_def empty_store_def)
  with p r show ?thesis by (simp add: two_customers_deposit_def)
qed



text \<open>C11: Every unit of work is paid at most once, and the batch pays exactly the work it claims.
  The allocation marks all accepted, unallocated shares of the pool account's endpoints with the
  batch and changes no other share; none is left over; and the work that an item records is, up to
  the column's scale, the sum over the shares of that customer and policy that carry the batch.\<close>

theorem allocateDeposit_marks_shares:
  assumes "alloc_inv s" and "List.find (\<lambda>d. dp_id d = i) (deposits s) = Some d"
    and "dp_status d = DepositStatus.CONFIRMED" and "allocateDeposit D now i s = (t, Inr b)"
  shows "\<exists>u. List.find (\<lambda>u. up_id u = dp_upstreamId d) (upstreams s) = Some u \<and>
    shareEvents t = map (\<lambda>sh. if unallocated (account_endpoints d u s) sh
        then sh\<lparr>sh_allocationBatchId := Some (ab_id b)\<rparr> else sh) (shareEvents s) \<and>
    work_groups (account_endpoints d u s) t = [] \<and>
    list_all (\<lambda>item. al_work item = dec_toFixed D 18 (sum_where (\<lambda>sh.
        sh_allocationBatchId sh = Some (ab_id b) \<and> sh_customerId sh = al_customerId item \<and>
        sh_splitPolicyId sh = al_splitPolicyId item) sh_normalizedWork (shareEvents t))) (ab_items b)"
proof -
  from assms(2-4) obtain u items t' where
    u: "List.find (\<lambda>u. up_id u = dp_upstreamId d) (upstreams s) = Some u"
    and plan: "plan_allocation D d (account_endpoints d u s) s = Inr items"
    and commit: "commit_allocation now d (account_endpoints d u s) items s = Inr (t', b)"
    and t: "t = publish ''deposit.allocated'' i t'"
    by (rule allocateDeposit_confirmed) blast
  let ?e = "account_endpoints d u s"
  have d: "d \<in> set (deposits s)" using find_SomeD [OF assms(2)] by simp
  note e = commit_allocation_effect [OF assms(1) d commit plan_allocation_Inr(3) [OF plan]]
  have shares: "shareEvents t = update_where (unallocated ?e)
      (\<lambda>sh. sh\<lparr>sh_allocationBatchId := Some (ab_id b)\<rparr>) (shareEvents s)" using e(10) by (simp add: t)
  have "\<not> unallocated ?e sh" if "sh \<in> set (shareEvents t)" for sh
  proof -
    from that obtain y where "sh = (if unallocated ?e y then y\<lparr>sh_allocationBatchId := Some (ab_id b)\<rparr> else y)"
      unfolding shares update_where_def set_map by blast
    then show ?thesis by (cases "unallocated ?e y") (simp_all add: unallocated_def)
  qed
  then have left: "work_groups ?e t = []" by (simp add: work_groups_def)
  have old: "sh_allocationBatchId sh \<noteq> Some (ab_id b)" if "sh \<in> set (shareEvents s)" for sh
    using that e(8) assms(1) by (auto simp: alloc_inv_def)
  have work: "sum_where (\<lambda>sh. sh_allocationBatchId sh = Some (ab_id b) \<and> sh_customerId sh = c \<and>
        sh_splitPolicyId sh = p) sh_normalizedWork (shareEvents t) =
      sum_where (\<lambda>sh. sh_customerId sh = c \<and> sh_splitPolicyId sh = p) sh_normalizedWork
        (filter (unallocated ?e) (shareEvents s))" for c p
    unfolding shares using old by (rule marked_work)
  have group: "wg_work g = sum_where (\<lambda>sh. sh_customerId sh = wg_customerId g \<and>
        sh_splitPolicyId sh = wg_splitPolicyId g) sh_normalizedWork
        (filter (unallocated ?e) (shareEvents s))" if "g \<in> set (work_groups ?e s)" for g
    using that by (auto simp: work_groups_def Let_def)
  have "list_all (\<lambda>item. al_work item = dec_toFixed D 18 (sum_where (\<lambda>sh.
        sh_allocationBatchId sh = Some (ab_id b) \<and> sh_customerId sh = al_customerId item \<and>
        sh_splitPolicyId sh = al_splitPolicyId item) sh_normalizedWork (shareEvents t))) items"
    using plan_allocation_Inr(2,4) [OF plan] group by (simp add: list_all_length work)
  with u left show ?thesis by (auto simp: e(5) shares update_where_def)
qed

theorem allocateDeposit_marks_shares_witness:
  "let (t, r) = allocateDeposit decimal_exact 5 ''d'' two_customers_store
   in \<exists>b. r = Inr b \<and> map sh_allocationBatchId (shareEvents t) = [Some (ab_id b), Some (ab_id b)]"
proof -
  from two_customers_allocated obtain t b where
    r: "allocateDeposit decimal_exact 5 ''d'' two_customers_store = (t, Inr b)" by blast
  have "List.find (\<lambda>d. dp_id d = ''d'') (deposits two_customers_store) = Some two_customers_deposit"
    "dp_status two_customers_deposit = DepositStatus.CONFIRMED"
    by (simp_all add: two_customers_store_def two_customers_deposit_def)
  from allocateDeposit_marks_shares [OF two_customers_inv this r] r show ?thesis
    by (auto simp: two_customers_store_def two_customers_deposit_def share_of_def unallocated_def
        account_endpoints_def)
qed

text \<open>C12: Allocation is idempotent and atomic.  Once a deposit has been allocated, a further call
  returns the same batch and changes nothing but the event stream; a call that throws leaves the
  store as it was.\<close>

theorem allocateDeposit_idempotent:
  assumes "alloc_inv s" and "List.find (\<lambda>d. dp_id d = i) (deposits s) = Some d"
    and "dp_status d = DepositStatus.CONFIRMED" and "allocateDeposit D now i s = (t, r)"
  shows "case r of
      Inl e \<Rightarrow> t = s
    | Inr b \<Rightarrow> allocateDeposit D' now' i t = (publish ''deposit.allocated'' i t, Inr b)"
proof (cases r)
  case (Inl e)
  with assms(4) show ?thesis by (simp add: allocateDeposit_error)
next
  case (Inr b)
  from assms(2,3) assms(4) [unfolded Inr] obtain u items t' where
    plan: "plan_allocation D d (account_endpoints d u s) s = Inr items"
    and commit: "commit_allocation now d (account_endpoints d u s) items s = Inr (t', b)"
    and t: "t = publish ''deposit.allocated'' i t'"
    by (rule allocateDeposit_confirmed) blast
  have d: "d \<in> set (deposits s)" "dp_id d = i" using find_SomeD [OF assms(2)] by simp_all
  note e = commit_allocation_effect [OF assms(1) d(1) commit plan_allocation_Inr(3) [OF plan]]
  have "List.find (\<lambda>d. dp_id d = i) (deposits t) =
      Some (d\<lparr>dp_status := DepositStatus.ALLOCATED, dp_allocatedAt := Some now\<rparr>)"
    using assms(2) d(2) by (simp add: t e(11) find_update_where)
  moreover have "List.find (\<lambda>b. ab_depositId b = i) (allocationBatches t) = Some b"
    using e(1) by (subst find_Some_iff_unique) (auto simp: alloc_inv_def t e(6,9) d(2))
  ultimately show ?thesis
    by (simp add: Inr allocateDeposit_def transaction_def allocate_body_def)
qed

theorem allocateDeposit_idempotent_witness:
  "let (t, r) = allocateDeposit decimal_exact 5 ''d'' two_customers_store
   in \<exists>b. r = Inr b \<and> snd (allocateDeposit decimal_exact 9 ''d'' t) = Inr b"
proof -
  from two_customers_allocated obtain t b where
    r: "allocateDeposit decimal_exact 5 ''d'' two_customers_store = (t, Inr b)" by blast
  have "List.find (\<lambda>d. dp_id d = ''d'') (deposits two_customers_store) = Some two_customers_deposit"
    "dp_status two_customers_deposit = DepositStatus.CONFIRMED"
    by (simp_all add: two_customers_store_def two_customers_deposit_def)
  from allocateDeposit_idempotent [OF two_customers_inv this r, of decimal_exact 9] r
  show ?thesis by simp
qed

text \<open>
  The histories of the ledger: it is empty at first, and from then on only the three operations
  that post journals change it, while everything else in the database may change in any way.
\<close>

inductive ledger_reachable :: "decimal_lib \<Rightarrow> store \<Rightarrow> bool" for D where
  start: "inj ids \<Longrightarrow> ledger_reachable D (empty_store ids)"
| allocate: "ledger_reachable D s \<Longrightarrow> ledger_reachable D (fst (allocateDeposit D now i s))"
| customer: "ledger_reachable D s \<Longrightarrow> postPayout q s = Inr (t, j) \<Longrightarrow> ledger_reachable D t"
| operator: "ledger_reachable D s \<Longrightarrow> postOperatorPayout b A g f s = Inr (t, j) \<Longrightarrow> ledger_reachable D t"
| other: "ledger_reachable D s \<Longrightarrow> ledgerAccounts t = ledgerAccounts s \<Longrightarrow>
    journalTransactions t = journalTransactions s \<Longrightarrow> uuids t = uuids s \<Longrightarrow> minted s \<le> minted t \<Longrightarrow>
    ledger_reachable D t"

lemma ledger_reachable_wf: "ledger_reachable D s \<Longrightarrow> wf_ledger s"
proof (induction rule: ledger_reachable.induct)
  case (start ids)
  then show ?case by (simp add: wf_ledger_def wf_accounts_def empty_store_def account_keys_def)
next
  case (allocate s now i)
  then show ?case by (simp add: allocateDeposit_wf_ledger)
next
  case (customer s q t j)
  then show ?case by (blast intro: postPayout_effect(1))
next
  case (operator s b A g f t j)
  then show ?case by (blast intro: postOperatorPayout_effect(1))
next
  case (other s t)
  then show ?case by (blast intro: wf_ledger_cong(1))
qed

text \<open>C8: The books always balance.  After any history of allocations, customer payouts and operator
  payouts, whatever happens to the other tables in between, every journal is balanced with a positive
  amount, and per asset the debits of the trial balance add up to its credits.\<close>

theorem books_balance:
  assumes "ledger_reachable D s"
  shows "list_all balanced (journalTransactions s) \<and>
    (\<forall>A. sum_list (map tr_debitAtomic (trialBalance A s)) = sum_list (map tr_creditAtomic (trialBalance A s)))"
  using ledger_reachable_wf [OF assms] trialBalance_sum by (simp add: wf_ledger_def list_all_iff)

theorem books_balance_witness:
  "let t = fst (allocateDeposit decimal_exact 5 ''d'' two_customers_store)
   in sum_list (map tr_debitAtomic (trialBalance BTC t)) = 2000 \<and>
      sum_list (map tr_creditAtomic (trialBalance BTC t)) = 2000"
proof -
  have "ledger_reachable decimal_exact two_customers_store"
    by (rule ledger_reachable.other [OF ledger_reachable.start [OF inj_show_nat]])
      (simp_all add: two_customers_store_def empty_store_def)
  note books_balance [OF ledger_reachable.allocate [OF this, of 5 "''d''"]]
  moreover have "sum_list (map tr_debitAtomic (trialBalance BTC
      (fst (allocateDeposit decimal_exact 5 ''d'' two_customers_store)))) = 2000" by code_simp
  ultimately show ?thesis by (simp add: Let_def)
qed

end
