(* ===== verification/Environment.thy ===== *)
theory Environment
  imports Text Allocation
begin

text \<open>
  The configuration of \<open>apps/server/src/config/environment.ts\<close>: the schema with its defaults and
  ranges, and the checks that follow it.  The schema package and the URL parser are a parameter of
  the model, the record \<open>env_lib\<close>: how a text is read as a number, as a big integer or as a URL,
  and how a failure is rendered.
\<close>

type_synonym raw_env = "string \<Rightarrow> string option"

record env_lib =
  el_number :: "string \<Rightarrow> rat option"
  el_bigint :: "string \<Rightarrow> int option"
  el_is_url :: "string \<Rightarrow> bool"
  el_pretty :: "raw_env \<Rightarrow> string"
  el_url :: "string \<Rightarrow> (string \<times> string) option"

section \<open>The validated configuration\<close>

record coin_gateway =
  cg_host :: string
  cg_port :: int
  cg_tcp_enabled :: bool
  cg_tls_enabled :: bool
  cg_tls_host :: string
  cg_tls_port :: int
  cg_tls_cert_file :: string
  cg_tls_key_file :: string

record gateway_limits =
  gl_max_connections :: int
  gl_max_connections_per_ip :: int
  gl_max_unauthenticated_per_ip :: int
  gl_auth_timeout_ms :: int
  gl_max_line_bytes :: int
  gl_idle_timeout_ms :: int
  gl_enabled :: bool
  gl_auto_provision_enabled :: bool
  gl_auto_provision_customer_bps :: int
  gl_auto_provision_max_connections :: int
  gl_auto_provision_max_per_ip_per_hour :: int

record coin_wallet =
  cw_network :: string
  cw_rpc_url :: string
  cw_rpc_user :: string
  cw_rpc_password_file :: string
  cw_wallet_name :: string
  cw_passphrase_file :: string
  cw_confirmations :: int
  cw_min_payout_atomic :: int
  cw_daily_auto_limit_atomic :: int

record environment =
  NODE_ENV :: string
  NODE_TLS_REJECT_UNAUTHORIZED :: "string option"
  HTTP_HOST :: string
  HTTP_PORT :: int
  ADMIN_ORIGIN :: string
  TRUST_PROXY :: string
  ALLOW_PUBLIC_HTTP_API_IN_PRODUCTION :: bool
  DATABASE_URL :: string
  REDIS_URL :: string
  APP_ENCRYPTION_KEY_FILE :: string
  COOKIE_SECRET_FILE :: string
  BITCOIN_GATEWAY :: coin_gateway
  MONERO_GATEWAY :: coin_gateway
  GATEWAY :: gateway_limits
  ALLOW_PLAINTEXT_GATEWAY_IN_PRODUCTION :: bool
  RAW_SHARE_RETENTION_DAYS :: int
  PAYOUT_TIMEZONE :: string
  ENABLE_MAINNET_PAYOUTS :: bool
  BITCOIN :: coin_wallet
  MONERO :: coin_wallet
  LOG_LEVEL :: string
  SERVE_ADMIN_STATIC :: bool

section \<open>The schema\<close>

text \<open>Only the Bitcoin wallet is named; the field is empty for Monero.\<close>

definition z_bool :: "string option \<Rightarrow> bool" where
  "z_bool x \<longleftrightarrow> x = Some ''true''"

definition z_bool_default_true :: "string option \<Rightarrow> bool" where
  "z_bool_default_true x \<longleftrightarrow> (case x of None \<Rightarrow> True | Some v \<Rightarrow> v = ''true'')"

definition z_string :: "string \<Rightarrow> string option \<Rightarrow> string" where
  "z_string d x = (case x of None \<Rightarrow> d | Some v \<Rightarrow> v)"

definition z_required :: "string option \<Rightarrow> string option" where
  "z_required x = (case x of None \<Rightarrow> None | Some v \<Rightarrow> if length v \<ge> 1 then Some v else None)"

definition z_enum :: "string list \<Rightarrow> string \<Rightarrow> string option \<Rightarrow> string option" where
  "z_enum choices d x = (case x of None \<Rightarrow> Some d | Some v \<Rightarrow> if v \<in> set choices then Some v else None)"

definition max_safe_integer :: int where
  "max_safe_integer = 9007199254740991"

definition z_int :: "env_lib \<Rightarrow> int \<Rightarrow> int \<Rightarrow> int \<Rightarrow> string option \<Rightarrow> int option" where
  "z_int L lo hi d x =
     (case x of
        None \<Rightarrow> Some d
      | Some v \<Rightarrow>
          (case el_number L v of
             None \<Rightarrow> None
           | Some r \<Rightarrow> if js_is_integer r \<and> lo \<le> \<lfloor>r\<rfloor> \<and> \<lfloor>r\<rfloor> \<le> hi then Some \<lfloor>r\<rfloor> else None))"

definition z_port :: "env_lib \<Rightarrow> int \<Rightarrow> string option \<Rightarrow> int option" where
  "z_port L = z_int L 1 65535"

definition z_bigint :: "env_lib \<Rightarrow> int \<Rightarrow> string option \<Rightarrow> int option" where
  "z_bigint L d x = (case x of None \<Rightarrow> Some d | Some v \<Rightarrow> el_bigint L v)"

definition z_url :: "env_lib \<Rightarrow> string \<Rightarrow> string option \<Rightarrow> string option" where
  "z_url L d x = (case x of None \<Rightarrow> Some d | Some v \<Rightarrow> if el_is_url L v then Some v else None)"

definition parse_coin_gateway ::
    "env_lib \<Rightarrow> string \<Rightarrow> int \<Rightarrow> int \<Rightarrow> raw_env \<Rightarrow> coin_gateway option" where
  "parse_coin_gateway L coin port tls_port raw =
     Option.bind (z_port L port (raw (coin @ ''_GATEWAY_PORT''))) (\<lambda>p.
     Option.bind (z_port L tls_port (raw (coin @ ''_GATEWAY_TLS_PORT''))) (\<lambda>tp.
     Some \<lparr>cg_host = z_string ''0.0.0.0'' (raw (coin @ ''_GATEWAY_HOST'')),
           cg_port = p,
           cg_tcp_enabled = z_bool_default_true (raw (coin @ ''_GATEWAY_TCP_ENABLED'')),
           cg_tls_enabled = z_bool (raw (coin @ ''_GATEWAY_TLS_ENABLED'')),
           cg_tls_host = z_string ''0.0.0.0'' (raw (coin @ ''_GATEWAY_TLS_HOST'')),
           cg_tls_port = tp,
           cg_tls_cert_file = z_string ''../../secrets/stratum-tls-cert.pem''
             (raw (coin @ ''_GATEWAY_TLS_CERT_FILE'')),
           cg_tls_key_file = z_string ''../../secrets/stratum-tls-key.pem''
             (raw (coin @ ''_GATEWAY_TLS_KEY_FILE''))\<rparr>))"

definition parse_gateway_limits :: "env_lib \<Rightarrow> raw_env \<Rightarrow> gateway_limits option" where
  "parse_gateway_limits L raw =
     Option.bind (z_int L 1 10000 500 (raw ''GATEWAY_MAX_CONNECTIONS'')) (\<lambda>a.
     Option.bind (z_int L 1 10000 100 (raw ''GATEWAY_MAX_CONNECTIONS_PER_IP'')) (\<lambda>b.
     Option.bind (z_int L 1 1000 10 (raw ''GATEWAY_MAX_UNAUTHENTICATED_PER_IP'')) (\<lambda>c.
     Option.bind (z_int L 1000 120000 15000 (raw ''GATEWAY_AUTH_TIMEOUT_MS'')) (\<lambda>d.
     Option.bind (z_int L 1024 1048576 65536 (raw ''GATEWAY_MAX_LINE_BYTES'')) (\<lambda>e.
     Option.bind (z_int L 10000 max_safe_integer 180000 (raw ''GATEWAY_IDLE_TIMEOUT_MS'')) (\<lambda>f.
     Option.bind (z_int L 0 10000 8000 (raw ''GATEWAY_AUTO_PROVISION_CUSTOMER_BPS'')) (\<lambda>g.
     Option.bind (z_int L 1 100 4 (raw ''GATEWAY_AUTO_PROVISION_MAX_CONNECTIONS'')) (\<lambda>h.
     Option.bind (z_int L 1 10000 20 (raw ''GATEWAY_AUTO_PROVISION_MAX_PER_IP_PER_HOUR'')) (\<lambda>i.
     Some \<lparr>gl_max_connections = a, gl_max_connections_per_ip = b,
           gl_max_unauthenticated_per_ip = c, gl_auth_timeout_ms = d, gl_max_line_bytes = e,
           gl_idle_timeout_ms = f, gl_enabled = z_bool (raw ''GATEWAY_ENABLED''),
           gl_auto_provision_enabled = z_bool (raw ''GATEWAY_AUTO_PROVISION_ENABLED''),
           gl_auto_provision_customer_bps = g, gl_auto_provision_max_connections = h,
           gl_auto_provision_max_per_ip_per_hour = i\<rparr>)))))))))"

definition parse_bitcoin :: "env_lib \<Rightarrow> raw_env \<Rightarrow> coin_wallet option" where
  "parse_bitcoin L raw =
     Option.bind (z_enum [''mainnet'', ''testnet'', ''signet'', ''regtest''] ''regtest''
       (raw ''BITCOIN_NETWORK'')) (\<lambda>n.
     Option.bind (z_url L ''http://127.0.0.1:18443'' (raw ''BITCOIN_RPC_URL'')) (\<lambda>u.
     Option.bind (z_int L 1 max_safe_integer 6 (raw ''BITCOIN_CONFIRMATIONS'')) (\<lambda>c.
     Option.bind (z_bigint L 50000 (raw ''BITCOIN_MIN_PAYOUT_ATOMIC'')) (\<lambda>m.
     Option.bind (z_bigint L 0 (raw ''BITCOIN_DAILY_AUTO_LIMIT_ATOMIC'')) (\<lambda>l.
     Some \<lparr>cw_network = n, cw_rpc_url = u,
           cw_rpc_user = z_string ''miningrpc'' (raw ''BITCOIN_RPC_USER''),
           cw_rpc_password_file = z_string ''../../secrets/bitcoin-rpc-password.txt''
             (raw ''BITCOIN_RPC_PASSWORD_FILE''),
           cw_wallet_name = z_string ''mining-gateway'' (raw ''BITCOIN_WALLET_NAME''),
           cw_passphrase_file = z_string ''../../secrets/bitcoin-wallet-passphrase.txt''
             (raw ''BITCOIN_WALLET_PASSPHRASE_FILE''),
           cw_confirmations = c, cw_min_payout_atomic = m, cw_daily_auto_limit_atomic = l\<rparr>)))))"

definition parse_monero :: "env_lib \<Rightarrow> raw_env \<Rightarrow> coin_wallet option" where
  "parse_monero L raw =
     Option.bind (z_enum [''mainnet'', ''stagenet'', ''testnet''] ''stagenet''
       (raw ''MONERO_NETWORK'')) (\<lambda>n.
     Option.bind (z_url L ''http://127.0.0.1:38088/json_rpc'' (raw ''MONERO_WALLET_RPC_URL'')) (\<lambda>u.
     Option.bind (z_int L 1 max_safe_integer 10 (raw ''MONERO_CONFIRMATIONS'')) (\<lambda>c.
     Option.bind (z_bigint L 10000000000 (raw ''MONERO_MIN_PAYOUT_ATOMIC'')) (\<lambda>m.
     Option.bind (z_bigint L 0 (raw ''MONERO_DAILY_AUTO_LIMIT_ATOMIC'')) (\<lambda>l.
     Some \<lparr>cw_network = n, cw_rpc_url = u,
           cw_rpc_user = z_string ''miningrpc'' (raw ''MONERO_WALLET_RPC_USER''),
           cw_rpc_password_file = z_string ''../../secrets/monero-rpc-password.txt''
             (raw ''MONERO_WALLET_RPC_PASSWORD_FILE''),
           cw_wallet_name = [],
           cw_passphrase_file = z_string ''../../secrets/monero-wallet-passphrase.txt''
             (raw ''MONERO_WALLET_PASSPHRASE_FILE''),
           cw_confirmations = c, cw_min_payout_atomic = m, cw_daily_auto_limit_atomic = l\<rparr>)))))"

definition safeParse :: "env_lib \<Rightarrow> raw_env \<Rightarrow> environment option" where
  "safeParse L raw =
     Option.bind (z_enum [''development'', ''test'', ''production''] ''development'' (raw ''NODE_ENV'')) (\<lambda>n.
     Option.bind (z_port L 3000 (raw ''HTTP_PORT'')) (\<lambda>p.
     Option.bind (z_required (raw ''DATABASE_URL'')) (\<lambda>db.
     Option.bind (z_required (raw ''REDIS_URL'')) (\<lambda>rd.
     Option.bind (parse_coin_gateway L ''BITCOIN'' 3333 443 raw) (\<lambda>bg.
     Option.bind (parse_coin_gateway L ''MONERO'' 4444 4443 raw) (\<lambda>mg.
     Option.bind (parse_gateway_limits L raw) (\<lambda>gl.
     Option.bind (z_int L 1 365 14 (raw ''RAW_SHARE_RETENTION_DAYS'')) (\<lambda>ret.
     Option.bind (parse_bitcoin L raw) (\<lambda>b.
     Option.bind (parse_monero L raw) (\<lambda>m.
     Some \<lparr>NODE_ENV = n, NODE_TLS_REJECT_UNAUTHORIZED = raw ''NODE_TLS_REJECT_UNAUTHORIZED'',
           HTTP_HOST = z_string ''127.0.0.1'' (raw ''HTTP_HOST''), HTTP_PORT = p,
           ADMIN_ORIGIN = z_string ''http://127.0.0.1:5173'' (raw ''ADMIN_ORIGIN''),
           TRUST_PROXY = z_string ''127.0.0.1,::1,172.16.0.0/12'' (raw ''TRUST_PROXY''),
           ALLOW_PUBLIC_HTTP_API_IN_PRODUCTION = z_bool (raw ''ALLOW_PUBLIC_HTTP_API_IN_PRODUCTION''),
           DATABASE_URL = db, REDIS_URL = rd,
           APP_ENCRYPTION_KEY_FILE = z_string ''../../secrets/app-encryption.key''
             (raw ''APP_ENCRYPTION_KEY_FILE''),
           COOKIE_SECRET_FILE = z_string ''../../secrets/cookie-secret.txt'' (raw ''COOKIE_SECRET_FILE''),
           BITCOIN_GATEWAY = bg, MONERO_GATEWAY = mg, GATEWAY = gl,
           ALLOW_PLAINTEXT_GATEWAY_IN_PRODUCTION = z_bool (raw ''ALLOW_PLAINTEXT_GATEWAY_IN_PRODUCTION''),
           RAW_SHARE_RETENTION_DAYS = ret,
           PAYOUT_TIMEZONE = z_string ''Asia/Tehran'' (raw ''PAYOUT_TIMEZONE''),
           ENABLE_MAINNET_PAYOUTS = z_bool (raw ''ENABLE_MAINNET_PAYOUTS''),
           BITCOIN = b, MONERO = m, LOG_LEVEL = z_string ''info'' (raw ''LOG_LEVEL''),
           SERVE_ADMIN_STATIC = z_bool (raw ''SERVE_ADMIN_STATIC'')\<rparr>))))))))))"

section \<open>The checks across fields\<close>

definition loopback_hosts :: "string list" where
  "loopback_hosts = [''127.0.0.1'', ''::1'', ''localhost'']"

definition check_origins :: "env_lib \<Rightarrow> string \<Rightarrow> unit result" where
  "check_origins L origins =
     fold_result (\<lambda>origin _.
        case el_url L (trim origin) of
          None \<Rightarrow> Inl (Error ''Invalid URL'')
        | Some (protocol, hostname) \<Rightarrow>
            guard_or (protocol = ''https:'' \<or> hostname \<in> set loopback_hosts)
              (Error ''Production admin origins must use HTTPS''))
       (split_on CHR '','' origins) ()"

record listener =
  li_name :: string
  li_host :: string
  li_port :: int

definition listeners :: "environment \<Rightarrow> listener list" where
  "listeners e =
     [\<lparr>li_name = ''HTTP API'', li_host = HTTP_HOST e, li_port = HTTP_PORT e\<rparr>] @
     (if cg_tcp_enabled (BITCOIN_GATEWAY e)
      then [\<lparr>li_name = ''Bitcoin TCP gateway'', li_host = cg_host (BITCOIN_GATEWAY e),
             li_port = cg_port (BITCOIN_GATEWAY e)\<rparr>] else []) @
     (if cg_tls_enabled (BITCOIN_GATEWAY e)
      then [\<lparr>li_name = ''Bitcoin TLS gateway'', li_host = cg_tls_host (BITCOIN_GATEWAY e),
             li_port = cg_tls_port (BITCOIN_GATEWAY e)\<rparr>] else []) @
     (if cg_tcp_enabled (MONERO_GATEWAY e)
      then [\<lparr>li_name = ''Monero TCP gateway'', li_host = cg_host (MONERO_GATEWAY e),
             li_port = cg_port (MONERO_GATEWAY e)\<rparr>] else []) @
     (if cg_tls_enabled (MONERO_GATEWAY e)
      then [\<lparr>li_name = ''Monero TLS gateway'', li_host = cg_tls_host (MONERO_GATEWAY e),
             li_port = cg_tls_port (MONERO_GATEWAY e)\<rparr>] else [])"

definition wildcard_hosts :: "string list" where
  "wildcard_hosts = [''0.0.0.0'', ''::'', ''[::]'']"

definition overlap :: "listener \<Rightarrow> listener \<Rightarrow> bool" where
  "overlap a b \<longleftrightarrow> li_port a = li_port b \<and>
     (li_host a = li_host b \<or> li_host a \<in> set wildcard_hosts \<or> li_host b \<in> set wildcard_hosts)"

fun check_listeners :: "listener list \<Rightarrow> unit result" where
  "check_listeners [] = Inr ()"
| "check_listeners (l # ls) =
     ebind (fold_result (\<lambda>other _. guard_or (\<not> overlap l other)
              (Error (li_name l @ '' and '' @ li_name other @
                 '' cannot bind overlapping addresses on port '' @ show_int (li_port l)))) ls ())
       (\<lambda>_. check_listeners ls)"

definition validateEnvironment :: "env_lib \<Rightarrow> raw_env \<Rightarrow> environment result" where
  "validateEnvironment L raw =
     (case safeParse L raw of
        None \<Rightarrow> Inl (Error (''Invalid environment: '' @ el_pretty L raw))
      | Some e \<Rightarrow>
          ebind (guard_or (\<not> (ENABLE_MAINNET_PAYOUTS e \<and> cw_network (BITCOIN e) \<noteq> ''mainnet'' \<and>
                   cw_network (MONERO e) \<noteq> ''mainnet''))
                   (Error ''ENABLE_MAINNET_PAYOUTS is set but no wallet is configured for mainnet'')) (\<lambda>_.
          ebind (guard_or (NODE_TLS_REJECT_UNAUTHORIZED e \<noteq> Some ''0'')
                   (Error ''NODE_TLS_REJECT_UNAUTHORIZED=0 is forbidden'')) (\<lambda>_.
          ebind (guard_or (\<not> (NODE_ENV e = ''production'' \<and> \<not> ALLOW_PUBLIC_HTTP_API_IN_PRODUCTION e \<and>
                   HTTP_HOST e \<notin> set loopback_hosts))
                   (Error ''The production HTTP API must bind to loopback unless explicitly allowed'')) (\<lambda>_.
          ebind (if NODE_ENV e = ''production'' then check_origins L (ADMIN_ORIGIN e) else Inr ()) (\<lambda>_.
          ebind (guard_or (\<not> (NODE_ENV e = ''production'' \<and> gl_enabled (GATEWAY e) \<and>
                   \<not> ALLOW_PLAINTEXT_GATEWAY_IN_PRODUCTION e \<and>
                   (cg_tcp_enabled (BITCOIN_GATEWAY e) \<or> cg_tcp_enabled (MONERO_GATEWAY e))))
                   (Error ''Plaintext mining listeners are forbidden in production unless explicitly allowed'')) (\<lambda>_.
          ebind (if gl_enabled (GATEWAY e) then check_listeners (listeners e) else Inr ()) (\<lambda>_.
          Inr e)))))))"

text \<open>
  Reading a secret.  Path resolution and the file system are parameters: reading yields the reason
  of the failure or the content.
\<close>

definition readSecretFile ::
    "(string \<Rightarrow> string) \<Rightarrow> (string \<Rightarrow> string + string) \<Rightarrow> string \<Rightarrow> string result" where
  "readSecretFile resolve read path =
     (let absolute = resolve path;
          fail = (\<lambda>reason. Inl (Error (''Unable to read secret file '' @ absolute @ '': '' @ reason)))
      in case read absolute of
           Inl reason \<Rightarrow> fail reason
         | Inr content \<Rightarrow>
             if trim content = [] then fail ''secret is empty'' else Inr (trim content))"

section \<open>What a validated configuration guarantees\<close>

lemma z_int_bounds: "z_int L lo hi d x = Some v \<Longrightarrow> lo \<le> d \<Longrightarrow> d \<le> hi \<Longrightarrow> lo \<le> v \<and> v \<le> hi"
  by (auto simp: z_int_def split: option.splits if_splits)

lemma z_port_bounds: "z_port L d x = Some v \<Longrightarrow> 1 \<le> d \<Longrightarrow> d \<le> 65535 \<Longrightarrow> 1 \<le> v \<and> v \<le> 65535"
  unfolding z_port_def by (rule z_int_bounds)

lemma bind_SomeD: "Option.bind x f = Some y \<Longrightarrow> \<exists>z. x = Some z \<and> f z = Some y"
  by (cases x) simp_all

lemma parse_coin_gateway_ports:
  "parse_coin_gateway L coin p tp raw = Some g \<Longrightarrow> 1 \<le> p \<Longrightarrow> p \<le> 65535 \<Longrightarrow> 1 \<le> tp \<Longrightarrow> tp \<le> 65535 \<Longrightarrow>
   1 \<le> cg_port g \<and> cg_port g \<le> 65535 \<and> 1 \<le> cg_tls_port g \<and> cg_tls_port g \<le> 65535"
  unfolding parse_coin_gateway_def by (auto dest!: bind_SomeD dest: z_port_bounds)

lemma parse_gateway_limits_bounds:
  assumes "parse_gateway_limits L raw = Some g"
  shows "1 \<le> gl_max_connections g \<and> 1 \<le> gl_max_connections_per_ip g \<and>
    1024 \<le> gl_max_line_bytes g \<and> gl_max_line_bytes g \<le> 1048576 \<and>
    0 \<le> gl_auto_provision_customer_bps g \<and> gl_auto_provision_customer_bps g \<le> 10000"
  using assms unfolding parse_gateway_limits_def
  by (auto dest!: bind_SomeD dest: z_int_bounds)

lemma safeParse_parts:
  assumes "safeParse L raw = Some e"
  shows "z_port L 3000 (raw ''HTTP_PORT'') = Some (HTTP_PORT e)"
    and "parse_coin_gateway L ''BITCOIN'' 3333 443 raw = Some (BITCOIN_GATEWAY e)"
    and "parse_coin_gateway L ''MONERO'' 4444 4443 raw = Some (MONERO_GATEWAY e)"
    and "parse_gateway_limits L raw = Some (GATEWAY e)"
  using assms unfolding safeParse_def by (auto simp: bind_eq_Some_conv)

lemma safeParse_bounds:
  assumes "safeParse L raw = Some e"
  shows "list_all (\<lambda>l. 1 \<le> li_port l \<and> li_port l \<le> 65535) (listeners e)"
    and "0 \<le> gl_auto_provision_customer_bps (GATEWAY e) \<and> gl_auto_provision_customer_bps (GATEWAY e) \<le> 10000"
proof -
  note parts = safeParse_parts [OF assms]
  from parts(4) show "0 \<le> gl_auto_provision_customer_bps (GATEWAY e) \<and>
      gl_auto_provision_customer_bps (GATEWAY e) \<le> 10000"
    by (blast dest: parse_gateway_limits_bounds)
  have "1 \<le> HTTP_PORT e \<and> HTTP_PORT e \<le> 65535" using z_port_bounds [OF parts(1)] by simp
  with parse_coin_gateway_ports [OF parts(2)] parse_coin_gateway_ports [OF parts(3)]
  show "list_all (\<lambda>l. 1 \<le> li_port l \<and> li_port l \<le> 65535) (listeners e)"
    by (simp add: listeners_def)
qed

lemma fold_guard: "fold_result (\<lambda>x _. guard_or (P x) (E x)) xs () = Inr u \<longleftrightarrow> list_all P xs"
  by (induction xs) (auto simp: guard_or_def)

lemma check_listeners_Inr: "check_listeners ls = Inr () \<longleftrightarrow> sorted_wrt (\<lambda>a b. \<not> overlap a b) ls"
  by (induction ls) (auto simp: ebind_eq_Inr fold_guard list_all_iff)


definition example_env_lib :: env_lib where
  "example_env_lib =
     \<lparr>el_number = (\<lambda>t. if t \<noteq> [] \<and> list_all is_digit t then Some (of_nat (read_nat t)) else None),
      el_bigint = (\<lambda>t. if list_all is_digit t then Some (int (read_nat t)) else None),
      el_is_url = (\<lambda>t. startsWith t ''http''), el_pretty = (\<lambda>_. ''invalid''),
      el_url = (\<lambda>t. if startsWith t ''https:'' then Some (''https:'', drop 8 t) else None)\<rparr>"

definition development_raw :: raw_env where
  "development_raw = map_of [(''DATABASE_URL'', ''db''), (''REDIS_URL'', ''redis''), (''GATEWAY_ENABLED'', ''true'')]"


end
