(* ===== verification/Crypto.thy ===== *)
theory Crypto
  imports Text
begin

text \<open>
  \<open>apps/server/src/security/crypto.service.ts\<close>.  The primitives of the crypto module and of argon2
  are a parameter, the record \<open>crypto_lib\<close>; random bytes are arguments.  What the service relies on is
  the hypothesis \<open>sealing\<close>: opening what was sealed under the same key, nonce and associated data gives
  the plaintext back, and a ciphertext is as long as its plaintext.  The base64url coding is modelled.
\<close>

section \<open>base64url\<close>

definition b64_char :: "nat \<Rightarrow> char" where
  "b64_char n =
     (if n < 26 then char_of (65 + n) else if n < 52 then char_of (71 + n)
      else if n < 62 then char_of (n - 4) else if n = 62 then CHR ''-'' else CHR ''_'')"

definition b64_value :: "char \<Rightarrow> nat option" where
  "b64_value c =
     (let n = of_char c in
      if 65 \<le> n \<and> n \<le> 90 then Some (n - 65) else if 97 \<le> n \<and> n \<le> 122 then Some (n - 71)
      else if 48 \<le> n \<and> n \<le> 57 then Some (n + 4)
      else if n = 45 then Some 62 else if n = 95 then Some 63 else None)"

fun base64url :: "string \<Rightarrow> string" where
  "base64url [] = []"
| "base64url [a] =
     (let x = of_char a in [b64_char (x div 4), b64_char (x mod 4 * 16)])"
| "base64url [a, b] =
     (let x = of_char a; y = of_char b
      in [b64_char (x div 4), b64_char (x mod 4 * 16 + y div 16), b64_char (y mod 16 * 4)])"
| "base64url (a # b # c # r) =
     (let x = of_char a; y = of_char b; z = of_char c
      in b64_char (x div 4) # b64_char (x mod 4 * 16 + y div 16) #
         b64_char (y mod 16 * 4 + z div 64) # b64_char (z mod 64) # base64url r)"

fun b64_bytes :: "nat list \<Rightarrow> string" where
  "b64_bytes (p # q # r # t # ns) =
     char_of (p * 4 + q div 16) # char_of (q mod 16 * 16 + r div 4) # char_of (r mod 4 * 64 + t) # b64_bytes ns"
| "b64_bytes [p, q, r] = [char_of (p * 4 + q div 16), char_of (q mod 16 * 16 + r div 4)]"
| "b64_bytes [p, q] = [char_of (p * 4 + q div 16)]"
| "b64_bytes _ = []"

text \<open>\<open>Buffer.from(text, 'base64url')\<close> skips characters outside of the alphabet.\<close>

definition unbase64url :: "string \<Rightarrow> string" where
  "unbase64url cs = b64_bytes (List.map_filter b64_value cs)"

lemma b64_value_char [simp]: "n < 64 \<Longrightarrow> b64_value (b64_char n) = Some n"
  by (auto simp: b64_value_def b64_char_def of_char_of Let_def)

lemma of_char_less [simp]: "(of_char c :: nat) < 256"
  by (rule nat_of_char_less_256)

lemma byte_div: "(x::nat) < 256 \<Longrightarrow> x div 4 < 64 \<and> x div 16 < 16 \<and> x div 64 < 4"
  by (simp add: less_mult_imp_div_less)

lemma digit_pairs:
  "(r::nat) < 16 \<Longrightarrow> (q * 16 + r) div 16 = q" "(r::nat) < 16 \<Longrightarrow> (q * 16 + r) mod 16 = r"
  "(r::nat) < 4 \<Longrightarrow> (q * 4 + r) div 4 = q" "(r::nat) < 4 \<Longrightarrow> (q * 4 + r) mod 4 = r"
  by simp_all

lemma byte_digits [simp]:
  "(of_char c :: nat) div 4 < 64" "(of_char c :: nat) mod 4 * 16 < 64" "(of_char c :: nat) mod 16 * 4 < 64"
  "(of_char c :: nat) mod 4 * 16 + (of_char d :: nat) div 16 < 64"
  "(of_char c :: nat) mod 16 * 4 + (of_char d :: nat) div 64 < 64"
proof -
  have m: "(of_char c :: nat) mod 4 < 4" "(of_char c :: nat) mod 16 < 16" by simp_all
  note d = byte_div [OF of_char_less, of d]
  show "(of_char c :: nat) div 4 < 64" using byte_div [OF of_char_less, of c] by blast
  show "(of_char c :: nat) mod 4 * 16 < 64" "(of_char c :: nat) mod 16 * 4 < 64" using m by linarith+
  show "(of_char c :: nat) mod 4 * 16 + (of_char d :: nat) div 16 < 64"
    "(of_char c :: nat) mod 16 * 4 + (of_char d :: nat) div 64 < 64" using m d by linarith+
qed

text \<open>The bytes come back from their digits.\<close>

lemma bytes_back:
  fixes x y z :: nat
  assumes "x < 256" "y < 256" "z < 256"
  shows "x div 4 * 4 + x mod 4 * 16 div 16 = x"
    and "x div 4 * 4 + (x mod 4 * 16 + y div 16) div 16 = x"
    and "(x mod 4 * 16 + y div 16) mod 16 * 16 + y mod 16 * 4 div 4 = y"
    and "(x mod 4 * 16 + y div 16) mod 16 * 16 + (y mod 16 * 4 + z div 64) div 4 = y"
    and "(y mod 16 * 4 + z div 64) mod 4 * 64 + z mod 64 = z"
  using byte_div [OF assms(2)] byte_div [OF assms(3)] by (simp_all add: digit_pairs)

lemma unbase64url_base64url: "unbase64url (base64url s) = s"
proof (induction s rule: base64url.induct)
  case 1
  then show ?case by (simp add: unbase64url_def map_filter_simps)
next
  case (2 a)
  then show ?case
    using bytes_back(1) [OF of_char_less [of a] of_char_less [of a] of_char_less [of a]]
    by (simp add: unbase64url_def map_filter_simps Let_def)
next
  case (3 a b)
  then show ?case
    using bytes_back(2,3) [OF of_char_less [of a] of_char_less [of b] of_char_less [of b]]
    by (simp add: unbase64url_def map_filter_simps Let_def)
next
  case (4 a b c r)
  then show ?case
    using bytes_back(2,4,5) [OF of_char_less [of a] of_char_less [of b] of_char_less [of c]]
    by (simp add: unbase64url_def map_filter_simps Let_def)
qed

lemma b64_char_not_dot: "b64_char n \<noteq> CHR ''.''"
proof
  assume "b64_char n = CHR ''.''"
  then have "b64_value (b64_char n) = None" by (simp add: b64_value_def)
  then have "\<not> n < 64" using b64_value_char [of n] by auto
  then have "b64_char n = CHR ''_''" by (simp add: b64_char_def)
  with \<open>b64_char n = CHR ''.''\<close> show False by simp
qed

lemma base64url_no_dot: "CHR ''.'' \<notin> set (base64url s)"
  by (induction s rule: base64url.induct) (auto simp: Let_def b64_char_not_dot b64_char_not_dot [symmetric])

lemma base64url_empty [simp]: "base64url s = [] \<longleftrightarrow> s = []"
  by (cases s rule: base64url.cases) (auto simp: Let_def)

section \<open>The service\<close>

record crypto_lib =
  cl_sha256 :: "string \<Rightarrow> string"
  cl_hmac :: "string \<Rightarrow> string \<Rightarrow> string"
  cl_seal :: "string \<Rightarrow> string \<Rightarrow> string \<Rightarrow> string \<Rightarrow> string \<times> string"
  cl_open :: "string \<Rightarrow> string \<Rightarrow> string \<Rightarrow> string \<Rightarrow> string \<Rightarrow> string option"
  cl_argon_hash :: "string \<Rightarrow> string \<Rightarrow> string"
  cl_argon_verify :: "string \<Rightarrow> string \<Rightarrow> bool result"

record crypto_service =
  cr_lib :: crypto_lib
  cr_encryptionKey :: string
  cr_cookieSecret :: string

definition crypto_init :: "crypto_lib \<Rightarrow> string \<Rightarrow> string \<Rightarrow> crypto_service" where
  "crypto_init lib encryptionSecret cookieSecret =
     \<lparr>cr_lib = lib, cr_encryptionKey = cl_sha256 lib encryptionSecret,
      cr_cookieSecret = cl_sha256 lib cookieSecret\<rparr>"

definition hex_digit :: "nat \<Rightarrow> char" where
  "hex_digit n = (if n < 10 then char_of (48 + n) else char_of (87 + n))"

definition to_hex :: "string \<Rightarrow> string" where
  "to_hex s = concat (map (\<lambda>c. [hex_digit (of_char c div 16), hex_digit (of_char c mod 16)]) s)"

text \<open>The argument is the random bytes drawn.\<close>

definition randomToken :: "string \<Rightarrow> string" where
  "randomToken bytes = base64url bytes"

definition hashSecret :: "crypto_service \<Rightarrow> string \<Rightarrow> string \<Rightarrow> string" where
  "hashSecret C salt secret = cl_argon_hash (cr_lib C) salt secret"

definition verifySecret :: "crypto_service \<Rightarrow> string \<Rightarrow> string \<Rightarrow> bool" where
  "verifySecret C hashValue secret =
     (case cl_argon_verify (cr_lib C) hashValue secret of Inr b \<Rightarrow> b | Inl _ \<Rightarrow> False)"

definition encrypt :: "crypto_service \<Rightarrow> string \<Rightarrow> string \<Rightarrow> string \<Rightarrow> string" where
  "encrypt C iv plaintext ctxt =
     (let (ciphertext, tag) = cl_seal (cr_lib C) (cr_encryptionKey C) iv ctxt plaintext
      in join ''.'' [''v1'', base64url iv, base64url tag, base64url ciphertext])"

definition decrypt :: "crypto_service \<Rightarrow> string \<Rightarrow> string \<Rightarrow> string result" where
  "decrypt C payload ctxt =
     (let parts = split_on CHR ''.'' payload;
          part = (\<lambda>i. if i < length parts then parts ! i else [])
      in if part 0 \<noteq> ''v1'' \<or> part 1 = [] \<or> part 2 = [] \<or> part 3 = []
         then Inl (Error ''Invalid encrypted payload'')
         else (case cl_open (cr_lib C) (cr_encryptionKey C) (unbase64url (part 1)) ctxt
                      (unbase64url (part 3)) (unbase64url (part 2)) of
                 None \<Rightarrow> Inl (Error ''Unsupported state or unable to authenticate data'')
               | Some plaintext \<Rightarrow> Inr plaintext))"

definition sign :: "crypto_service \<Rightarrow> string \<Rightarrow> string" where
  "sign C v = base64url (cl_hmac (cr_lib C) (cr_cookieSecret C) v)"

definition sha256 :: "crypto_service \<Rightarrow> string \<Rightarrow> string" where
  "sha256 C v = to_hex (cl_sha256 (cr_lib C) v)"

section \<open>Authenticated encryption\<close>

text \<open>
  What the service relies on: opening gives the plaintext back, a ciphertext has the length of its
  plaintext, a tag is not empty, and nothing opens under another key or context.
\<close>

definition sealing :: "crypto_lib \<Rightarrow> bool" where
  "sealing lib \<longleftrightarrow> (\<forall>key iv aad text.
     let (c, tag) = cl_seal lib key iv aad text
     in cl_open lib key iv aad c tag = Some text \<and> length c = length text \<and> tag \<noteq> [] \<and>
        (\<forall>aad'. aad' \<noteq> aad \<longrightarrow> cl_open lib key iv aad' c tag = None))"

lemma sealingD:
  assumes "sealing lib" and "cl_seal lib key iv aad text = (c, tag)"
  shows "cl_open lib key iv aad c tag = Some text" "length c = length text" "tag \<noteq> []"
    "aad' \<noteq> aad \<Longrightarrow> cl_open lib key iv aad' c tag = None"
proof -
  from assms(1) have "let (c, tag) = cl_seal lib key iv aad text
     in cl_open lib key iv aad c tag = Some text \<and> length c = length text \<and> tag \<noteq> [] \<and>
        (\<forall>aad'. aad' \<noteq> aad \<longrightarrow> cl_open lib key iv aad' c tag = None)"
    unfolding sealing_def by (elim allE)
  with assms(2) show "cl_open lib key iv aad c tag = Some text" "length c = length text" "tag \<noteq> []"
    "aad' \<noteq> aad \<Longrightarrow> cl_open lib key iv aad' c tag = None" by simp_all
qed

lemma encrypt_parts:
  shows "\<exists>c tag. cl_seal (cr_lib C) (cr_encryptionKey C) iv ctxt text = (c, tag) \<and>
    split_on CHR ''.'' (encrypt C iv text ctxt) = [''v1'', base64url iv, base64url tag, base64url c]"
proof -
  obtain c tag where s: "cl_seal (cr_lib C) (cr_encryptionKey C) iv ctxt text = (c, tag)" by fastforce
  have "split_on CHR ''.'' (join ''.'' [''v1'', base64url iv, base64url tag, base64url c]) =
      [''v1'', base64url iv, base64url tag, base64url c]"
    by (rule split_on_join) (auto simp: base64url_no_dot)
  with s show ?thesis by (simp add: encrypt_def)
qed

lemma decrypt_encrypt:
  assumes "sealing (cr_lib C)" and "iv \<noteq> []" and "text \<noteq> []"
  shows "decrypt C (encrypt C iv text ctxt) ctxt = Inr text"
proof -
  from encrypt_parts [of C] obtain c tag where
    s: "cl_seal (cr_lib C) (cr_encryptionKey C) iv ctxt text = (c, tag)"
    and p: "split_on CHR ''.'' (encrypt C iv text ctxt) = [''v1'', base64url iv, base64url tag, base64url c]"
    by blast
  have "c \<noteq> []" using sealingD(2) [OF assms(1) s] assms(3) by auto
  with p sealingD(1) [OF assms(1) s] sealingD(3) [OF assms(1) s] assms(1,2) show ?thesis
    by (simp add: decrypt_def Let_def unbase64url_base64url numeral_eq_Suc)
qed

lemma decrypt_empty:
  assumes "sealing (cr_lib C)"
  shows "decrypt C (encrypt C iv [] ctxt) ctxt = Inl (Error ''Invalid encrypted payload'')"
proof -
  from encrypt_parts [of C] obtain c tag where
    s: "cl_seal (cr_lib C) (cr_encryptionKey C) iv ctxt [] = (c, tag)"
    and p: "split_on CHR ''.'' (encrypt C iv [] ctxt) = [''v1'', base64url iv, base64url tag, base64url c]"
    by blast
  have "c = []" using sealingD(2) [OF assms(1) s] by simp
  with p show ?thesis by (simp add: decrypt_def Let_def numeral_eq_Suc)
qed

lemma decrypt_other_context:
  assumes "sealing (cr_lib C)" and "ctxt' \<noteq> ctxt"
  shows "\<exists>e. decrypt C (encrypt C iv text ctxt) ctxt' = Inl e"
proof -
  from encrypt_parts [of C] obtain c tag where
    s: "cl_seal (cr_lib C) (cr_encryptionKey C) iv ctxt text = (c, tag)"
    and p: "split_on CHR ''.'' (encrypt C iv text ctxt) = [''v1'', base64url iv, base64url tag, base64url c]"
    by blast
  from sealingD(4) [OF assms(1) s assms(2)] p assms(1) show ?thesis
    by (simp add: decrypt_def Let_def unbase64url_base64url numeral_eq_Suc)
qed

text \<open>What was encrypted is decrypted.  Under its own context a ciphertext of a nonempty plaintext
  decrypts to that plaintext and under any other context decryption throws; the empty plaintext is
  the exception, its ciphertext is refused as invalid.\<close>

theorem encrypt_round_trip:
  assumes "sealing (cr_lib C)" and "iv \<noteq> []"
  shows "decrypt C (encrypt C iv plaintext ctxt) ctxt =
      (if plaintext = [] then Inl (Error ''Invalid encrypted payload'') else Inr plaintext) \<and>
    (\<forall>other. other \<noteq> ctxt \<longrightarrow> isl (decrypt C (encrypt C iv plaintext ctxt) other))"
  using decrypt_encrypt [OF assms(1,2)] decrypt_empty [OF assms(1)] decrypt_other_context [OF assms(1)]
  by (auto simp: isl_def)

definition example_crypto_lib :: crypto_lib where
  "example_crypto_lib =
     \<lparr>cl_sha256 = (\<lambda>t. t), cl_hmac = (\<lambda>k t. k @ t), cl_seal = (\<lambda>key iv aad t. (t, CHR ''t'' # aad)),
      cl_open = (\<lambda>key iv aad c tag. if tag = CHR ''t'' # aad then Some c else None),
      cl_argon_hash = (\<lambda>salt t. salt @ CHR ''$'' # t),
      cl_argon_verify = (\<lambda>h t. Inr (drop (Suc (length (takeWhile (\<lambda>c. c \<noteq> CHR ''$'') h))) h = t))\<rparr>"

definition example_crypto :: crypto_service where
  "example_crypto = crypto_init example_crypto_lib ''key'' ''cookie''"

lemma example_sealing: "sealing (cr_lib example_crypto)"
  by (simp add: sealing_def example_crypto_def crypto_init_def example_crypto_lib_def)

theorem encrypt_round_trip_witness:
  "decrypt example_crypto (encrypt example_crypto ''iv'' ''secret'' ''ctx'') ''ctx'' = Inr ''secret'' \<and>
   isl (decrypt example_crypto (encrypt example_crypto ''iv'' ''secret'' ''ctx'') ''other'')"
  using encrypt_round_trip [OF example_sealing, of "''iv''" "''secret''" "''ctx''"] by simp

end
