(* ===== verification/Alerts.thy ===== *)
theory Alerts
  imports Text Schema
begin

text \<open>
  The alerts of \<open>apps/server/src/alerts/alerts.service.ts\<close>.  An alert is open once per key: raising
  it again refreshes the open row, and resolving closes every open row of the key.
\<close>

record alert_input =
  ai_dedupeKey :: string
  ai_severity :: AlertSeverity
  ai_title :: string
  ai_message :: string

definition find_open :: "string \<Rightarrow> store \<Rightarrow> alert option" where
  "find_open key s = List.find (\<lambda>a. at_dedupeKey a = key \<and> at_status a = OPEN) (alerts s)"

definition raise_alert :: "instant \<Rightarrow> alert_input \<Rightarrow> store \<Rightarrow> store" where
  "raise_alert now input s =
     (case find_open (ai_dedupeKey input) s of
        Some existing \<Rightarrow>
          publish ''alert.open'' (at_id existing)
            (s\<lparr>alerts := update_where (\<lambda>a. at_id a = at_id existing)
                 (\<lambda>a. a\<lparr>at_dedupeKey := ai_dedupeKey input, at_severity := ai_severity input,
                       at_title := ai_title input, at_message := ai_message input,
                       at_lastSeenAt := now\<rparr>) (alerts s)\<rparr>)
      | None \<Rightarrow>
          (let (i, s1) = new_id s
           in publish ''alert.open'' i
                (s1\<lparr>alerts := alerts s1 @ [\<lparr>at_id = i, at_dedupeKey = ai_dedupeKey input,
                   at_severity = ai_severity input, at_status = OPEN, at_title = ai_title input,
                   at_message = ai_message input, at_firstSeenAt = now, at_lastSeenAt = now,
                   at_resolvedAt = None\<rparr>]\<rparr>)))"

definition resolve_alert :: "instant \<Rightarrow> uuid \<Rightarrow> store \<Rightarrow> store result" where
  "resolve_alert now i s =
     (if i \<notin> at_id ` set (alerts s) then Inl (RecordNotFound ''Alert'')
      else Inr (s\<lparr>alerts := update_where (\<lambda>a. at_id a = i)
             (\<lambda>a. a\<lparr>at_status := RESOLVED, at_resolvedAt := Some now\<rparr>) (alerts s)\<rparr>))"

definition resolveByDedupe :: "instant \<Rightarrow> string \<Rightarrow> store \<Rightarrow> store" where
  "resolveByDedupe now key s =
     (let s1 = s\<lparr>alerts := update_where (\<lambda>a. at_dedupeKey a = key \<and> at_status a = OPEN)
                  (\<lambda>a. a\<lparr>at_status := RESOLVED, at_resolvedAt := Some now\<rparr>) (alerts s)\<rparr>
      in if find_open key s = None then s1 else publish ''alert.resolved'' key s1)"

section \<open>What an alert operation may change\<close>

definition alerts_only :: "store \<Rightarrow> store \<Rightarrow> bool" where
  "alerts_only s t \<longleftrightarrow> minted s \<le> minted t \<and>
     t = s\<lparr>minted := minted t, alerts := alerts t, eventLog := eventLog t\<rparr>"

lemma alerts_only_refl [simp]: "alerts_only s s"
  by (simp add: alerts_only_def)

lemma alerts_only_tables:
  assumes "alerts_only s t"
  shows "deposits t = deposits s" "payoutBatches t = payoutBatches s" "uuids t = uuids s"
    "ledgerAccounts t = ledgerAccounts s" "journalTransactions t = journalTransactions s"
    "allocationBatches t = allocationBatches s" "shareEvents t = shareEvents s"
    "upstreams t = upstreams s" "payoutDestinations t = payoutDestinations s"
    "systemSettings t = systemSettings s" "customers t = customers s"
    "splitPolicies t = splitPolicies s" "auditEvents t = auditEvents s" "minted s \<le> minted t"
proof -
  from assms obtain m as es where "t = s\<lparr>minted := m, alerts := as, eventLog := es\<rparr>"
    and m: "minted s \<le> minted t"
    unfolding alerts_only_def by blast
  then show "deposits t = deposits s" "payoutBatches t = payoutBatches s" "uuids t = uuids s"
    "ledgerAccounts t = ledgerAccounts s" "journalTransactions t = journalTransactions s"
    "allocationBatches t = allocationBatches s" "shareEvents t = shareEvents s"
    "upstreams t = upstreams s" "payoutDestinations t = payoutDestinations s"
    "systemSettings t = systemSettings s" "customers t = customers s"
    "splitPolicies t = splitPolicies s" "auditEvents t = auditEvents s" "minted s \<le> minted t"
    by simp_all
qed

lemma alerts_only_trans: "alerts_only s t \<Longrightarrow> alerts_only t u \<Longrightarrow> alerts_only s u"
proof -
  assume "alerts_only s t" "alerts_only t u"
  then obtain m as es m' as' es' where
    "t = s\<lparr>minted := m, alerts := as, eventLog := es\<rparr>" "minted s \<le> minted t"
    "u = t\<lparr>minted := m', alerts := as', eventLog := es'\<rparr>" "minted t \<le> minted u"
    unfolding alerts_only_def by blast
  then show ?thesis by (simp add: alerts_only_def)
qed

lemma publish_alerts_only [simp]: "alerts_only s (publish n x s)"
  by (simp add: alerts_only_def publish_def)

lemma raise_alert_only [simp]: "alerts_only s (raise_alert now input s)"
  by (auto simp: raise_alert_def alerts_only_def publish_def new_id_def Let_def split: option.splits)

lemma resolveByDedupe_only [simp]: "alerts_only s (resolveByDedupe now key s)"
  by (auto simp: resolveByDedupe_def alerts_only_def publish_def Let_def)

lemma resolve_alert_only: "resolve_alert now i s = Inr t \<Longrightarrow> alerts_only s t"
  by (auto simp: resolve_alert_def alerts_only_def split: if_splits)

lemma find_open_member: "a \<in> set (alerts s) \<Longrightarrow> at_status a = OPEN \<Longrightarrow> find_open (at_dedupeKey a) s \<noteq> None"
  by (auto simp: find_open_def find_None_iff)

lemma raise_alert_opens: "find_open (ai_dedupeKey input) (raise_alert now input s) \<noteq> None"
proof (cases "find_open (ai_dedupeKey input) s")
  case None
  let ?a = "\<lparr>at_id = uuids s (minted s), at_dedupeKey = ai_dedupeKey input,
                   at_severity = ai_severity input, at_status = OPEN, at_title = ai_title input,
                   at_message = ai_message input, at_firstSeenAt = now, at_lastSeenAt = now,
                   at_resolvedAt = None\<rparr>"
  have "?a \<in> set (alerts (raise_alert now input s))" using None by (simp add: raise_alert_def new_id_def)
  then show ?thesis by (auto dest: find_open_member)
next
  case (Some a)
  let ?a = "a\<lparr>at_dedupeKey := ai_dedupeKey input, at_severity := ai_severity input,
                       at_title := ai_title input, at_message := ai_message input, at_lastSeenAt := now\<rparr>"
  have a: "a \<in> set (alerts s)" "at_status a = OPEN" using Some by (auto simp: find_open_def dest!: find_SomeD)
  then have "?a \<in> set (alerts (raise_alert now input s))"
    using Some by (auto simp: raise_alert_def update_where_def)
  with a(2) show ?thesis by (auto dest: find_open_member)
qed

section \<open>One open alert per key\<close>

definition wf_alerts :: "store \<Rightarrow> bool" where
  "wf_alerts s \<longleftrightarrow> inj (uuids s) \<and> at_id ` set (alerts s) \<subseteq> minted_ids s \<and> unique_on at_id (alerts s) \<and>
     unique_on at_dedupeKey (filter (\<lambda>a. at_status a = OPEN) (alerts s))"

lemma filter_update_where:
  "(\<And>x. x \<in> set xs \<Longrightarrow> P x \<Longrightarrow> Q (f x) \<longleftrightarrow> Q x) \<Longrightarrow>
   filter Q (update_where P f xs) = update_where P f (filter Q xs)"
  by (induction xs) auto

lemma filter_update_where_out:
  "(\<And>x. x \<in> set xs \<Longrightarrow> P x \<Longrightarrow> \<not> Q (f x)) \<Longrightarrow>
   filter Q (update_where P f xs) = filter (\<lambda>x. Q x \<and> \<not> P x) xs"
  by (induction xs) auto

lemma unique_on_filter_conj:
  "unique_on key (filter P xs) \<Longrightarrow> unique_on key (filter (\<lambda>x. P x \<and> Q x) xs)"
  by (metis distinct_map_filter filter_filter)

lemma filter_unique_key:
  "unique_on key (filter P xs) \<Longrightarrow> a \<in> set xs \<Longrightarrow> P a \<Longrightarrow> filter (\<lambda>x. P x \<and> key x = key a) xs = [a]"
proof (induction xs)
  case (Cons x xs)
  show ?case
  proof (cases "P x \<and> key x = key a")
    case True
    with Cons.prems have "key a \<notin> key ` set (filter P xs)" by auto
    then have "filter (\<lambda>x. P x \<and> key x = key a) xs = []" by (auto simp: filter_empty_conv image_iff)
    moreover from True Cons.prems have "x = a" by (auto simp: image_iff)
    ultimately show ?thesis using True by simp
  next
    case False
    with Cons show ?thesis by (auto split: if_splits)
  qed
qed simp

lemma raise_alert_wf:
  assumes "wf_alerts s" shows "wf_alerts (raise_alert now input s)"
proof (cases "find_open (ai_dedupeKey input) s")
  case None
  let ?i = "uuids s (minted s)"
  have "?i \<notin> at_id ` set (alerts s)"
    using assms new_id_fresh [of s] by (auto simp: wf_alerts_def)
  moreover have "ai_dedupeKey input \<notin> at_dedupeKey ` set (filter (\<lambda>a. at_status a = OPEN) (alerts s))"
    using None by (auto simp: find_open_def find_None_iff)
  ultimately show ?thesis using assms None
    by (auto simp: wf_alerts_def raise_alert_def new_id_def publish_def minted_ids_def lessThan_Suc)
next
  case (Some a)
  let ?f = "\<lambda>b. b\<lparr>at_dedupeKey := ai_dedupeKey input, at_severity := ai_severity input,
     at_title := ai_title input, at_message := ai_message input, at_lastSeenAt := now\<rparr>"
  have a: "a \<in> set (alerts s)" "at_dedupeKey a = ai_dedupeKey input" "at_status a = OPEN"
    using Some by (auto simp: find_open_def dest!: find_SomeD)
  have "at_dedupeKey (if at_id b = at_id a then ?f b else b) = at_dedupeKey b"
    if "b \<in> set (alerts s)" for b
    using that a assms by (auto simp: wf_alerts_def distinct_map inj_on_def)
  then have "map at_dedupeKey (filter (\<lambda>a. at_status a = OPEN) (update_where (\<lambda>b. at_id b = at_id a) ?f (alerts s)))
      = map at_dedupeKey (filter (\<lambda>a. at_status a = OPEN) (alerts s))"
    by (subst filter_update_where) (auto simp: update_where_def)
  moreover have "map at_id (update_where (\<lambda>b. at_id b = at_id a) ?f (alerts s)) = map at_id (alerts s)"
    by (rule map_update_where) simp
  ultimately show ?thesis using assms Some
    by (auto simp: wf_alerts_def raise_alert_def publish_def minted_ids_def simp flip: set_map)
qed

lemma resolveByDedupe_wf:
  assumes "wf_alerts s"
  shows "wf_alerts (resolveByDedupe now key s) \<and> find_open key (resolveByDedupe now key s) = None"
proof -
  let ?as = "update_where (\<lambda>a. at_dedupeKey a = key \<and> at_status a = OPEN)
                  (\<lambda>a. a\<lparr>at_status := RESOLVED, at_resolvedAt := Some now\<rparr>) (alerts s)"
  have as: "alerts (resolveByDedupe now key s) = ?as" "minted_ids (resolveByDedupe now key s) = minted_ids s"
    "uuids (resolveByDedupe now key s) = uuids s"
    by (simp_all add: resolveByDedupe_def Let_def minted_ids_def)
  have "filter (\<lambda>a. at_status a = OPEN) ?as =
      filter (\<lambda>a. at_status a = OPEN \<and> \<not> (at_dedupeKey a = key \<and> at_status a = OPEN)) (alerts s)"
    by (rule filter_update_where_out) simp
  also have "\<dots> = filter (\<lambda>a. at_dedupeKey a \<noteq> key) (filter (\<lambda>a. at_status a = OPEN) (alerts s))"
    by (auto intro: filter_cong)
  finally have f: "filter (\<lambda>a. at_status a = OPEN) ?as =
      filter (\<lambda>a. at_dedupeKey a \<noteq> key) (filter (\<lambda>a. at_status a = OPEN) (alerts s))" .
  have "map at_id ?as = map at_id (alerts s)" by (rule map_update_where) simp
  then have ids: "unique_on at_id ?as" "at_id ` set ?as \<subseteq> minted_ids s"
    using assms by (auto simp: wf_alerts_def simp flip: set_map)
  have "a \<notin> set (filter (\<lambda>a. at_status a = OPEN) ?as)" if "at_dedupeKey a = key" for a
    unfolding f using that by simp
  then have "find_open key (resolveByDedupe now key s) = None"
    by (auto simp: find_open_def find_None_iff as)
  with ids f assms show ?thesis
    by (simp add: wf_alerts_def as unique_on_filter_conj)
qed

lemma resolve_alert_wf:
  assumes "wf_alerts s" and "resolve_alert now i s = Inr t"
  shows "wf_alerts t"
proof -
  let ?as = "update_where (\<lambda>a. at_id a = i)
             (\<lambda>a. a\<lparr>at_status := RESOLVED, at_resolvedAt := Some now\<rparr>) (alerts s)"
  from assms(2) have t: "t = s\<lparr>alerts := ?as\<rparr>" by (simp add: resolve_alert_def split: if_splits)
  have "filter (\<lambda>a. at_status a = OPEN) ?as = filter (\<lambda>a. at_status a = OPEN \<and> at_id a \<noteq> i) (alerts s)"
    by (rule filter_update_where_out) simp
  then have "filter (\<lambda>a. at_status a = OPEN) ?as =
      filter (\<lambda>a. at_id a \<noteq> i) (filter (\<lambda>a. at_status a = OPEN) (alerts s))"
    by (simp add: conj_commute)
  moreover have "map at_id ?as = map at_id (alerts s)" by (rule map_update_where) simp
  ultimately show ?thesis using assms(1)
    by (auto simp: wf_alerts_def t minted_ids_def unique_on_filter_conj simp flip: set_map)
qed

lemma raise_alert_message:
  assumes "wf_alerts s"
  shows "map at_message (filter (\<lambda>a. at_status a = OPEN \<and> at_dedupeKey a = ai_dedupeKey input)
       (alerts (raise_alert now input s))) = [ai_message input]"
proof (cases "find_open (ai_dedupeKey input) s")
  case None
  then have "filter (\<lambda>a. at_status a = OPEN \<and> at_dedupeKey a = ai_dedupeKey input) (alerts s) = []"
    by (auto simp: find_open_def find_None_iff filter_empty_conv)
  with None show ?thesis by (simp add: raise_alert_def new_id_def)
next
  case (Some a)
  have a: "a \<in> set (alerts s)" "at_dedupeKey a = ai_dedupeKey input" "at_status a = OPEN"
    using Some by (auto simp: find_open_def dest!: find_SomeD)
  have "filter (\<lambda>b. at_status b = OPEN \<and> at_dedupeKey b = ai_dedupeKey input) (alerts s) = [a]"
    using filter_unique_key [of at_dedupeKey "\<lambda>a. at_status a = OPEN" "alerts s" a] a assms
    by (simp add: wf_alerts_def)
  moreover have "at_id b = at_id a \<Longrightarrow> b = a" if "b \<in> set (alerts s)" for b
    using that a assms by (auto simp: wf_alerts_def distinct_map inj_on_def)
  ultimately show ?thesis using Some a
    by (simp add: raise_alert_def) (subst filter_update_where, auto)
qed

inductive alerts_reachable :: "store \<Rightarrow> bool" where
  start: "inj ids \<Longrightarrow> alerts_reachable (empty_store ids)"
| raise: "alerts_reachable s \<Longrightarrow> alerts_reachable (raise_alert now input s)"
| resolve: "alerts_reachable s \<Longrightarrow> resolve_alert now i s = Inr t \<Longrightarrow> alerts_reachable t"
| dedupe: "alerts_reachable s \<Longrightarrow> alerts_reachable (resolveByDedupe now key s)"
| other: "alerts_reachable s \<Longrightarrow> alerts t = alerts s \<Longrightarrow> uuids t = uuids s \<Longrightarrow> minted s \<le> minted t \<Longrightarrow>
    alerts_reachable t"

lemma alerts_reachable_wf: "alerts_reachable s \<Longrightarrow> wf_alerts s"
proof (induction rule: alerts_reachable.induct)
  case (start ids)
  then show ?case by (simp add: wf_alerts_def empty_store_def)
next
  case (other s t)
  then have "minted_ids s \<subseteq> minted_ids t" by (auto simp: minted_ids_def)
  with other show ?case by (auto simp: wf_alerts_def)
qed (auto simp: raise_alert_wf resolveByDedupe_wf intro: resolve_alert_wf)

text \<open>At most one alert is open per key.  After any history of raising and resolving, no two open
  alerts share their key; once a key has been resolved none is open; and raising a key again leaves
  exactly one open alert of it, which carries the new message.\<close>

theorem one_open_alert_per_key:
  assumes "alerts_reachable s"
  shows "unique_on at_dedupeKey (filter (\<lambda>a. at_status a = OPEN) (alerts s)) \<and>
    find_open key (resolveByDedupe now key s) = None \<and>
    map at_message (filter (\<lambda>a. at_status a = OPEN \<and> at_dedupeKey a = ai_dedupeKey input)
       (alerts (raise_alert now input s))) = [ai_message input]"
proof -
  note wf = alerts_reachable_wf [OF assms]
  then have u: "unique_on at_dedupeKey (filter (\<lambda>a. at_status a = OPEN) (alerts s))"
    by (simp add: wf_alerts_def)
  have "map at_message (filter (\<lambda>a. at_status a = OPEN \<and> at_dedupeKey a = ai_dedupeKey input)
       (alerts (raise_alert now input s))) = [ai_message input]"
    by (rule raise_alert_message [OF wf])
  with u resolveByDedupe_wf [OF wf] show ?thesis by simp
qed

theorem one_open_alert_per_key_witness:
  "map at_message (filter (\<lambda>a. at_status a = OPEN \<and> at_dedupeKey a = ''k'')
     (alerts (raise_alert 2 \<lparr>ai_dedupeKey = ''k'', ai_severity = INFO, ai_title = ''t'', ai_message = ''m''\<rparr>
       (empty_store show_nat)))) = [''m'']"
  using one_open_alert_per_key [OF alerts_reachable.start [OF inj_show_nat],
      where now = 2 and input = "\<lparr>ai_dedupeKey = ''k'', ai_severity = INFO, ai_title = ''t'', ai_message = ''m''\<rparr>"]
  by simp

end
