(* ===== verification/AuditLog.thy ===== *)
theory AuditLog
  imports Crypto Alerts
begin

text \<open>
  The audit log of \<open>apps/server/src/audit/audit.service.ts\<close>: every administrative action appends an
  event whose hash covers its content and the hash of the event before it.

  \<open>canonical\<close> prints a value with the members of every object in the order of \<open>localeCompare\<close>.  The
  order of the runtime's locale is a parameter, the collation key \<open>loc\<close> of a string; two keys are
  compared by their collation keys, and the sort is stable.  The table keeps objects as \<open>jsonb\<close>, which
  returns their members in an order of its own: \<open>reordered\<close> is what a read may do to a value.
\<close>

section \<open>Canonical text\<close>

fun canonical :: "(string \<Rightarrow> 'o::linorder) \<Rightarrow> json \<Rightarrow> string" where
  "canonical loc (JBig n) = json_quote (show_int n)"
| "canonical loc (JArr xs) = ''['' @ join '','' (map (canonical loc) xs) @ '']''"
| "canonical loc (JObj kvs) =
     ''{'' @ join '','' (map (\<lambda>(k, t). json_quote k @ '':'' @ t)
        (sort_key (\<lambda>(k, t). loc k) (map (\<lambda>(k, v). (k, canonical loc v)) kvs))) @ ''}''"
| "canonical loc (JDate d) = ''{}''"
| "canonical loc v = print_json v"

section \<open>Recording and verifying\<close>

record audit_input =
  au_actorId :: "uuid option"
  au_action :: string
  au_entityType :: string
  au_entityId :: "string option"
  au_ipAddress :: "string option"
  au_before :: "json option"
  au_after :: "json option"

definition opt_text :: "string option \<Rightarrow> json" where
  "opt_text t = (case t of None \<Rightarrow> JNull | Some s \<Rightarrow> JStr s)"

text \<open>The object that is hashed, the same in \<open>record\<close> and in \<open>verify\<close>.\<close>

definition audit_payload :: "audit_event \<Rightarrow> string option \<Rightarrow> json" where
  "audit_payload e previousHash =
     JObj [(''actorId'', opt_text (ae_actorId e)), (''action'', JStr (ae_action e)),
       (''entityType'', JStr (ae_entityType e)), (''entityId'', opt_text (ae_entityId e)),
       (''ipAddress'', opt_text (ae_ipAddress e)), (''before'', ae_before e), (''after'', ae_after e),
       (''previousHash'', opt_text previousHash), (''createdAt'', JStr (toISOString (ae_createdAt e)))]"

definition event_hash :: "crypto_service \<Rightarrow> (string \<Rightarrow> 'o::linorder) \<Rightarrow> audit_event \<Rightarrow> string option \<Rightarrow> string" where
  "event_hash C loc e previousHash = sha256 C (canonical loc (audit_payload e previousHash))"

definition safe_or_null :: "json option \<Rightarrow> json result" where
  "safe_or_null v =
     (case v of None \<Rightarrow> Inr JNull
      | Some x \<Rightarrow> (case jsonSafe x of None \<Rightarrow> Inl (Error ''Do not know how to serialize'') | Some y \<Rightarrow> Inr y))"

definition by_sequence :: "store \<Rightarrow> audit_event list" where
  "by_sequence s = sort_key ae_sequence (auditEvents s)"

definition previous_hash :: "audit_event list \<Rightarrow> string option" where
  "previous_hash es = (if es = [] then None else Some (ae_eventHash (last es)))"

definition next_sequence :: "audit_event list \<Rightarrow> nat" where
  "next_sequence es = (if es = [] then 1 else Suc (ae_sequence (last es)))"

text \<open>The row to be created, before its hash is known.\<close>

definition new_event ::
  "instant \<Rightarrow> audit_input \<Rightarrow> json \<Rightarrow> json \<Rightarrow> audit_event list \<Rightarrow> uuid \<Rightarrow> audit_event" where
  "new_event now input before after events i =
     \<lparr>ae_id = i, ae_sequence = next_sequence events, ae_actorId = au_actorId input,
      ae_action = au_action input, ae_entityType = au_entityType input,
      ae_entityId = au_entityId input, ae_ipAddress = au_ipAddress input,
      ae_before = before, ae_after = after, ae_previousHash = previous_hash events,
      ae_eventHash = [], ae_createdAt = now\<rparr>"

definition record_body ::
  "crypto_service \<Rightarrow> (string \<Rightarrow> 'o::linorder) \<Rightarrow> instant \<Rightarrow> audit_input \<Rightarrow> store \<Rightarrow> (store \<times> unit) result" where
  "record_body C loc now input s =
     (let events = by_sequence s
      in ebind (safe_or_null (au_before input)) (\<lambda>before.
         ebind (safe_or_null (au_after input)) (\<lambda>after.
         let (i, s1) = new_id s;
             e = new_event now input before after events i
         in Inr (s1\<lparr>auditEvents := auditEvents s1 @
                   [e\<lparr>ae_eventHash := event_hash C loc e (previous_hash events)\<rparr>]\<rparr>, ()))))"

definition record_event ::
  "crypto_service \<Rightarrow> (string \<Rightarrow> 'o::linorder) \<Rightarrow> instant \<Rightarrow> audit_input \<Rightarrow> store \<Rightarrow> store \<times> unit result" where
  "record_event C loc now input = transaction (record_body C loc now input)"

record verdict =
  vd_valid :: bool
  vd_checked :: nat
  vd_brokenEventId :: "uuid option"

fun verify_from ::
  "crypto_service \<Rightarrow> (string \<Rightarrow> 'o::linorder) \<Rightarrow> string option \<Rightarrow> nat \<Rightarrow> audit_event list \<Rightarrow> verdict" where
  "verify_from C loc previousHash i [] = \<lparr>vd_valid = True, vd_checked = i, vd_brokenEventId = None\<rparr>"
| "verify_from C loc previousHash i (e # es) =
     (if ae_previousHash e \<noteq> previousHash \<or> ae_eventHash e \<noteq> event_hash C loc e previousHash
      then \<lparr>vd_valid = False, vd_checked = i, vd_brokenEventId = Some (ae_id e)\<rparr>
      else verify_from C loc (Some (ae_eventHash e)) (Suc i) es)"

definition verify :: "crypto_service \<Rightarrow> (string \<Rightarrow> 'o::linorder) \<Rightarrow> store \<Rightarrow> verdict" where
  "verify C loc s = verify_from C loc None 0 (by_sequence s)"

section \<open>What bookkeeping may change\<close>

definition logged_only :: "store \<Rightarrow> store \<Rightarrow> bool" where
  "logged_only s t \<longleftrightarrow> minted s \<le> minted t \<and>
     t = s\<lparr>minted := minted t, alerts := alerts t, auditEvents := auditEvents t, eventLog := eventLog t\<rparr>"

lemma logged_onlyE:
  assumes "logged_only s t"
  obtains m as us es where
    "t = s\<lparr>minted := m, alerts := as, auditEvents := us, eventLog := es\<rparr>" "minted s \<le> m"
  using assms unfolding logged_only_def by metis

lemma logged_only_refl [simp]: "logged_only s s"
  by (simp add: logged_only_def)

lemma logged_only_trans: "logged_only s t \<Longrightarrow> logged_only t u \<Longrightarrow> logged_only s u"
  by (elim logged_onlyE) (simp add: logged_only_def)

lemma logged_only_tables:
  assumes "logged_only s t"
  shows "deposits t = deposits s" "payoutBatches t = payoutBatches s" "uuids t = uuids s"
    "ledgerAccounts t = ledgerAccounts s" "journalTransactions t = journalTransactions s"
    "allocationBatches t = allocationBatches s" "shareEvents t = shareEvents s"
    "upstreams t = upstreams s" "payoutDestinations t = payoutDestinations s"
    "systemSettings t = systemSettings s" "customers t = customers s"
    "splitPolicies t = splitPolicies s" "workers t = workers s" "workerCredentials t = workerCredentials s"
    "portalCredentials t = portalCredentials s" "connectionSessions t = connectionSessions s"
    "admins t = admins s" "backupCodes t = backupCodes s" "minted s \<le> minted t"
  using assms by (elim logged_onlyE; simp)+

lemma alerts_only_logged: "alerts_only s t \<Longrightarrow> logged_only s t"
proof -
  assume "alerts_only s t"
  then obtain m as es where "t = s\<lparr>minted := m, alerts := as, eventLog := es\<rparr>" "minted s \<le> minted t"
    unfolding alerts_only_def by blast
  then show ?thesis by (simp add: logged_only_def)
qed

lemma record_body_only: "record_body C loc now input s = Inr (t, u) \<Longrightarrow> logged_only s t"
  by (auto simp: record_body_def logged_only_def Let_def ebind_eq_Inr new_id_def)

lemma record_event_only: "logged_only s (fst (record_event C loc now input s))"
  by (auto simp: record_event_def transaction_def record_body_only split: sum.splits)

lemma publish_logged [simp]: "logged_only s (publish n x s)"
  by (simp add: logged_only_def publish_def)

lemma raise_logged [simp]: "logged_only s (raise_alert now input s)"
  by (simp add: alerts_only_logged)

lemma resolve_logged [simp]: "logged_only s (resolveByDedupe now key s)"
  by (simp add: alerts_only_logged)

section \<open>The canonical text determines the value\<close>

text \<open>The value with the members of every object sorted.\<close>

fun sorted_form :: "(string \<Rightarrow> 'o::linorder) \<Rightarrow> json \<Rightarrow> json" where
  "sorted_form loc (JArr xs) = JArr (map (sorted_form loc) xs)"
| "sorted_form loc (JObj kvs) =
     JObj (sort_key (\<lambda>(k, v). loc k) (map (\<lambda>(k, v). (k, sorted_form loc v)) kvs))"
| "sorted_form loc v = v"

lemma map_sort_key_of:
  assumes "\<And>x. f (g x) = h x" shows "map g (sort_key h xs) = sort_key f (map g xs)"
proof -
  have ins: "map g (insort_key h x ys) = insort_key f (g x) (map g ys)" for x ys
    by (induction ys) (simp_all add: assms)
  show ?thesis by (induction xs) (simp_all add: ins)
qed

lemma unique_sort: "unique_on f xs \<Longrightarrow> unique_on f (sort_key g xs)"
  by (simp add: distinct_map)

lemma canonical_sorted: "json_ok v \<Longrightarrow> canonical loc v = print_json (sorted_form loc v)"
proof (induction v)
  case (JArr xs)
  then have "map (canonical loc) xs = map (\<lambda>x. print_json (sorted_form loc x)) xs"
    by (auto simp: list_all_iff)
  then show ?case by (simp add: comp_def del: map_eq_conv)
next
  case (JObj kvs)
  have "canonical loc v = print_json (sorted_form loc v)" if "(k, v) \<in> set kvs" for k v
    using JObj.IH [OF that, of v] JObj.prems that by (auto simp: list_all_iff)
  then have "map (\<lambda>(k, v). (k, canonical loc v)) kvs =
      map (\<lambda>(k, v). (k, print_json v)) (map (\<lambda>(k, v). (k, sorted_form loc v)) kvs)" by auto
  moreover have "sort_key (\<lambda>(k, t). loc k) (map (\<lambda>(k, v). (k, print_json v)) ys) =
      map (\<lambda>(k, v). (k, print_json v)) (sort_key (\<lambda>(k, v). loc k) ys)" for ys
    by (rule map_sort_key_of [symmetric]) (simp split: prod.splits)
  ultimately show ?case by (simp add: case_prod_beta' del: map_map) (simp add: comp_def)
qed simp_all

lemma sorted_form_ok: "json_ok v \<Longrightarrow> json_ok (sorted_form loc v)"
proof (induction v)
  case (JObj kvs)
  let ?kvs = "map (\<lambda>(k, v). (k, sorted_form loc v)) kvs"
  have "json_ok (sorted_form loc v)" if "(k, v) \<in> set kvs" for k v
    using JObj.IH [OF that, of v] JObj.prems that by (auto simp: list_all_iff)
  moreover have "unique_on fst ?kvs" using JObj.prems by (simp only: map_fst_safe json_ok.simps)
  then have "unique_on fst (sort_key (\<lambda>(k, v). loc k) ?kvs)"
    by (rule unique_sort)
  ultimately show ?case by (auto simp: list_all_iff)
qed (auto simp: list_all_iff)

lemma canonical_inj:
  assumes "json_ok v" "json_ok w" "canonical loc v = canonical loc w"
  shows "sorted_form loc v = sorted_form loc w"
proof -
  from assms have "print_json (sorted_form loc v) = print_json (sorted_form loc w)"
    by (simp add: canonical_sorted)
  then have "json_parse (print_json (sorted_form loc v)) = json_parse (print_json (sorted_form loc w))" by simp
  with assms(1,2) show ?thesis by (simp add: parse_print sorted_form_ok)
qed

section \<open>What the database may do to a value\<close>

inductive reordered :: "json \<Rightarrow> json \<Rightarrow> bool" where
  same: "reordered v v"
| arr: "list_all2 reordered xs ys \<Longrightarrow> reordered (JArr xs) (JArr ys)"
| obj: "mset kvs = mset kvs' \<Longrightarrow> list_all2 (rel_prod (=) reordered) kvs' kvs'' \<Longrightarrow>
    reordered (JObj kvs) (JObj kvs'')"

lemma sort_key_mset_cong:
  "mset xs = mset ys \<Longrightarrow> inj_on f (set xs) \<Longrightarrow> sort_key f xs = sort_key f ys"
  by (rule sort_key_inj_key_eq) simp_all

lemma inj_on_loc: "inj loc \<Longrightarrow> unique_on fst xs \<Longrightarrow> inj_on (\<lambda>(k, t). loc k) (set xs)"
proof -
  assume loc: "inj loc" and u: "unique_on fst xs"
  have "inj_on (loc \<circ> fst) (set xs)"
    by (rule comp_inj_on) (use u loc in \<open>auto simp: distinct_map intro: inj_on_subset\<close>)
  then show ?thesis by (simp add: comp_def case_prod_unfold)
qed

lemma reordered_canonical: "reordered v w \<Longrightarrow> inj loc \<Longrightarrow> json_ok v \<Longrightarrow> canonical loc v = canonical loc w"
proof (induction rule: reordered.induct)
  case (arr xs ys)
  then have "list_all2 (\<lambda>v w. json_ok v \<longrightarrow> canonical loc v = canonical loc w) xs ys"
    by (auto elim: list_all2_mono)
  then have "map (canonical loc) xs = map (canonical loc) ys"
    using arr.prems by (induction rule: list_all2_induct) auto
  then show ?case by simp
next
  case (obj kvs kvs' kvs'')
  let ?c = "\<lambda>(k, v). (k, canonical loc v)"
  have ok: "json_ok v" if "(k, v) \<in> set kvs'" for k v
    using that obj.prems(2) mset_eq_setD [OF obj.hyps] by (auto simp: list_all_iff)
  from obj.IH have "map ?c kvs' = map ?c kvs''"
    using ok obj.prems(1) by (induction rule: list_all2_induct) (auto simp: rel_prod_conv)
  moreover have "unique_on fst (map ?c kvs)" using obj.prems by (simp only: map_fst_safe json_ok.simps)
  then have "sort_key (\<lambda>(k, t). loc k) (map ?c kvs) = sort_key (\<lambda>(k, t). loc k) (map ?c kvs')"
    using obj.hyps obj.prems(1) by (intro sort_key_mset_cong inj_on_loc) (auto simp: mset_map)
  ultimately show ?case by simp
qed simp

section \<open>Chains\<close>

fun chained :: "crypto_service \<Rightarrow> (string \<Rightarrow> 'o::linorder) \<Rightarrow> string option \<Rightarrow> audit_event list \<Rightarrow> bool" where
  "chained C loc p [] \<longleftrightarrow> True"
| "chained C loc p (e # es) \<longleftrightarrow>
     ae_previousHash e = p \<and> ae_eventHash e = event_hash C loc e p \<and> chained C loc (Some (ae_eventHash e)) es"

lemma verify_chained: "chained C loc p es \<Longrightarrow>
    verify_from C loc p i es = \<lparr>vd_valid = True, vd_checked = i + length es, vd_brokenEventId = None\<rparr>"
  by (induction es arbitrary: p i) auto

lemma verify_valid: "vd_valid (verify_from C loc p i es) \<Longrightarrow> chained C loc p es"
  by (induction es arbitrary: p i) (auto split: if_splits)

lemma chained_snoc:
  "chained C loc None (es @ [e]) \<longleftrightarrow> chained C loc None es \<and>
     ae_previousHash e = previous_hash es \<and> ae_eventHash e = event_hash C loc e (previous_hash es)"
proof -
  have "chained C loc p (es @ [e]) \<longleftrightarrow> chained C loc p es \<and>
     (let q = if es = [] then p else Some (ae_eventHash (last es))
      in ae_previousHash e = q \<and> ae_eventHash e = event_hash C loc e q)" for p
    by (induction es arbitrary: p) (auto simp: Let_def)
  then show ?thesis by (simp add: previous_hash_def Let_def)
qed

section \<open>Every recorded log verifies\<close>

definition audit_value :: "audit_input \<Rightarrow> bool" where
  "audit_value input \<longleftrightarrow> pred_option json_value (au_before input) \<and> pred_option json_value (au_after input)"

inductive audit_reachable :: "crypto_service \<Rightarrow> (string \<Rightarrow> 'o::linorder) \<Rightarrow> store \<Rightarrow> bool" for C loc where
  init: "auditEvents s = [] \<Longrightarrow> audit_reachable C loc s"
| step: "audit_reachable C loc s \<Longrightarrow> audit_value input \<Longrightarrow>
    audit_reachable C loc (fst (record_event C loc now input s))"
| other: "audit_reachable C loc s \<Longrightarrow> auditEvents t = auditEvents s \<Longrightarrow> audit_reachable C loc t"

definition audit_inv :: "crypto_service \<Rightarrow> (string \<Rightarrow> 'o::linorder) \<Rightarrow> store \<Rightarrow> bool" where
  "audit_inv C loc s \<longleftrightarrow> sorted (map ae_sequence (auditEvents s)) \<and> chained C loc None (auditEvents s) \<and>
     list_all (\<lambda>e. json_ok (ae_before e) \<and> json_ok (ae_after e)) (auditEvents s)"

lemma record_event_total:
  assumes "audit_value input" obtains t where "record_event C loc now input s = (t, Inr ())" "logged_only s t"
proof -
  have "snd (record_event C loc now input s) = Inr ()"
    using assms by (auto simp: record_event_def transaction_def record_body_def audit_value_def safe_or_null_def
      jsonSafe_safe_form new_id_def Let_def split: option.splits)
  then show thesis
    using that [of "fst (record_event C loc now input s)"] record_event_only [of s C loc now input]
    by (metis prod.collapse)
qed

lemma by_sequence_sorted: "sorted (map ae_sequence (auditEvents s)) \<Longrightarrow> by_sequence s = auditEvents s"
  by (simp add: by_sequence_def sort_key_id_if_sorted)

lemma safe_or_null_ok: "safe_or_null v = Inr x \<Longrightarrow> pred_option json_value v \<Longrightarrow> json_ok x"
  by (auto simp: safe_or_null_def jsonSafe_safe_form safe_form_ok split: option.splits)

lemma next_sequence_bound:
  "sorted (map ae_sequence es) \<Longrightarrow> e \<in> set es \<Longrightarrow> ae_sequence e \<le> next_sequence es"
  by (cases es rule: rev_cases) (auto simp: next_sequence_def sorted_append intro: le_SucI)

lemma new_event_fields:
  "ae_before (new_event now input b a es i) = b" "ae_after (new_event now input b a es i) = a"
  "ae_sequence (new_event now input b a es i) = next_sequence es"
  "ae_previousHash (new_event now input b a es i) = previous_hash es"
  by (simp_all add: new_event_def)

lemma event_hash_cong:
  "event_hash C loc (e\<lparr>ae_eventHash := h\<rparr>) p = event_hash C loc e p"
  by (simp add: event_hash_def audit_payload_def)

lemma record_audit_inv:
  assumes "audit_inv C loc s" and "audit_value input"
  shows "audit_inv C loc (fst (record_event C loc now input s))"
proof (cases "record_body C loc now input s")
  case (Inr r)
  let ?es = "auditEvents s"
  from assms(1) have bs: "by_sequence s = ?es" by (simp add: audit_inv_def by_sequence_sorted)
  from Inr bs obtain b a e where ev: "auditEvents (fst r) = ?es @ [e]"
    "safe_or_null (au_before input) = Inr b" "safe_or_null (au_after input) = Inr a"
    "ae_before e = b" "ae_after e = a" "ae_sequence e = next_sequence ?es"
    "ae_previousHash e = previous_hash ?es" "ae_eventHash e = event_hash C loc e (previous_hash ?es)"
    by (fastforce simp: record_body_def Let_def ebind_eq_Inr event_hash_cong new_id_def new_event_fields)
  have "json_ok b" "json_ok a" using ev(2,3) assms(2) safe_or_null_ok by (auto simp: audit_value_def)
  moreover have "sorted (map ae_sequence (?es @ [e]))"
    using assms(1) next_sequence_bound ev(6) by (auto simp: audit_inv_def sorted_append)
  ultimately show ?thesis
    using assms(1) ev Inr
    by (cases r) (simp add: audit_inv_def record_event_def transaction_def chained_snoc)
qed (use assms in \<open>simp add: record_event_def transaction_def\<close>)

lemma audit_reachable_inv: "audit_reachable C loc s \<Longrightarrow> audit_inv C loc s"
proof (induction rule: audit_reachable.induct)
  case (step s input now)
  then show ?case by (intro record_audit_inv)
qed (auto simp: audit_inv_def)

text \<open>An event as it may come back from the table.\<close>

definition reread :: "audit_event \<Rightarrow> audit_event \<Rightarrow> bool" where
  "reread e e' \<longleftrightarrow> (\<exists>b a. reordered (ae_before e) b \<and> reordered (ae_after e) a \<and>
     e' = e\<lparr>ae_before := b, ae_after := a\<rparr>)"

lemma opt_text_simps [simp]:
  "json_ok (opt_text t)" "sorted_form loc (opt_text t) = opt_text t" "opt_text t = opt_text u \<longleftrightarrow> t = u"
  by (auto simp: opt_text_def split: option.splits)

lemma payload_ok: "json_ok (audit_payload e p) \<longleftrightarrow> json_ok (ae_before e) \<and> json_ok (ae_after e)"
  by (simp add: audit_payload_def)

lemma reread_hash:
  assumes "reread e e'" and "inj loc" and "json_ok (ae_before e)" and "json_ok (ae_after e)"
  shows "event_hash C loc e' p = event_hash C loc e p"
proof -
  from assms(1) have "reordered (audit_payload e p) (audit_payload e' p)"
    unfolding audit_payload_def reread_def
    by (auto intro!: reordered.obj [OF refl] simp: rel_prod_conv intro: reordered.same)
  then show ?thesis
    using reordered_canonical [OF _ assms(2)] assms(3,4) by (simp add: event_hash_def payload_ok)
qed

lemma reread_chained:
  assumes "list_all2 reread es es'" and "inj loc" and "chained C loc p es"
    and "list_all (\<lambda>e. json_ok (ae_before e) \<and> json_ok (ae_after e)) es"
  shows "chained C loc p es'"
  using assms
proof (induction arbitrary: p rule: list_all2_induct)
  case (Cons e es e' es')
  then have "event_hash C loc e' p = event_hash C loc e p" by (intro reread_hash) auto
  moreover have "ae_previousHash e' = ae_previousHash e" "ae_eventHash e' = ae_eventHash e"
    using Cons.hyps(1) by (auto simp: reread_def)
  ultimately show ?case using Cons by auto
qed simp

lemma reread_sequence: "list_all2 reread es es' \<Longrightarrow> map ae_sequence es' = map ae_sequence es"
  by (induction rule: list_all2_induct) (auto simp: reread_def)

section \<open>A changed log is detected\<close>

lemma hex_digit_inj: "m < 16 \<Longrightarrow> n < 16 \<Longrightarrow> hex_digit m = hex_digit n \<Longrightarrow> m = n"
proof -
  assume *: "m < 16" "n < 16" "hex_digit m = hex_digit n"
  then have "(of_char (hex_digit m) :: nat) = of_char (hex_digit n)" by simp
  with *(1,2) show ?thesis by (auto simp: hex_digit_def split: if_splits)
qed

lemma to_hex_inj: "to_hex s = to_hex t \<Longrightarrow> s = t"
proof (induction s arbitrary: t)
  case (Cons c s)
  then obtain d t' where t: "t = d # t'" by (cases t) (auto simp: to_hex_def)
  have lt: "(of_char x :: nat) div 16 < 16" for x :: char
    using of_char_less [of x] by (simp add: less_mult_imp_div_less)
  from Cons.prems t have "hex_digit (of_char c div 16) = hex_digit (of_char d div 16)"
    "hex_digit (of_char c mod 16) = hex_digit (of_char d mod 16)" "to_hex s = to_hex t'"
    by (simp_all add: to_hex_def)
  then have "(of_char c :: nat) div 16 = of_char d div 16" "(of_char c :: nat) mod 16 = of_char d mod 16" "s = t'"
    using Cons.IH hex_digit_inj lt by (blast, simp add: hex_digit_inj, blast)
  then have "(of_char c :: nat) = of_char d" by (metis div_mult_mod_eq)
  with \<open>s = t'\<close> t show ?case by simp
qed (simp add: to_hex_def)

text \<open>Two events say the same when all that is hashed agrees, up to the order of object members.\<close>

definition same_content :: "(string \<Rightarrow> 'o::linorder) \<Rightarrow> audit_event \<Rightarrow> audit_event \<Rightarrow> bool" where
  "same_content loc e f \<longleftrightarrow>
     ae_actorId e = ae_actorId f \<and> ae_action e = ae_action f \<and> ae_entityType e = ae_entityType f \<and>
     ae_entityId e = ae_entityId f \<and> ae_ipAddress e = ae_ipAddress f \<and>
     sorted_form loc (ae_before e) = sorted_form loc (ae_before f) \<and>
     sorted_form loc (ae_after e) = sorted_form loc (ae_after f) \<and>
     ae_previousHash e = ae_previousHash f \<and> ae_eventHash e = ae_eventHash f \<and>
     toISOString (ae_createdAt e) = toISOString (ae_createdAt f)"

definition event_text :: "(string \<Rightarrow> 'o::linorder) \<Rightarrow> audit_event \<Rightarrow> string" where
  "event_text loc e = canonical loc (audit_payload e (ae_previousHash e))"

lemma sort_key_eq_mset: "sort_key f xs = sort_key f ys \<Longrightarrow> mset xs = mset ys"
  by (metis mset_sort)

lemma sorted_form_obj:
  assumes "sorted_form loc (JObj kvs) = sorted_form loc (JObj kvs')" and "unique_on fst kvs" and "unique_on fst kvs'"
  shows "map_option (sorted_form loc) (map_of kvs k) = map_option (sorted_form loc) (map_of kvs' k)"
proof -
  let ?f = "map (\<lambda>(k, v). (k, sorted_form loc v))"
  from assms(1) have "sort_key (\<lambda>(k, v). loc k) (?f kvs) = sort_key (\<lambda>(k, v). loc k) (?f kvs')" by simp
  then have "mset (?f kvs) = mset (?f kvs')" by (rule sort_key_eq_mset)
  then have "set (?f kvs) = set (?f kvs')" by (rule mset_eq_setD)
  moreover have "unique_on fst (?f kvs)" "unique_on fst (?f kvs')" using assms(2,3) by (simp_all only: map_fst_safe)
  ultimately have "map_of (?f kvs) = map_of (?f kvs')" by (simp only: map_of_inject_set)
  then show ?thesis by (simp only: map_of_map) (metis comp_apply)
qed

lemma same_text:
  assumes "event_text loc e = event_text loc f"
    and "json_ok (ae_before e)" "json_ok (ae_after e)" "json_ok (ae_before f)" "json_ok (ae_after f)"
    and "ae_eventHash e = ae_eventHash f"
  shows "same_content loc e f"
proof -
  let ?p = "\<lambda>e. case audit_payload e (ae_previousHash e) of JObj kvs \<Rightarrow> kvs | _ \<Rightarrow> []"
  have "sorted_form loc (audit_payload e (ae_previousHash e)) = sorted_form loc (audit_payload f (ae_previousHash f))"
    using assms by (intro canonical_inj) (simp_all add: event_text_def payload_ok)
  then have "sorted_form loc (JObj (?p e)) = sorted_form loc (JObj (?p f))" by (simp add: audit_payload_def)
  from sorted_form_obj [OF this] have
    m: "map_option (sorted_form loc) (map_of (?p e) k) = map_option (sorted_form loc) (map_of (?p f) k)" for k
    by (simp add: audit_payload_def)
  show ?thesis
    using m [of "''actorId''"] m [of "''action''"] m [of "''entityType''"] m [of "''entityId''"]
      m [of "''ipAddress''"] m [of "''before''"] m [of "''after''"] m [of "''previousHash''"]
      m [of "''createdAt''"] assms(6)
    by (simp add: audit_payload_def same_content_def)
qed

lemma chained_same:
  assumes "length es = length fs" and "chained C loc None es" and "chained C loc None fs"
    and "previous_hash es = previous_hash fs"
    and "list_all (\<lambda>e. json_ok (ae_before e) \<and> json_ok (ae_after e)) (es @ fs)"
    and "inj_on (cl_sha256 (cr_lib C)) (event_text loc ` set (es @ fs))"
  shows "list_all2 (same_content loc) es fs"
  using assms
proof (induction es arbitrary: fs rule: rev_induct)
  case (snoc e es)
  then obtain f gs where fs: "fs = gs @ [f]" by (cases fs rule: rev_cases) auto
  from snoc.prems(2,3) have h: "ae_eventHash e = sha256 C (event_text loc e)" "ae_eventHash f = sha256 C (event_text loc f)"
    "ae_previousHash e = previous_hash es" "ae_previousHash f = previous_hash gs"
    "chained C loc None es" "chained C loc None gs"
    unfolding fs by (simp_all add: chained_snoc event_hash_def event_text_def)
  have eq: "ae_eventHash e = ae_eventHash f" using snoc.prems(4) by (simp add: previous_hash_def fs)
  with h(1,2) have "cl_sha256 (cr_lib C) (event_text loc e) = cl_sha256 (cr_lib C) (event_text loc f)"
    by (simp add: sha256_def to_hex_inj)
  then have "event_text loc e = event_text loc f" by (rule inj_onD [OF snoc.prems(6)]) (auto simp: fs)
  then have same: "same_content loc e f" using snoc.prems(5) eq by (intro same_text) (auto simp: fs)
  moreover have "list_all2 (same_content loc) es gs"
  proof (rule snoc.IH)
    show "previous_hash es = previous_hash gs" using same h(3,4) by (simp add: same_content_def)
    show "inj_on (cl_sha256 (cr_lib C)) (event_text loc ` set (es @ gs))"
      using snoc.prems(6) by (rule inj_on_subset) (auto simp: fs)
  qed (use snoc.prems h fs in auto)
  ultimately show ?case by (simp add: fs list_all2_appendI)
qed simp

lemma verify_reread:
  assumes "audit_reachable C loc s" and "inj loc" and "list_all2 reread (auditEvents s) es"
  shows "verify C loc (s\<lparr>auditEvents := es\<rparr>) =
    \<lparr>vd_valid = True, vd_checked = length (auditEvents s), vd_brokenEventId = None\<rparr>"
proof -
  note inv = audit_reachable_inv [OF assms(1), unfolded audit_inv_def]
  have "chained C loc None es" using reread_chained [OF assms(3,2)] inv by blast
  moreover have "by_sequence (s\<lparr>auditEvents := es\<rparr>) = es"
    using inv reread_sequence [OF assms(3)] by (simp add: by_sequence_sorted)
  ultimately show ?thesis
    using assms(3) by (simp add: verify_def verify_chained list_all2_lengthD)
qed

section \<open>Main properties\<close>


text \<open>C37: Tampering is detected.  When two logs of the same length both verify and end in the same hash,
  they say the same in every event, up to the order of object members, unless two of their texts collide
  under SHA-256.  Whoever keeps the last hash and the length can tell any other log from the original.\<close>

theorem audit_tamper_evident:
  assumes "vd_valid (verify C loc s)" and "vd_valid (verify C loc t)"
    and "length (auditEvents s) = length (auditEvents t)"
    and "previous_hash (by_sequence s) = previous_hash (by_sequence t)"
    and "list_all (\<lambda>e. json_ok (ae_before e) \<and> json_ok (ae_after e)) (auditEvents s @ auditEvents t)"
    and "inj_on (cl_sha256 (cr_lib C)) (event_text loc ` set (auditEvents s @ auditEvents t))"
  shows "list_all2 (same_content loc) (by_sequence s) (by_sequence t)"
proof -
  have set: "set (by_sequence u) = set (auditEvents u)" "length (by_sequence u) = length (auditEvents u)" for u
    by (simp_all add: by_sequence_def)
  show ?thesis
    using assms verify_valid [of C loc None 0]
    by (intro chained_same) (simp_all add: verify_def set list_all_iff)
qed

subsection \<open>Witnesses\<close>

primrec collation :: "string \<Rightarrow> nat" where
  "collation [] = 0"
| "collation (c # s) = 1 + of_char c + 256 * collation s"

lemma inj_collation: "inj collation"
proof (rule injI)
  show "s = t" if "collation s = collation t" for s t
    using that
  proof (induction s arbitrary: t)
    case Nil
    then show ?case by (cases t) simp_all
  next
    case (Cons c s)
    then obtain d t' where t: "t = d # t'" by (cases t) simp_all
    with Cons.prems have eq: "of_char c + 256 * collation s = of_char d + 256 * collation t'" by simp
    then have "(of_char c + 256 * collation s) mod 256 = (of_char d + 256 * collation t') mod 256"
      "(of_char c + 256 * collation s) div 256 = (of_char d + 256 * collation t') div 256" by simp_all
    then show ?case using Cons.IH t by simp
  qed
qed

definition example_input :: audit_input where
  "example_input =
     \<lparr>au_actorId = Some ''a1'', au_action = ''CUSTOMER_UPDATED'', au_entityType = ''Customer'',
      au_entityId = Some ''c1'', au_ipAddress = None, au_before = None,
      au_after = Some (JObj [(''slug'', JStr ''x''), (''at'', JDate 0)])\<rparr>"

definition example_log :: store where
  "example_log = fst (record_event example_crypto collation 5 example_input
     (fst (record_event example_crypto collation 3 example_input (empty_store show_nat))))"

definition swapped :: "audit_event \<Rightarrow> audit_event" where
  "swapped e = (case ae_after e of JObj kvs \<Rightarrow> e\<lparr>ae_after := JObj (rev kvs)\<rparr> | _ \<Rightarrow> e)"

lemma swapped_fields [simp]:
  "ae_eventHash (swapped e) = ae_eventHash e" "ae_before (swapped e) = ae_before e"
  "json_ok (ae_after (swapped e)) = json_ok (ae_after e)"
  by (auto simp: swapped_def rev_map [symmetric] split: json.splits)

lemma reread_swapped: "reread e (swapped e)"
proof -
  have obj: "reordered (JObj kvs) (JObj (rev kvs))" for kvs
    by (rule reordered.obj [of _ "rev kvs"]) (auto simp: list_all2_same rel_prod_conv intro: reordered.same)
  have "reordered (ae_after e) (ae_after (swapped e))" "swapped e = e\<lparr>ae_after := ae_after (swapped e)\<rparr>"
    using obj by (auto simp: swapped_def intro: reordered.same split: json.splits)
  then show ?thesis unfolding reread_def
    by (intro exI [of _ "ae_before e"] exI [of _ "ae_after (swapped e)"]) (simp add: reordered.same)
qed

lemma example_log_reachable: "audit_reachable example_crypto collation example_log"
proof -
  have "audit_value example_input" by (simp add: audit_value_def example_input_def)
  then show ?thesis unfolding example_log_def
    by (intro audit_reachable.step audit_reachable.init) (simp add: empty_store_def)
qed

lemma record_event_length:
  assumes "audit_value input"
  shows "length (auditEvents (fst (record_event C loc now input s))) = Suc (length (auditEvents s))"
  using assms
  by (auto simp: record_event_def transaction_def record_body_def audit_value_def safe_or_null_def
      jsonSafe_safe_form new_id_def Let_def split: option.splits)

lemma example_log_length: "length (auditEvents example_log) = 2"
  by (simp add: example_log_def record_event_length audit_value_def example_input_def empty_store_def)

lemma example_log_reread: "list_all2 reread (auditEvents example_log) (map swapped (auditEvents example_log))"
  by (simp add: list_all2_map2 list_all2_same reread_swapped)


theorem audit_tamper_evident_witness:
  "list_all2 (same_content collation) (by_sequence example_log)
     (by_sequence (example_log\<lparr>auditEvents := map swapped (auditEvents example_log)\<rparr>)) \<and>
   length (by_sequence example_log) = 2"
proof
  let ?t = "example_log\<lparr>auditEvents := map swapped (auditEvents example_log)\<rparr>"
  note inv = audit_reachable_inv [OF example_log_reachable, unfolded audit_inv_def]
  have "sorted (map ae_sequence (map swapped (auditEvents example_log)))"
    using inv by (simp only: reread_sequence [OF example_log_reread])
  then have seq: "by_sequence example_log = auditEvents example_log"
    "by_sequence ?t = map swapped (auditEvents example_log)" using inv by (simp_all add: by_sequence_sorted del: map_map)
  show "list_all2 (same_content collation) (by_sequence example_log) (by_sequence ?t)"
  proof (rule audit_tamper_evident [where C = example_crypto])
    show "vd_valid (verify example_crypto collation example_log)"
      using inv seq by (simp add: verify_def verify_chained)
    show "vd_valid (verify example_crypto collation ?t)"
      using verify_reread [OF example_log_reachable inj_collation example_log_reread] by simp
    show "previous_hash (by_sequence example_log) = previous_hash (by_sequence ?t)"
      by (simp add: seq previous_hash_def last_map)
    show "list_all (\<lambda>e. json_ok (ae_before e) \<and> json_ok (ae_after e)) (auditEvents example_log @ auditEvents ?t)"
      using inv by (simp add: list.pred_map comp_def)
    show "inj_on (cl_sha256 (cr_lib example_crypto)) (event_text collation ` set (auditEvents example_log @ auditEvents ?t))"
      by (simp add: example_crypto_def crypto_init_def example_crypto_lib_def)
  qed simp
  show "length (by_sequence example_log) = 2" by (simp add: seq example_log_length)
qed

end
