(* ===== verification/Wallets.thy ===== *)
theory Wallets
  imports Environment Schema
begin

text \<open>
  The wallets: the adapter interface of \<open>wallets/wallet-adapter.ts\<close>, the Bitcoin and the Monero
  adapter, and \<open>WalletsService\<close>.  The wallet daemons are a parameter: one function per RPC method
  that an adapter calls, with a result or an error, and where a method is called several times in
  one operation the number of the call as an argument, so that the daemon may answer differently
  every time.  Amounts that cross the RPC as decimal numbers are the rationals they denote.
\<close>

section \<open>The adapter interface\<close>

record wallet_receipt =
  wr_asset :: AssetCode
  wr_txid :: string
  wr_outputRef :: string
  wr_address :: string
  wr_amountAtomic :: atomic
  wr_confirmations :: int
  wr_locked :: bool

record payout_candidate =
  ca_id :: uuid
  ca_address :: string
  ca_grossAtomic :: atomic

record prepared_item =
  pr_id :: uuid
  pr_address :: string
  pr_grossAtomic :: atomic
  pr_allocatedFeeAtomic :: atomic
  pr_netAtomic :: atomic

record prepared_payout =
  prep_signedPayload :: string
  prep_transactionIds :: "string list"
  prep_feeAtomic :: atomic
  prep_items :: "prepared_item list"

record wallet_adapter =
  wa_createReceiveAddress :: "string \<Rightarrow> string result"
  wa_validateAddress :: "string \<Rightarrow> bool result"
  wa_scanReceipts :: "string list \<Rightarrow> wallet_receipt list result"
  wa_preparePayout :: "payout_candidate list \<Rightarrow> bool \<Rightarrow> prepared_payout result"
  wa_broadcast :: "string \<Rightarrow> string list result"
  wa_transactionKnown :: "string \<Rightarrow> bool result"
  wa_transactionConfirmations :: "string \<Rightarrow> int result"

section \<open>Fees of a payout\<close>

text \<open>
  The loop that both adapters share: distribute the fee over the items in proportion to their
  gross amounts, fund a transaction with the resulting net amounts, and repeat with the fee it
  really has until the two agree, four times at most.  The Boolean is \<open>deductFeeFromOutputs\<close>.
\<close>

definition net_item ::
    "uuid allocated_item list \<Rightarrow> bool \<Rightarrow> payout_candidate \<Rightarrow> prepared_item result" where
  "net_item fees deduct item =
     (let fee = (case map_of (rev (map (\<lambda>f. (ai_key f, ai_amount f)) fees)) (ca_id item) of
                   None \<Rightarrow> 0 | Some x \<Rightarrow> x)
      in if deduct \<and> fee \<ge> ca_grossAtomic item
         then Inl (Error (''Payout '' @ ca_id item @ '' is smaller than its fee''))
         else Inr \<lparr>pr_id = ca_id item, pr_address = ca_address item,
                   pr_grossAtomic = ca_grossAtomic item, pr_allocatedFeeAtomic = fee,
                   pr_netAtomic = (if deduct then ca_grossAtomic item - fee else ca_grossAtomic item)\<rparr>)"

definition net_items ::
    "decimal_lib \<Rightarrow> atomic \<Rightarrow> payout_candidate list \<Rightarrow> bool \<Rightarrow> prepared_item list result" where
  "net_items D fee items deduct =
     ebind (largestRemainder D fee
              (map (\<lambda>item. \<lparr>wi_key = ca_id item, wi_weight = of_int (ca_grossAtomic item)\<rparr>) items))
       (\<lambda>fees. map_result (net_item fees deduct) items)"

fun fee_loop ::
    "decimal_lib \<Rightarrow> (nat \<Rightarrow> prepared_item list \<Rightarrow> ('f \<times> atomic) result) \<Rightarrow> payout_candidate list \<Rightarrow> bool
     \<Rightarrow> nat \<Rightarrow> nat \<Rightarrow> atomic \<Rightarrow> ('f \<times> atomic \<times> prepared_item list) option result" where
  "fee_loop D fund items deduct 0 attempt fee = Inr None"
| "fee_loop D fund items deduct (Suc n) attempt fee =
     ebind (net_items D fee items deduct) (\<lambda>net.
     ebind (fund attempt net) (\<lambda>(funded, actual).
       if actual = fee then Inr (Some (funded, fee, net))
       else fee_loop D fund items deduct n (Suc attempt) actual))"

section \<open>The Bitcoin adapter\<close>

record bitcoin_tx =
  bt_address :: "string option"
  bt_category :: "string option"
  bt_amount :: "rat option"
  bt_confirmations :: "int option"
  bt_txid :: "string option"
  bt_vout :: "int option"

record bitcoin_rpc =
  br_getnewaddress :: "string \<Rightarrow> string result"
  br_validateaddress :: "string \<Rightarrow> bool result"
  br_listtransactions :: "bitcoin_tx list result"
  br_walletcreatefundedpsbt :: "nat \<Rightarrow> (string \<times> rat) list \<Rightarrow> (string \<times> rat) result"
  br_walletpassphrase :: "string \<Rightarrow> unit result"
  br_walletprocesspsbt :: "string \<Rightarrow> (string \<times> bool) result"
  br_finalizepsbt :: "string \<Rightarrow> (string \<times> bool) result"
  br_decoderawtransaction :: "string \<Rightarrow> string result"
  br_sendrawtransaction :: "string \<Rightarrow> string result"
  br_gettransaction :: "string \<Rightarrow> int option result"

definition truthy :: "string option \<Rightarrow> bool" where
  "truthy x \<longleftrightarrow> (case x of None \<Rightarrow> False | Some t \<Rightarrow> t \<noteq> [])"

definition btc_receipt :: "decimal_lib \<Rightarrow> environment \<Rightarrow> bitcoin_tx \<Rightarrow> wallet_receipt" where
  "btc_receipt D env tx =
     (let confirmations = (case bt_confirmations tx of None \<Rightarrow> 0 | Some c \<Rightarrow> c);
          amount = (case bt_amount tx of None \<Rightarrow> 0 | Some a \<Rightarrow> a)
      in \<lparr>wr_asset = BTC, wr_txid = the (bt_txid tx),
          wr_outputRef = show_int (case bt_vout tx of None \<Rightarrow> 0 | Some v \<Rightarrow> v),
          wr_address = the (bt_address tx),
          wr_amountAtomic = \<lfloor>dec_toFixed D 0 (dec_mul D amount 100000000)\<rfloor>,
          wr_confirmations = confirmations,
          wr_locked = (confirmations < cw_confirmations (BITCOIN env))\<rparr>)"

definition btc_scanReceipts ::
    "decimal_lib \<Rightarrow> environment \<Rightarrow> bitcoin_rpc \<Rightarrow> string list \<Rightarrow> wallet_receipt list result" where
  "btc_scanReceipts D env rpc addresses =
     (if addresses = [] then Inr []
      else ebind (br_listtransactions rpc) (\<lambda>transactions.
        Inr (map (btc_receipt D env)
          (filter (\<lambda>tx. bt_category tx = Some ''receive'' \<and> truthy (bt_address tx) \<and>
               the (bt_address tx) \<in> set addresses \<and> truthy (bt_txid tx) \<and>
               (case bt_amount tx of None \<Rightarrow> 0 | Some a \<Rightarrow> a) > 0) transactions))))"

definition btc_output :: "decimal_lib \<Rightarrow> string \<times> atomic \<Rightarrow> string \<times> rat" where
  "btc_output D = (\<lambda>(address, amount). (address, dec_toFixed D 8 (dec_div D (of_int amount) 100000000)))"

definition btc_fee_atomic :: "decimal_lib \<Rightarrow> rat \<Rightarrow> atomic" where
  "btc_fee_atomic D fee = \<lceil>dec_mul D fee 100000000\<rceil>"

definition assert_mainnet_allowed :: "string \<Rightarrow> coin_wallet \<Rightarrow> environment \<Rightarrow> unit result" where
  "assert_mainnet_allowed coin wallet env =
     guard_or (\<not> (cw_network wallet = ''mainnet'' \<and> \<not> ENABLE_MAINNET_PAYOUTS env))
       (Error (coin @ '' mainnet payouts are disabled by ENABLE_MAINNET_PAYOUTS''))"

text \<open>\<open>includes('unencrypted')\<close> on the lowered message.\<close>

fun js_includes :: "string \<Rightarrow> string \<Rightarrow> bool" where
  "js_includes [] pat = (pat = [])"
| "js_includes (c # cs) pat = (startsWith (c # cs) pat \<or> js_includes cs pat)"

definition btc_unlock :: "(string \<Rightarrow> string result) \<Rightarrow> environment \<Rightarrow> bitcoin_rpc \<Rightarrow> unit result" where
  "btc_unlock secret env rpc =
     ebind (secret (cw_passphrase_file (BITCOIN env))) (\<lambda>passphrase.
       case br_walletpassphrase rpc passphrase of
         Inr _ \<Rightarrow> Inr ()
       | Inl (RpcError code message) \<Rightarrow>
           if js_includes (toLowerCase message) ''unencrypted'' then Inr ()
           else Inl (RpcError code message)
       | Inl e \<Rightarrow> Inl e)"

definition btc_fund ::
    "decimal_lib \<Rightarrow> bitcoin_rpc \<Rightarrow> nat \<Rightarrow> prepared_item list \<Rightarrow> (string \<times> atomic) result" where
  "btc_fund D rpc attempt net =
     ebind (br_walletcreatefundedpsbt rpc (Suc attempt)
              (map (\<lambda>i. btc_output D (pr_address i, pr_netAtomic i)) net))
       (\<lambda>(psbt, fee). Inr (psbt, btc_fee_atomic D fee))"

text \<open>Signing: the wallet is locked again whatever happens, and a failure to lock is ignored.\<close>

definition btc_sign :: "bitcoin_rpc \<Rightarrow> string \<Rightarrow> (string \<times> string) result" where
  "btc_sign rpc psbt =
     ebind (br_walletprocesspsbt rpc psbt) (\<lambda>(processed, complete).
     ebind (guard_or complete (Error ''Bitcoin Core did not fully sign the payout PSBT'')) (\<lambda>_.
     ebind (br_finalizepsbt rpc processed) (\<lambda>(hex, complete).
     ebind (guard_or (complete \<and> hex \<noteq> []) (Error ''Bitcoin Core did not finalize the payout PSBT'')) (\<lambda>_.
     ebind (br_decoderawtransaction rpc hex) (\<lambda>txid. Inr (hex, txid))))))"

definition btc_preparePayout ::
    "decimal_lib \<Rightarrow> environment \<Rightarrow> (string \<Rightarrow> string result) \<Rightarrow> bitcoin_rpc
     \<Rightarrow> payout_candidate list \<Rightarrow> bool \<Rightarrow> prepared_payout result" where
  "btc_preparePayout D env secret rpc items deduct =
     ebind (guard_or (items \<noteq> []) (Error ''Payout has no items'')) (\<lambda>_.
     ebind (assert_mainnet_allowed ''Bitcoin'' (BITCOIN env) env) (\<lambda>_.
     ebind (br_walletcreatefundedpsbt rpc 0
              (map (\<lambda>i. btc_output D (ca_address i, ca_grossAtomic i)) items)) (\<lambda>(_, preliminary).
     ebind (fee_loop D (btc_fund D rpc) items deduct 4 0 (btc_fee_atomic D preliminary)) (\<lambda>r.
       case r of
         None \<Rightarrow> Inl (Error ''Bitcoin payout fee did not converge'')
       | Some (psbt, feeAtomic, netItems) \<Rightarrow>
           ebind (btc_unlock secret env rpc) (\<lambda>_.
           ebind (btc_sign rpc psbt) (\<lambda>(hex, txid).
             Inr \<lparr>prep_signedPayload = hex, prep_transactionIds = [txid], prep_feeAtomic = feeAtomic,
                  prep_items = netItems\<rparr>))))))"

definition btc_broadcast :: "environment \<Rightarrow> bitcoin_rpc \<Rightarrow> string \<Rightarrow> string list result" where
  "btc_broadcast env rpc signedPayload =
     ebind (assert_mainnet_allowed ''Bitcoin'' (BITCOIN env) env) (\<lambda>_.
     ebind (br_sendrawtransaction rpc signedPayload) (\<lambda>txid. Inr [txid]))"

definition btc_transactionKnown :: "bitcoin_rpc \<Rightarrow> string \<Rightarrow> bool result" where
  "btc_transactionKnown rpc txid =
     (case br_gettransaction rpc txid of
        Inr _ \<Rightarrow> Inr True
      | Inl (RpcError code message) \<Rightarrow> if code = - 5 then Inr False else Inl (RpcError code message)
      | Inl e \<Rightarrow> Inl e)"

definition btc_transactionConfirmations :: "bitcoin_rpc \<Rightarrow> string \<Rightarrow> int result" where
  "btc_transactionConfirmations rpc txid =
     (case br_gettransaction rpc txid of
        Inr c \<Rightarrow> Inr (case c of None \<Rightarrow> 0 | Some n \<Rightarrow> n)
      | Inl (RpcError code message) \<Rightarrow> if code = - 5 then Inr 0 else Inl (RpcError code message)
      | Inl e \<Rightarrow> Inl e)"

definition bitcoin_adapter ::
    "decimal_lib \<Rightarrow> environment \<Rightarrow> (string \<Rightarrow> string result) \<Rightarrow> bitcoin_rpc \<Rightarrow> wallet_adapter" where
  "bitcoin_adapter D env secret rpc =
     \<lparr>wa_createReceiveAddress = br_getnewaddress rpc,
      wa_validateAddress = br_validateaddress rpc,
      wa_scanReceipts = btc_scanReceipts D env rpc,
      wa_preparePayout = btc_preparePayout D env secret rpc,
      wa_broadcast = btc_broadcast env rpc,
      wa_transactionKnown = btc_transactionKnown rpc,
      wa_transactionConfirmations = btc_transactionConfirmations rpc\<rparr>"

section \<open>The Monero adapter\<close>

record monero_transfer =
  mt_address :: "string option"
  mt_amount :: atomic
  mt_confirmations :: "int option"
  mt_txid :: string
  mt_locked :: "bool option"
  mt_subaddr :: "(int \<times> int) option"

record monero_split =
  ms_tx_hash_list :: "string list option"
  ms_tx_metadata_list :: "string list option"
  ms_fee_list :: "atomic list option"

record monero_transfers =
  tf_in :: "monero_transfer list option"
  tf_out :: "monero_transfer list option"
  tf_pending :: "monero_transfer list option"
  tf_pool :: "monero_transfer list option"

record monero_rpc =
  mr_create_address :: "string \<Rightarrow> string result"
  mr_validate_address :: "string \<Rightarrow> bool result"
  mr_get_transfers :: "monero_transfers result"
  mr_transfer_split :: "nat \<Rightarrow> (string \<times> atomic) list \<Rightarrow> monero_split result"
  mr_relay_tx :: "nat \<Rightarrow> string \<Rightarrow> string option result"

definition or_empty :: "'a list option \<Rightarrow> 'a list" where
  "or_empty xs = (case xs of None \<Rightarrow> [] | Some l \<Rightarrow> l)"

definition xmr_receipt :: "environment \<Rightarrow> monero_transfer \<Rightarrow> wallet_receipt" where
  "xmr_receipt env t =
     (let confirmations = (case mt_confirmations t of None \<Rightarrow> 0 | Some c \<Rightarrow> c);
          (major, minor) = (case mt_subaddr t of None \<Rightarrow> (0, 0) | Some p \<Rightarrow> p)
      in \<lparr>wr_asset = XMR, wr_txid = mt_txid t,
          wr_outputRef = show_int major @ '':'' @ show_int minor,
          wr_address = the (mt_address t), wr_amountAtomic = mt_amount t,
          wr_confirmations = confirmations,
          wr_locked = (mt_locked t \<noteq> Some False \<or> confirmations < cw_confirmations (MONERO env))\<rparr>)"

definition xmr_scanReceipts ::
    "environment \<Rightarrow> monero_rpc \<Rightarrow> string list \<Rightarrow> wallet_receipt list result" where
  "xmr_scanReceipts env rpc addresses =
     (if addresses = [] then Inr []
      else ebind (mr_get_transfers rpc) (\<lambda>result.
        Inr (map (xmr_receipt env)
          (filter (\<lambda>t. truthy (mt_address t) \<and> the (mt_address t) \<in> set addresses \<and> mt_amount t > 0)
             (or_empty (tf_in result) @ or_empty (tf_pool result))))))"

definition xmr_fee :: "monero_split \<Rightarrow> atomic" where
  "xmr_fee r = sum_list (or_empty (ms_fee_list r))"

definition xmr_fund :: "monero_rpc \<Rightarrow> nat \<Rightarrow> prepared_item list \<Rightarrow> (monero_split \<times> atomic) result" where
  "xmr_fund rpc attempt net =
     ebind (mr_transfer_split rpc (Suc attempt) (map (\<lambda>i. (pr_address i, pr_netAtomic i)) net))
       (\<lambda>r. Inr (r, xmr_fee r))"

definition payload_json :: "string list \<Rightarrow> string list \<Rightarrow> json" where
  "payload_json metadata transactionIds =
     JObj [(''metadata'', JArr (map JStr metadata)), (''transactionIds'', JArr (map JStr transactionIds))]"

definition xmr_preparePayout ::
    "decimal_lib \<Rightarrow> environment \<Rightarrow> monero_rpc \<Rightarrow> payout_candidate list \<Rightarrow> bool \<Rightarrow> prepared_payout result" where
  "xmr_preparePayout D env rpc items deduct =
     ebind (guard_or (items \<noteq> []) (Error ''Payout has no items'')) (\<lambda>_.
     ebind (assert_mainnet_allowed ''Monero'' (MONERO env) env) (\<lambda>_.
     ebind (mr_transfer_split rpc 0 (map (\<lambda>i. (ca_address i, ca_grossAtomic i)) items)) (\<lambda>preliminary.
     ebind (fee_loop D (xmr_fund rpc) items deduct 4 0 (xmr_fee preliminary)) (\<lambda>r.
       case r of
         None \<Rightarrow> Inl (Error ''Monero payout fee did not converge'')
       | Some (prepared, feeAtomic, netItems) \<Rightarrow>
           let metadata = or_empty (ms_tx_metadata_list prepared);
               transactionIds = or_empty (ms_tx_hash_list prepared)
           in ebind (guard_or (metadata \<noteq> []) (Error ''Monero wallet did not return transaction metadata'')) (\<lambda>_.
              ebind (guard_or (length transactionIds = length metadata)
                       (Error ''Monero wallet did not return stable transaction IDs'')) (\<lambda>_.
              Inr \<lparr>prep_signedPayload = print_json (payload_json metadata transactionIds),
                   prep_transactionIds = transactionIds, prep_feeAtomic = feeAtomic,
                   prep_items = netItems\<rparr>))))))"

fun json_texts :: "json \<Rightarrow> string list" where
  "json_texts (JArr xs) = map (\<lambda>x. case x of JStr t \<Rightarrow> t | _ \<Rightarrow> []) xs"
| "json_texts _ = []"

definition json_field :: "string \<Rightarrow> json \<Rightarrow> json option" where
  "json_field k v = (case v of JObj kvs \<Rightarrow> map_of kvs k | _ \<Rightarrow> None)"

definition type_error :: error where
  "type_error = Error ''Cannot read properties of undefined''"

fun relay_all :: "monero_rpc \<Rightarrow> nat \<Rightarrow> string list \<Rightarrow> string list option \<Rightarrow> string list result" where
  "relay_all rpc index [] ids = Inr []"
| "relay_all rpc index (hex # rest) ids =
     ebind (mr_relay_tx rpc index hex) (\<lambda>hash.
     ebind (case hash of
              Some h \<Rightarrow> Inr (Some h)
            | None \<Rightarrow> (case ids of
                 None \<Rightarrow> Inl type_error
               | Some l \<Rightarrow> Inr (if index < length l then Some (l ! index) else None))) (\<lambda>txid.
       if \<not> truthy txid
       then Inl (Error ''Monero wallet relay did not return a transaction ID'')
       else ebind (relay_all rpc (Suc index) rest ids) (\<lambda>txids. Inr (the txid # txids))))"

definition xmr_broadcast :: "environment \<Rightarrow> monero_rpc \<Rightarrow> string \<Rightarrow> string list result" where
  "xmr_broadcast env rpc signedPayload =
     ebind (assert_mainnet_allowed ''Monero'' (MONERO env) env) (\<lambda>_.
       case json_parse signedPayload of
         None \<Rightarrow> Inl (Error ''Unexpected token in JSON'')
       | Some payload \<Rightarrow>
           (case json_field ''metadata'' payload of
              None \<Rightarrow> Inl type_error
            | Some metadata \<Rightarrow>
                relay_all rpc 0 (json_texts metadata)
                  (map_option json_texts (json_field ''transactionIds'' payload))))"

definition xmr_transactionKnown :: "monero_rpc \<Rightarrow> string \<Rightarrow> bool result" where
  "xmr_transactionKnown rpc txid =
     ebind (mr_get_transfers rpc) (\<lambda>result.
       Inr (list_ex (\<lambda>t. mt_txid t = txid)
         (or_empty (tf_in result) @ or_empty (tf_out result) @ or_empty (tf_pending result) @
          or_empty (tf_pool result))))"

definition xmr_transactionConfirmations :: "monero_rpc \<Rightarrow> string \<Rightarrow> int result" where
  "xmr_transactionConfirmations rpc txid =
     ebind (mr_get_transfers rpc) (\<lambda>result.
       Inr (case List.find (\<lambda>t. mt_txid t = txid)
               (or_empty (tf_in result) @ or_empty (tf_out result) @ or_empty (tf_pending result)) of
              None \<Rightarrow> 0
            | Some t \<Rightarrow> (case mt_confirmations t of None \<Rightarrow> 0 | Some c \<Rightarrow> c)))"

definition monero_adapter :: "decimal_lib \<Rightarrow> environment \<Rightarrow> monero_rpc \<Rightarrow> wallet_adapter" where
  "monero_adapter D env rpc =
     \<lparr>wa_createReceiveAddress = mr_create_address rpc,
      wa_validateAddress = mr_validate_address rpc,
      wa_scanReceipts = xmr_scanReceipts env rpc,
      wa_preparePayout = xmr_preparePayout D env rpc,
      wa_broadcast = xmr_broadcast env rpc,
      wa_transactionKnown = xmr_transactionKnown rpc,
      wa_transactionConfirmations = xmr_transactionConfirmations rpc\<rparr>"

section \<open>The service\<close>

record wallets =
  bitcoin :: wallet_adapter
  monero :: wallet_adapter

fun forAsset :: "wallets \<Rightarrow> AssetCode \<Rightarrow> wallet_adapter" where
  "forAsset w BTC = bitcoin w"
| "forAsset w XMR = monero w"

section \<open>Fees add up\<close>

lemma net_item_Inr:
  "net_item fees deduct item = Inr r \<Longrightarrow>
   pr_id r = ca_id item \<and> pr_address r = ca_address item \<and> pr_grossAtomic r = ca_grossAtomic item \<and>
   pr_allocatedFeeAtomic r =
     (case map_of (rev (map (\<lambda>f. (ai_key f, ai_amount f)) fees)) (ca_id item) of None \<Rightarrow> 0 | Some x \<Rightarrow> x) \<and>
   pr_netAtomic r = (if deduct then pr_grossAtomic r - pr_allocatedFeeAtomic r else pr_grossAtomic r) \<and>
   (deduct \<longrightarrow> pr_allocatedFeeAtomic r < pr_grossAtomic r)"
  by (auto simp: net_item_def Let_def split: if_splits)

lemma map_result_rel:
  "map_result f xs = Inr ys \<Longrightarrow> (\<And>x y. x \<in> set xs \<Longrightarrow> f x = Inr y \<Longrightarrow> R x y) \<Longrightarrow> list_all2 R xs ys"
  by (induction xs arbitrary: ys) (auto simp: ebind_eq_Inr)

definition keeps_item :: "bool \<Rightarrow> payout_candidate \<Rightarrow> prepared_item \<Rightarrow> bool" where
  "keeps_item deduct c r \<longleftrightarrow>
     pr_id r = ca_id c \<and> pr_address r = ca_address c \<and> pr_grossAtomic r = ca_grossAtomic c \<and>
     pr_netAtomic r = (if deduct then pr_grossAtomic r - pr_allocatedFeeAtomic r else pr_grossAtomic r) \<and>
     (deduct \<longrightarrow> pr_allocatedFeeAtomic r < pr_grossAtomic r)"

lemma net_items_keep: "net_items D fee items deduct = Inr net \<Longrightarrow> list_all2 (keeps_item deduct) items net"
  unfolding net_items_def ebind_eq_Inr
  by (elim exE conjE, erule map_result_rel) (auto simp: keeps_item_def dest!: net_item_Inr)

lemma map_of_rev_unique: "distinct (map fst kvs) \<Longrightarrow> map_of (rev kvs) = map_of kvs"
proof (induction kvs)
  case (Cons kv kvs)
  then have "fst kv \<notin> dom (map_of kvs)" by (simp add: dom_map_of_conv_image_fst)
  with Cons show ?case by (cases kv) (auto simp: map_add_def fun_eq_iff split: option.splits)
qed simp

lemma map_of_keys_amounts:
  "map ai_key fees = ks \<Longrightarrow> distinct ks \<Longrightarrow>
   map (\<lambda>k. case map_of (map (\<lambda>f. (ai_key f, ai_amount f)) fees) k of None \<Rightarrow> 0 | Some x \<Rightarrow> x) ks =
   map ai_amount fees"
  by (induction fees arbitrary: ks) (auto, metis rev_image_eqI)

lemma net_items_fees:
  assumes "decimal_arith D u" and "net_items D fee items deduct = Inr net"
    and "distinct (map ca_id items)" and "\<forall>i \<in> set items. 0 < ca_grossAtomic i" and "items \<noteq> []"
    and "0 \<le> fee" and "decimal_adequate u (length items) fee"
  shows "sum_list (map pr_allocatedFeeAtomic net) = fee \<and> (\<forall>r \<in> set net. 0 \<le> pr_allocatedFeeAtomic r)"
proof -
  let ?w = "map (\<lambda>item. \<lparr>wi_key = ca_id item, wi_weight = of_int (ca_grossAtomic item) :: rat\<rparr>) items"
  have pos: "0 < (\<Sum>x\<leftarrow>?w. wi_weight x)"
    using sum_list_map_strict_mono [of items "\<lambda>_. 0" "\<lambda>i. of_int (ca_grossAtomic i) :: rat"] assms(4,5)
    by (simp add: o_def)
  obtain fees where f: "largestRemainder D fee ?w = Inr fees" "map ai_key fees = map wi_key ?w"
    "sum_list (map ai_amount fees) = fee" "\<And>i. i < length ?w \<Longrightarrow> 0 \<le> ai_amount (fees ! i)"
    by (rule decimal_arith.largestRemainder_allocates [OF assms(1) _ pos assms(6)])
      (use assms(4,7) in \<open>auto intro: less_imp_le\<close>)
  have keys: "map ai_key fees = map ca_id items" using f(2) by (simp add: o_def)
  from assms(2) f(1) have "map_result (net_item fees deduct) items = Inr net" by (simp add: net_items_def)
  then have "list_all2 (\<lambda>c r. pr_allocatedFeeAtomic r =
      (case map_of (rev (map (\<lambda>f. (ai_key f, ai_amount f)) fees)) (ca_id c) of None \<Rightarrow> 0 | Some x \<Rightarrow> x)) items net"
    by (rule map_result_rel) (blast dest: net_item_Inr)
  then have "map pr_allocatedFeeAtomic net = map (\<lambda>k. case map_of (rev (map (\<lambda>f. (ai_key f, ai_amount f)) fees)) k
      of None \<Rightarrow> 0 | Some x \<Rightarrow> x) (map ca_id items)"
    by (induction rule: list_all2_induct) auto
  also have "map_of (rev (map (\<lambda>f. (ai_key f, ai_amount f)) fees)) = map_of (map (\<lambda>f. (ai_key f, ai_amount f)) fees)"
    using assms(3) by (intro map_of_rev_unique) (simp add: o_def keys)
  finally have eq: "map pr_allocatedFeeAtomic net = map ai_amount fees"
    using map_of_keys_amounts [OF keys assms(3)] by simp
  have "length fees = length items" using keys by (metis length_map)
  then have "\<forall>x \<in> set (map ai_amount fees). 0 \<le> x" using f(4) by (auto simp: in_set_conv_nth)
  with eq f(3) show ?thesis by (metis (no_types, lifting) image_eqI set_map)
qed

text \<open>When the loop ends with a transaction, its fee is the fee that was distributed.\<close>

lemma fee_loop_Some:
  "fee_loop D fund items deduct n k fee0 = Inr (Some (f, fee, net)) \<Longrightarrow>
   \<exists>attempt < k + n. net_items D fee items deduct = Inr net \<and> fund attempt net = Inr (f, fee)"
proof (induction n arbitrary: k fee0)
  case (Suc n)
  then obtain net' f' actual where s: "net_items D fee0 items deduct = Inr net'" "fund k net' = Inr (f', actual)"
    and r: "(if actual = fee0 then Inr (Some (f', fee0, net')) else fee_loop D fund items deduct n (Suc k) actual)
      = Inr (Some (f, fee, net))"
    by (auto simp: ebind_eq_Inr)
  show ?case
  proof (cases "actual = fee0")
    case True
    with s r show ?thesis by (intro exI [of _ k]) auto
  next
    case False
    with r Suc.IH [of "Suc k" actual] show ?thesis by auto
  qed
qed simp

section \<open>What a wallet promises to the payouts\<close>

text \<open>
  The contract of \<open>preparePayout\<close>: the items come back in order with their identifiers, addresses
  and gross amounts; the net amounts are the gross amounts, less the fees if those are deducted;
  and the fees add up to the fee of the transaction.
\<close>

definition fees_add_up :: "prepared_payout \<Rightarrow> bool" where
  "fees_add_up p \<longleftrightarrow> sum_list (map pr_allocatedFeeAtomic (prep_items p)) = prep_feeAtomic p \<and>
     (\<forall>r \<in> set (prep_items p). 0 \<le> pr_allocatedFeeAtomic r)"

definition payable :: "payout_candidate list \<Rightarrow> bool" where
  "payable items \<longleftrightarrow> distinct (map ca_id items) \<and> (\<forall>i \<in> set items. 0 < ca_grossAtomic i)"

locale payout_wallet =
  fixes prepare :: "payout_candidate list \<Rightarrow> bool \<Rightarrow> prepared_payout result"
    and u :: rat
  assumes prepare_keeps: "prepare items deduct = Inr p \<Longrightarrow> list_all2 (keeps_item deduct) items (prep_items p)"
    and prepare_fees: "prepare items deduct = Inr p \<Longrightarrow> payable items \<Longrightarrow> 0 \<le> prep_feeAtomic p \<Longrightarrow>
      decimal_adequate u (length items) (prep_feeAtomic p) \<Longrightarrow> fees_add_up p"
begin

lemma prepared_net:
  assumes "prepare items deduct = Inr p"
  shows "sum_list (map pr_netAtomic (prep_items p)) =
    sum_list (map ca_grossAtomic items) -
      (if deduct then sum_list (map pr_allocatedFeeAtomic (prep_items p)) else 0)"
  using prepare_keeps [OF assms]
  by (induction rule: list_all2_induct) (auto simp: keeps_item_def)

text \<open>What leaves the wallet, net amounts and fee, is what was reserved, plus the fee only if it is not deducted.\<close>

lemma outflow:
  assumes "prepare items deduct = Inr p" and "payable items" and "0 \<le> prep_feeAtomic p"
    and "decimal_adequate u (length items) (prep_feeAtomic p)"
  shows "sum_list (map pr_netAtomic (prep_items p)) + prep_feeAtomic p =
    sum_list (map ca_grossAtomic items) + (if deduct then 0 else prep_feeAtomic p)"
  using prepared_net [OF assms(1)] prepare_fees [OF assms] by (simp add: fees_add_up_def)

lemma net_positive:
  assumes "prepare items deduct = Inr p" and "payable items"
  shows "\<forall>r \<in> set (prep_items p). 0 < pr_netAtomic r"
proof
  fix r assume "r \<in> set (prep_items p)"
  with prepare_keeps [OF assms(1)] obtain c where "c \<in> set items" "keeps_item deduct c r"
    by (metis (no_types, lifting) in_set_conv_nth list_all2_conv_all_nth)
  with assms(2) show "0 < pr_netAtomic r" by (auto simp: keeps_item_def payable_def split: if_splits)
qed

end

text \<open>Both adapters keep the contract, whatever the daemon answers.\<close>

lemma btc_prepared:
  assumes "btc_preparePayout D env secret rpc items deduct = Inr p"
  shows "items \<noteq> []" and "\<exists>attempt psbt. net_items D (prep_feeAtomic p) items deduct = Inr (prep_items p) \<and>
      attempt < 4 \<and> btc_fund D rpc attempt (prep_items p) = Inr (psbt, prep_feeAtomic p)"
    and "\<not> (cw_network (BITCOIN env) = ''mainnet'' \<and> \<not> ENABLE_MAINNET_PAYOUTS env)"
proof -
  from assms obtain pre psbt fee net where
    l: "fee_loop D (btc_fund D rpc) items deduct 4 0 (btc_fee_atomic D pre) = Inr (Some (psbt, fee, net))"
    and p: "prep_feeAtomic p = fee" "prep_items p = net"
    by (auto simp: btc_preparePayout_def ebind_eq_Inr split: option.splits)
  from fee_loop_Some [OF l] p show "\<exists>attempt psbt. net_items D (prep_feeAtomic p) items deduct = Inr (prep_items p) \<and>
      attempt < 4 \<and> btc_fund D rpc attempt (prep_items p) = Inr (psbt, prep_feeAtomic p)" by auto
  from assms show "items \<noteq> []" "\<not> (cw_network (BITCOIN env) = ''mainnet'' \<and> \<not> ENABLE_MAINNET_PAYOUTS env)"
    by (auto simp: btc_preparePayout_def assert_mainnet_allowed_def ebind_eq_Inr)
qed

lemma xmr_prepared:
  assumes "xmr_preparePayout D env rpc items deduct = Inr p"
  shows "items \<noteq> []" and "\<exists>attempt r. net_items D (prep_feeAtomic p) items deduct = Inr (prep_items p) \<and>
      attempt < 4 \<and> xmr_fund rpc attempt (prep_items p) = Inr (r, prep_feeAtomic p) \<and>
      prep_transactionIds p = or_empty (ms_tx_hash_list r) \<and>
      prep_signedPayload p = print_json (payload_json (or_empty (ms_tx_metadata_list r)) (prep_transactionIds p)) \<and>
      length (prep_transactionIds p) = length (or_empty (ms_tx_metadata_list r))"
    and "\<not> (cw_network (MONERO env) = ''mainnet'' \<and> \<not> ENABLE_MAINNET_PAYOUTS env)"
proof -
  from assms obtain pre r fee net where
    l: "fee_loop D (xmr_fund rpc) items deduct 4 0 (xmr_fee pre) = Inr (Some (r, fee, net))"
    and p: "prep_feeAtomic p = fee" "prep_items p = net" "prep_transactionIds p = or_empty (ms_tx_hash_list r)"
      "prep_signedPayload p = print_json (payload_json (or_empty (ms_tx_metadata_list r)) (prep_transactionIds p))"
      "length (prep_transactionIds p) = length (or_empty (ms_tx_metadata_list r))"
    by (auto simp: xmr_preparePayout_def ebind_eq_Inr Let_def split: option.splits)
  from fee_loop_Some [OF l] p show "\<exists>attempt r. net_items D (prep_feeAtomic p) items deduct = Inr (prep_items p) \<and>
      attempt < 4 \<and> xmr_fund rpc attempt (prep_items p) = Inr (r, prep_feeAtomic p) \<and>
      prep_transactionIds p = or_empty (ms_tx_hash_list r) \<and>
      prep_signedPayload p = print_json (payload_json (or_empty (ms_tx_metadata_list r)) (prep_transactionIds p)) \<and>
      length (prep_transactionIds p) = length (or_empty (ms_tx_metadata_list r))" by auto
  from assms show "items \<noteq> []" "\<not> (cw_network (MONERO env) = ''mainnet'' \<and> \<not> ENABLE_MAINNET_PAYOUTS env)"
    by (auto simp: xmr_preparePayout_def assert_mainnet_allowed_def ebind_eq_Inr)
qed

lemma net_items_payable_fees:
  assumes "net_items decimal_js (prep_feeAtomic p) items deduct = Inr (prep_items p)" and "items \<noteq> []"
    and "payable items" and "0 \<le> prep_feeAtomic p" and "decimal_adequate js_unit (length items) (prep_feeAtomic p)"
  shows "fees_add_up p"
  using net_items_fees [OF js.decimal_arith_axioms assms(1)] assms(2-5)
  by (simp add: payable_def fees_add_up_def)

interpretation btc: payout_wallet "btc_preparePayout decimal_js env secret rpc" js_unit for env secret rpc
  by unfold_locales (blast dest: btc_prepared(2) net_items_keep, blast dest: btc_prepared net_items_payable_fees)

interpretation xmr: payout_wallet "xmr_preparePayout decimal_js env rpc" js_unit for env rpc
  by unfold_locales (blast dest: xmr_prepared(2) net_items_keep, blast dest: xmr_prepared net_items_payable_fees)

section \<open>Main properties\<close>

definition adapters ::
    "environment \<Rightarrow> (string \<Rightarrow> string result) \<Rightarrow> bitcoin_rpc \<Rightarrow> monero_rpc \<Rightarrow> wallets" where
  "adapters env secret brpc mrpc =
     \<lparr>bitcoin = bitcoin_adapter decimal_js env secret brpc, monero = monero_adapter decimal_js env mrpc\<rparr>"


text \<open>A Monero daemon that charges a constant fee, and a configuration on the stage network.\<close>

definition example_monero :: monero_rpc where
  "example_monero =
     \<lparr>mr_create_address = (\<lambda>_. Inr ''addr''), mr_validate_address = (\<lambda>_. Inr True),
      mr_get_transfers = Inr \<lparr>tf_in = None, tf_out = None, tf_pending = None, tf_pool = None\<rparr>,
      mr_transfer_split = (\<lambda>_ _. Inr \<lparr>ms_tx_hash_list = Some [''t1'', ''t2''],
         ms_tx_metadata_list = Some [''m1'', ''m2''], ms_fee_list = Some [2, 1]\<rparr>),
      mr_relay_tx = (\<lambda>_ _. Inr None)\<rparr>"

definition example_coin_gateway :: "int \<Rightarrow> coin_gateway" where
  "example_coin_gateway port =
     \<lparr>cg_host = ''0.0.0.0'', cg_port = port, cg_tcp_enabled = True, cg_tls_enabled = False,
      cg_tls_host = ''0.0.0.0'', cg_tls_port = 443, cg_tls_cert_file = ''cert'', cg_tls_key_file = ''key''\<rparr>"

definition example_coin_wallet :: "string \<Rightarrow> int \<Rightarrow> coin_wallet" where
  "example_coin_wallet network confirmations =
     \<lparr>cw_network = network, cw_rpc_url = ''url'', cw_rpc_user = ''user'', cw_rpc_password_file = ''pw'',
      cw_wallet_name = ''wallet'', cw_passphrase_file = ''pass'', cw_confirmations = confirmations,
      cw_min_payout_atomic = 10, cw_daily_auto_limit_atomic = 1000\<rparr>"

definition example_env :: environment where
  "example_env =
     \<lparr>NODE_ENV = ''test'', NODE_TLS_REJECT_UNAUTHORIZED = None, HTTP_HOST = ''127.0.0.1'', HTTP_PORT = 3000,
      ADMIN_ORIGIN = ''http://127.0.0.1:5173'', TRUST_PROXY = ''127.0.0.1'',
      ALLOW_PUBLIC_HTTP_API_IN_PRODUCTION = False, DATABASE_URL = ''db'', REDIS_URL = ''redis'',
      APP_ENCRYPTION_KEY_FILE = ''k'', COOKIE_SECRET_FILE = ''c'',
      BITCOIN_GATEWAY = example_coin_gateway 3333, MONERO_GATEWAY = example_coin_gateway 4444,
      GATEWAY = \<lparr>gl_max_connections = 500, gl_max_connections_per_ip = 100,
        gl_max_unauthenticated_per_ip = 10, gl_auth_timeout_ms = 15000, gl_max_line_bytes = 65536,
        gl_idle_timeout_ms = 180000, gl_enabled = True, gl_auto_provision_enabled = False,
        gl_auto_provision_customer_bps = 8000, gl_auto_provision_max_connections = 4,
        gl_auto_provision_max_per_ip_per_hour = 20\<rparr>,
      ALLOW_PLAINTEXT_GATEWAY_IN_PRODUCTION = False, RAW_SHARE_RETENTION_DAYS = 14,
      PAYOUT_TIMEZONE = ''Asia/Tehran'', ENABLE_MAINNET_PAYOUTS = False,
      BITCOIN = example_coin_wallet ''regtest'' 6, MONERO = example_coin_wallet ''stagenet'' 10,
      LOG_LEVEL = ''info'', SERVE_ADMIN_STATIC = False\<rparr>"

definition example_candidates :: "payout_candidate list" where
  "example_candidates =
     [\<lparr>ca_id = ''i1'', ca_address = ''a'', ca_grossAtomic = 100\<rparr>,
      \<lparr>ca_id = ''i2'', ca_address = ''b'', ca_grossAtomic = 200\<rparr>]"

definition example_prepared :: prepared_payout where
  "example_prepared =
     \<lparr>prep_signedPayload = print_json (payload_json [''m1'', ''m2''] [''t1'', ''t2'']),
      prep_transactionIds = [''t1'', ''t2''], prep_feeAtomic = 3,
      prep_items =
        [\<lparr>pr_id = ''i1'', pr_address = ''a'', pr_grossAtomic = 100, pr_allocatedFeeAtomic = 1, pr_netAtomic = 99\<rparr>,
         \<lparr>pr_id = ''i2'', pr_address = ''b'', pr_grossAtomic = 200, pr_allocatedFeeAtomic = 2, pr_netAtomic = 198\<rparr>]\<rparr>"

lemma example_prepared_ok:
  "xmr_preparePayout decimal_js example_env example_monero example_candidates True = Inr example_prepared"
proof -
  have net: "net_items decimal_js 3 example_candidates True = Inr (prep_items example_prepared)" by code_simp
  have ne: "example_candidates \<noteq> []" by (simp add: example_candidates_def)
  have main: "assert_mainnet_allowed ''Monero'' (MONERO example_env) example_env = Inr ()"
    by (simp add: assert_mainnet_allowed_def example_env_def example_coin_wallet_def)
  show ?thesis
    by (simp add: xmr_preparePayout_def ne main example_monero_def xmr_fund_def xmr_fee_def or_empty_def
        numeral_eq_Suc net [unfolded numeral_eq_Suc]) (simp add: example_prepared_def Let_def)
qed


lemma json_texts_JStr [simp]: "json_texts (JArr (map JStr xs)) = xs"
  by (induction xs) auto

lemma payload_json_parse: "json_parse (print_json (payload_json metadata ids)) = Some (payload_json metadata ids)"
  by (rule parse_print) (simp add: payload_json_def list_all_iff)

lemma relay_all_stable:
  "\<forall>k < length ms. mr_relay_tx rpc (i + k) (ms ! k) \<in> {Inr None, Inr (Some (ids ! (i + k)))} \<Longrightarrow>
   i + length ms \<le> length ids \<Longrightarrow> [] \<notin> set ids \<Longrightarrow>
   relay_all rpc i ms (Some ids) = Inr (take (length ms) (drop i ids))"
proof (induction ms arbitrary: i)
  case (Cons m ms)
  have "\<forall>k < length ms. mr_relay_tx rpc (Suc i + k) (ms ! k) \<in> {Inr None, Inr (Some (ids ! (Suc i + k)))}"
    using Cons.prems(1) by (metis Suc_less_eq add_Suc_shift length_Cons nth_Cons_Suc)
  with Cons.IH [of "Suc i"] Cons.prems have IH: "relay_all rpc (Suc i) ms (Some ids) = Inr (take (length ms) (drop (Suc i) ids))"
    by simp
  have i: "i < length ids" using Cons.prems(2) by simp
  then have "ids ! i \<noteq> []" using Cons.prems(3) by (metis nth_mem)
  moreover from Cons.prems(1) have "mr_relay_tx rpc i m \<in> {Inr None, Inr (Some (ids ! i))}" by force
  ultimately show ?case using IH i by (auto simp: truthy_def Cons_nth_drop_Suc [symmetric])
qed simp

text \<open>A Monero payout can be broadcast again.  The payload that \<open>preparePayout\<close> stores is read back
  by \<open>broadcast\<close> exactly: its transactions are relayed in order, and when the wallet confirms each
  under its stable identifier or returns none, the identifiers reported are those that were stored
  with the payload.\<close>

theorem monero_payload_replays:
  assumes "xmr_preparePayout D env rpc items deduct = Inr p" and "[] \<notin> set (prep_transactionIds p)"
    and "\<forall>k hex. mr_relay_tx rpc' k hex \<in> {Inr None, Inr (Some (prep_transactionIds p ! k))}"
  shows "xmr_broadcast env rpc' (prep_signedPayload p) = Inr (prep_transactionIds p)"
proof -
  from xmr_prepared(2) [OF assms(1)] obtain r :: monero_split where
    payload: "prep_signedPayload p = print_json (payload_json (or_empty (ms_tx_metadata_list r)) (prep_transactionIds p))"
    and len: "length (prep_transactionIds p) = length (or_empty (ms_tx_metadata_list r))" by blast
  have "assert_mainnet_allowed ''Monero'' (MONERO env) env = Inr ()"
    using xmr_prepared(3) [OF assms(1)] by (simp add: assert_mainnet_allowed_def)
  moreover have "relay_all rpc' 0 (or_empty (ms_tx_metadata_list r)) (Some (prep_transactionIds p)) =
      Inr (take (length (or_empty (ms_tx_metadata_list r))) (drop 0 (prep_transactionIds p)))"
    using assms(2,3) len by (intro relay_all_stable) auto
  ultimately show ?thesis
    by (simp add: xmr_broadcast_def payload payload_json_parse) (simp add: payload_json_def json_field_def len [symmetric] del: json_texts.simps)
qed

theorem monero_payload_replays_witness:
  "xmr_broadcast example_env example_monero (prep_signedPayload example_prepared) = Inr [''t1'', ''t2'']"
proof -
  have "[] \<notin> set (prep_transactionIds example_prepared)" by (simp add: example_prepared_def)
  moreover have "\<forall>k hex. mr_relay_tx example_monero k hex \<in> {Inr None, Inr (Some (prep_transactionIds example_prepared ! k))}"
    by (simp add: example_monero_def)
  ultimately have "xmr_broadcast example_env example_monero (prep_signedPayload example_prepared) =
      Inr (prep_transactionIds example_prepared)"
    by (rule monero_payload_replays [OF example_prepared_ok])
  then show ?thesis by (simp add: example_prepared_def)
qed

end
