(* ===== verification/Settings.thy ===== *)
theory Settings
  imports AuditLog Wallets Ledger
begin

text \<open>
  The settings of \<open>apps/server/src/settings/settings.service.ts\<close> and the validation of its inputs in
  \<open>settings.dto.ts\<close>: the payout policy, the operator's payout destination with its cooling period, and
  the claiming of scheduled runs.

  \<open>services\<close> gathers what a service is constructed with.  Time zones are a parameter, \<open>zone_lib\<close>, with
  the operations of the date library that the code calls.  A decimal text in a setting is kept as the
  number it denotes.  The collation key of a text is a rational number: every countable order of texts
  has such keys.
\<close>

section \<open>Services\<close>

record zone_lib =
  zl_valid :: "string \<Rightarrow> bool"
  zl_startOfDay :: "string \<Rightarrow> instant \<Rightarrow> instant"
  zl_set :: "string \<Rightarrow> instant \<Rightarrow> nat \<Rightarrow> nat \<Rightarrow> instant"
  zl_plusDay :: "string \<Rightarrow> instant \<Rightarrow> instant"
  zl_isoDate :: "string \<Rightarrow> instant \<Rightarrow> string option"
  zl_weekday :: "string \<Rightarrow> instant \<Rightarrow> int"
  zl_toISO :: "string \<Rightarrow> instant \<Rightarrow> string"

record services =
  sv_env :: environment
  sv_crypto :: crypto_service
  sv_loc :: "string \<Rightarrow> rat"
  sv_zones :: zone_lib
  sv_wallets :: wallets
  sv_hmac_sha1 :: "string \<Rightarrow> string \<Rightarrow> string"

definition audit :: "services \<Rightarrow> instant \<Rightarrow> audit_input \<Rightarrow> store \<Rightarrow> store \<times> unit result" where
  "audit V = record_event (sv_crypto V) (sv_loc V)"

text \<open>Run the next step with what the previous one left, unless it threw.\<close>

definition andThen :: "store \<times> 'a result \<Rightarrow> ('a \<Rightarrow> store \<Rightarrow> store \<times> 'b result) \<Rightarrow> store \<times> 'b result" where
  "andThen r f = (case r of (s, Inl e) \<Rightarrow> (s, Inl e) | (s, Inr x) \<Rightarrow> f x s)"

lemma andThen_simps [simp]: "andThen (s, Inl e) f = (s, Inl e)" "andThen (s, Inr x) f = f x s"
  by (simp_all add: andThen_def)

lemma andThen_eq_Inr: "andThen r f = (t, Inr y) \<longleftrightarrow> (\<exists>s x. r = (s, Inr x) \<and> f x s = (t, Inr y))"
  by (cases r; cases "snd r") (auto simp: andThen_def)

definition wallet_setting :: "environment \<Rightarrow> AssetCode \<Rightarrow> coin_wallet" where
  "wallet_setting env asset = (if asset = BTC then BITCOIN env else MONERO env)"

section \<open>Reading and writing settings\<close>

definition find_setting :: "string \<Rightarrow> store \<Rightarrow> setting_value option" where
  "find_setting key s = map_of (systemSettings s) key"

definition upsert_setting :: "string \<Rightarrow> setting_value \<Rightarrow> store \<Rightarrow> store" where
  "upsert_setting key v s =
     s\<lparr>systemSettings := (if find_setting key s = None then systemSettings s @ [(key, v)]
         else map (\<lambda>(k, old). (k, if k = key then v else old)) (systemSettings s))\<rparr>"

definition delete_setting :: "string \<Rightarrow> store \<Rightarrow> store" where
  "delete_setting key s = s\<lparr>systemSettings := filter (\<lambda>(k, v). k \<noteq> key) (systemSettings s)\<rparr>"

section \<open>The payout policy\<close>

definition stored :: "store \<Rightarrow> stored_policy option" where
  "stored s = (case find_setting ''payout.schedule'' s of Some (PolicyValue p) \<Rightarrow> Some p | _ \<Rightarrow> None)"

definition orElse :: "'a option \<Rightarrow> 'a \<Rightarrow> 'a" where
  "orElse x d = (case x of None \<Rightarrow> d | Some v \<Rightarrow> v)"

definition payoutPolicy :: "environment \<Rightarrow> store \<Rightarrow> payout_policy_setting" where
  "payoutPolicy env s =
      \<lparr>pp_mode = orElse (Option.bind (stored s) st_mode) PayoutScheduleMode.DAILY,
       pp_intervalMinutes = orElse (Option.bind (stored s) st_intervalMinutes) 60,
       pp_minuteOffset = orElse (Option.bind (stored s) st_minuteOffset) 5,
       pp_dailyTime = orElse (Option.bind (stored s) st_dailyTime)
          (orElse (Option.bind (stored s) st_time) ''00:15''),
       pp_timezone = orElse (Option.bind (stored s) st_timezone) (PAYOUT_TIMEZONE env),
       pp_feePayer = orElse (Option.bind (stored s) st_feePayer) NetworkFeePayer.OPERATOR,
       pp_maxFeeBps = orElse (Option.bind (stored s) st_maxFeeBps) 200,
       pp_maxBatchItems = orElse (Option.bind (stored s) st_maxBatchItems) 500,
       pp_minimumAtomic = (\<lambda>A. orElse (Option.bind (stored s) (\<lambda>p. st_minimumAtomic p A))
          (cw_min_payout_atomic (wallet_setting env A))),
       pp_dailyAutoLimitAtomic = (\<lambda>A. orElse (Option.bind (stored s) (\<lambda>p. st_dailyAutoLimitAtomic p A))
          (cw_daily_auto_limit_atomic (wallet_setting env A)))\<rparr>"

text \<open>The input of \<open>updatePayoutSchedule\<close> and its validation.\<close>

record schedule_dto =
  sd_mode :: PayoutScheduleMode
  sd_intervalMinutes :: int
  sd_minuteOffset :: int
  sd_dailyTime :: string
  sd_timezone :: string
  sd_feePayer :: NetworkFeePayer
  sd_maxFeeBps :: int
  sd_maxBatchItems :: int
  sd_bitcoinMinimumAtomic :: string
  sd_moneroMinimumAtomic :: string
  sd_bitcoinDailyAutoLimitAtomic :: string
  sd_moneroDailyAutoLimitAtomic :: string

definition matches_digits :: "string \<Rightarrow> bool" where
  "matches_digits t \<longleftrightarrow> t \<noteq> [] \<and> list_all is_digit t"

definition matches_time :: "string \<Rightarrow> bool" where
  "matches_time t \<longleftrightarrow> length t = 5 \<and> t ! 2 = CHR '':'' \<and> list_all is_digit (take 2 t @ drop 3 t) \<and>
     read_nat (take 2 t) \<le> 23 \<and> read_nat (drop 3 t) \<le> 59"

definition valid_schedule_dto :: "schedule_dto \<Rightarrow> bool" where
  "valid_schedule_dto d \<longleftrightarrow>
     60 \<le> sd_intervalMinutes d \<and> sd_intervalMinutes d \<le> 10080 \<and>
     0 \<le> sd_minuteOffset d \<and> sd_minuteOffset d \<le> 59 \<and> matches_time (sd_dailyTime d) \<and>
     1 \<le> length (sd_timezone d) \<and> length (sd_timezone d) \<le> 64 \<and>
     1 \<le> sd_maxFeeBps d \<and> sd_maxFeeBps d \<le> 10000 \<and> 1 \<le> sd_maxBatchItems d \<and> sd_maxBatchItems d \<le> 1000 \<and>
     matches_digits (sd_bitcoinMinimumAtomic d) \<and> matches_digits (sd_moneroMinimumAtomic d) \<and>
     matches_digits (sd_bitcoinDailyAutoLimitAtomic d) \<and> matches_digits (sd_moneroDailyAutoLimitAtomic d)"

definition bigint_of :: "string \<Rightarrow> int" where
  "bigint_of t = int (read_nat t)"

fun schedule_mode_text :: "PayoutScheduleMode \<Rightarrow> string" where
  "schedule_mode_text PayoutScheduleMode.DAILY = ''DAILY''"
| "schedule_mode_text PayoutScheduleMode.INTERVAL = ''INTERVAL''"

fun fee_payer_text :: "NetworkFeePayer \<Rightarrow> string" where
  "fee_payer_text NetworkFeePayer.CUSTOMER = ''CUSTOMER''"
| "fee_payer_text NetworkFeePayer.OPERATOR = ''OPERATOR''"

definition policy_json :: "payout_policy_setting \<Rightarrow> json" where
  "policy_json p =
     JObj [(''mode'', JStr (schedule_mode_text (pp_mode p))),
       (''intervalMinutes'', JNum (show_int (pp_intervalMinutes p))),
       (''minuteOffset'', JNum (show_int (pp_minuteOffset p))), (''dailyTime'', JStr (pp_dailyTime p)),
       (''timezone'', JStr (pp_timezone p)), (''feePayer'', JStr (fee_payer_text (pp_feePayer p))),
       (''maxFeeBps'', JNum (show_int (pp_maxFeeBps p))),
       (''maxBatchItems'', JNum (show_int (pp_maxBatchItems p))),
       (''minimumAtomic'', JObj [(''BTC'', JStr (show_int (pp_minimumAtomic p BTC))),
          (''XMR'', JStr (show_int (pp_minimumAtomic p XMR)))]),
       (''dailyAutoLimitAtomic'', JObj [(''BTC'', JStr (show_int (pp_dailyAutoLimitAtomic p BTC))),
          (''XMR'', JStr (show_int (pp_dailyAutoLimitAtomic p XMR)))])]"

definition policy_of_dto :: "schedule_dto \<Rightarrow> payout_policy_setting" where
  "policy_of_dto d =
     \<lparr>pp_mode = sd_mode d, pp_intervalMinutes = sd_intervalMinutes d, pp_minuteOffset = sd_minuteOffset d,
      pp_dailyTime = sd_dailyTime d, pp_timezone = sd_timezone d, pp_feePayer = sd_feePayer d,
      pp_maxFeeBps = sd_maxFeeBps d, pp_maxBatchItems = sd_maxBatchItems d,
      pp_minimumAtomic = (\<lambda>A. bigint_of (if A = BTC then sd_bitcoinMinimumAtomic d else sd_moneroMinimumAtomic d)),
      pp_dailyAutoLimitAtomic = (\<lambda>A. bigint_of (if A = BTC then sd_bitcoinDailyAutoLimitAtomic d
         else sd_moneroDailyAutoLimitAtomic d))\<rparr>"

definition store_policy :: "payout_policy_setting \<Rightarrow> stored_policy" where
  "store_policy p =
     \<lparr>st_mode = Some (pp_mode p), st_intervalMinutes = Some (pp_intervalMinutes p),
      st_minuteOffset = Some (pp_minuteOffset p), st_dailyTime = Some (pp_dailyTime p), st_time = None,
      st_timezone = Some (pp_timezone p), st_feePayer = Some (pp_feePayer p),
      st_maxFeeBps = Some (pp_maxFeeBps p), st_maxBatchItems = Some (pp_maxBatchItems p),
      st_minimumAtomic = (\<lambda>A. Some (pp_minimumAtomic p A)),
      st_dailyAutoLimitAtomic = (\<lambda>A. Some (pp_dailyAutoLimitAtomic p A))\<rparr>"

definition updatePayoutSchedule ::
  "services \<Rightarrow> instant \<Rightarrow> schedule_dto \<Rightarrow> uuid \<Rightarrow> store \<Rightarrow> store \<times> payout_policy_setting result" where
  "updatePayoutSchedule V now dto actor s =
     (if \<not> zl_valid (sv_zones V) (sd_timezone dto) then (s, Inl (BadRequestException ''Invalid IANA timezone''))
      else if bigint_of (sd_bitcoinMinimumAtomic dto) \<le> 0 \<or> bigint_of (sd_moneroMinimumAtomic dto) \<le> 0
      then (s, Inl (BadRequestException ''Payout minimums must be greater than zero''))
      else
        (let before = payoutPolicy (sv_env V) s;
             v = policy_of_dto dto;
             s1 = upsert_setting ''payout.schedule'' (PolicyValue (store_policy v)) s
         in andThen (audit V now \<lparr>au_actorId = Some actor, au_action = ''PAYOUT_SCHEDULE_UPDATED'',
                au_entityType = ''SystemSetting'', au_entityId = Some ''payout.schedule'', au_ipAddress = None,
                au_before = Some (policy_json before), au_after = Some (policy_json v)\<rparr> s1)
              (\<lambda>_ t. (t, Inr v))))"

section \<open>The next customer payout\<close>

definition parse_time :: "string \<Rightarrow> nat \<times> nat" where
  "parse_time t = (let parts = split_on CHR '':'' t
     in (read_nat (hd parts), if length parts > 1 then read_nat (parts ! 1) else 0))"

definition interval_ms :: "payout_policy_setting \<Rightarrow> int" where
  "interval_ms p = pp_intervalMinutes p * 60000"

definition offset_ms :: "payout_policy_setting \<Rightarrow> int" where
  "offset_ms p = pp_minuteOffset p * 60000"

definition due_today :: "zone_lib \<Rightarrow> payout_policy_setting \<Rightarrow> instant \<Rightarrow> instant" where
  "due_today Z p t =
     (let (hour, minute) = parse_time (pp_dailyTime p)
      in zl_set Z (pp_timezone p) (zl_startOfDay Z (pp_timezone p) t) hour minute)"

definition next_run :: "zone_lib \<Rightarrow> payout_policy_setting \<Rightarrow> instant \<Rightarrow> instant" where
  "next_run Z p reference =
     (if pp_mode p = PayoutScheduleMode.INTERVAL
      then (let nextIndex = (reference - offset_ms p) div interval_ms p + 1
            in nextIndex * interval_ms p + offset_ms p)
      else (let today = due_today Z p reference
            in if reference < today then today else zl_plusDay Z (pp_timezone p) today))"

record next_payout =
  np_at :: string
  np_localAt :: string
  np_policy :: payout_policy_setting

definition nextCustomerPayoutAt :: "services \<Rightarrow> instant \<Rightarrow> store \<Rightarrow> next_payout" where
  "nextCustomerPayoutAt V reference s =
     (let p = payoutPolicy (sv_env V) s; t = next_run (sv_zones V) p reference
      in \<lparr>np_at = toISOString t, np_localAt = zl_toISO (sv_zones V) (pp_timezone p) t, np_policy = p\<rparr>)"

section \<open>Scheduled runs\<close>

definition claim_slot_body :: "string \<Rightarrow> string \<Rightarrow> store \<Rightarrow> (store \<times> bool) result" where
  "claim_slot_body key slot s =
     (if find_setting key s = Some (SlotValue slot) then Inr (s, False)
      else Inr (upsert_setting key (SlotValue slot) s, True))"

definition claimSlot :: "string \<Rightarrow> string \<Rightarrow> store \<Rightarrow> store \<times> bool result" where
  "claimSlot key slot = transaction (claim_slot_body key slot)"

record claim =
  clm_run :: bool
  clm_weekday :: int

definition daily_slot :: "zone_lib \<Rightarrow> payout_policy_setting \<Rightarrow> instant \<Rightarrow> string option" where
  "daily_slot Z p now =
     (case zl_isoDate Z (pp_timezone p) now of
        None \<Rightarrow> None
      | Some day \<Rightarrow> if now < due_today Z p now then None
                    else Some (''daily:'' @ pp_timezone p @ '':'' @ day))"

definition interval_slot :: "payout_policy_setting \<Rightarrow> instant \<Rightarrow> string" where
  "interval_slot p now =
     ''interval:'' @ show_int (pp_intervalMinutes p) @ '':'' @ show_int (pp_minuteOffset p) @ '':'' @
       show_int ((now - offset_ms p) div interval_ms p)"

definition claim_with :: "services \<Rightarrow> payout_policy_setting \<Rightarrow> instant \<Rightarrow> string \<Rightarrow> string option \<Rightarrow> store \<Rightarrow> store \<times> claim result" where
  "claim_with V p now key slot s =
     (let weekday = zl_weekday (sv_zones V) (pp_timezone p) now in
      if \<not> zl_valid (sv_zones V) (pp_timezone p) then (s, Inr \<lparr>clm_run = False, clm_weekday = weekday\<rparr>)
      else (case slot of
              None \<Rightarrow> (s, Inr \<lparr>clm_run = False, clm_weekday = weekday\<rparr>)
            | Some x \<Rightarrow> andThen (claimSlot key x s) (\<lambda>run t. (t, Inr \<lparr>clm_run = run, clm_weekday = weekday\<rparr>))))"

definition claimScheduledRun :: "services \<Rightarrow> instant \<Rightarrow> store \<Rightarrow> store \<times> claim result" where
  "claimScheduledRun V now s =
     (let p = payoutPolicy (sv_env V) s
      in claim_with V p now ''payout.schedule.lastRunSlot''
           (if pp_mode p = PayoutScheduleMode.DAILY then daily_slot (sv_zones V) p now
            else Some (interval_slot p now)) s)"

definition claimOperatorScheduledRun :: "services \<Rightarrow> instant \<Rightarrow> store \<Rightarrow> store \<times> claim result" where
  "claimOperatorScheduledRun V now s =
     (let p = payoutPolicy (sv_env V) s
      in claim_with V p now ''operator.payout.schedule.lastRunSlot'' (daily_slot (sv_zones V) p now) s)"

section \<open>The operator's payout\<close>

record operator_dto =
  od_asset :: AssetCode
  od_mode :: OperatorPayoutMode
  od_address :: "string option"
  od_minPayoutAtomic :: "string option"
  od_weekday :: "int option"

definition valid_operator_dto :: "operator_dto \<Rightarrow> bool" where
  "valid_operator_dto d \<longleftrightarrow>
     pred_option (\<lambda>a. length a \<le> 256) (od_address d) \<and> pred_option matches_digits (od_minPayoutAtomic d) \<and>
     pred_option (\<lambda>w. 1 \<le> w \<and> w \<le> 7) (od_weekday d)"

definition pending_key :: "AssetCode \<Rightarrow> string" where
  "pending_key asset = ''operator.payout.pending.'' @ show_asset asset"

definition active_key :: "AssetCode \<Rightarrow> string" where
  "active_key asset = ''operator.payout.active.'' @ show_asset asset"

definition operator_setting :: "string \<Rightarrow> store \<Rightarrow> operator_payout_setting option" where
  "operator_setting key s = (case find_setting key s of Some (OperatorValue v) \<Rightarrow> Some v | _ \<Rightarrow> None)"

fun operator_mode_text :: "OperatorPayoutMode \<Rightarrow> string" where
  "operator_mode_text RETAIN = ''RETAIN''"
| "operator_mode_text OperatorPayoutMode.DAILY = ''DAILY''"
| "operator_mode_text WEEKLY = ''WEEKLY''"
| "operator_mode_text MANUAL = ''MANUAL''"

definition operator_json :: "operator_payout_setting \<Rightarrow> json" where
  "operator_json v =
     JObj [(''asset'', JStr (show_asset (os_asset v))), (''mode'', JStr (operator_mode_text (os_mode v))),
       (''address'', JStr (os_address v)), (''minPayoutAtomic'', JStr (show_int (os_minPayoutAtomic v))),
       (''weekday'', JNum (show_int (os_weekday v))), (''effectiveAt'', JStr (toISOString (os_effectiveAt v)))]"

definition operator_of_dto :: "environment \<Rightarrow> instant \<Rightarrow> operator_dto \<Rightarrow> string \<Rightarrow> operator_payout_setting" where
  "operator_of_dto env now d address =
     \<lparr>os_asset = od_asset d, os_mode = od_mode d, os_address = address,
      os_minPayoutAtomic = (case od_minPayoutAtomic d of Some t \<Rightarrow> bigint_of t
        | None \<Rightarrow> cw_min_payout_atomic (wallet_setting env (od_asset d))),
      os_weekday = orElse (od_weekday d) 1, os_effectiveAt = now + 24 * 60 * 60000\<rparr>"

definition check_operator_address :: "services \<Rightarrow> operator_dto \<Rightarrow> string \<Rightarrow> unit result" where
  "check_operator_address V d address =
     (if od_mode d = RETAIN then Inr ()
      else if address = [] then Inl (BadRequestException ''Operator payout address is required'')
      else ebind (wa_validateAddress (forAsset (sv_wallets V) (od_asset d)) address) (\<lambda>ok.
             guard_or ok (BadRequestException ''Invalid operator payout address for selected asset'')))"

definition updateOperatorPayout ::
  "services \<Rightarrow> instant \<Rightarrow> operator_dto \<Rightarrow> uuid \<Rightarrow> store \<Rightarrow> store \<times> operator_payout_setting result" where
  "updateOperatorPayout V now dto actor s =
     (let address = trim (orElse (od_address dto) []) in
      case check_operator_address V dto address of
        Inl e \<Rightarrow> (s, Inl e)
      | Inr _ \<Rightarrow>
          (let v = operator_of_dto (sv_env V) now dto address;
               s1 = upsert_setting (pending_key (od_asset dto)) (OperatorValue v) s
           in andThen (audit V now \<lparr>au_actorId = Some actor, au_action = ''OPERATOR_PAYOUT_SETTING_PENDING'',
                  au_entityType = ''SystemSetting'', au_entityId = Some (''operator.payout.'' @ show_asset (od_asset dto)),
                  au_ipAddress = None, au_before = None, au_after = Some (operator_json v)\<rparr> s1)
                (\<lambda>_ t. (raise_alert now
                    \<lparr>ai_dedupeKey = ''operator-payout-destination:'' @ show_asset (od_asset dto),
                     ai_severity = WARNING,
                     ai_title = show_asset (od_asset dto) @ '' operator payout setting is pending'',
                     ai_message = ''The operator payout change is cooling until '' @ toISOString (os_effectiveAt v)\<rparr> t,
                   Inr v))))"

definition activate_due :: "instant \<Rightarrow> AssetCode \<Rightarrow> store \<Rightarrow> store" where
  "activate_due now asset s =
     (case operator_setting (pending_key asset) s of
        None \<Rightarrow> s
      | Some pending \<Rightarrow>
          if os_effectiveAt pending > now then s
          else resolveByDedupe now (''operator-payout-destination:'' @ show_asset asset)
                 (delete_setting (pending_key asset)
                    (upsert_setting (active_key asset) (OperatorValue pending) s)))"

definition activateDueOperatorPayouts :: "instant \<Rightarrow> store \<Rightarrow> store" where
  "activateDueOperatorPayouts now s = fold (activate_due now) [BTC, XMR] s"

definition default_operator_payout :: "environment \<Rightarrow> AssetCode \<Rightarrow> operator_payout_setting" where
  "default_operator_payout env asset =
     \<lparr>os_asset = asset, os_mode = RETAIN, os_address = [],
      os_minPayoutAtomic = cw_min_payout_atomic (wallet_setting env asset), os_weekday = 1, os_effectiveAt = 0\<rparr>"

definition operatorPayout :: "environment \<Rightarrow> instant \<Rightarrow> AssetCode \<Rightarrow> store \<Rightarrow> store \<times> operator_payout_setting" where
  "operatorPayout env now asset s =
     (let t = activateDueOperatorPayouts now s
      in (t, orElse (operator_setting (active_key asset) t) (default_operator_payout env asset)))"

lemma record_event_frame: "record_event C loc now input s = (t, r) \<Longrightarrow> logged_only s t"
  using record_event_only [of s C loc now input] by simp

lemma andThen_audit:
  "audit_value input \<Longrightarrow> snd (andThen (audit V now input s) (\<lambda>_ t. (g t, Inr v))) = Inr v"
proof -
  assume "audit_value input"
  then obtain t where "record_event (sv_crypto V) (sv_loc V) now input s = (t, Inr ())"
    by (rule record_event_total)
  then show ?thesis by (simp add: audit_def)
qed

lemma andThen_audit_logged:
  assumes "\<And>t. logged_only t (g t)"
  shows "logged_only s (fst (andThen (audit V now input s) (\<lambda>_ t. (g t, r t))))"
proof -
  obtain t x where t: "audit V now input s = (t, x)" by fastforce
  then have "logged_only s t" using record_event_frame by (simp add: audit_def)
  with t show ?thesis using assms logged_only_trans by (cases x) auto
qed

section \<open>Lookups after updates\<close>

lemma map_of_overwrite:
  "map_of (map (\<lambda>(k, old). (k, if k = key then v else old)) xs) j =
     (if j = key then map_option (\<lambda>_. v) (map_of xs j) else map_of xs j)"
  by (induction xs) auto

lemma find_upsert [simp]:
  "find_setting j (upsert_setting key v s) = (if j = key then Some v else find_setting j s)"
  by (auto simp: find_setting_def upsert_setting_def map_of_overwrite map_add_def split: option.splits)

lemma find_delete [simp]:
  "find_setting j (delete_setting key s) = (if j = key then None else find_setting j s)"
proof -
  have "map_of (filter (\<lambda>(k, v). k \<noteq> key) xs) j = (if j = key then None else map_of xs j)" for xs :: "(string \<times> setting_value) list"
    by (induction xs) auto
  then show ?thesis by (simp add: find_setting_def delete_setting_def)
qed

lemma find_logged: "logged_only s t \<Longrightarrow> find_setting j t = find_setting j s"
  by (simp add: find_setting_def logged_only_tables)

lemma payoutPolicy_cong:
  "find_setting ''payout.schedule'' t = find_setting ''payout.schedule'' s \<Longrightarrow> payoutPolicy env t = payoutPolicy env s"
  by (simp add: payoutPolicy_def stored_def)

lemma payoutPolicy_store:
  "payoutPolicy env (upsert_setting ''payout.schedule'' (PolicyValue (store_policy p)) s) = p"
  by (simp add: payoutPolicy_def stored_def store_policy_def orElse_def)

lemma operator_keys [simp]:
  "pending_key A = pending_key B \<longleftrightarrow> A = B" "active_key A = active_key B \<longleftrightarrow> A = B"
  "pending_key A \<noteq> active_key B" "active_key A \<noteq> pending_key B"
  "pending_key A \<noteq> ''payout.schedule''" "active_key A \<noteq> ''payout.schedule''"
  by (cases A; cases B; simp add: pending_key_def active_key_def)+

section \<open>Slots\<close>

definition slot_of :: "zone_lib \<Rightarrow> payout_policy_setting \<Rightarrow> instant \<Rightarrow> string option" where
  "slot_of Z p now = (if pp_mode p = PayoutScheduleMode.DAILY then daily_slot Z p now else Some (interval_slot p now))"

lemma claim_with_eq:
  "zl_valid (sv_zones V) (pp_timezone p) \<Longrightarrow> claim_with V p now key (Some x) s =
     (if find_setting key s = Some (SlotValue x) then s else upsert_setting key (SlotValue x) s,
      Inr \<lparr>clm_run = (find_setting key s \<noteq> Some (SlotValue x)),
           clm_weekday = zl_weekday (sv_zones V) (pp_timezone p) now\<rparr>)"
  by (simp add: claim_with_def claimSlot_def transaction_def claim_slot_body_def)

lemma claim_after_claim:
  assumes "claimScheduledRun V now s = (t, Inr c)" and "zl_valid (sv_zones V) (pp_timezone p)"
    and "p = payoutPolicy (sv_env V) s" and "slot_of (sv_zones V) p now = Some x"
  shows "payoutPolicy (sv_env V) t = p \<and> find_setting ''payout.schedule.lastRunSlot'' t = Some (SlotValue x)"
proof -
  have "claim_with V p now ''payout.schedule.lastRunSlot'' (Some x) s = (t, Inr c)"
    using assms(1,3,4) by (simp add: claimScheduledRun_def slot_of_def Let_def)
  then have "t = (if find_setting ''payout.schedule.lastRunSlot'' s = Some (SlotValue x) then s
      else upsert_setting ''payout.schedule.lastRunSlot'' (SlotValue x) s)"
    by (simp add: claim_with_eq [OF assms(2)])
  then show ?thesis by (auto simp: assms(3) intro!: payoutPolicy_cong split: if_splits)
qed

lemma claim_again:
  assumes "zl_valid (sv_zones V) (pp_timezone p)" and "payoutPolicy (sv_env V) t = p"
    and "find_setting ''payout.schedule.lastRunSlot'' t = Some (SlotValue x)"
  shows "map_sum id clm_run (snd (claimScheduledRun V now t)) =
    Inr (slot_of (sv_zones V) p now \<noteq> None \<and> slot_of (sv_zones V) p now \<noteq> Some x)"
proof (cases "slot_of (sv_zones V) p now")
  case None
  then show ?thesis using assms by (simp add: claimScheduledRun_def slot_of_def Let_def claim_with_def split: if_splits)
next
  case (Some y)
  then have "claimScheduledRun V now t = claim_with V p now ''payout.schedule.lastRunSlot'' (Some y) t"
    using assms(2) by (simp add: claimScheduledRun_def slot_of_def Let_def)
  then show ?thesis using Some assms by (auto simp: claim_with_eq)
qed

lemma floor_step:
  fixes x d :: int assumes "0 < d"
  shows "x < (x div d + 1) * d" "(x div d + 1) * d \<le> x + d"
    "x \<le> y \<Longrightarrow> y < (x div d + 1) * d \<Longrightarrow> y div d = x div d"
proof -
  let ?q = "d * (x div d)"
  have m: "0 \<le> x mod d" "x mod d < d" using assms by simp_all
  have eq: "?q + x mod d = x" by simp
  have n: "(x div d + 1) * d = ?q + d" by (simp add: algebra_simps)
  show "x < (x div d + 1) * d" "(x div d + 1) * d \<le> x + d" unfolding n using m eq by linarith+
  assume y: "x \<le> y" "y < (x div d + 1) * d"
  then have b: "0 \<le> y - ?q" "y - ?q < d" unfolding n using m eq by linarith+
  then show "y div d = x div d" using int_div_pos_eq [of y d "x div d" "y - ?q"] by simp
qed

lemma next_interval:
  assumes "pp_mode p = PayoutScheduleMode.INTERVAL" and "0 < pp_intervalMinutes p"
  shows "now < next_run Z p now" "next_run Z p now \<le> now + interval_ms p"
    "now \<le> t \<Longrightarrow> t < next_run Z p now \<Longrightarrow> slot_of Z p t = slot_of Z p now"
    "slot_of Z p (next_run Z p now) \<noteq> slot_of Z p now"
proof -
  have d: "0 < interval_ms p" using assms(2) by (simp add: interval_ms_def)
  let ?x = "now - offset_ms p"
  have n: "next_run Z p now = (?x div interval_ms p + 1) * interval_ms p + offset_ms p"
    using assms(1) by (simp add: next_run_def Let_def)
  note f = floor_step [OF d, of ?x]
  show "now < next_run Z p now" "next_run Z p now \<le> now + interval_ms p" using f(1,2) by (simp_all add: n)
  show "slot_of Z p t = slot_of Z p now" if "now \<le> t" "t < next_run Z p now"
    using f(3) [of "t - offset_ms p"] that assms(1) by (simp add: n slot_of_def interval_slot_def)
  show "slot_of Z p (next_run Z p now) \<noteq> slot_of Z p now"
    using assms(1) d by (simp add: n slot_of_def interval_slot_def)
qed

section \<open>Activation\<close>

lemma operator_setting_cong: "find_setting key t = find_setting key s \<Longrightarrow> operator_setting key t = operator_setting key s"
  by (simp add: operator_setting_def)

lemma activate_due_setting:
  "operator_setting (active_key asset) (activate_due now A s) =
     (case operator_setting (pending_key asset) s of
        Some v \<Rightarrow> if A = asset \<and> os_effectiveAt v \<le> now then Some v else operator_setting (active_key asset) s
      | None \<Rightarrow> operator_setting (active_key asset) s)"
  "A \<noteq> asset \<Longrightarrow> operator_setting (pending_key asset) (activate_due now A s) = operator_setting (pending_key asset) s"
  by (auto simp: activate_due_def operator_setting_def find_logged [OF resolve_logged] split: option.splits setting_value.splits)

lemma activateDue_setting:
  "operator_setting (active_key asset) (activateDueOperatorPayouts now s) =
     (case operator_setting (pending_key asset) s of
        Some v \<Rightarrow> if os_effectiveAt v \<le> now then Some v else operator_setting (active_key asset) s
      | None \<Rightarrow> operator_setting (active_key asset) s)"
  by (cases asset) (auto simp: activateDueOperatorPayouts_def activate_due_setting split: option.splits)

lemma update_operator_settings:
  assumes "updateOperatorPayout V now dto actor s = (t, Inr v)"
  shows "operator_setting (pending_key (od_asset dto)) t = Some v"
    "operator_setting (active_key (od_asset dto)) t = operator_setting (active_key (od_asset dto)) s"
    "v = operator_of_dto (sv_env V) now dto (trim (orElse (od_address dto) []))"
    "check_operator_address V dto (os_address v) = Inr ()"
proof -
  let ?s1 = "upsert_setting (pending_key (od_asset dto)) (OperatorValue v) s"
  from assms obtain u inp where v: "v = operator_of_dto (sv_env V) now dto (trim (orElse (od_address dto) []))"
    and c: "check_operator_address V dto (trim (orElse (od_address dto) [])) = Inr ()"
    and u: "logged_only ?s1 u" and t: "t = raise_alert now inp u"
    unfolding updateOperatorPayout_def Let_def
    by (auto simp: andThen_eq_Inr audit_def split: sum.splits dest!: record_event_frame)
  have f: "find_setting k t = find_setting k ?s1" for k
    unfolding t by (simp add: find_logged [OF raise_logged] find_logged [OF u])
  show "operator_setting (pending_key (od_asset dto)) t = Some v"
    "operator_setting (active_key (od_asset dto)) t = operator_setting (active_key (od_asset dto)) s"
    by (simp_all add: operator_setting_def f)
  show "v = operator_of_dto (sv_env V) now dto (trim (orElse (od_address dto) []))" by (rule v)
  show "check_operator_address V dto (os_address v) = Inr ()" using c v by (simp add: operator_of_dto_def)
qed

section \<open>Main properties\<close>

text \<open>C38: A scheduled run happens once per slot.  With an interval policy the next run is later than now
  and at most one interval away; after a claim, no claim before that time runs again and a claim at
  that time does.  With a daily policy no second claim of the same local day runs.\<close>

theorem scheduled_once_per_slot:
  assumes "claimScheduledRun V now s = (t, Inr c)" and "zl_valid (sv_zones V) (pp_timezone p)"
    and "p = payoutPolicy (sv_env V) s" and "slot_of (sv_zones V) p now = Some x"
  shows "(pp_mode p = PayoutScheduleMode.INTERVAL \<and> 0 < pp_intervalMinutes p \<longrightarrow>
      (let next = next_run (sv_zones V) p now in
        now < next \<and> next \<le> now + interval_ms p \<and>
        (\<forall>u. now \<le> u \<and> u < next \<longrightarrow> map_sum id clm_run (snd (claimScheduledRun V u t)) = Inr False) \<and>
        map_sum id clm_run (snd (claimScheduledRun V next t)) = Inr True)) \<and>
    (pp_mode p = PayoutScheduleMode.DAILY \<longrightarrow>
      (\<forall>u. zl_isoDate (sv_zones V) (pp_timezone p) u = zl_isoDate (sv_zones V) (pp_timezone p) now \<longrightarrow>
         map_sum id clm_run (snd (claimScheduledRun V u t)) = Inr False))"
proof -
  note pt = claim_after_claim [OF assms]
  have again: "map_sum id clm_run (snd (claimScheduledRun V u t)) =
      Inr (slot_of (sv_zones V) p u \<noteq> None \<and> slot_of (sv_zones V) p u \<noteq> Some x)" for u
    using pt by (intro claim_again [OF assms(2)]) simp_all
  have daily: "slot_of (sv_zones V) p u = None \<or> slot_of (sv_zones V) p u = Some x"
    if "pp_mode p = PayoutScheduleMode.DAILY"
      "zl_isoDate (sv_zones V) (pp_timezone p) u = zl_isoDate (sv_zones V) (pp_timezone p) now" for u
    using that assms(4) by (auto simp: slot_of_def daily_slot_def split: option.splits if_splits)
  have some: "slot_of (sv_zones V) p u \<noteq> None" if "pp_mode p = PayoutScheduleMode.INTERVAL" for u
    using that by (simp add: slot_of_def)
  show ?thesis
  proof (intro conjI impI)
    assume "pp_mode p = PayoutScheduleMode.INTERVAL \<and> 0 < pp_intervalMinutes p"
    then have i: "pp_mode p = PayoutScheduleMode.INTERVAL" "0 < pp_intervalMinutes p" by simp_all
    show "let next = next_run (sv_zones V) p now in
        now < next \<and> next \<le> now + interval_ms p \<and>
        (\<forall>u. now \<le> u \<and> u < next \<longrightarrow> map_sum id clm_run (snd (claimScheduledRun V u t)) = Inr False) \<and>
        map_sum id clm_run (snd (claimScheduledRun V next t)) = Inr True"
      using next_interval [OF i] assms(4) some [OF i(1)] by (simp add: again Let_def) metis
  qed (simp add: again daily)
qed

definition utc_zones :: zone_lib where
  "utc_zones =
     \<lparr>zl_valid = (\<lambda>z. z \<noteq> []), zl_startOfDay = (\<lambda>_ t. t - t mod 86400000),
      zl_set = (\<lambda>_ t h m. t + int h * 3600000 + int m * 60000), zl_plusDay = (\<lambda>_ t. t + 86400000),
      zl_isoDate = (\<lambda>_ t. Some (take 10 (toISOString t))), zl_weekday = (\<lambda>_ t. (t div 86400000 + 3) mod 7 + 1),
      zl_toISO = (\<lambda>_ t. toISOString t)\<rparr>"

definition example_services :: services where
  "example_services =
     \<lparr>sv_env = example_env, sv_crypto = example_crypto, sv_loc = (\<lambda>t. of_nat (collation t)), sv_zones = utc_zones,
      sv_wallets = \<lparr>bitcoin = monero_adapter decimal_exact example_env example_monero,
                    monero = monero_adapter decimal_exact example_env example_monero\<rparr>,
      sv_hmac_sha1 = (\<lambda>key m. take 20 (m @ key @ replicate 20 CHR ''x''))\<rparr>"

text \<open>A change of the operator's payout cools for 24 hours.  An accepted change has a validated
  address unless the revenue is retained; for the next 24 hours the setting in force stays the old
  one, and from then on it is the new one.\<close>

theorem operator_change_cools:
  assumes "updateOperatorPayout V now dto actor s = (t, Inr v)"
  shows "(od_mode dto \<noteq> RETAIN \<longrightarrow> os_address v \<noteq> [] \<and>
       wa_validateAddress (forAsset (sv_wallets V) (od_asset dto)) (os_address v) = Inr True) \<and>
    (\<forall>u < now + 86400000. snd (operatorPayout env u (od_asset dto) t) =
       orElse (operator_setting (active_key (od_asset dto)) s) (default_operator_payout env (od_asset dto))) \<and>
    (\<forall>u \<ge> now + 86400000. snd (operatorPayout env u (od_asset dto) t) = v)"
proof -
  note st = update_operator_settings [OF assms]
  have e: "os_effectiveAt v = now + 86400000" using st(3) by (simp add: operator_of_dto_def)
  show ?thesis
    using st(1,2,4) e
    by (auto simp: operatorPayout_def Let_def activateDue_setting check_operator_address_def ebind_eq_Inr orElse_def
        split: if_splits)
qed

definition example_operator_dto :: operator_dto where
  "example_operator_dto =
     \<lparr>od_asset = XMR, od_mode = OperatorPayoutMode.DAILY, od_address = Some '' addr '', od_minPayoutAtomic = None,
      od_weekday = None\<rparr>"

theorem operator_change_cools_witness:
  "let t = fst (updateOperatorPayout example_services 0 example_operator_dto ''a1'' (empty_store show_nat)) in
   os_mode (snd (operatorPayout example_env 86399999 XMR t)) = RETAIN \<and>
   os_address (snd (operatorPayout example_env 86400000 XMR t)) = ''addr''"
proof -
  let ?v = "operator_of_dto example_env 0 example_operator_dto ''addr''"
  have tr: "trim (orElse (od_address example_operator_dto) []) = ''addr''" by code_simp
  have c: "check_operator_address example_services example_operator_dto ''addr'' = Inr ()"
    by (simp add: check_operator_address_def example_operator_dto_def example_services_def monero_adapter_def
        example_monero_def)
  have "snd (updateOperatorPayout example_services 0 example_operator_dto ''a1'' (empty_store show_nat)) = Inr ?v"
    unfolding updateOperatorPayout_def tr c Let_def sum.case
    by (subst andThen_audit) (simp_all add: audit_value_def operator_json_def example_services_def)
  then obtain t where t: "updateOperatorPayout example_services 0 example_operator_dto ''a1'' (empty_store show_nat) = (t, Inr ?v)"
    by (metis prod.collapse)
  show ?thesis
    using operator_change_cools [OF t, of example_env] t
    by (simp add: example_operator_dto_def operator_of_dto_def orElse_def default_operator_payout_def
        operator_setting_def find_setting_def empty_store_def)
qed

definition hourly_policy :: payout_policy_setting where
  "hourly_policy =
     \<lparr>pp_mode = PayoutScheduleMode.INTERVAL, pp_intervalMinutes = 60, pp_minuteOffset = 5, pp_dailyTime = ''00:15'',
      pp_timezone = ''UTC'', pp_feePayer = NetworkFeePayer.OPERATOR, pp_maxFeeBps = 200, pp_maxBatchItems = 500,
      pp_minimumAtomic = (\<lambda>_. 10), pp_dailyAutoLimitAtomic = (\<lambda>_. 1000)\<rparr>"

definition hourly_store :: store where
  "hourly_store = upsert_setting ''payout.schedule'' (PolicyValue (store_policy hourly_policy)) (empty_store show_nat)"

theorem scheduled_once_per_slot_witness:
  "map_sum id clm_run (snd (claimScheduledRun example_services 400000
      (fst (claimScheduledRun example_services 300000 hourly_store)))) = Inr False \<and>
   map_sum id clm_run (snd (claimScheduledRun example_services 3900000
      (fst (claimScheduledRun example_services 300000 hourly_store)))) = Inr True"
proof -
  let ?V = example_services
  have p: "payoutPolicy (sv_env ?V) hourly_store = hourly_policy" by (simp add: hourly_store_def payoutPolicy_store)
  have v: "zl_valid (sv_zones ?V) (pp_timezone hourly_policy)"
    by (simp add: example_services_def utc_zones_def hourly_policy_def)
  have sl: "slot_of (sv_zones ?V) hourly_policy 300000 = Some (interval_slot hourly_policy 300000)"
    by (simp add: slot_of_def hourly_policy_def)
  obtain t c where t: "claimScheduledRun ?V 300000 hourly_store = (t, Inr c)"
    using claim_with_eq [OF v] by (simp add: claimScheduledRun_def p Let_def) (simp add: hourly_policy_def)
  have n: "next_run (sv_zones ?V) hourly_policy 300000 = 3900000"
    by (simp add: next_run_def hourly_policy_def Let_def interval_ms_def offset_ms_def)
  show ?thesis
    using scheduled_once_per_slot [OF t v p [symmetric] sl] n t by (simp add: Let_def) (simp add: hourly_policy_def)
qed

end
