(* ===== verification/IpRules.thy ===== *)
theory IpRules
  imports Json "HOL-Library.Word"
begin

text \<open>
  The address rules of \<open>apps/server/src/common/ip-rules.ts\<close>.  An IPv4 address is a word of 32 bits and
  an IPv6 address one of 128, \<open>isIP\<close> is the parser of their texts, and a rule of the block list matches
  when the leading bits of the network agree.  A zone index of an IPv6 address is accepted and not
  compared.  \<open>Number\<close> reads a text exactly; rounding to double precision is left out.
\<close>

unbundle bit_operations_syntax

section \<open>Texts of addresses\<close>

definition octet :: "string \<Rightarrow> nat option" where
  "octet t = (if all_digits t \<and> (length t = 1 \<or> hd t \<noteq> CHR ''0'') \<and> read_nat t \<le> 255 then Some (read_nat t) else None)"

fun all_some :: "'a option list \<Rightarrow> 'a list option" where
  "all_some [] = Some []"
| "all_some (x # xs) = (case (x, all_some xs) of (Some v, Some vs) \<Rightarrow> Some (v # vs) | _ \<Rightarrow> None)"

definition from_digits :: "nat \<Rightarrow> nat list \<Rightarrow> nat" where
  "from_digits b ds = foldl (\<lambda>n d. b * n + d) 0 ds"

definition parse_ipv4 :: "string \<Rightarrow> 32 word option" where
  "parse_ipv4 t =
     (case all_some (map octet (split_on CHR ''.'' t)) of
        Some ds \<Rightarrow> if length ds = 4 then Some (of_nat (from_digits 256 ds)) else None
      | None \<Rightarrow> None)"

definition hextet :: "string \<Rightarrow> nat option" where
  "hextet t =
     (if t = [] \<or> length t > 4 then None
      else map_option (from_digits 16) (all_some (map hex_value t)))"

text \<open>The groups of a part of an IPv6 text; its last piece may be an IPv4 address.\<close>

definition ipv6_groups :: "bool \<Rightarrow> string \<Rightarrow> nat list option" where
  "ipv6_groups final t =
     (if t = [] then Some []
      else (let pieces = split_on CHR '':'' t; tail = last pieces in
            case (if final then parse_ipv4 tail else None) of
              Some a \<Rightarrow> map_option (\<lambda>gs. gs @ [unat (drop_bit 16 a), unat (a AND mask 16)])
                          (all_some (map hextet (butlast pieces)))
            | None \<Rightarrow> all_some (map hextet pieces)))"

fun cut_double_colon :: "string \<Rightarrow> (string \<times> string) option" where
  "cut_double_colon (CHR '':'' # CHR '':'' # r) = Some ([], r)"
| "cut_double_colon (c # r) = map_option (\<lambda>(l, q). (c # l, q)) (cut_double_colon r)"
| "cut_double_colon [] = None"

definition strip_zone :: "string \<Rightarrow> string option" where
  "strip_zone t =
     (case index_of CHR ''%'' t of
        None \<Rightarrow> Some t
      | Some i \<Rightarrow>
          (let zone = drop (Suc i) t in
           if zone \<noteq> [] \<and> list_all (\<lambda>c. is_digit c \<or>
                 (97 \<le> (of_char (lower_char c) :: nat) \<and> (of_char (lower_char c) :: nat) \<le> 122) \<or>
                 c \<in> {CHR ''-'', CHR ''.'', CHR '':''}) zone
           then Some (take i t) else None))"

definition parse_ipv6 :: "string \<Rightarrow> 128 word option" where
  "parse_ipv6 text =
     (case strip_zone text of
        None \<Rightarrow> None
      | Some t \<Rightarrow>
          (case cut_double_colon t of
             None \<Rightarrow>
               (case ipv6_groups True t of
                  Some gs \<Rightarrow> if length gs = 8 then Some (of_nat (from_digits 65536 gs)) else None
                | None \<Rightarrow> None)
           | Some (l, r) \<Rightarrow>
               (case (ipv6_groups False l, ipv6_groups True r) of
                  (Some gs, Some hs) \<Rightarrow>
                    if length gs + length hs \<le> 7
                    then Some (of_nat (from_digits 65536 (gs @ replicate (8 - length gs - length hs) 0 @ hs)))
                    else None
                | _ \<Rightarrow> None)))"

datatype ip_address = IPv4 "32 word" | IPv6 "128 word"

definition isIP :: "string \<Rightarrow> ip_address option" where
  "isIP t =
     (case parse_ipv4 t of Some a \<Rightarrow> Some (IPv4 a) | None \<Rightarrow> map_option IPv6 (parse_ipv6 t))"

section \<open>Numbers\<close>

definition read_based :: "nat \<Rightarrow> string \<Rightarrow> int option" where
  "read_based b t =
     (case all_some (map hex_value t) of
        Some ds \<Rightarrow> if ds \<noteq> [] \<and> list_all (\<lambda>d. d < b) ds then Some (int (from_digits b ds)) else None
      | None \<Rightarrow> None)"

definition exponent :: "string \<Rightarrow> int option" where
  "exponent t =
     (case t of
        [] \<Rightarrow> Some 0
      | e # r \<Rightarrow>
          if e \<noteq> CHR ''e'' \<and> e \<noteq> CHR ''E'' then None
          else (case r of
                  [] \<Rightarrow> None
                | c # q \<Rightarrow> if c = CHR ''-'' then (if all_digits q then Some (- int (read_nat q)) else None)
                    else if c = CHR ''+'' then (if all_digits q then Some (int (read_nat q)) else None)
                    else if all_digits r then Some (int (read_nat r)) else None))"

definition scaled :: "nat \<Rightarrow> int \<Rightarrow> int option" where
  "scaled m e =
     (if 0 \<le> e then Some (int m * 10 ^ nat e)
      else if m mod 10 ^ nat (- e) = 0 then Some (int (m div 10 ^ nat (- e))) else None)"

definition read_decimal :: "string \<Rightarrow> int option" where
  "read_decimal t =
     (let ip = takeWhile is_digit t; r = dropWhile is_digit t;
          (fp, q) = (case r of [] \<Rightarrow> ([], [])
             | c # r' \<Rightarrow> if c = CHR ''.'' then (takeWhile is_digit r', dropWhile is_digit r') else ([], r))
      in if ip = [] \<and> fp = [] then None
         else Option.bind (exponent q) (\<lambda>e. scaled (read_nat (ip @ fp)) (e - int (length fp))))"

text \<open>\<open>Number(text)\<close> when the result is an integer.\<close>

definition number_integer :: "string \<Rightarrow> int option" where
  "number_integer text =
     (let t = trim text in
      case t of
        [] \<Rightarrow> Some 0
      | c # r \<Rightarrow>
          if c = CHR ''0'' \<and> r \<noteq> [] \<and> lower_char (hd r) = CHR ''x'' then read_based 16 (tl r)
          else if c = CHR ''0'' \<and> r \<noteq> [] \<and> lower_char (hd r) = CHR ''o'' then read_based 8 (tl r)
          else if c = CHR ''0'' \<and> r \<noteq> [] \<and> lower_char (hd r) = CHR ''b'' then read_based 2 (tl r)
          else if c = CHR ''-'' then map_option uminus (read_decimal r)
          else if c = CHR ''+'' then read_decimal r
          else read_decimal t)"

section \<open>Rules\<close>

record ip_rule =
  ru_address :: ip_address
  ru_prefix :: "nat option"

definition address_bits :: "ip_address \<Rightarrow> nat" where
  "address_bits a = (case a of IPv4 _ \<Rightarrow> 32 | IPv6 _ \<Rightarrow> 128)"

text \<open>The text before and after the last slash.\<close>

definition cut_last_slash :: "string \<Rightarrow> (string \<times> string) option" where
  "cut_last_slash t =
     (case index_of CHR ''/'' (rev t) of
        None \<Rightarrow> None
      | Some i \<Rightarrow> Some (take (length t - Suc i) t, drop (length t - i) t))"

definition parsedRule :: "string \<Rightarrow> ip_rule option" where
  "parsedRule rule =
     (let normalized = trim rule in
      case cut_last_slash normalized of
        None \<Rightarrow> map_option (\<lambda>a. \<lparr>ru_address = a, ru_prefix = None\<rparr>) (isIP normalized)
      | Some (address, len) \<Rightarrow>
          (case isIP address of
             None \<Rightarrow> None
           | Some a \<Rightarrow>
               (case number_integer len of
                  None \<Rightarrow> None
                | Some p \<Rightarrow> if p < 0 \<or> p > int (address_bits a) then None
                    else Some \<lparr>ru_address = a, ru_prefix = Some (nat p)\<rparr>)))"

definition isValidIpRule :: "string \<Rightarrow> bool" where
  "isValidIpRule rule \<longleftrightarrow> parsedRule rule \<noteq> None"

text \<open>The block list: a network matches the addresses with the same bits under its mask.\<close>

definition net_mask :: "nat \<Rightarrow> 'a::len word" where
  "net_mask p = push_bit (LENGTH('a) - p) (mask p)"

definition in_network :: "nat \<Rightarrow> 'a::len word \<Rightarrow> 'a word \<Rightarrow> bool" where
  "in_network p net a \<longleftrightarrow> a AND net_mask p = net AND net_mask p"

definition rule_matches :: "ip_rule \<Rightarrow> ip_address \<Rightarrow> bool" where
  "rule_matches r ip =
     (case (ru_address r, ip) of
        (IPv4 net, IPv4 a) \<Rightarrow> (case ru_prefix r of None \<Rightarrow> a = net | Some p \<Rightarrow> in_network p net a)
      | (IPv6 net, IPv6 a) \<Rightarrow> (case ru_prefix r of None \<Rightarrow> a = net | Some p \<Rightarrow> in_network p net a)
      | _ \<Rightarrow> False)"

definition strip_mapped :: "string \<Rightarrow> string" where
  "strip_mapped t = (if startsWith t ''::ffff:'' then drop 7 t else t)"

definition ipAllowed :: "string \<Rightarrow> string list \<Rightarrow> bool" where
  "ipAllowed remoteIp rules =
     (if rules = [] then True
      else (case isIP (strip_mapped remoteIp) of
              None \<Rightarrow> False
            | Some ip \<Rightarrow> list_ex (\<lambda>rule. case parsedRule rule of None \<Rightarrow> False | Some r \<Rightarrow> rule_matches r ip) rules))"

section \<open>Networks\<close>

lemma in_network_leading:
  fixes net a :: "'a::len word"
  assumes "p \<le> LENGTH('a)"
  shows "in_network p net a \<longleftrightarrow> drop_bit (LENGTH('a) - p) a = drop_bit (LENGTH('a) - p) net"
proof -
  let ?k = "LENGTH('a) - p"
  have m: "bit (net_mask p :: 'a word) n \<longleftrightarrow> ?k \<le> n \<and> n < LENGTH('a)" for n
    using assms by (auto simp: net_mask_def bit_simps)
  have "in_network p net a \<longleftrightarrow> (\<forall>n. ?k \<le> n \<and> n < LENGTH('a) \<longrightarrow> bit a n = bit net n)"
    by (auto simp: in_network_def bit_eq_iff bit_and_iff m)
  also have "\<dots> \<longleftrightarrow> (\<forall>n. bit a (?k + n) = bit net (?k + n))"
    by (metis bit_imp_le_length le_add1 le_add_diff_inverse)
  also have "\<dots> \<longleftrightarrow> drop_bit ?k a = drop_bit ?k net"
    by (simp add: bit_eq_iff bit_drop_bit_eq possible_bit_word) (metis add.commute add_lessD1 bit_imp_le_length)
  finally show ?thesis .
qed

lemma parsedRule_prefix: "parsedRule rule = Some r \<Longrightarrow> ru_prefix r = Some p \<Longrightarrow> p \<le> address_bits (ru_address r)"
  by (auto simp: parsedRule_def Let_def split: option.splits if_splits)

lemma exact_is_full:
  fixes net a :: "'a::len word"
  shows "a = net \<longleftrightarrow> drop_bit (LENGTH('a) - LENGTH('a)) a = drop_bit (LENGTH('a) - LENGTH('a)) net"
  by simp

text \<open>The number of leading bits a rule compares.\<close>

definition rule_bits :: "ip_rule \<Rightarrow> nat" where
  "rule_bits r = (case ru_prefix r of None \<Rightarrow> address_bits (ru_address r) | Some p \<Rightarrow> p)"

lemma rule_matches_leading:
  assumes "parsedRule rule = Some r"
  shows "rule_matches r (IPv4 a) \<longleftrightarrow>
      (\<exists>net. ru_address r = IPv4 net \<and> drop_bit (32 - rule_bits r) a = drop_bit (32 - rule_bits r) net)"
    and "rule_matches r (IPv6 b) \<longleftrightarrow>
      (\<exists>net. ru_address r = IPv6 net \<and> drop_bit (128 - rule_bits r) b = drop_bit (128 - rule_bits r) net)"
  using parsedRule_prefix [OF assms] in_network_leading [where 'a = 32] in_network_leading [where 'a = 128]
  by (auto simp: rule_matches_def rule_bits_def address_bits_def split: ip_address.splits option.splits)

section \<open>Main properties\<close>


lemma isIP_octets:
  "all_some (map octet (split_on CHR ''.'' t)) = Some [a, b, c, d] \<Longrightarrow>
   isIP t = Some (IPv4 (of_nat (((a * 256 + b) * 256 + c) * 256 + d)))"
  by (simp add: isIP_def parse_ipv4_def from_digits_def algebra_simps)


text \<open>A rule that ends in a slash admits everyone.  The empty text after the slash is read as the number
  zero, so \<open>10.0.0.1/\<close> passes as a valid rule with prefix zero, which every IPv4 client matches.\<close>

theorem trailing_slash_admits_all:
  assumes "isIP t = Some (IPv4 net)" and "trim (t @ ''/'') = t @ ''/''"
    and "isIP (strip_mapped remote) = Some (IPv4 a)"
  shows "isValidIpRule (t @ ''/'') \<and> ipAllowed remote [t @ ''/'']"
proof -
  have "cut_last_slash (t @ ''/'') = Some (t, [])" by (simp add: cut_last_slash_def)
  moreover have "number_integer [] = Some 0" by (simp add: number_integer_def trim_def)
  ultimately have "parsedRule (t @ ''/'') = Some \<lparr>ru_address = IPv4 net, ru_prefix = Some 0\<rparr>"
    using assms(1,2) by (simp add: parsedRule_def)
  then show ?thesis using assms(3)
    by (simp add: isValidIpRule_def ipAllowed_def rule_matches_def in_network_def net_mask_def)
qed

theorem trailing_slash_admits_all_witness: "ipAllowed ''8.8.8.8'' [''10.0.0.1/'']"
proof -
  have "all_some (map octet (split_on CHR ''.'' ''10.0.0.1'')) = Some [10, 0, 0, 1]"
    "all_some (map octet (split_on CHR ''.'' (strip_mapped ''8.8.8.8''))) = Some [8, 8, 8, 8]"
    and t: "trim (''10.0.0.1'' @ ''/'') = ''10.0.0.1'' @ ''/''" by code_simp+
  from trailing_slash_admits_all [OF isIP_octets [OF this(1)] t isIP_octets [OF this(2)]] show ?thesis by simp
qed

end
