(* ===== verification/Customers.thy ===== *)
theory Customers
  imports Settings IpRules
begin

text \<open>
  The customers of \<open>apps/server/src/customers/customers.service.ts\<close>, with the validation of its inputs in
  \<open>dto/customers.dto.ts\<close>: customers, workers and their credentials, portal access, split policies and
  payout destinations.  The random bytes and the salt that a new secret is made from are arguments.  The main result is that at most one destination of a
  customer is active and that none is active before it has cooled for a day.
\<close>

section \<open>Inputs\<close>

record customer_dto =
  cd_slug :: string
  cd_displayName :: string
  cd_notes :: "string option"

record customer_update_dto =
  cu_displayName :: "string option"
  cu_notes :: "string option"

record worker_dto =
  wd_slug :: string
  wd_asset :: AssetCode
  wd_maxConnections :: "int option"
  wd_allowedIps :: "string list option"

record policy_dto =
  pl_asset :: AssetCode
  pl_customerBps :: int
  pl_effectiveAt :: "instant option"

record destination_dto =
  dd_asset :: AssetCode
  dd_address :: string
  dd_minPayoutAtomic :: "string option"

definition is_lower :: "char \<Rightarrow> bool" where
  "is_lower c \<longleftrightarrow> 97 \<le> (of_char c :: nat) \<and> (of_char c :: nat) \<le> 122"

definition is_alnum :: "char \<Rightarrow> bool" where
  "is_alnum c \<longleftrightarrow> is_digit c \<or> is_lower (lower_char c)"

text \<open>\<open>^[a-z0-9][a-z0-9-]{1,46}[a-z0-9]$\<close> and \<open>^[a-zA-Z0-9][a-zA-Z0-9_-]{0,63}$\<close>.\<close>

definition customer_slug :: "string \<Rightarrow> bool" where
  "customer_slug t \<longleftrightarrow> 3 \<le> length t \<and> length t \<le> 48 \<and>
     list_all (\<lambda>c. is_lower c \<or> is_digit c \<or> c = CHR ''-'') t \<and> hd t \<noteq> CHR ''-'' \<and> last t \<noteq> CHR ''-''"

definition worker_slug :: "string \<Rightarrow> bool" where
  "worker_slug t \<longleftrightarrow> 1 \<le> length t \<and> length t \<le> 64 \<and> is_alnum (hd t) \<and>
     list_all (\<lambda>c. is_alnum c \<or> c = CHR ''_'' \<or> c = CHR ''-'') t"

definition valid_customer_dto :: "customer_dto \<Rightarrow> bool" where
  "valid_customer_dto d \<longleftrightarrow> customer_slug (cd_slug d) \<and> 2 \<le> length (cd_displayName d) \<and>
     length (cd_displayName d) \<le> 160 \<and> pred_option (\<lambda>n. length n \<le> 5000) (cd_notes d)"

definition valid_customer_update_dto :: "customer_update_dto \<Rightarrow> bool" where
  "valid_customer_update_dto d \<longleftrightarrow>
     pred_option (\<lambda>n. 2 \<le> length n \<and> length n \<le> 160) (cu_displayName d) \<and>
     pred_option (\<lambda>n. length n \<le> 5000) (cu_notes d)"

definition valid_worker_dto :: "worker_dto \<Rightarrow> bool" where
  "valid_worker_dto d \<longleftrightarrow> worker_slug (wd_slug d) \<and>
     pred_option (\<lambda>n. 1 \<le> n \<and> n \<le> 100) (wd_maxConnections d) \<and>
     pred_option (\<lambda>rules. length rules \<le> 100) (wd_allowedIps d)"

definition valid_grace :: "int option \<Rightarrow> bool" where
  "valid_grace g \<longleftrightarrow> pred_option (\<lambda>n. 0 \<le> n \<and> n \<le> 1440) g"

definition valid_policy_dto :: "policy_dto \<Rightarrow> bool" where
  "valid_policy_dto d \<longleftrightarrow> 0 \<le> pl_customerBps d \<and> pl_customerBps d \<le> 10000"

definition valid_destination_dto :: "destination_dto \<Rightarrow> bool" where
  "valid_destination_dto d \<longleftrightarrow> 10 \<le> length (dd_address d) \<and> length (dd_address d) \<le> 256 \<and>
     pred_option matches_digits (dd_minPayoutAtomic d)"

section \<open>Rows as JSON\<close>

fun status_text :: "EntityStatus \<Rightarrow> string" where
  "status_text EntityStatus.ACTIVE = ''ACTIVE''"
| "status_text DISABLED = ''DISABLED''"
| "status_text ARCHIVED = ''ARCHIVED''"

fun destination_status_text :: "DestinationStatus \<Rightarrow> string" where
  "destination_status_text DestinationStatus.PENDING = ''PENDING''"
| "destination_status_text DestinationStatus.ACTIVE = ''ACTIVE''"
| "destination_status_text REVOKED = ''REVOKED''"

definition opt_date :: "instant option \<Rightarrow> json" where
  "opt_date t = (case t of None \<Rightarrow> JNull | Some d \<Rightarrow> JDate d)"

definition customer_members :: "customer \<Rightarrow> (string \<times> json) list" where
  "customer_members c =
     [(''id'', JStr (cust_id c)), (''slug'', JStr (cust_slug c)), (''displayName'', JStr (cust_displayName c)),
      (''status'', JStr (status_text (cust_status c))), (''notes'', opt_text (cust_notes c)),
      (''createdAt'', JDate (cust_createdAt c))]"

definition customer_json :: "customer \<Rightarrow> json" where
  "customer_json c = JObj (customer_members c)"

definition worker_members :: "worker \<Rightarrow> (string \<times> json) list" where
  "worker_members w =
     [(''id'', JStr (wk_id w)), (''customerId'', JStr (wk_customerId w)), (''slug'', JStr (wk_slug w)),
      (''asset'', JStr (show_asset (wk_asset w))), (''status'', JStr (status_text (wk_status w))),
      (''maxConnections'', JNum (show_int (wk_maxConnections w))),
      (''allowedIps'', JArr (map JStr (wk_allowedIps w))), (''lastSeenAt'', opt_date (wk_lastSeenAt w))]"

definition worker_json :: "worker \<Rightarrow> customer \<Rightarrow> string \<Rightarrow> json" where
  "worker_json w c tokenPrefix =
     JObj (worker_members w @ [(''customer'', customer_json c), (''tokenPrefix'', JStr tokenPrefix)])"

definition split_policy_json :: "split_policy \<Rightarrow> json" where
  "split_policy_json p =
     JObj [(''id'', JStr (sp_id p)), (''customerId'', JStr (sp_customerId p)),
       (''asset'', JStr (show_asset (sp_asset p))), (''customerBps'', JNum (show_int (sp_customerBps p))),
       (''operatorBps'', JNum (show_int (sp_operatorBps p))), (''effectiveAt'', JDate (sp_effectiveAt p)),
       (''createdById'', opt_text (sp_createdById p))]"

definition destination_json :: "payout_destination \<Rightarrow> json" where
  "destination_json d =
     JObj [(''id'', JStr (pd_id d)), (''customerId'', JStr (pd_customerId d)),
       (''asset'', JStr (show_asset (pd_asset d))), (''address'', JStr (pd_address d)),
       (''status'', JStr (destination_status_text (pd_status d))), (''effectiveAt'', JDate (pd_effectiveAt d)),
       (''minPayoutAtomic'', JBig (pd_minPayoutAtomic d)), (''createdAt'', JDate (pd_createdAt d)),
       (''revokedAt'', opt_date (pd_revokedAt d))]"

definition credential_json :: "worker_credential \<Rightarrow> json" where
  "credential_json c =
     JObj [(''id'', JStr (wc_id c)), (''tokenPrefix'', JStr (wc_tokenPrefix c)), (''activeFrom'', JDate (wc_activeFrom c)),
       (''expiresAt'', opt_date (wc_expiresAt c)), (''revokedAt'', opt_date (wc_revokedAt c)),
       (''createdAt'', JDate (wc_createdAt c))]"

text \<open>What \<open>get\<close> returns: the customer with its workers and their credentials, its policies and its
  destinations, each list newest first.\<close>

definition newest_first :: "('a \<Rightarrow> instant) \<Rightarrow> 'a list \<Rightarrow> 'a list" where
  "newest_first f xs = sort_key (\<lambda>x. - f x) xs"

definition customer_details_json :: "customer \<Rightarrow> store \<Rightarrow> json" where
  "customer_details_json c s =
     JObj (customer_members c @
       [(''workers'', JArr (map (\<lambda>w. JObj (worker_members w @
            [(''credentials'', JArr (map credential_json (newest_first wc_createdAt
                (filter (\<lambda>k. wc_workerId k = wk_id w) (workerCredentials s)))))]))
          (filter (\<lambda>w. wk_customerId w = cust_id c) (workers s)))),
        (''splitPolicies'', JArr (map split_policy_json (newest_first sp_effectiveAt
          (filter (\<lambda>p. sp_customerId p = cust_id c) (splitPolicies s))))),
        (''payoutDestinations'', JArr (map destination_json (newest_first pd_createdAt
          (filter (\<lambda>d. pd_customerId d = cust_id c) (payoutDestinations s)))))])"

text \<open>The members of an audit entry that most operations give.\<close>

definition audit_entry :: "uuid \<Rightarrow> string \<Rightarrow> string \<Rightarrow> string \<Rightarrow> json option \<Rightarrow> json option \<Rightarrow> audit_input" where
  "audit_entry actor action entityType entityId before after =
     \<lparr>au_actorId = Some actor, au_action = action, au_entityType = entityType, au_entityId = Some entityId,
      au_ipAddress = None, au_before = before, au_after = after\<rparr>"

section \<open>Customers\<close>

definition find_customer :: "uuid \<Rightarrow> store \<Rightarrow> customer option" where
  "find_customer i s = List.find (\<lambda>c. cust_id c = i) (customers s)"

definition get_customer :: "uuid \<Rightarrow> store \<Rightarrow> customer result" where
  "get_customer i s = (case find_customer i s of None \<Rightarrow> Inl (NotFoundException ''Customer not found'') | Some c \<Rightarrow> Inr c)"

definition default_policy :: "instant \<Rightarrow> uuid \<Rightarrow> uuid \<Rightarrow> AssetCode \<Rightarrow> store \<Rightarrow> store" where
  "default_policy now customerId actor asset s =
     (let (i, s1) = new_id s
      in s1\<lparr>splitPolicies := splitPolicies s1 @ [\<lparr>sp_id = i, sp_customerId = customerId, sp_asset = asset,
           sp_customerBps = 8000, sp_operatorBps = 2000, sp_effectiveAt = now, sp_createdById = Some actor\<rparr>]\<rparr>)"

definition create_liability :: "customer \<Rightarrow> AssetCode \<Rightarrow> store \<Rightarrow> (store \<times> unit) result" where
  "create_liability c asset s =
     (if find_account asset (liability_code (cust_id c)) s \<noteq> None then Inl (UniqueConstraint ''Unique constraint failed'')
      else (let (i, s1) = new_id s
            in Inr (s1\<lparr>ledgerAccounts := ledgerAccounts s1 @ [\<lparr>la_id = i, la_asset = asset,
                 la_customerId = Some (cust_id c), la_code = liability_code (cust_id c),
                 la_name = cust_displayName c @ '' liability'', la_type = LIABILITY\<rparr>]\<rparr>, ())))"

definition create_customer_body ::
  "instant \<Rightarrow> customer_dto \<Rightarrow> uuid \<Rightarrow> store \<Rightarrow> (store \<times> customer) result" where
  "create_customer_body now dto actor s =
     (if cd_slug dto \<in> cust_slug ` set (customers s) then Inl (UniqueConstraint ''Unique constraint failed'')
      else
        (let (i, s1) = new_id s;
             c = \<lparr>cust_id = i, cust_slug = cd_slug dto, cust_displayName = cd_displayName dto,
                  cust_status = EntityStatus.ACTIVE, cust_notes = cd_notes dto, cust_createdAt = now\<rparr>;
             s2 = s1\<lparr>customers := customers s1 @ [c]\<rparr>;
             s3 = fold (default_policy now i actor) [BTC, XMR] s2
         in ebind (create_liability c BTC s3) (\<lambda>(s4, _).
            ebind (create_liability c XMR s4) (\<lambda>(s5, _). Inr (s5, c)))))"

definition slug_conflict :: "store \<times> 'a result \<Rightarrow> store \<times> 'a result" where
  "slug_conflict r =
     (case r of
        (s, Inl (UniqueConstraint m)) \<Rightarrow> (s, Inl (ConflictException ''Customer slug already exists''))
      | _ \<Rightarrow> r)"

definition createCustomer :: "services \<Rightarrow> instant \<Rightarrow> customer_dto \<Rightarrow> uuid \<Rightarrow> store \<Rightarrow> store \<times> customer result" where
  "createCustomer V now dto actor s =
     slug_conflict (andThen (transaction (create_customer_body now dto actor) s) (\<lambda>c s1.
       andThen (audit V now (audit_entry actor ''CUSTOMER_CREATED'' ''Customer'' (cust_id c) None
            (Some (customer_json c))) s1)
         (\<lambda>_ s2. (s2, Inr c))))"

definition updateCustomer ::
  "services \<Rightarrow> instant \<Rightarrow> uuid \<Rightarrow> customer_update_dto \<Rightarrow> uuid \<Rightarrow> store \<Rightarrow> store \<times> customer result" where
  "updateCustomer V now i dto actor s =
     (case get_customer i s of
        Inl e \<Rightarrow> (s, Inl e)
      | Inr before \<Rightarrow>
          (let c = before\<lparr>cust_displayName := orElse (cu_displayName dto) (cust_displayName before),
                          cust_notes := (case cu_notes dto of None \<Rightarrow> cust_notes before | n \<Rightarrow> n)\<rparr>;
               s1 = s\<lparr>customers := update_where (\<lambda>x. cust_id x = i) (\<lambda>_. c) (customers s)\<rparr>
           in andThen (audit V now (audit_entry actor ''CUSTOMER_UPDATED'' ''Customer'' i
                 (Some (customer_details_json before s)) (Some (customer_json c))) s1)
                (\<lambda>_ s2. (s2, Inr c))))"

definition setStatus ::
  "services \<Rightarrow> instant \<Rightarrow> uuid \<Rightarrow> EntityStatus \<Rightarrow> uuid \<Rightarrow> store \<Rightarrow> store \<times> customer result" where
  "setStatus V now i status actor s =
     (case find_customer i s of
        None \<Rightarrow> (s, Inl (RecordNotFound ''Customer''))
      | Some before \<Rightarrow>
          (let c = before\<lparr>cust_status := status\<rparr>;
               s1 = s\<lparr>customers := update_where (\<lambda>x. cust_id x = i) (\<lambda>_. c) (customers s)\<rparr>
           in andThen (audit V now (audit_entry actor ''CUSTOMER_STATUS_CHANGED'' ''Customer'' i
                 (Some (customer_json before)) (Some (customer_json c))) s1)
                (\<lambda>_ s2. (s2, Inr c))))"

section \<open>Workers and credentials\<close>

record credentials =
  cx_username :: string
  cx_password :: string

definition new_credential :: "instant \<Rightarrow> uuid \<Rightarrow> string \<Rightarrow> string \<Rightarrow> store \<Rightarrow> store" where
  "new_credential now workerId tokenHash token s =
     (let (i, s1) = new_id s
      in s1\<lparr>workerCredentials := workerCredentials s1 @ [\<lparr>wc_id = i, wc_workerId = workerId,
           wc_tokenHash = tokenHash, wc_tokenPrefix = take 10 token, wc_activeFrom = now, wc_expiresAt = None,
           wc_revokedAt = None, wc_createdAt = now\<rparr>]\<rparr>)"

definition createWorker ::
  "services \<Rightarrow> instant \<Rightarrow> string \<Rightarrow> string \<Rightarrow> uuid \<Rightarrow> worker_dto \<Rightarrow> uuid \<Rightarrow> store \<Rightarrow> store \<times> (worker \<times> credentials) result" where
  "createWorker V now bytes salt customerId dto actor s =
     (case find_customer customerId s of
        None \<Rightarrow> (s, Inl (RecordNotFound ''Customer''))
      | Some c \<Rightarrow>
          (case List.find (\<lambda>rule. \<not> isValidIpRule rule) (orElse (wd_allowedIps dto) []) of
             Some rule \<Rightarrow> (s, Inl (BadRequestException (''Invalid worker IP rule: '' @ rule)))
           | None \<Rightarrow>
               (let token = randomToken bytes;
                    tokenHash = hashSecret (sv_crypto V) salt token in
                if (customerId, wd_asset dto, wd_slug dto) \<in> (\<lambda>w. (wk_customerId w, wk_asset w, wk_slug w)) ` set (workers s)
                then (s, Inl (UniqueConstraint ''Unique constraint failed''))
                else
                  (let (i, s1) = new_id s;
                       w = \<lparr>wk_id = i, wk_customerId = customerId, wk_slug = wd_slug dto, wk_asset = wd_asset dto,
                            wk_status = EntityStatus.ACTIVE, wk_maxConnections = orElse (wd_maxConnections dto) 1,
                            wk_allowedIps = orElse (wd_allowedIps dto) [], wk_lastSeenAt = None\<rparr>;
                       s2 = new_credential now i tokenHash token (s1\<lparr>workers := workers s1 @ [w]\<rparr>)
                   in andThen (audit V now (audit_entry actor ''WORKER_CREATED'' ''Worker'' i None
                         (Some (worker_json w c (take 10 token)))) s2)
                        (\<lambda>_ s3. (s3, Inr (w, \<lparr>cx_username = cust_slug c @ ''.'' @ wk_slug w, cx_password = token\<rparr>)))))))"

definition expire_credentials :: "uuid \<Rightarrow> instant \<Rightarrow> store \<Rightarrow> store" where
  "expire_credentials workerId expiresAt s =
     s\<lparr>workerCredentials := update_where
          (\<lambda>c. wc_workerId c = workerId \<and> wc_revokedAt c = None \<and> wc_expiresAt c = None)
          (\<lambda>c. c\<lparr>wc_expiresAt := Some expiresAt\<rparr>) (workerCredentials s)\<rparr>"

definition rotateCredential ::
  "services \<Rightarrow> instant \<Rightarrow> string \<Rightarrow> string \<Rightarrow> uuid \<Rightarrow> int option \<Rightarrow> uuid \<Rightarrow> store \<Rightarrow> store \<times> (credentials \<times> instant) result" where
  "rotateCredential V now bytes salt workerId grace actor s =
     (case List.find (\<lambda>w. wk_id w = workerId) (workers s) of
        None \<Rightarrow> (s, Inl (NotFoundException ''Worker not found''))
      | Some w \<Rightarrow>
          (let token = randomToken bytes;
               tokenHash = hashSecret (sv_crypto V) salt token;
               graceMinutes = orElse grace 10;
               expiresAt = now + graceMinutes * 60000;
               s1 = new_credential now workerId tokenHash token (expire_credentials workerId expiresAt s);
               slug = (case find_customer (wk_customerId w) s of None \<Rightarrow> [] | Some c \<Rightarrow> cust_slug c)
           in andThen (audit V now (audit_entry actor ''WORKER_CREDENTIAL_ROTATED'' ''Worker'' workerId None
                 (Some (JObj [(''graceMinutes'', JNum (show_int graceMinutes)), (''tokenPrefix'', JStr (take 10 token))]))) s1)
                (\<lambda>_ s2. (s2, Inr (\<lparr>cx_username = slug @ ''.'' @ wk_slug w, cx_password = token\<rparr>, expiresAt)))))"

definition revokeCredential :: "services \<Rightarrow> instant \<Rightarrow> uuid \<Rightarrow> uuid \<Rightarrow> store \<Rightarrow> store \<times> unit result" where
  "revokeCredential V now credentialId actor s =
     (if credentialId \<notin> wc_id ` set (workerCredentials s) then (s, Inl (RecordNotFound ''WorkerCredential''))
      else
        (let s1 = s\<lparr>workerCredentials := update_where (\<lambda>c. wc_id c = credentialId)
                     (\<lambda>c. c\<lparr>wc_revokedAt := Some now\<rparr>) (workerCredentials s)\<rparr>
         in audit V now (audit_entry actor ''WORKER_CREDENTIAL_REVOKED'' ''WorkerCredential'' credentialId None None) s1))"

definition upsert_portal :: "portal_credential \<Rightarrow> store \<Rightarrow> store" where
  "upsert_portal p s =
     s\<lparr>portalCredentials :=
        (if pc_customerId p \<in> pc_customerId ` set (portalCredentials s)
         then update_where (\<lambda>x. pc_customerId x = pc_customerId p) (\<lambda>_. p) (portalCredentials s)
         else portalCredentials s @ [p])\<rparr>"

definition rotatePortalAccess ::
  "services \<Rightarrow> instant \<Rightarrow> string \<Rightarrow> string \<Rightarrow> uuid \<Rightarrow> uuid \<Rightarrow> store \<Rightarrow> store \<times> (string \<times> string) result" where
  "rotatePortalAccess V now bytes salt customerId actor s =
     (case find_customer customerId s of
        None \<Rightarrow> (s, Inl (NotFoundException ''Customer not found''))
      | Some c \<Rightarrow>
          (let accessCode = randomToken bytes;
               p = \<lparr>pc_customerId = customerId, pc_tokenHash = hashSecret (sv_crypto V) salt accessCode,
                    pc_tokenPrefix = take 10 accessCode, pc_createdAt = now, pc_revokedAt = None\<rparr>;
               s1 = upsert_portal p s
           in andThen (audit V now (audit_entry actor ''CUSTOMER_PORTAL_ACCESS_ROTATED'' ''CustomerPortalCredential''
                 customerId None (Some (JObj [(''tokenPrefix'', JStr (take 10 accessCode)), (''createdAt'', JDate now)]))) s1)
                (\<lambda>_ s2. (s2, Inr (cust_slug c, accessCode)))))"

section \<open>Policies and destinations\<close>

definition createPolicy ::
  "services \<Rightarrow> instant \<Rightarrow> uuid \<Rightarrow> policy_dto \<Rightarrow> uuid \<Rightarrow> store \<Rightarrow> store \<times> split_policy result" where
  "createPolicy V now customerId dto actor s =
     (let operatorBps = 10000 - pl_customerBps dto in
      if operatorBps < 0 then (s, Inl (BadRequestException ''Split total must equal 10000 basis points''))
      else
        (let (i, s1) = new_id s;
             p = \<lparr>sp_id = i, sp_customerId = customerId, sp_asset = pl_asset dto, sp_customerBps = pl_customerBps dto,
                  sp_operatorBps = operatorBps, sp_effectiveAt = orElse (pl_effectiveAt dto) now,
                  sp_createdById = Some actor\<rparr>;
             s2 = s1\<lparr>splitPolicies := splitPolicies s1 @ [p]\<rparr>
         in andThen (audit V now (audit_entry actor ''SPLIT_POLICY_CREATED'' ''SplitPolicyVersion'' i None
               (Some (split_policy_json p))) s2)
              (\<lambda>_ s3. (s3, Inr p))))"

definition destination_alert :: "uuid \<Rightarrow> AssetCode \<Rightarrow> string" where
  "destination_alert customerId asset = ''payout-destination:'' @ customerId @ '':'' @ show_asset asset"

definition new_destination :: "services \<Rightarrow> instant \<Rightarrow> uuid \<Rightarrow> destination_dto \<Rightarrow> uuid \<Rightarrow> payout_destination" where
  "new_destination V now customerId dto i =
     \<lparr>pd_id = i, pd_customerId = customerId, pd_asset = dd_asset dto, pd_address = trim (dd_address dto),
      pd_status = DestinationStatus.PENDING, pd_effectiveAt = now + 24 * 60 * 60000,
      pd_minPayoutAtomic = (case dd_minPayoutAtomic dto of
         Some t \<Rightarrow> if t = [] then cw_min_payout_atomic (wallet_setting (sv_env V) (dd_asset dto)) else bigint_of t
       | None \<Rightarrow> cw_min_payout_atomic (wallet_setting (sv_env V) (dd_asset dto))),
      pd_createdAt = now, pd_revokedAt = None\<rparr>"

definition createDestination ::
  "services \<Rightarrow> instant \<Rightarrow> uuid \<Rightarrow> destination_dto \<Rightarrow> uuid \<Rightarrow> store \<Rightarrow> store \<times> payout_destination result" where
  "createDestination V now customerId dto actor s =
     (case get_customer customerId s of
        Inl e \<Rightarrow> (s, Inl e)
      | Inr _ \<Rightarrow>
          (case wa_validateAddress (forAsset (sv_wallets V) (dd_asset dto)) (trim (dd_address dto)) of
             Inl e \<Rightarrow> (s, Inl e)
           | Inr False \<Rightarrow> (s, Inl (BadRequestException ''Invalid payout address for selected asset''))
           | Inr True \<Rightarrow>
               (let (i, s1) = new_id s;
                    d = new_destination V now customerId dto i;
                    s2 = s1\<lparr>payoutDestinations := payoutDestinations s1 @ [d]\<rparr>
                in andThen (audit V now (audit_entry actor ''PAYOUT_DESTINATION_CREATED'' ''PayoutDestination'' i None
                      (Some (destination_json d))) s2)
                     (\<lambda>_ s3. (raise_alert now
                        \<lparr>ai_dedupeKey = destination_alert customerId (dd_asset dto), ai_severity = WARNING,
                         ai_title = show_asset (dd_asset dto) @ '' payout destination is pending'',
                         ai_message = ''A customer payout address change is cooling until '' @
                            toISOString (pd_effectiveAt d)\<rparr> s3, Inr d)))))"

definition activate_destination :: "instant \<Rightarrow> payout_destination \<Rightarrow> store \<Rightarrow> store" where
  "activate_destination now d s =
     (let revoked = update_where
            (\<lambda>x. pd_customerId x = pd_customerId d \<and> pd_asset x = pd_asset d \<and> pd_status x = DestinationStatus.ACTIVE)
            (\<lambda>x. x\<lparr>pd_status := REVOKED, pd_revokedAt := Some now\<rparr>) (payoutDestinations s);
          s1 = s\<lparr>payoutDestinations := update_where (\<lambda>x. pd_id x = pd_id d)
                  (\<lambda>x. x\<lparr>pd_status := DestinationStatus.ACTIVE\<rparr>) revoked\<rparr>
      in resolveByDedupe now (destination_alert (pd_customerId d) (pd_asset d)) s1)"

definition due_destinations :: "instant \<Rightarrow> store \<Rightarrow> payout_destination list" where
  "due_destinations now s =
     filter (\<lambda>d. pd_status d = DestinationStatus.PENDING \<and> pd_effectiveAt d \<le> now) (payoutDestinations s)"

definition activateDueDestinations :: "instant \<Rightarrow> store \<Rightarrow> store \<times> nat" where
  "activateDueDestinations now s =
     (let due = due_destinations now s in (fold (activate_destination now) due s, length due))"

section \<open>Destinations\<close>

definition dest_ok :: "services \<Rightarrow> instant \<Rightarrow> payout_destination \<Rightarrow> bool" where
  "dest_ok V now d \<longleftrightarrow> pd_effectiveAt d = pd_createdAt d + 86400000 \<and>
     wa_validateAddress (forAsset (sv_wallets V) (pd_asset d)) (pd_address d) = Inr True \<and>
     (pd_status d = DestinationStatus.ACTIVE \<longrightarrow> pd_effectiveAt d \<le> now)"

definition single_active :: "payout_destination list \<Rightarrow> bool" where
  "single_active ds \<longleftrightarrow> (\<forall>d \<in> set ds. \<forall>e \<in> set ds.
     pd_status d = DestinationStatus.ACTIVE \<and> pd_status e = DestinationStatus.ACTIVE \<and>
     pd_customerId d = pd_customerId e \<and> pd_asset d = pd_asset e \<longrightarrow> pd_id d = pd_id e)"

definition dest_inv :: "services \<Rightarrow> instant \<Rightarrow> store \<Rightarrow> bool" where
  "dest_inv V now s \<longleftrightarrow> inj (uuids s) \<and> pd_id ` set (payoutDestinations s) \<subseteq> minted_ids s \<and>
     unique_on pd_id (payoutDestinations s) \<and> list_all (dest_ok V now) (payoutDestinations s) \<and>
     single_active (payoutDestinations s)"

lemma dest_inv_frame:
  assumes "dest_inv V now s" and "now \<le> now'" and "payoutDestinations t = payoutDestinations s"
    and "uuids t = uuids s" and "minted s \<le> minted t"
  shows "dest_inv V now' t"
proof -
  have "minted_ids s \<subseteq> minted_ids t" using assms(4,5) by (auto simp: minted_ids_def)
  moreover have "dest_ok V now d \<Longrightarrow> dest_ok V now' d" for d using assms(2) by (auto simp: dest_ok_def)
  then have "list_all (dest_ok V now) ds \<Longrightarrow> list_all (dest_ok V now') ds" for ds by (auto simp: list_all_iff)
  ultimately show ?thesis using assms unfolding dest_inv_def by auto
qed

lemma dest_inv_add:
  assumes "dest_inv V now s" and "pd_id d = uuids s (minted s)" and "dest_ok V now d"
    and "pd_status d = DestinationStatus.PENDING"
  shows "dest_inv V now (s\<lparr>minted := Suc (minted s), payoutDestinations := payoutDestinations s @ [d]\<rparr>)"
proof -
  let ?t = "s\<lparr>minted := Suc (minted s), payoutDestinations := payoutDestinations s @ [d]\<rparr>"
  have "minted_ids ?t = insert (pd_id d) (minted_ids s)" using assms(2) by (auto simp: minted_ids_def lessThan_Suc)
  moreover have "pd_id d \<notin> pd_id ` set (payoutDestinations s)"
    using assms(1,2) new_id_fresh [of s] by (auto simp: dest_inv_def)
  moreover have "single_active (payoutDestinations s @ [d])" if "single_active (payoutDestinations s)"
  proof -
    have "x \<in> set (payoutDestinations s)" if "x \<in> set (payoutDestinations s @ [d])" "pd_status x = DestinationStatus.ACTIVE" for x
      using that assms(4) by auto
    then show ?thesis using that unfolding single_active_def by blast
  qed
  moreover note assms(1) [unfolded dest_inv_def]
  ultimately show ?thesis unfolding dest_inv_def
    by (elim conjE, intro conjI) (simp_all add: assms(3) subset_insertI2)
qed

lemma dest_inv_logged:
  assumes "dest_inv V now s" and "logged_only s t" shows "dest_inv V now t"
proof -
  note tab = logged_only_tables [OF assms(2)]
  show ?thesis by (rule dest_inv_frame [OF assms(1) order_refl tab(9,3,19)])
qed

lemma createDestination_cases:
  fixes s defines "i \<equiv> uuids s (minted s)"
  shows "fst (createDestination V now customerId dto actor s) = s \<or>
    wa_validateAddress (forAsset (sv_wallets V) (dd_asset dto)) (trim (dd_address dto)) = Inr True \<and>
    logged_only (s\<lparr>minted := Suc (minted s),
        payoutDestinations := payoutDestinations s @ [new_destination V now customerId dto i]\<rparr>)
      (fst (createDestination V now customerId dto actor s))"
  unfolding createDestination_def i_def new_id_def Let_def prod.case
  by (auto split: sum.splits bool.splits simp del: append.simps intro!: andThen_audit_logged)

lemma createDestination_inv:
  assumes "dest_inv V now s" shows "dest_inv V now (fst (createDestination V now customerId dto actor s))"
  using createDestination_cases [of V now customerId dto actor s]
proof
  let ?d = "new_destination V now customerId dto (uuids s (minted s))"
  assume *: "wa_validateAddress (forAsset (sv_wallets V) (dd_asset dto)) (trim (dd_address dto)) = Inr True \<and>
    logged_only (s\<lparr>minted := Suc (minted s), payoutDestinations := payoutDestinations s @ [?d]\<rparr>)
      (fst (createDestination V now customerId dto actor s))"
  then have "dest_inv V now (s\<lparr>minted := Suc (minted s), payoutDestinations := payoutDestinations s @ [?d]\<rparr>)"
    by (intro dest_inv_add [OF assms]) (simp_all add: new_destination_def dest_ok_def)
  then show ?thesis using * by (blast intro: dest_inv_logged)
qed (simp add: assms)

text \<open>One activation.\<close>

definition may_activate :: "instant \<Rightarrow> payout_destination \<Rightarrow> store \<Rightarrow> bool" where
  "may_activate now d s \<longleftrightarrow> pd_effectiveAt d \<le> now \<and> (\<forall>x \<in> set (payoutDestinations s). pd_id x = pd_id d \<longrightarrow>
     pd_customerId x = pd_customerId d \<and> pd_asset x = pd_asset d \<and> pd_effectiveAt x = pd_effectiveAt d)"

abbreviation activated :: "instant \<Rightarrow> payout_destination \<Rightarrow> payout_destination \<Rightarrow> payout_destination" where
  "activated now d x \<equiv>
     (let y = (if pd_customerId x = pd_customerId d \<and> pd_asset x = pd_asset d \<and> pd_status x = DestinationStatus.ACTIVE
               then x\<lparr>pd_status := REVOKED, pd_revokedAt := Some now\<rparr> else x)
      in if pd_id y = pd_id d then y\<lparr>pd_status := DestinationStatus.ACTIVE\<rparr> else y)"

lemma activate_destinations:
  "payoutDestinations (activate_destination now d s) = map (activated now d) (payoutDestinations s)"
proof -
  have "payoutDestinations (resolveByDedupe now k u) = payoutDestinations u" for k u
    by (simp add: logged_only_tables [OF resolve_logged])
  then show ?thesis by (simp add: activate_destination_def update_where_def Let_def comp_def)
qed

lemma resolve_ids [simp]:
  "minted (resolveByDedupe now k s) = minted s" "uuids (resolveByDedupe now k s) = uuids s"
  by (simp_all add: resolveByDedupe_def Let_def)

lemma activate_store [simp]:
  "uuids (activate_destination now d s) = uuids s" "minted (activate_destination now d s) = minted s"
  by (simp_all add: activate_destination_def Let_def)

lemma activated_fields [simp]:
  "pd_id (activated now d x) = pd_id x" "pd_customerId (activated now d x) = pd_customerId x"
  "pd_asset (activated now d x) = pd_asset x" "pd_effectiveAt (activated now d x) = pd_effectiveAt x"
  "pd_createdAt (activated now d x) = pd_createdAt x" "pd_address (activated now d x) = pd_address x"
  by (simp_all add: Let_def)

lemma activated_active:
  "pd_status (activated now d x) = DestinationStatus.ACTIVE \<longleftrightarrow> pd_id x = pd_id d \<or>
     pd_status x = DestinationStatus.ACTIVE \<and> \<not> (pd_customerId x = pd_customerId d \<and> pd_asset x = pd_asset d)"
  by (auto simp: Let_def)

lemma activate_single:
  assumes "single_active (payoutDestinations s)" and "may_activate now d s"
  shows "single_active (payoutDestinations (activate_destination now d s))"
proof -
  have "pd_customerId x = pd_customerId d" "pd_asset x = pd_asset d"
    if "x \<in> set (payoutDestinations s)" "pd_id x = pd_id d" for x using assms(2) that by (auto simp: may_activate_def)
  with assms(1) show ?thesis
    unfolding activate_destinations single_active_def set_map ball_simps activated_fields activated_active by metis
qed

lemma activate_dest_ids: "map pd_id (payoutDestinations (activate_destination now d s)) = map pd_id (payoutDestinations s)"
  by (simp add: activate_destinations comp_def del: Let_def)

lemma activate_inv:
  assumes "dest_inv V now s" and "may_activate now d s" shows "dest_inv V now (activate_destination now d s)"
proof -
  let ?P = "payoutDestinations s" and ?Q = "map (activated now d) (payoutDestinations s)"
  have act: "pd_customerId x = pd_customerId d" "pd_asset x = pd_asset d" "pd_effectiveAt x \<le> now"
    if "x \<in> set ?P" "pd_id x = pd_id d" for x using assms(2) that by (auto simp: may_activate_def)
  have "list_all (dest_ok V now) ?P" "single_active ?P" using assms(1) by (simp_all add: dest_inv_def)
  then have "list_all (dest_ok V now) ?Q"
    unfolding list_all_iff set_map ball_simps dest_ok_def activated_fields activated_active using act by blast
  moreover have "single_active ?Q"
    using activate_single [OF \<open>single_active ?P\<close> assms(2)] by (simp only: activate_destinations)
  moreover have "unique_on pd_id ?Q = unique_on pd_id ?P" "pd_id ` set ?Q = pd_id ` set ?P"
    using activate_dest_ids [of now d s] by (simp_all only: activate_destinations set_map [symmetric])
  ultimately show ?thesis
    using assms(1) unfolding dest_inv_def activate_destinations activate_store minted_ids_def by blast
qed

lemma may_activate_step: "may_activate now d s \<Longrightarrow> may_activate now d (activate_destination now e s)"
  unfolding may_activate_def activate_destinations set_map ball_simps activated_fields .

lemma activate_fold:
  assumes "dest_inv V now s" and "\<forall>d \<in> set ds. may_activate now d s"
  shows "dest_inv V now (fold (activate_destination now) ds s)"
  using assms
proof (induction ds arbitrary: s)
  case (Cons d ds)
  then show ?case by (simp add: activate_inv may_activate_step)
qed simp

lemma due_may_activate:
  assumes "unique_on pd_id (payoutDestinations s)" and "d \<in> set (due_destinations now s)" shows "may_activate now d s"
proof -
  have "x = d" if "x \<in> set (payoutDestinations s)" "pd_id x = pd_id d" for x
    using that assms by (auto simp: due_destinations_def distinct_map inj_on_def)
  then show ?thesis using assms(2) unfolding may_activate_def by (auto simp: due_destinations_def)
qed

lemma activateDue_inv: "dest_inv V now s \<Longrightarrow> dest_inv V now (fst (activateDueDestinations now s))"
  unfolding activateDueDestinations_def Let_def fst_conv
  by (rule activate_fold) (auto simp: dest_inv_def intro: due_may_activate)

text \<open>What the payouts rely on: identifiers are unique, and so is the active destination of a customer.\<close>

definition dest_unique :: "store \<Rightarrow> bool" where
  "dest_unique s \<longleftrightarrow> unique_on pd_id (payoutDestinations s) \<and> single_active (payoutDestinations s)"

lemma activate_unique_fold:
  assumes "dest_unique s" and "\<forall>d \<in> set ds. may_activate now d s"
  shows "dest_unique (fold (activate_destination now) ds s)"
  using assms
proof (induction ds arbitrary: s)
  case (Cons d ds)
  then have "dest_unique (activate_destination now d s)"
    using activate_single [of s now d] activate_dest_ids [of now d s] by (simp add: dest_unique_def)
  with Cons show ?case by (simp add: may_activate_step)
qed simp

lemma activateDue_unique: "dest_unique s \<Longrightarrow> dest_unique (fst (activateDueDestinations now s))"
  unfolding activateDueDestinations_def Let_def fst_conv
  by (rule activate_unique_fold) (auto simp: dest_unique_def intro: due_may_activate)

lemma activateDue_tables:
  "uuids (fst (activateDueDestinations now s)) = uuids s" "minted (fst (activateDueDestinations now s)) = minted s"
  "payoutBatches (fst (activateDueDestinations now s)) = payoutBatches s"
  "ledgerAccounts (fst (activateDueDestinations now s)) = ledgerAccounts s"
  "journalTransactions (fst (activateDueDestinations now s)) = journalTransactions s"
  "customers (fst (activateDueDestinations now s)) = customers s"
  "systemSettings (fst (activateDueDestinations now s)) = systemSettings s"
  "deposits (fst (activateDueDestinations now s)) = deposits s"
proof -
  have one: "P (activate_destination now d s) = P s"
    if "\<And>k u. P (resolveByDedupe now k u) = P u" "\<And>u x. P (u\<lparr>payoutDestinations := x\<rparr>) = P u" for P d s
    using that by (simp add: activate_destination_def Let_def)
  have "P (fst (activateDueDestinations now s)) = P s"
    if "\<And>k u. P (resolveByDedupe now k u) = P u" "\<And>u x. P (u\<lparr>payoutDestinations := x\<rparr>) = P u"
    for P :: "store \<Rightarrow> 'x"
  proof -
    have "P (fold (activate_destination now) ds s) = P s" for ds
      using one [of P] that by (induction ds arbitrary: s) simp_all
    then show ?thesis by (simp add: activateDueDestinations_def Let_def)
  qed
  note frame = this
  note tab = logged_only_tables [OF resolve_logged]
  show "uuids (fst (activateDueDestinations now s)) = uuids s" by (rule frame) simp_all
  show "minted (fst (activateDueDestinations now s)) = minted s" by (rule frame) simp_all
  show "payoutBatches (fst (activateDueDestinations now s)) = payoutBatches s" by (rule frame) (simp_all add: tab)
  show "ledgerAccounts (fst (activateDueDestinations now s)) = ledgerAccounts s" by (rule frame) (simp_all add: tab)
  show "journalTransactions (fst (activateDueDestinations now s)) = journalTransactions s" by (rule frame) (simp_all add: tab)
  show "customers (fst (activateDueDestinations now s)) = customers s" by (rule frame) (simp_all add: tab)
  show "systemSettings (fst (activateDueDestinations now s)) = systemSettings s" by (rule frame) (simp_all add: tab)
  show "deposits (fst (activateDueDestinations now s)) = deposits s" by (rule frame) (simp_all add: tab)
qed

text \<open>After the loop nothing is due any more.\<close>

lemma activated_pending:
  "pd_status (activated now d x) = DestinationStatus.PENDING \<longleftrightarrow> pd_status x = DestinationStatus.PENDING \<and> pd_id x \<noteq> pd_id d"
  by (auto simp: Let_def)

lemma fold_pending:
  "\<forall>x \<in> set (payoutDestinations (fold (activate_destination now) ds s)). pd_status x = DestinationStatus.PENDING \<longrightarrow>
     pd_id x \<notin> pd_id ` set ds \<and> (\<exists>y \<in> set (payoutDestinations s). pd_status y = DestinationStatus.PENDING \<and>
       pd_id y = pd_id x \<and> pd_effectiveAt y = pd_effectiveAt x)"
proof (induction ds arbitrary: s)
  case (Cons d ds)
  show ?case
    using Cons.IH [of "activate_destination now d s"]
    unfolding fold_simps comp_def activate_destinations set_map bex_simps activated_fields activated_pending
    by fastforce
qed auto

lemma nothing_due: "due_destinations now (fst (activateDueDestinations now s)) = []"
proof -
  let ?t = "fold (activate_destination now) (due_destinations now s) s"
  have "\<not> (pd_status x = DestinationStatus.PENDING \<and> pd_effectiveAt x \<le> now)" if x: "x \<in> set (payoutDestinations ?t)" for x
  proof
    assume p: "pd_status x = DestinationStatus.PENDING \<and> pd_effectiveAt x \<le> now"
    with x fold_pending obtain y where "y \<in> set (payoutDestinations s)" "pd_status y = DestinationStatus.PENDING"
      "pd_id y = pd_id x" "pd_effectiveAt y = pd_effectiveAt x" "pd_id x \<notin> pd_id ` set (due_destinations now s)" by blast
    moreover from this(1,2,4) p have "y \<in> set (due_destinations now s)" by (simp add: due_destinations_def)
    ultimately show False by (metis imageI)
  qed
  then have "filter (\<lambda>d. pd_status d = DestinationStatus.PENDING \<and> pd_effectiveAt d \<le> now) (payoutDestinations ?t) = []"
    by (simp only: filter_empty_conv) blast
  then show ?thesis
    by (simp add: activateDueDestinations_def Let_def) (simp add: due_destinations_def)
qed

section \<open>Main properties\<close>

text \<open>Every way in which the destinations may evolve: other operations leave them alone, time passes.\<close>

inductive dest_reachable :: "services \<Rightarrow> instant \<Rightarrow> store \<Rightarrow> bool" for V where
  start: "inj (uuids s) \<Longrightarrow> payoutDestinations s = [] \<Longrightarrow> dest_reachable V now s"
| create: "dest_reachable V now s \<Longrightarrow> dest_reachable V now (fst (createDestination V now customerId dto actor s))"
| activate: "dest_reachable V now s \<Longrightarrow> dest_reachable V now (fst (activateDueDestinations now s))"
| other: "dest_reachable V now s \<Longrightarrow> now \<le> now' \<Longrightarrow> payoutDestinations t = payoutDestinations s \<Longrightarrow>
    uuids t = uuids s \<Longrightarrow> minted s \<le> minted t \<Longrightarrow> dest_reachable V now' t"

lemma dest_reachable_inv: "dest_reachable V now s \<Longrightarrow> dest_inv V now s"
proof (induction rule: dest_reachable.induct)
  case (start s now)
  then show ?case by (simp add: dest_inv_def single_active_def)
next
  case (create now s customerId dto actor)
  then show ?case by (intro createDestination_inv)
next
  case (activate now s)
  then show ?case by (intro activateDue_inv)
next
  case (other now s now' t)
  show ?case by (rule dest_inv_frame [OF other.IH other.hyps(2-5)])
qed

text \<open>C35: A customer is paid to one settled address per asset.  After any history of new destinations and
  activations, at most one destination of a customer and an asset is active; an active one was created
  at least 24 hours ago and its address passed the wallet's validation; and activation leaves no
  destination behind whose cooling period is over.\<close>

theorem one_active_destination:
  assumes "dest_reachable V now s"
  shows "single_active (payoutDestinations s) \<and>
    list_all (\<lambda>d. (pd_status d = DestinationStatus.ACTIVE \<longrightarrow> pd_createdAt d + 24 * 60 * 60000 \<le> now) \<and>
        wa_validateAddress (forAsset (sv_wallets V) (pd_asset d)) (pd_address d) = Inr True) (payoutDestinations s) \<and>
    due_destinations now (fst (activateDueDestinations now s)) = []"
proof -
  from dest_reachable_inv [OF assms] have "single_active (payoutDestinations s)"
    "list_all (dest_ok V now) (payoutDestinations s)" by (simp_all add: dest_inv_def)
  then show ?thesis by (auto simp: list_all_iff dest_ok_def nothing_due)
qed

definition example_customer :: customer where
  "example_customer = \<lparr>cust_id = ''c1'', cust_slug = ''acme'', cust_displayName = ''Acme'',
     cust_status = EntityStatus.ACTIVE, cust_notes = None, cust_createdAt = 0\<rparr>"

definition example_destination_dto :: destination_dto where
  "example_destination_dto = \<lparr>dd_asset = XMR, dd_address = ''addr123456'', dd_minPayoutAtomic = Some ''5''\<rparr>"

lemma createDestination_adds:
  assumes "get_customer customerId s = Inr c"
    and "wa_validateAddress (forAsset (sv_wallets V) (dd_asset dto)) (trim (dd_address dto)) = Inr True"
  shows "payoutDestinations (fst (createDestination V now customerId dto actor s)) =
    payoutDestinations s @ [new_destination V now customerId dto (uuids s (minted s))]"
proof -
  let ?d = "new_destination V now customerId dto (uuids s (minted s))"
  have "logged_only (s\<lparr>minted := Suc (minted s), payoutDestinations := payoutDestinations s @ [?d]\<rparr>)
      (fst (createDestination V now customerId dto actor s))"
    unfolding createDestination_def new_id_def Let_def prod.case assms sum.case bool.case
    by (simp add: andThen_audit_logged)
  from logged_only_tables(9) [OF this] show ?thesis by simp
qed

theorem one_active_destination_witness:
  "let s = (empty_store show_nat)\<lparr>customers := [example_customer]\<rparr>;
       t = fst (createDestination example_services 0 ''c1'' example_destination_dto ''a1'' s);
       u = fst (activateDueDestinations 86400000 t)
   in map pd_status (payoutDestinations u) = [DestinationStatus.ACTIVE] \<and> single_active (payoutDestinations u)"
proof -
  let ?s = "(empty_store show_nat)\<lparr>customers := [example_customer]\<rparr>"
  let ?t = "fst (createDestination example_services 0 ''c1'' example_destination_dto ''a1'' ?s)"
  have "dest_reachable example_services 0 ?t"
    by (intro dest_reachable.create dest_reachable.start) (simp_all add: empty_store_def)
  then have "dest_reachable example_services 86400000 ?t"
    by (rule dest_reachable.other) simp_all
  then have r: "dest_reachable example_services 86400000 (fst (activateDueDestinations 86400000 ?t))"
    by (rule dest_reachable.activate)
  have tr: "trim ''addr123456'' = ''addr123456''" by code_simp
  have c: "get_customer ''c1'' ?s = Inr example_customer"
    by (simp add: get_customer_def find_customer_def example_customer_def)
  have v: "wa_validateAddress (forAsset (sv_wallets example_services) (dd_asset example_destination_dto))
      (trim (dd_address example_destination_dto)) = Inr True"
    by (simp add: example_services_def example_destination_dto_def monero_adapter_def example_monero_def)
  have "payoutDestinations ?t = [new_destination example_services 0 ''c1'' example_destination_dto (show_nat 0)]"
    using createDestination_adds [OF c v] by (simp add: empty_store_def)
  then have "map pd_status (payoutDestinations (fst (activateDueDestinations 86400000 ?t))) = [DestinationStatus.ACTIVE]"
    by (simp add: activateDueDestinations_def due_destinations_def activate_destinations new_destination_def Let_def)
  with one_active_destination [OF r] show ?thesis by (simp add: Let_def)
qed

end
