(* ===== verification/Totp.thy ===== *)
theory Totp
  imports IpRules
begin

text \<open>
  One-time codes, \<open>apps/server/src/auth/totp.ts\<close>: base32 secrets, the code of a time step and its
  verification.  HMAC-SHA1 is a parameter, the function \<open>hmac\<close> of a key and a message; a digest of 20
  bytes is the hypothesis of the results that need it.
\<close>

section \<open>Base 32\<close>

definition ALPHABET :: string where
  "ALPHABET = ''ABCDEFGHIJKLMNOPQRSTUVWXYZ234567''"

text \<open>\<open>toString(2).padStart(w, '0')\<close> and \<open>parseInt(.., 2)\<close>, with truth values for the digits.\<close>

fun bits_of :: "nat \<Rightarrow> nat \<Rightarrow> bool list" where
  "bits_of 0 n = []"
| "bits_of (Suc w) n = bits_of w (n div 2) @ [odd n]"

definition num_of :: "bool list \<Rightarrow> nat" where
  "num_of bs = foldl (\<lambda>n b. 2 * n + of_bool b) 0 bs"

definition pad_end :: "nat \<Rightarrow> bool list \<Rightarrow> bool list" where
  "pad_end w bs = bs @ replicate (w - length bs) False"

fun quintets :: "bool list \<Rightarrow> bool list list" where
  "quintets bs = (if bs = [] then [] else take 5 bs # quintets (drop 5 bs))"

declare quintets.simps [simp del]

definition generateTotpSecret :: "string \<Rightarrow> string" where
  "generateTotpSecret input =
     map (\<lambda>q. ALPHABET ! num_of (pad_end 5 q)) (quintets (concat (map (\<lambda>c. bits_of 8 (of_char c)) input)))"

definition upper_char :: "char \<Rightarrow> char" where
  "upper_char c =
     (if 97 \<le> (of_char c :: nat) \<and> (of_char c :: nat) \<le> 122 then char_of ((of_char c :: nat) - 32) else c)"

fun octets :: "bool list \<Rightarrow> bool list list" where
  "octets bs = (if length bs < 8 then [] else take 8 bs # octets (drop 8 bs))"

declare octets.simps [simp del]

definition normalize_secret :: "string \<Rightarrow> string" where
  "normalize_secret v =
     filter (\<lambda>c. \<not> is_space c) (rev (dropWhile (\<lambda>c. c = CHR ''='') (rev (map upper_char v))))"

definition decodeBase32 :: "string \<Rightarrow> string result" where
  "decodeBase32 v =
     (case all_some (map (\<lambda>c. index_of c ALPHABET) (normalize_secret v)) of
        None \<Rightarrow> Inl (Error ''Invalid base32 secret'')
      | Some is \<Rightarrow> Inr (map (\<lambda>o8. char_of (num_of o8)) (octets (concat (map (bits_of 5) is)))))"

section \<open>Codes\<close>

definition counterBuffer :: "int \<Rightarrow> string result" where
  "counterBuffer counter =
     (if counter < 0 \<or> counter \<ge> 2 ^ 64 then Inl (Error ''ERR_OUT_OF_RANGE'')
      else Inr (map (\<lambda>i. char_of (nat counter div 256 ^ i)) (rev [0..<8])))"

definition readUInt32BE :: "string \<Rightarrow> nat \<Rightarrow> 32 word result" where
  "readUInt32BE digest offset =
     (if offset + 4 > length digest then Inl (Error ''ERR_OUT_OF_RANGE'')
      else Inr (of_nat (from_digits 256 (map of_char (take 4 (drop offset digest))))))"

definition totpCode :: "(string \<Rightarrow> string \<Rightarrow> string) \<Rightarrow> string \<Rightarrow> int \<Rightarrow> string result" where
  "totpCode hmac secret time =
     ebind (decodeBase32 secret) (\<lambda>key.
     ebind (counterBuffer (time div 30000)) (\<lambda>message.
       let digest = hmac key message;
           offset = of_char (last digest) mod 16
       in ebind (readUInt32BE digest offset) (\<lambda>w.
            Inr (padStart 6 CHR ''0'' (show_nat (unat (w AND 0x7FFFFFFF) mod 1000000))))))"

definition six_digits :: "string \<Rightarrow> bool" where
  "six_digits code \<longleftrightarrow> length code = 6 \<and> list_all is_digit code"

fun any_window :: "(string \<Rightarrow> string \<Rightarrow> string) \<Rightarrow> string \<Rightarrow> string \<Rightarrow> int \<Rightarrow> int list \<Rightarrow> bool result" where
  "any_window hmac secret code time [] = Inr False"
| "any_window hmac secret code time (w # ws) =
     ebind (totpCode hmac secret (time + w * 30000)) (\<lambda>expected.
       if expected = code then Inr True else any_window hmac secret code time ws)"

definition verifyTotp :: "(string \<Rightarrow> string \<Rightarrow> string) \<Rightarrow> string \<Rightarrow> string \<Rightarrow> int \<Rightarrow> bool result" where
  "verifyTotp hmac secret code time =
     (if \<not> six_digits code then Inr False else any_window hmac secret code time [-1, 0, 1])"

text \<open>\<open>encodeURIComponent\<close> on bytes.\<close>

definition unreserved :: "char \<Rightarrow> bool" where
  "unreserved c \<longleftrightarrow> is_digit c \<or> 97 \<le> (of_char (lower_char c) :: nat) \<and> (of_char (lower_char c) :: nat) \<le> 122 \<or>
     c \<in> set ''-_.!~*()'' \<or> c = CHR 0x27"

definition upper_hex :: "nat \<Rightarrow> char" where
  "upper_hex n = (if n < 10 then char_of (48 + n) else char_of (55 + n))"

definition encodeURIComponent :: "string \<Rightarrow> string" where
  "encodeURIComponent t =
     concat (map (\<lambda>c. if unreserved c then [c]
        else [CHR ''%'', upper_hex (of_char c div 16), upper_hex (of_char c mod 16)]) t)"

definition totpUri :: "string \<Rightarrow> string \<Rightarrow> string" where
  "totpUri secret email =
     ''otpauth://totp/'' @ encodeURIComponent (''Mining Gateway:'' @ email) @ ''?secret='' @ secret @ ''&issuer='' @
       encodeURIComponent ''Mining Gateway'' @ ''&algorithm=SHA1&digits=6&period=30''"

section \<open>Bits\<close>

lemma length_bits_of [simp]: "length (bits_of w n) = w"
  by (induction w arbitrary: n) simp_all

lemma num_of_snoc [simp]: "num_of (bs @ [b]) = 2 * num_of bs + of_bool b"
  by (simp add: num_of_def)

lemma num_of_bits: "n < 2 ^ w \<Longrightarrow> num_of (bits_of w n) = n"
proof (induction w arbitrary: n)
  case (Suc w)
  then have "num_of (bits_of w (n div 2)) = n div 2" by simp
  then show ?case by simp
qed (simp add: num_of_def)

lemma num_of_less: "num_of bs < 2 ^ length bs"
  by (induction bs rule: rev_induct) (auto simp: num_of_def)

lemma bits_of_num: "bits_of (length bs) (num_of bs) = bs"
  by (induction bs rule: rev_induct) simp_all

lemma quintets_padded:
  "\<exists>m < 5. concat (map (pad_end 5) (quintets bs)) = bs @ replicate m False"
proof (induction bs rule: quintets.induct)
  case (1 bs)
  show ?case
  proof (cases "5 \<le> length bs")
    case True
    then have ne: "bs \<noteq> []" by auto
    from "1.IH" [OF ne] obtain m where
      m: "m < 5" "concat (map (pad_end 5) (quintets (drop 5 bs))) = drop 5 bs @ replicate m False" by blast
    have "pad_end 5 (take 5 bs) = take 5 bs" using True by (simp add: pad_end_def)
    then have "concat (map (pad_end 5) (quintets bs)) = (take 5 bs @ drop 5 bs) @ replicate m False"
      using ne m(2) by (simp add: quintets.simps [of bs] del: append_take_drop_id)
    then show ?thesis using m(1) by auto
  next
    case False
    then have "drop 5 bs = []" "take 5 bs = bs" by simp_all
    then show ?thesis
      using False by (cases "bs = []") (auto simp: quintets.simps [of bs] quintets.simps [of "[]"] pad_end_def intro: exI [of _ "5 - length bs"])
  qed
qed

lemma length_quintet: "q \<in> set (quintets bs) \<Longrightarrow> length (pad_end 5 q) = 5"
proof (induction bs rule: quintets.induct)
  case (1 bs)
  then show ?case by (cases "bs = []") (auto simp: quintets.simps [of bs] quintets.simps [of "[]"] pad_end_def)
qed

lemma octets_bytes:
  "m < 8 \<Longrightarrow> octets (concat (map (\<lambda>c. bits_of 8 (f c)) cs) @ replicate m False) = map (\<lambda>c. bits_of 8 (f c)) cs"
proof (induction cs)
  case Nil
  then show ?case by (simp add: octets.simps)
next
  case (Cons c cs)
  then show ?case by (subst octets.simps) simp
qed

section \<open>Secrets\<close>

lemma ALPHABET_index: "i < 32 \<Longrightarrow> index_of (ALPHABET ! i) ALPHABET = Some i"
proof -
  assume "i < 32"
  then have "i \<in> set [0..<32]" by simp
  moreover have "list_all (\<lambda>i. index_of (ALPHABET ! i) ALPHABET = Some i) [0..<32]" by code_simp
  ultimately show ?thesis by (simp only: list_all_iff)
qed

lemma ALPHABET_plain: "c \<in> set ALPHABET \<Longrightarrow> upper_char c = c \<and> \<not> is_space c \<and> c \<noteq> CHR ''=''"
proof -
  assume "c \<in> set ALPHABET"
  moreover have "list_all (\<lambda>c. upper_char c = c \<and> \<not> is_space c \<and> c \<noteq> CHR ''='') ALPHABET" by code_simp
  ultimately show ?thesis unfolding list_all_iff by blast
qed

lemma normalize_plain:
  assumes "set v \<subseteq> set ALPHABET" shows "normalize_secret v = v"
proof -
  have "map upper_char v = v" using assms ALPHABET_plain by (intro map_idI) blast
  moreover have "dropWhile (\<lambda>c. c = CHR ''='') (rev v) = rev v"
    using assms ALPHABET_plain by (cases v rule: rev_cases) auto
  moreover have "filter (\<lambda>c. \<not> is_space c) v = v" using assms ALPHABET_plain by (intro filter_True) blast
  ultimately show ?thesis by (simp add: normalize_secret_def)
qed

lemma all_some_map: "(\<And>x. x \<in> set xs \<Longrightarrow> f x = Some (g x)) \<Longrightarrow> all_some (map f xs) = Some (map g xs)"
  by (induction xs) auto

lemma decode_generate: "decodeBase32 (generateTotpSecret input) = Inr input"
proof -
  let ?bits = "concat (map (\<lambda>c. bits_of 8 (of_char c)) input)"
  let ?n = "\<lambda>q. num_of (pad_end 5 q)"
  have lt: "?n q < 32" if "q \<in> set (quintets ?bits)" for q
    using num_of_less [of "pad_end 5 q"] length_quintet [OF that] by simp
  have "length ALPHABET = 32" by (simp add: ALPHABET_def)
  then have "set (generateTotpSecret input) \<subseteq> set ALPHABET"
    using lt by (auto simp: generateTotpSecret_def)
  then have norm: "normalize_secret (generateTotpSecret input) = generateTotpSecret input" by (rule normalize_plain)
  have ix: "all_some (map (\<lambda>c. index_of c ALPHABET) (generateTotpSecret input)) = Some (map ?n (quintets ?bits))"
    using lt by (simp add: generateTotpSecret_def comp_def all_some_map ALPHABET_index)
  have "map (bits_of 5) (map ?n (quintets ?bits)) = map (pad_end 5) (quintets ?bits)"
    using bits_of_num length_quintet by (auto simp: list.map_comp) metis
  then have "octets (concat (map (bits_of 5) (map ?n (quintets ?bits)))) = map (\<lambda>c. bits_of 8 (of_char c)) input"
    using quintets_padded [of ?bits] octets_bytes [of _ of_char input] by (auto simp del: map_map)
  then show ?thesis
    by (simp add: decodeBase32_def norm ix num_of_bits comp_def)
qed

section \<open>Codes of a time step\<close>

lemma length_show_nat: "n < 10 ^ Suc k \<Longrightarrow> length (show_nat n) \<le> Suc k"
proof (induction k arbitrary: n)
  case (Suc k)
  show ?case
  proof (cases "n < 10")
    case False
    have "n div 10 < 10 ^ Suc k" using Suc.prems by (simp add: less_mult_imp_div_less mult.commute)
    from Suc.IH [OF this] False show ?thesis by (simp add: show_nat.simps [of n])
  qed (simp add: show_nat.simps)
qed (simp add: show_nat.simps)

lemma six_digits_code: "six_digits (padStart 6 CHR ''0'' (show_nat (n mod 1000000)))"
proof -
  have "length (show_nat (n mod 1000000)) \<le> Suc 5" by (rule length_show_nat) simp
  then show ?thesis
    by (auto simp: six_digits_def length_padStart padStart_def list_all_iff is_digit_def dest: show_nat_digits [unfolded is_digit_def])
qed

lemma totpCode_step:
  assumes "decodeBase32 secret = Inr key" and "\<And>m. length (hmac key m) = 20"
    and "0 \<le> time" and "time < 2 ^ 64"
  obtains code where "totpCode hmac secret time = Inr code" "six_digits code"
    "\<And>t. t div 30000 = time div 30000 \<Longrightarrow> totpCode hmac secret t = Inr code"
proof -
  have c: "0 \<le> time div 30000" "time div 30000 < 2 ^ 64" using assms(3,4) by (simp_all add: div_le_dividend pos_imp_zdiv_nonneg_iff) 
  then obtain m where m: "counterBuffer (time div 30000) = Inr m" by (simp add: counterBuffer_def)
  let ?o = "of_char (last (hmac key m)) mod 16 :: nat"
  have "?o < 16" by simp
  then have "?o + 4 \<le> length (hmac key m)" unfolding assms(2) by linarith
  then obtain w where w: "readUInt32BE (hmac key m) ?o = Inr w" by (simp add: readUInt32BE_def)
  have "totpCode hmac secret t = Inr (padStart 6 CHR ''0'' (show_nat (unat (w AND 0x7FFFFFFF) mod 1000000)))"
    if "t div 30000 = time div 30000" for t
    using assms(1) m w that by (simp add: totpCode_def Let_def)
  then show thesis using that six_digits_code by blast
qed

lemma any_window_True:
  assumes "\<And>w. w \<in> set ws \<Longrightarrow> \<exists>c. totpCode hmac secret (time + w * 30000) = Inr c"
  shows "any_window hmac secret code time ws = Inr (\<exists>w \<in> set ws. totpCode hmac secret (time + w * 30000) = Inr code)"
  using assms by (induction ws) fastforce+

section \<open>Main properties\<close>

text \<open>A secret survives its encoding.  Decoding the base32 text of a generated secret gives back the
  random bytes it was made from, whatever their number.\<close>

theorem totp_secret_round_trip: "decodeBase32 (generateTotpSecret input) = Inr input"
  by (rule decode_generate)

text \<open>One-time codes tolerate one step of clock drift and no more.  With a decodable secret, every code
  has six digits; a code made at most 30 seconds before or after the moment of verification is
  accepted; and what is accepted is the code of the current, the previous or the next time step.\<close>

theorem totp_window:
  assumes "decodeBase32 secret = Inr key" and "\<forall>m. length (hmac key m) = 20"
    and "30000 \<le> time" and "time < 2 ^ 63"
  shows "(\<forall>t. \<bar>t - time\<bar> \<le> 30000 \<longrightarrow> (\<exists>code. totpCode hmac secret t = Inr code \<and> six_digits code \<and>
       verifyTotp hmac secret code time = Inr True)) \<and>
    (verifyTotp hmac secret code time = Inr True \<longrightarrow>
       (\<exists>w \<in> {-1, 0, 1}. totpCode hmac secret (time + w * 30000) = Inr code))"
proof -
  have len: "\<And>m. length (hmac key m) = 20" using assms(2) by blast
  have some: "\<exists>c. totpCode hmac secret (time + w * 30000) = Inr c" if "w \<in> set [-1, 0, 1]" for w
  proof -
    have "0 \<le> time + w * 30000" "time + w * 30000 < 2 ^ 64" using that assms(3,4) by auto
    then show ?thesis using totpCode_step [where hmac = hmac, OF assms(1) len] by metis
  qed
  have v: "verifyTotp hmac secret c time =
      Inr (six_digits c \<and> (\<exists>w \<in> set [-1, 0, 1]. totpCode hmac secret (time + w * 30000) = Inr c))" for c
    by (simp only: verifyTotp_def any_window_True [OF some] if_distrib [of Inr]) simp
  have "\<exists>code. totpCode hmac secret t = Inr code \<and> six_digits code \<and> verifyTotp hmac secret code time = Inr True"
    if t: "\<bar>t - time\<bar> \<le> 30000" for t
  proof -
    have "0 \<le> t" "t < 2 ^ 64" using t assms(3,4) by auto
    then obtain c where c: "totpCode hmac secret t = Inr c" "six_digits c"
      "\<And>u. u div 30000 = t div 30000 \<Longrightarrow> totpCode hmac secret u = Inr c"
      using totpCode_step [where hmac = hmac, OF assms(1) len] by metis
    have "t div 30000 \<in> {time div 30000 - 1, time div 30000, time div 30000 + 1}" using t by auto
    then have "\<exists>w \<in> set [-1, 0, 1]. (time + w * 30000) div 30000 = t div 30000" by auto
    then have "\<exists>w \<in> set [-1, 0, 1]. totpCode hmac secret (time + w * 30000) = Inr c" using c(3) by blast
    then have "verifyTotp hmac secret c time = Inr True" using c(2) by (simp only: v simp_thms)
    with c(1,2) show ?thesis by blast
  qed
  then show ?thesis using v by auto
qed

definition example_hmac :: "string \<Rightarrow> string \<Rightarrow> string" where
  "example_hmac key m = take 20 (m @ key @ replicate 20 CHR ''x'')"

theorem totp_window_witness:
  "\<exists>code. totpCode example_hmac (generateTotpSecret ''seed'') 60001 = Inr code \<and>
     verifyTotp example_hmac (generateTotpSecret ''seed'') code 90000 = Inr True"
proof -
  have "\<forall>m. length (example_hmac ''seed'' m) = 20" by (auto simp: example_hmac_def min_def)
  from totp_window [where hmac = example_hmac, OF decode_generate this, of 90000 "[]"] show ?thesis by (auto dest: spec [of _ 60001])
qed

end
