(* ===== verification/Redis.thy ===== *)
theory Redis
  imports Schema
begin

text \<open>
  The part of Redis that the services use (\<open>apps/server/src/redis/redis.service.ts\<close> only opens the
  connection): texts with an expiry for sessions and the payout lock, counters for rate limits, and
  sorted sets for the connection leases of workers.  The three kinds of value have keys with different
  prefixes and are kept apart.  The scripts that the services send to be evaluated run atomically; each
  is one operation here.  An entry whose expiry has passed is absent.
\<close>

record redis =
  rd_text :: "string \<Rightarrow> (string \<times> instant option) option"
  rd_count :: "string \<Rightarrow> (int \<times> instant option) option"
  rd_set :: "string \<Rightarrow> ((string \<times> instant) list \<times> instant option) option"

definition empty_redis :: redis where
  "empty_redis = \<lparr>rd_text = (\<lambda>_. None), rd_count = (\<lambda>_. None), rd_set = (\<lambda>_. None)\<rparr>"

definition alive :: "instant \<Rightarrow> ('a \<times> instant option) option \<Rightarrow> 'a option" where
  "alive now x =
     (case x of None \<Rightarrow> None
      | Some (v, expiry) \<Rightarrow> (case expiry of None \<Rightarrow> Some v | Some t \<Rightarrow> if t \<le> now then None else Some v))"

section \<open>Texts\<close>

definition redis_get :: "instant \<Rightarrow> string \<Rightarrow> redis \<Rightarrow> string option" where
  "redis_get now key r = alive now (rd_text r key)"

definition redis_set_ex :: "instant \<Rightarrow> string \<Rightarrow> string \<Rightarrow> int \<Rightarrow> redis \<Rightarrow> redis" where
  "redis_set_ex now key v ms r = r\<lparr>rd_text := (rd_text r)(key \<mapsto> (v, Some (now + ms)))\<rparr>"

definition redis_del :: "string \<Rightarrow> redis \<Rightarrow> redis" where
  "redis_del key r = r\<lparr>rd_text := (rd_text r)(key := None)\<rparr>"

text \<open>\<open>SET key token PX ms NX\<close>, and the scripts that renew and release a lock only for its owner.\<close>

definition lock_acquire :: "instant \<Rightarrow> string \<Rightarrow> string \<Rightarrow> int \<Rightarrow> redis \<Rightarrow> redis \<times> bool" where
  "lock_acquire now key token ms r =
     (if redis_get now key r = None then (redis_set_ex now key token ms r, True) else (r, False))"

definition lock_renew :: "instant \<Rightarrow> string \<Rightarrow> string \<Rightarrow> int \<Rightarrow> redis \<Rightarrow> redis \<times> bool" where
  "lock_renew now key token ms r =
     (if redis_get now key r = Some token then (redis_set_ex now key token ms r, True) else (r, False))"

definition lock_release :: "instant \<Rightarrow> string \<Rightarrow> string \<Rightarrow> redis \<Rightarrow> redis" where
  "lock_release now key token r = (if redis_get now key r = Some token then redis_del key r else r)"

section \<open>Counters\<close>

definition redis_incr :: "instant \<Rightarrow> string \<Rightarrow> redis \<Rightarrow> redis \<times> int" where
  "redis_incr now key r =
     (case alive now (rd_count r key) of
        None \<Rightarrow> (r\<lparr>rd_count := (rd_count r)(key \<mapsto> (1, None))\<rparr>, 1)
      | Some n \<Rightarrow> (r\<lparr>rd_count := (rd_count r)(key \<mapsto> (n + 1, snd (the (rd_count r key))))\<rparr>, n + 1))"

definition redis_expire :: "instant \<Rightarrow> string \<Rightarrow> int \<Rightarrow> redis \<Rightarrow> redis" where
  "redis_expire now key ms r =
     (case alive now (rd_count r key) of
        None \<Rightarrow> r
      | Some n \<Rightarrow> r\<lparr>rd_count := (rd_count r)(key \<mapsto> (n, Some (now + ms)))\<rparr>)"

section \<open>Leases\<close>

definition live_set :: "instant \<Rightarrow> string \<Rightarrow> redis \<Rightarrow> (string \<times> instant) list" where
  "live_set now key r = (case alive now (rd_set r key) of None \<Rightarrow> [] | Some xs \<Rightarrow> xs)"

definition zadd :: "string \<Rightarrow> instant \<Rightarrow> (string \<times> instant) list \<Rightarrow> (string \<times> instant) list" where
  "zadd member score xs = (member, score) # filter (\<lambda>(m, t). m \<noteq> member) xs"

text \<open>The script of \<open>finalize\<close>: drop expired leases, refuse when the limit is reached, else add one.\<close>

definition lease_acquire :: "instant \<Rightarrow> string \<Rightarrow> int \<Rightarrow> int \<Rightarrow> string \<Rightarrow> redis \<Rightarrow> redis \<times> bool" where
  "lease_acquire now key ms limit lease r =
     (let xs = filter (\<lambda>(m, t). t > now) (live_set now key r);
          expiry = snd (the (rd_set r key))
      in if int (length xs) \<ge> limit
         then (r\<lparr>rd_set := (rd_set r)(key := if xs = [] then None else Some (xs, expiry))\<rparr>, False)
         else (r\<lparr>rd_set := (rd_set r)(key \<mapsto> (zadd lease (now + ms) xs, Some (now + 2 * ms)))\<rparr>, True))"

definition lease_renew :: "instant \<Rightarrow> string \<Rightarrow> int \<Rightarrow> string \<Rightarrow> redis \<Rightarrow> redis \<times> bool" where
  "lease_renew now key ms lease r =
     (if lease \<notin> fst ` set (live_set now key r) then (r, False)
      else (r\<lparr>rd_set := (rd_set r)(key \<mapsto> (zadd lease (now + ms) (live_set now key r), Some (now + 2 * ms)))\<rparr>, True))"

definition lease_remove :: "instant \<Rightarrow> string \<Rightarrow> string \<Rightarrow> redis \<Rightarrow> redis" where
  "lease_remove now key lease r =
     (let xs = filter (\<lambda>(m, t). m \<noteq> lease) (live_set now key r)
      in r\<lparr>rd_set := (rd_set r)(key := if xs = [] then None else Some (xs, snd (the (rd_set r key))))\<rparr>)"

section \<open>What the clients rely on\<close>

lemma redis_get_set [simp]:
  "redis_get t k (redis_set_ex now key v ms r) =
     (if k = key then if now + ms \<le> t then None else Some v else redis_get t k r)"
  by (simp add: redis_get_def redis_set_ex_def alive_def)

lemma redis_get_del [simp]: "redis_get t k (redis_del key r) = (if k = key then None else redis_get t k r)"
  by (simp add: redis_get_def redis_del_def alive_def)

text \<open>A lock with owners, as a client sees it.\<close>

locale owned_lock =
  fixes acquire :: "instant \<Rightarrow> 't \<Rightarrow> 'r \<Rightarrow> 'r \<times> bool"
    and renew :: "instant \<Rightarrow> 't \<Rightarrow> 'r \<Rightarrow> 'r \<times> bool"
    and release :: "instant \<Rightarrow> 't \<Rightarrow> 'r \<Rightarrow> 'r"
    and owner :: "instant \<Rightarrow> 'r \<Rightarrow> 't option"
    and ttl :: int
  assumes acquire_free: "acquire now token r = (r', True) \<Longrightarrow> owner now r = None"
    and acquire_owner: "acquire now token r = (r', True) \<Longrightarrow> owner t r' = (if now + ttl \<le> t then None else Some token)"
    and acquire_refused: "acquire now token r = (r', False) \<Longrightarrow> r' = r \<and> owner now r \<noteq> None"
    and renew_owner: "renew now token r = (r', True) \<Longrightarrow> owner now r = Some token \<and>
        owner t r' = (if now + ttl \<le> t then None else Some token)"
    and renew_refused: "renew now token r = (r', False) \<Longrightarrow> r' = r \<and> owner now r \<noteq> Some token"
    and release_other: "owner now r \<noteq> Some token \<Longrightarrow> release now token r = r"
    and release_own: "owner now r = Some token \<Longrightarrow> owner t (release now token r) = None"
begin

text \<open>Within its time a lock is exclusive: nobody else acquires it, renews it or releases it.\<close>

lemma exclusive:
  assumes "owner now r = Some token" and "other \<noteq> token"
  shows "acquire now other r = (r, False)" "renew now other r = (r, False)" "release now other r = r"
proof -
  obtain r1 b1 r2 b2 where a: "acquire now other r = (r1, b1)" and n: "renew now other r = (r2, b2)" by fastforce
  show "acquire now other r = (r, False)" using a acquire_free acquire_refused assms(1) by (cases b1) force+
  show "renew now other r = (r, False)" using n renew_owner renew_refused assms by (cases b2) force+
  show "release now other r = r" using release_other assms by simp
qed

end

interpretation redis_lock: owned_lock "\<lambda>now token. lock_acquire now key token ms"
    "\<lambda>now token. lock_renew now key token ms" "\<lambda>now token. lock_release now key token"
    "\<lambda>now. redis_get now key" ms for key ms
  by unfold_locales (auto simp: lock_acquire_def lock_renew_def lock_release_def split: if_splits)

lemma distinct_zadd: "unique_on fst xs \<Longrightarrow> unique_on fst (zadd m t xs)"
  by (induction xs) (auto simp: zadd_def)

lemma length_zadd: "length (zadd m t xs) \<le> Suc (length xs)"
  by (simp add: zadd_def)

text \<open>No more leases are live at any later time than the limit allows.\<close>

lemma lease_acquire_limit:
  assumes "lease_acquire now key ms limit lease r = (r', True)"
  shows "int (length (live_set now key r')) \<le> limit \<or> ms \<le> 0"
  using assms length_zadd [of lease "now + ms" "filter (\<lambda>(m, t). t > now) (live_set now key r)"]
  by (auto simp: lease_acquire_def live_set_def alive_def Let_def split: if_splits)

end
