(* ===== verification/Auth.thy ===== *)
theory Auth
  imports Customers Totp Redis
begin

text \<open>
  Administrators, \<open>apps/server/src/auth\<close>: login with password, lockout, one-time codes and backup codes,
  sessions, and the two guards in front of every handler.  A handler of this service works on the
  database and on Redis, so its state is a pair.  The cookie that a reply sets is part of the result.
  Random bytes and salts are arguments.
\<close>

type_synonym auth_state = "store \<times> redis"

record session =
  se_id :: uuid
  se_email :: string
  se_displayName :: string
  se_role :: AdminRole
  se_sessionId :: string
  se_csrfToken :: string
  se_createdAt :: string
  se_lastSeenAt :: string

record login_dto =
  lg_email :: string
  lg_password :: string
  lg_totpCode :: "string option"

record random_source =
  rs_token :: string
  rs_session :: string
  rs_csrf :: string

definition SESSION_COOKIE :: string where
  "SESSION_COOKIE = ''mitm_session''"

definition SESSION_SECONDS :: int where
  "SESSION_SECONDS = 8 * 60 * 60"

definition DUMMY_HASH :: string where
  "DUMMY_HASH = ''$argon2id$v=19$m=65536,t=3,p=1$JHNhbHQxMjM0NTY3OA$RZ9PZ1jC3LM1I1bs2N0DgPzjF0KnxY3Q5kJATPR9xJ0''"

definition sessionKey :: "services \<Rightarrow> string \<Rightarrow> string" where
  "sessionKey V token = ''auth:session:'' @ sha256 (sv_crypto V) token"

section \<open>Sessions as text\<close>

fun role_text :: "AdminRole \<Rightarrow> string" where
  "role_text OWNER = ''OWNER''"
| "role_text AdminRole.OPERATOR = ''OPERATOR''"
| "role_text VIEWER = ''VIEWER''"

definition session_json :: "session \<Rightarrow> json" where
  "session_json e =
     JObj [(''id'', JStr (se_id e)), (''email'', JStr (se_email e)), (''displayName'', JStr (se_displayName e)),
       (''role'', JStr (role_text (se_role e))), (''sessionId'', JStr (se_sessionId e)),
       (''csrfToken'', JStr (se_csrfToken e)), (''createdAt'', JStr (se_createdAt e)),
       (''lastSeenAt'', JStr (se_lastSeenAt e))]"

definition text_field :: "string \<Rightarrow> json \<Rightarrow> string" where
  "text_field k v = (case json_field k v of Some (JStr t) \<Rightarrow> t | _ \<Rightarrow> [])"

text \<open>What \<open>getSession\<close> keeps of the parsed session; the rest is read from the administrator's row.\<close>

definition parse_session :: "string \<Rightarrow> admin option \<Rightarrow> instant \<Rightarrow> session option" where
  "parse_session raw admin now =
     (case (json_parse raw, admin) of
        (Some v, Some a) \<Rightarrow>
          Some \<lparr>se_id = text_field ''id'' v, se_email = ad_email a, se_displayName = ad_displayName a,
                se_role = ad_role a, se_sessionId = text_field ''sessionId'' v,
                se_csrfToken = text_field ''csrfToken'' v, se_createdAt = text_field ''createdAt'' v,
                se_lastSeenAt = toISOString now\<rparr>
      | _ \<Rightarrow> None)"

section \<open>Administrators\<close>

definition find_admin :: "uuid \<Rightarrow> store \<Rightarrow> admin option" where
  "find_admin i s = List.find (\<lambda>a. ad_id a = i) (admins s)"

definition find_admin_email :: "string \<Rightarrow> store \<Rightarrow> admin option" where
  "find_admin_email email s = List.find (\<lambda>a. ad_email a = email) (admins s)"

definition update_admin :: "uuid \<Rightarrow> (admin \<Rightarrow> admin) \<Rightarrow> store \<Rightarrow> store" where
  "update_admin i f s = s\<lparr>admins := update_where (\<lambda>a. ad_id a = i) f (admins s)\<rparr>"

definition totp_context :: "uuid \<Rightarrow> string" where
  "totp_context i = ''admin:'' @ i @ '':totp''"

definition check_code :: "services \<Rightarrow> instant \<Rightarrow> uuid \<Rightarrow> string \<Rightarrow> string \<Rightarrow> bool result" where
  "check_code V now i ciphertext code =
     ebind (decrypt (sv_crypto V) ciphertext (totp_context i)) (\<lambda>secret.
       verifyTotp (sv_hmac_sha1 V) secret code now)"

definition is_locked :: "instant \<Rightarrow> admin \<Rightarrow> bool" where
  "is_locked now a \<longleftrightarrow> (case ad_lockedUntil a of None \<Rightarrow> False | Some t \<Rightarrow> now < t)"

definition normalize_backup :: "string \<Rightarrow> string" where
  "normalize_backup code = map upper_char (filter (\<lambda>c. \<not> is_space c \<and> c \<noteq> CHR ''-'') code)"

definition find_backup :: "services \<Rightarrow> uuid \<Rightarrow> string \<Rightarrow> store \<Rightarrow> backup_code option" where
  "find_backup V i code s =
     List.find (\<lambda>b. verifySecret (sv_crypto V) (bc_codeHash b) (normalize_backup code))
       (filter (\<lambda>b. bc_adminId b = i \<and> bc_usedAt b = None) (backupCodes s))"

text \<open>The second factor: a valid one-time code, else an unused backup code.\<close>

definition second_factor ::
  "services \<Rightarrow> instant \<Rightarrow> admin \<Rightarrow> string option \<Rightarrow> bool \<Rightarrow> store \<Rightarrow> (bool \<times> uuid option) result" where
  "second_factor V now a code passwordOk s =
     (if \<not> ad_totpEnabled a then Inr (True, None)
      else
        ebind (case (code, ad_totpSecretCiphertext a) of
                 (Some c, Some x) \<Rightarrow> if c = [] \<or> x = [] then Inr False else check_code V now (ad_id a) x c
               | _ \<Rightarrow> Inr False) (\<lambda>totpOk.
        if totpOk \<or> \<not> passwordOk \<or> is_locked now a \<or> \<not> truthy code then Inr (totpOk, None)
        else (case find_backup V (ad_id a) (the code) s of
                None \<Rightarrow> Inr (False, None)
              | Some b \<Rightarrow> Inr (True, Some (bc_id b)))))"

definition fail_login :: "services \<Rightarrow> instant \<Rightarrow> admin option \<Rightarrow> string \<Rightarrow> store \<Rightarrow> store \<times> 'a result" where
  "fail_login V now admin ipAddress s =
     (let s1 = (case admin of None \<Rightarrow> s
          | Some a \<Rightarrow> update_admin (ad_id a) (\<lambda>x. x\<lparr>ad_failedLoginCount := ad_failedLoginCount x + 1,
              ad_lockedUntil := (if ad_failedLoginCount a + 1 \<ge> 5 \<and> \<not> is_locked now a
                                 then Some (now + 15 * 60000) else ad_lockedUntil x)\<rparr>) s)
      in andThen (audit V now \<lparr>au_actorId = None, au_action = ''AUTH_LOGIN_FAILED'', au_entityType = ''Admin'',
             au_entityId = map_option ad_id admin, au_ipAddress = Some ipAddress, au_before = None, au_after = None\<rparr> s1)
           (\<lambda>_ s2. (s2, Inl (UnauthorizedException ''Invalid credentials or TOTP''))))"

definition new_session :: "instant \<Rightarrow> random_source \<Rightarrow> admin \<Rightarrow> session" where
  "new_session now rnd a =
     \<lparr>se_id = ad_id a, se_email = ad_email a, se_displayName = ad_displayName a, se_role = ad_role a,
      se_sessionId = randomToken (rs_session rnd), se_csrfToken = randomToken (rs_csrf rnd),
      se_createdAt = toISOString now, se_lastSeenAt = toISOString now\<rparr>"

definition consume_backup :: "instant \<Rightarrow> uuid option \<Rightarrow> store \<Rightarrow> store result" where
  "consume_backup now b s =
     (case b of None \<Rightarrow> Inr s
      | Some i \<Rightarrow>
          if length (filter (\<lambda>x. bc_id x = i \<and> bc_usedAt x = None) (backupCodes s)) \<noteq> 1
          then Inl (UnauthorizedException ''Backup code has already been used'')
          else Inr (s\<lparr>backupCodes := update_where (\<lambda>x. bc_id x = i \<and> bc_usedAt x = None)
                  (\<lambda>x. x\<lparr>bc_usedAt := Some now\<rparr>) (backupCodes s)\<rparr>))"

definition open_session ::
  "services \<Rightarrow> instant \<Rightarrow> random_source \<Rightarrow> string \<Rightarrow> admin \<Rightarrow> auth_state \<Rightarrow> auth_state \<times> (session \<times> string) result" where
  "open_session V now rnd ipAddress a st =
     (let (s, r) = st;
          token = randomToken (rs_token rnd);
          e = new_session now rnd a;
          r1 = redis_set_ex now (sessionKey V token) (print_json (session_json e)) (SESSION_SECONDS * 1000) r;
          s1 = update_admin (ad_id a) (\<lambda>x. x\<lparr>ad_failedLoginCount := 0, ad_lockedUntil := None,
                 ad_lastLoginAt := Some now\<rparr>) s;
          (s2, x) = audit V now \<lparr>au_actorId = Some (ad_id a), au_action = ''AUTH_LOGIN'', au_entityType = ''Admin'',
             au_entityId = Some (ad_id a), au_ipAddress = Some ipAddress, au_before = None, au_after = None\<rparr> s1
      in ((s2, r1), ebind x (\<lambda>_. Inr (e, token))))"

definition login ::
  "services \<Rightarrow> instant \<Rightarrow> random_source \<Rightarrow> login_dto \<Rightarrow> string \<Rightarrow> auth_state \<Rightarrow> auth_state \<times> (session \<times> string) result" where
  "login V now rnd dto ipAddress st =
     (let (s, r) = st;
          email = toLowerCase (trim (lg_email dto));
          admin = find_admin_email email s;
          passwordOk = verifySecret (sv_crypto V) (case admin of None \<Rightarrow> DUMMY_HASH | Some a \<Rightarrow> ad_passwordHash a) (lg_password dto);
          factor = (case admin of None \<Rightarrow> Inr (True, None) | Some a \<Rightarrow> second_factor V now a (lg_totpCode dto) passwordOk s)
      in case factor of
           Inl e \<Rightarrow> (st, Inl e)
         | Inr (totpOk, backup) \<Rightarrow>
             (case admin of
                None \<Rightarrow> (let (s1, x) = fail_login V now None ipAddress s in ((s1, r), x))
              | Some a \<Rightarrow>
                  if \<not> passwordOk \<or> \<not> totpOk \<or> is_locked now a \<or> ad_status a \<noteq> EntityStatus.ACTIVE
                  then (let (s1, x) = fail_login V now (Some a) ipAddress s in ((s1, r), x))
                  else (case consume_backup now backup s of
                          Inl e \<Rightarrow> (st, Inl e)
                        | Inr s1 \<Rightarrow> open_session V now rnd ipAddress a (s1, r))))"

definition getSession :: "services \<Rightarrow> instant \<Rightarrow> string option \<Rightarrow> auth_state \<Rightarrow> auth_state \<times> session option result" where
  "getSession V now token st =
     (let (s, r) = st in
      if \<not> truthy token then (st, Inr None)
      else
        (let key = sessionKey V (the token) in
         case redis_get now key r of
           None \<Rightarrow> (st, Inr None)
         | Some raw \<Rightarrow>
             (case json_parse raw of
                None \<Rightarrow> (st, Inl (Error ''SyntaxError''))
              | Some v \<Rightarrow>
                  (let admin = find_admin (text_field ''id'' v) s in
                   if admin = None \<or> ad_status (the admin) \<noteq> EntityStatus.ACTIVE then ((s, redis_del key r), Inr None)
                   else (case parse_session raw admin now of
                           None \<Rightarrow> (st, Inr None)
                         | Some e \<Rightarrow> ((s, redis_set_ex now key (print_json (session_json e)) (SESSION_SECONDS * 1000) r),
                                     Inr (Some e)))))))"

definition logout :: "services \<Rightarrow> string option \<Rightarrow> auth_state \<Rightarrow> auth_state" where
  "logout V token st = (if truthy token then (fst st, redis_del (sessionKey V (the token)) (snd st)) else st)"

section \<open>Setting up one-time codes\<close>

definition beginTotp ::
  "services \<Rightarrow> instant \<Rightarrow> string \<Rightarrow> string \<Rightarrow> uuid \<Rightarrow> store \<Rightarrow> store \<times> (string \<times> string) result" where
  "beginTotp V now bytes iv adminId s =
     (case find_admin adminId s of
        None \<Rightarrow> (s, Inl (RecordNotFound ''Admin''))
      | Some a \<Rightarrow>
          (let secret = generateTotpSecret bytes;
               s1 = update_admin adminId (\<lambda>x. x\<lparr>ad_totpSecretCiphertext :=
                      Some (encrypt (sv_crypto V) iv secret (totp_context adminId)), ad_totpEnabled := False\<rparr>) s
           in andThen (audit V now (audit_entry adminId ''AUTH_TOTP_SETUP_STARTED'' ''Admin'' adminId None None) s1)
                (\<lambda>_ s2. (s2, Inr (secret, totpUri secret (ad_email a))))))"

definition make_backup :: "string \<Rightarrow> string" where
  "make_backup bytes =
     map upper_char (take 12 (map (\<lambda>c. if c = CHR ''-'' \<or> c = CHR ''_'' then CHR ''A'' else c) (randomToken bytes)))"

definition add_backup :: "uuid \<Rightarrow> string \<Rightarrow> store \<Rightarrow> store" where
  "add_backup adminId codeHash s =
     (let (i, s1) = new_id s
      in s1\<lparr>backupCodes := backupCodes s1 @ [\<lparr>bc_id = i, bc_adminId = adminId, bc_codeHash = codeHash, bc_usedAt = None\<rparr>]\<rparr>)"

definition enableTotp ::
  "services \<Rightarrow> instant \<Rightarrow> string list \<Rightarrow> string \<Rightarrow> uuid \<Rightarrow> string \<Rightarrow> store \<Rightarrow> store \<times> string list result" where
  "enableTotp V now randoms salt adminId code s =
     (case find_admin adminId s of
        None \<Rightarrow> (s, Inl (RecordNotFound ''Admin''))
      | Some a \<Rightarrow>
          (if \<not> truthy (ad_totpSecretCiphertext a) then (s, Inl (UnauthorizedException ''TOTP setup has not started''))
           else (case check_code V now adminId (the (ad_totpSecretCiphertext a)) code of
                   Inl e \<Rightarrow> (s, Inl e)
                 | Inr False \<Rightarrow> (s, Inl (UnauthorizedException ''Invalid TOTP code''))
                 | Inr True \<Rightarrow>
                     (let codes = map make_backup (take 10 randoms);
                          s1 = update_admin adminId (\<lambda>x. x\<lparr>ad_totpEnabled := True\<rparr>) s;
                          s2 = s1\<lparr>backupCodes := filter (\<lambda>b. bc_adminId b \<noteq> adminId) (backupCodes s1)\<rparr>;
                          s3 = fold (\<lambda>c. add_backup adminId (hashSecret (sv_crypto V) salt c)) codes s2
                      in andThen (audit V now (audit_entry adminId ''AUTH_TOTP_ENABLED'' ''Admin'' adminId None None) s3)
                           (\<lambda>_ s4. (s4, Inr codes))))))"

definition assertTotp :: "services \<Rightarrow> instant \<Rightarrow> uuid \<Rightarrow> string \<Rightarrow> store \<Rightarrow> unit result" where
  "assertTotp V now adminId code s =
     (case find_admin adminId s of
        None \<Rightarrow> Inl (RecordNotFound ''Admin'')
      | Some a \<Rightarrow>
          if \<not> ad_totpEnabled a \<or> \<not> truthy (ad_totpSecretCiphertext a)
          then Inl (UnauthorizedException ''TOTP must be enabled before approving payouts'')
          else ebind (check_code V now adminId (the (ad_totpSecretCiphertext a)) code) (\<lambda>ok.
                 guard_or ok (UnauthorizedException ''Invalid TOTP code'')))"

section \<open>Guards\<close>

record request =
  rq_method :: string
  rq_cookie :: "string option"
  rq_csrf :: "string option"

definition auth_guard :: "services \<Rightarrow> instant \<Rightarrow> bool \<Rightarrow> request \<Rightarrow> auth_state \<Rightarrow> auth_state \<times> session option result" where
  "auth_guard V now isPublic rq st =
     (if isPublic then (st, Inr None)
      else (case getSession V now (rq_cookie rq) st of
              (st1, Inl e) \<Rightarrow> (st1, Inl e)
            | (st1, Inr None) \<Rightarrow> (st1, Inl (UnauthorizedException ''Authentication required''))
            | (st1, Inr (Some e)) \<Rightarrow>
                if rq_method rq \<notin> {''GET'', ''HEAD'', ''OPTIONS''} \<and> rq_csrf rq \<noteq> Some (se_csrfToken e)
                then (st1, Inl (ForbiddenException ''Invalid CSRF token''))
                else (st1, Inr (Some e))))"

definition roles_guard :: "AdminRole list \<Rightarrow> session option \<Rightarrow> unit result" where
  "roles_guard required admin =
     (if required = [] then Inr ()
      else (case admin of
              Some e \<Rightarrow> guard_or (se_role e \<in> set required) (ForbiddenException ''Insufficient role'')
            | None \<Rightarrow> Inl (ForbiddenException ''Insufficient role'')))"

section \<open>Lookups\<close>

lemma find_map_same: "(\<And>x. P (f x) = P x) \<Longrightarrow> List.find P (map f xs) = map_option f (List.find P xs)"
  by (induction xs) auto

lemma find_admin_update [simp]:
  "(\<And>x. ad_id (f x) = ad_id x) \<Longrightarrow>
     find_admin j (update_admin i f s) = map_option (\<lambda>x. if ad_id x = i then f x else x) (find_admin j s)"
  by (simp add: find_admin_def update_admin_def update_where_def find_map_same)

lemma find_email_update [simp]:
  "(\<And>x. ad_email (f x) = ad_email x) \<Longrightarrow>
     find_admin_email j (update_admin i f s) = map_option (\<lambda>x. if ad_id x = i then f x else x) (find_admin_email j s)"
  by (simp add: find_admin_email_def update_admin_def update_where_def find_map_same)

lemma find_admin_logged: "logged_only s t \<Longrightarrow> find_admin i t = find_admin i s"
  "logged_only s t \<Longrightarrow> find_admin_email email t = find_admin_email email s"
  by (simp_all add: find_admin_def find_admin_email_def logged_only_tables(17))

lemma find_admin_unique:
  assumes "unique_on ad_id (admins s)" and "find_admin_email email s = Some a"
  shows "find_admin (ad_id a) s = Some a"
proof -
  from assms(2) have "a \<in> set (admins s)" by (auto simp: find_admin_email_def dest: find_SomeD)
  with assms(1) show ?thesis by (simp add: find_admin_def find_Some_iff_unique)
qed

section \<open>Lockout\<close>

lemma fail_login_logged:
  "logged_only (case admin of None \<Rightarrow> s
      | Some a \<Rightarrow> update_admin (ad_id a) (\<lambda>x. x\<lparr>ad_failedLoginCount := ad_failedLoginCount x + 1,
          ad_lockedUntil := (if ad_failedLoginCount a + 1 \<ge> 5 \<and> \<not> is_locked now a
                             then Some (now + 15 * 60000) else ad_lockedUntil x)\<rparr>) s)
     (fst (fail_login V now admin ipAddress s))"
  unfolding fail_login_def Let_def by (rule andThen_audit_logged) simp

lemma fail_login_isl: "isl (snd (fail_login V now admin ipAddress s))"
proof -
  have "isl (snd (andThen r (\<lambda>_ s2. (s2, Inl e))))" for r :: "store \<times> unit result" and e
    by (cases r; cases "snd r") (auto simp: andThen_def)
  then show ?thesis unfolding fail_login_def Let_def .
qed

lemma locked_login:
  assumes "find_admin_email (toLowerCase (trim (lg_email dto))) s = Some a" and "is_locked now a"
  shows "isl (snd (login V now rnd dto ip (s, r))) \<and> snd (fst (login V now rnd dto ip (s, r))) = r"
proof -
  obtain t e where "fail_login V now (Some a) ip s = (t, Inl e :: (session \<times> string) result)"
    using fail_login_isl [of V now "Some a" ip s] by (metis isl_def prod.collapse)
  then show ?thesis using assms by (auto simp: login_def Let_def split: sum.splits prod.splits)
qed

section \<open>Sessions\<close>

lemma session_round_trip: "json_parse (print_json (session_json e)) = Some (session_json e)"
  by (rule parse_print) (simp add: session_json_def)

lemma session_fields:
  "text_field ''id'' (session_json e) = se_id e" "text_field ''sessionId'' (session_json e) = se_sessionId e"
  "text_field ''csrfToken'' (session_json e) = se_csrfToken e" "text_field ''createdAt'' (session_json e) = se_createdAt e"
  by (simp_all add: text_field_def json_field_def session_json_def)

lemma getSession_found:
  assumes "redis_get now (sessionKey V token) r = Some (print_json (session_json e))" and "token \<noteq> []"
    and "find_admin (se_id e) s = Some a" and "ad_status a = EntityStatus.ACTIVE"
  shows "snd (getSession V now (Some token) (s, r)) = Inr (Some (e\<lparr>se_email := ad_email a,
    se_displayName := ad_displayName a, se_role := ad_role a, se_lastSeenAt := toISOString now\<rparr>))"
  using assms by (simp add: getSession_def truthy_def session_round_trip session_fields parse_session_def)

lemma open_session_redis:
  "open_session V now rnd ip a (s, r) = (st', Inr (e, token)) \<Longrightarrow>
     e = new_session now rnd a \<and> token = randomToken (rs_token rnd) \<and>
     snd st' = redis_set_ex now (sessionKey V token) (print_json (session_json e)) (SESSION_SECONDS * 1000) r \<and>
     logged_only (update_admin (ad_id a) (\<lambda>x. x\<lparr>ad_failedLoginCount := 0, ad_lockedUntil := None,
                 ad_lastLoginAt := Some now\<rparr>) s) (fst st')"
  by (auto simp: open_session_def Let_def audit_def ebind_eq_Inr split: prod.splits dest: record_event_frame)

lemma consume_backup_admins: "consume_backup now b s = Inr t \<Longrightarrow> admins t = admins s"
  by (auto simp: consume_backup_def split: option.splits if_splits)

text \<open>The branches of a successful login.\<close>

lemma login_success:
  assumes "login V now rnd dto ip (s, r) = (st', Inr (e, token))"
  obtains a backup s1 where
    "find_admin_email (toLowerCase (trim (lg_email dto))) s = Some a"
    "verifySecret (sv_crypto V) (ad_passwordHash a) (lg_password dto)"
    "second_factor V now a (lg_totpCode dto) True s = Inr (True, backup)" "\<not> is_locked now a"
    "ad_status a = EntityStatus.ACTIVE" "consume_backup now backup s = Inr s1"
    "open_session V now rnd ip a (s1, r) = (st', Inr (e, token))"
proof -
  have no: "fail_login V now x ip s \<noteq> (t, Inr y)" for x t and y :: "session \<times> string"
    by (metis fail_login_isl snd_conv sum.disc(2))
  from assms no that show thesis
    by (auto simp: login_def Let_def split: option.splits sum.splits prod.splits if_splits)
qed

text \<open>The second factor throws only plain errors, so a refusal is told apart from a failure.\<close>

lemma totpCode_error: "totpCode h secret t = Inl e \<Longrightarrow> \<exists>m. e = Error m"
  by (auto simp: totpCode_def ebind_eq_Inl decodeBase32_def counterBuffer_def readUInt32BE_def Let_def
      split: option.splits if_splits)

lemma any_window_error: "any_window h secret code t ws = Inl e \<Longrightarrow> \<exists>m. e = Error m"
  by (induction ws) (auto simp: ebind_eq_Inl totpCode_error split: if_splits)

lemma verifyTotp_error: "verifyTotp h secret code t = Inl e \<Longrightarrow> \<exists>m. e = Error m"
  by (auto simp: verifyTotp_def simp del: any_window.simps dest: any_window_error split: if_splits)

lemma decrypt_error: "decrypt C payload ctxt = Inl e \<Longrightarrow> \<exists>m. e = Error m"
  by (auto simp: decrypt_def Let_def split: if_splits option.splits)

lemma check_code_error: "check_code V now i x c = Inl e \<Longrightarrow> \<exists>m. e = Error m"
  by (auto simp: check_code_def ebind_eq_Inl dest: verifyTotp_error decrypt_error)

lemma second_factor_error: "second_factor V now a code ok s = Inl e \<Longrightarrow> \<exists>m. e = Error m"
  by (auto simp: second_factor_def ebind_eq_Inl check_code_error split: if_splits option.splits)

lemma refused_login:
  assumes "login V now rnd dto ip (s, r) = ((t, r1), Inl (UnauthorizedException ''Invalid credentials or TOTP''))"
    and "find_admin_email (toLowerCase (trim (lg_email dto))) s = Some a"
  shows "t = fst (fail_login V now (Some a) ip s :: store \<times> (session \<times> string) result) \<or>
    (\<exists>s1. open_session V now rnd ip a (s1, r) = ((t, r1), Inl (UnauthorizedException ''Invalid credentials or TOTP'')))"
  using assms
  by (auto simp: login_def Let_def consume_backup_def dest: second_factor_error
      split: sum.splits prod.splits if_splits option.splits)

lemma open_session_isr: "\<exists>y. snd (open_session V now rnd ip a st) = Inr y"
proof -
  obtain s r where st: "st = (s, r)" by fastforce
  let ?i = "\<lparr>au_actorId = Some (ad_id a), au_action = ''AUTH_LOGIN'', au_entityType = ''Admin'',
             au_entityId = Some (ad_id a), au_ipAddress = Some ip, au_before = None, au_after = None\<rparr>"
  have v: "audit_value ?i" by (simp add: audit_value_def)
  obtain t where "record_event (sv_crypto V) (sv_loc V) now ?i (update_admin (ad_id a) (\<lambda>x. x\<lparr>ad_failedLoginCount := 0,
      ad_lockedUntil := None, ad_lastLoginAt := Some now\<rparr>) s) = (t, Inr ())" by (rule record_event_total [OF v])
  then show ?thesis by (simp add: open_session_def st Let_def audit_def)
qed

lemma second_factor_True:
  assumes "second_factor V now a code True s = Inr (True, backup)" and "ad_totpEnabled a"
  shows "(\<exists>x c. ad_totpSecretCiphertext a = Some x \<and> code = Some c \<and> check_code V now (ad_id a) x c = Inr True) \<or>
    (\<exists>b c. code = Some c \<and> backup = Some (bc_id b) \<and> find_backup V (ad_id a) c s = Some b)"
  using assms by (auto simp: second_factor_def ebind_eq_Inr truthy_def split: option.splits if_splits)

lemma find_backupD:
  "find_backup V i c s = Some b \<Longrightarrow> b \<in> set (backupCodes s) \<and> bc_adminId b = i \<and> bc_usedAt b = None \<and>
     verifySecret (sv_crypto V) (bc_codeHash b) (normalize_backup c)"
  by (auto simp: find_backup_def dest: find_SomeD)

lemma consume_backup_used:
  "consume_backup now (Some i) s = Inr t \<Longrightarrow> b \<in> set (backupCodes t) \<Longrightarrow> bc_id b = i \<Longrightarrow> bc_usedAt b \<noteq> None"
proof -
  assume t: "consume_backup now (Some i) s = Inr t" and b: "b \<in> set (backupCodes t)" "bc_id b = i"
  from t have "t = s\<lparr>backupCodes := update_where (\<lambda>x. bc_id x = i \<and> bc_usedAt x = None)
      (\<lambda>x. x\<lparr>bc_usedAt := Some now\<rparr>) (backupCodes s)\<rparr>"
    by (simp add: consume_backup_def split: if_splits)
  then have "b \<in> (\<lambda>x. if bc_id x = i \<and> bc_usedAt x = None then x\<lparr>bc_usedAt := Some now\<rparr> else x) ` set (backupCodes s)"
    using b(1) by (simp add: update_where_def)
  then obtain x where x: "b = (if bc_id x = i \<and> bc_usedAt x = None then x\<lparr>bc_usedAt := Some now\<rparr> else x)" by blast
  then show ?thesis using b(2) by (cases "bc_id x = i \<and> bc_usedAt x = None") auto
qed

section \<open>Main properties\<close>



lemma encrypt_truthy [simp]: "truthy (Some (encrypt C iv p x))"
  by (simp add: truthy_def encrypt_def Let_def split: prod.splits)

subsection \<open>Witnesses\<close>

definition example_admin :: "int \<Rightarrow> admin" where
  "example_admin failures =
     \<lparr>ad_id = ''a1'', ad_email = ''root@x'', ad_displayName = ''Root'', ad_passwordHash = ''s$pw'', ad_role = OWNER,
      ad_status = EntityStatus.ACTIVE, ad_totpSecretCiphertext = None, ad_totpEnabled = False,
      ad_failedLoginCount = failures, ad_lockedUntil = None, ad_lastLoginAt = None\<rparr>"

definition admin_store :: "int \<Rightarrow> store" where
  "admin_store failures = (empty_store show_nat)\<lparr>admins := [example_admin failures]\<rparr>"

definition example_login :: "string \<Rightarrow> login_dto" where
  "example_login password = \<lparr>lg_email = '' Root@x'', lg_password = password, lg_totpCode = None\<rparr>"

definition example_random :: random_source where
  "example_random = \<lparr>rs_token = ''tok'', rs_session = ''ses'', rs_csrf = ''csr''\<rparr>"

lemma example_email: "toLowerCase (trim '' Root@x'') = ''root@x''"
  by code_simp

lemma example_facts:
  "toLowerCase (trim (lg_email (example_login p))) = ''root@x''"
  "find_admin_email ''root@x'' (admin_store n) = Some (example_admin n)"
  "verifySecret (sv_crypto example_services) ''s$pw'' ''pw''"
  "\<not> verifySecret (sv_crypto example_services) ''s$pw'' ''no''"
  "second_factor V now (example_admin n) code ok s = Inr (True, None)"
  "\<not> is_locked now (example_admin n)"
  by (simp_all add: example_login_def find_admin_email_def admin_store_def example_admin_def second_factor_def
      is_locked_def verifySecret_def example_services_def example_crypto_def crypto_init_def example_crypto_lib_def
      example_email)

lemma andThen_audit_error:
  "audit_value input \<Longrightarrow> snd (andThen (audit V now input s) (\<lambda>_ t. (g t, Inl e))) = Inl e"
proof -
  assume "audit_value input"
  then obtain t where "record_event (sv_crypto V) (sv_loc V) now input s = (t, Inr ())"
    by (rule record_event_total)
  then show ?thesis by (simp add: audit_def)
qed

lemma fail_login_refuses:
  "snd (fail_login V now admin ip s) = Inl (UnauthorizedException ''Invalid credentials or TOTP'')"
  unfolding fail_login_def Let_def by (rule andThen_audit_error) (simp add: audit_value_def)



end
