(* ===== verification/Deposits.thy ===== *)
theory Deposits
  imports DepositAllocation Alerts Wallets
begin

text \<open>
  The deposit scanner of \<open>apps/server/src/wallets/deposits.service.ts\<close>: the receipts of the wallets
  become deposits, confirmed deposits are allocated, and an allocated deposit that loses its
  confirmations is marked as reorganised and raises a critical alert.
\<close>

section \<open>Addresses\<close>

fun put_upstream :: "string \<Rightarrow> upstream \<Rightarrow> (string \<times> upstream) list \<Rightarrow> (string \<times> upstream) list" where
  "put_upstream a u [] = [(a, u)]"
| "put_upstream a u ((b, v) # m) = (if a = b then (b, u) # m else (b, v) # put_upstream a u m)"

definition assign_address ::
    "upstream \<Rightarrow> (string \<times> upstream) list \<Rightarrow> (string \<times> upstream) list result" where
  "assign_address u byAddress =
     (case up_receiveAddress u of
        None \<Rightarrow> Inr byAddress
      | Some a \<Rightarrow>
          if a = [] then Inr byAddress
          else (case map_of byAddress a of
                  None \<Rightarrow> Inr (put_upstream a u byAddress)
                | Some existing \<Rightarrow>
                    if up_accountKey existing \<noteq> up_accountKey u
                    then Inl (Error (''Receive address '' @ a @ '' is assigned to multiple pool accounts''))
                    else if up_priority u < up_priority existing
                    then Inr (put_upstream a u byAddress) else Inr byAddress))"

definition by_address :: "AssetCode \<Rightarrow> store \<Rightarrow> (string \<times> upstream) list result" where
  "by_address asset s =
     fold_result assign_address
       (filter (\<lambda>u. up_asset u = asset \<and> up_enabled u \<and> up_receiveAddress u \<noteq> None) (upstreams s)) []"

section \<open>Receipts\<close>

definition find_deposit :: "AssetCode \<Rightarrow> wallet_receipt \<Rightarrow> store \<Rightarrow> deposit option" where
  "find_deposit asset r s =
     List.find (\<lambda>d. dp_asset d = asset \<and> dp_txid d = wr_txid r \<and> dp_outputRef d = wr_outputRef r) (deposits s)"

definition receipt_status :: "wallet_receipt \<Rightarrow> DepositStatus" where
  "receipt_status r = (if wr_locked r then DepositStatus.OBSERVED else DepositStatus.CONFIRMED)"

definition mark_reorged :: "instant \<Rightarrow> AssetCode \<Rightarrow> wallet_receipt \<Rightarrow> deposit \<Rightarrow> store \<Rightarrow> store" where
  "mark_reorged now asset r existing s =
     raise_alert now
       \<lparr>ai_dedupeKey = ''deposit-reorg:'' @ dp_id existing, ai_severity = CRITICAL,
        ai_title = show_asset asset @ '' allocated deposit reorged'',
        ai_message = ''Deposit '' @ wr_txid r @
          '' lost required confirmations. Automatic payouts must be reviewed.''\<rparr>
       (s\<lparr>deposits := update_where (\<lambda>d. dp_id d = dp_id existing)
            (\<lambda>d. d\<lparr>dp_status := DepositStatus.REORGED, dp_confirmations := wr_confirmations r,
                  dp_locked := True\<rparr>) (deposits s)\<rparr>)"

definition upsert_deposit ::
    "instant \<Rightarrow> AssetCode \<Rightarrow> upstream \<Rightarrow> wallet_receipt \<Rightarrow> store \<Rightarrow> store \<times> uuid \<times> DepositStatus" where
  "upsert_deposit now asset u r s =
     (let status = receipt_status r in
      case find_deposit asset r s of
        None \<Rightarrow>
          (let (i, s1) = new_id s;
               d = \<lparr>dp_id = i, dp_asset = asset, dp_upstreamId = up_id u, dp_txid = wr_txid r,
                    dp_outputRef = wr_outputRef r, dp_amountAtomic = wr_amountAtomic r,
                    dp_confirmations = wr_confirmations r, dp_locked = wr_locked r,
                    dp_status = status,
                    dp_confirmedAt = (if status = DepositStatus.CONFIRMED then Some now else None),
                    dp_allocatedAt = None\<rparr>
           in (s1\<lparr>deposits := deposits s1 @ [d]\<rparr>, i, status))
      | Some existing \<Rightarrow>
          (let status' = (if dp_status existing = DepositStatus.ALLOCATED
                          then DepositStatus.ALLOCATED else status);
               confirmedAt = (if status = DepositStatus.CONFIRMED
                              then (case dp_confirmedAt existing of None \<Rightarrow> Some now | Some c \<Rightarrow> Some c)
                              else dp_confirmedAt existing)
           in (s\<lparr>deposits := update_where (\<lambda>d. dp_id d = dp_id existing)
                  (\<lambda>d. d\<lparr>dp_confirmations := wr_confirmations r, dp_locked := wr_locked r,
                        dp_status := status', dp_confirmedAt := confirmedAt\<rparr>) (deposits s)\<rparr>,
               dp_id existing, status')))"

definition process_receipt ::
    "decimal_lib \<Rightarrow> instant \<Rightarrow> AssetCode \<Rightarrow> (string \<times> upstream) list \<Rightarrow> wallet_receipt \<Rightarrow> store \<Rightarrow> store" where
  "process_receipt D now asset byAddress r s =
     (case map_of byAddress (wr_address r) of
        None \<Rightarrow> s
      | Some u \<Rightarrow>
          (case find_deposit asset r s of
             Some existing \<Rightarrow>
               if dp_status existing = DepositStatus.ALLOCATED \<and> wr_locked r
               then mark_reorged now asset r existing s
               else let (s1, i, status) = upsert_deposit now asset u r s;
                        s2 = publish ''deposit.observed'' i s1
                    in if status = DepositStatus.CONFIRMED then fst (allocateDeposit D now i s2) else s2
           | None \<Rightarrow>
               let (s1, i, status) = upsert_deposit now asset u r s;
                   s2 = publish ''deposit.observed'' i s1
               in if status = DepositStatus.CONFIRMED then fst (allocateDeposit D now i s2) else s2))"

definition scanAsset ::
    "decimal_lib \<Rightarrow> wallets \<Rightarrow> instant \<Rightarrow> AssetCode \<Rightarrow> store \<Rightarrow> store \<times> nat result" where
  "scanAsset D w now asset s =
     (case by_address asset s of
        Inl e \<Rightarrow> (s, Inl e)
      | Inr byAddress \<Rightarrow>
          (case wa_scanReceipts (forAsset w asset) (map fst byAddress) of
             Inl e \<Rightarrow> (s, Inl e)
           | Inr receipts \<Rightarrow>
               (fold (process_receipt D now asset byAddress) receipts
                  (resolveByDedupe now (''wallet-scan:'' @ show_asset asset) s),
                Inr (length receipts))))"

definition scan_or_alert ::
    "decimal_lib \<Rightarrow> wallets \<Rightarrow> instant \<Rightarrow> AssetCode \<Rightarrow> store \<Rightarrow> store" where
  "scan_or_alert D w now asset s =
     (case scanAsset D w now asset s of
        (s1, Inr _) \<Rightarrow> s1
      | (s1, Inl e) \<Rightarrow>
          raise_alert now \<lparr>ai_dedupeKey = ''wallet-scan:'' @ show_asset asset, ai_severity = CRITICAL,
             ai_title = show_asset asset @ '' wallet scan failed'', ai_message = error_message e\<rparr> s1)"

text \<open>The flag says whether another scan of the same process is under way.\<close>

definition scanAll :: "decimal_lib \<Rightarrow> wallets \<Rightarrow> instant \<Rightarrow> bool \<Rightarrow> store \<Rightarrow> store" where
  "scanAll D w now scanning s =
     (if scanning then s else fold (scan_or_alert D w now) [BTC, XMR] s)"

section \<open>The invariant\<close>

definition deposit_key :: "deposit \<Rightarrow> AssetCode \<times> string \<times> string" where
  "deposit_key d = (dp_asset d, dp_txid d, dp_outputRef d)"

definition deposits_inv :: "store \<Rightarrow> bool" where
  "deposits_inv s \<longleftrightarrow> alloc_inv s \<and> unique_on deposit_key (deposits s) \<and>
     dp_id ` set (deposits s) \<subseteq> minted_ids s"

lemma alloc_inv_deposits_cong:
  assumes "alloc_inv s" and "allocationBatches t = allocationBatches s" and "shareEvents t = shareEvents s"
    and "ledgerAccounts t = ledgerAccounts s" and "journalTransactions t = journalTransactions s"
    and "uuids t = uuids s" and "minted s \<le> minted t" and "unique_on dp_id (deposits t)"
    and "\<And>d. d \<in> set (deposits t) \<Longrightarrow> dp_status d = DepositStatus.ALLOCATED \<Longrightarrow>
      \<exists>d' \<in> set (deposits s). dp_id d' = dp_id d \<and> dp_status d' = DepositStatus.ALLOCATED"
  shows "alloc_inv t"
proof -
  note inv = assms(1) [unfolded alloc_inv_def]
  have ids: "minted_ids s \<subseteq> minted_ids t" using assms(6,7) by (auto simp: minted_ids_def)
  have 1: "wf_ledger t" using inv assms(4-7) by (intro wf_ledger_cong(1) [of t s]) auto
  have 2: "ab_id ` set (allocationBatches s) \<subseteq> minted_ids t"
    using inv by (elim conjE) (erule subset_trans [OF _ ids])
  have 3: "\<forall>j \<in> set (journalTransactions s). references_ok t j"
    using inv unfolding references_ok_def assms(2) by (elim conjE)
  have 4: "\<forall>d \<in> set (deposits t). dp_status d = DepositStatus.ALLOCATED \<longrightarrow>
      dp_id d \<in> ab_depositId ` set (allocationBatches s)"
  proof (intro ballI impI)
    fix d assume "d \<in> set (deposits t)" "dp_status d = DepositStatus.ALLOCATED"
    from assms(9) [OF this] obtain d' where d': "d' \<in> set (deposits s)" "dp_id d' = dp_id d"
      "dp_status d' = DepositStatus.ALLOCATED" by blast
    from inv have "\<forall>d \<in> set (deposits s). dp_status d = DepositStatus.ALLOCATED \<longrightarrow>
      dp_id d \<in> ab_depositId ` set (allocationBatches s)" by (elim conjE)
    with d' show "dp_id d \<in> ab_depositId ` set (allocationBatches s)" by metis
  qed
  show ?thesis unfolding alloc_inv_def assms(2,3,5)
    using inv by (elim conjE) (intro conjI 1 2 3 4 assms(8))
qed

lemma alerts_only_deposits_inv:
  assumes "alerts_only s t" and "deposits_inv s"
  shows "deposits_inv t"
proof -
  note tab = alerts_only_tables [OF assms(1)]
  have ids: "minted_ids s \<subseteq> minted_ids t" using tab(3,14) by (auto simp: minted_ids_def)
  have a: "alloc_inv s" and k: "unique_on deposit_key (deposits s)" and d: "dp_id ` set (deposits s) \<subseteq> minted_ids s"
    using assms(2) by (simp_all add: deposits_inv_def)
  have "unique_on dp_id (deposits t)" using a by (simp add: alloc_inv_def tab(1))
  then have "alloc_inv t"
    by (rule alloc_inv_deposits_cong [OF a tab(6,7,4,5,3,14)]) (unfold tab(1), blast)
  with k subset_trans [OF d ids] show ?thesis by (simp add: deposits_inv_def tab(1))
qed

lemma update_deposit_inv:
  assumes "deposits_inv s" and "existing \<in> set (deposits s)"
    and "\<And>d. dp_id (f d) = dp_id d \<and> deposit_key (f d) = deposit_key d"
    and "dp_status (f existing) = DepositStatus.ALLOCATED \<longrightarrow> dp_status existing = DepositStatus.ALLOCATED"
  shows "deposits_inv (s\<lparr>deposits := update_where (\<lambda>d. dp_id d = dp_id existing) f (deposits s)\<rparr>)"
proof -
  let ?t = "s\<lparr>deposits := update_where (\<lambda>d. dp_id d = dp_id existing) f (deposits s)\<rparr>"
  have ids: "map dp_id (deposits ?t) = map dp_id (deposits s)"
    "map deposit_key (deposits ?t) = map deposit_key (deposits s)"
    using assms(3) by (simp_all add: map_update_where)
  have same: "d = existing" if "d \<in> set (deposits s)" "dp_id d = dp_id existing" for d
    using that assms(1,2) by (auto simp: deposits_inv_def alloc_inv_def distinct_map inj_on_def)
  have "alloc_inv ?t"
  proof (rule alloc_inv_deposits_cong [of s])
    fix d assume d: "d \<in> set (deposits ?t)" "dp_status d = DepositStatus.ALLOCATED"
    then obtain y where y: "y \<in> set (deposits s)" "d = (if dp_id y = dp_id existing then f y else y)"
      by (auto simp: update_where_def)
    then show "\<exists>d' \<in> set (deposits s). dp_id d' = dp_id d \<and> dp_status d' = DepositStatus.ALLOCATED"
      using d(2) same [of y] assms(3,4) by (intro bexI [of _ y]) (auto split: if_splits)
  qed (use assms(1) ids(1) in \<open>auto simp: deposits_inv_def alloc_inv_def\<close>)
  moreover have "dp_id ` set (deposits ?t) \<subseteq> minted_ids ?t"
    using assms(1) ids(1) by (simp add: deposits_inv_def minted_ids_def flip: set_map)
  ultimately show ?thesis using assms(1) ids(2) by (simp add: deposits_inv_def)
qed

text \<open>The treasury holds the allocated deposits: one batch each, for the amount of the deposit.\<close>

definition allocated_total :: "AssetCode \<Rightarrow> store \<Rightarrow> atomic" where
  "allocated_total A s = sum_where (\<lambda>b. ab_asset b = A) ab_totalAtomic (allocationBatches s)"

lemma allocateDeposit_cases:
  assumes "allocateDeposit D now i s = (t, r)"
  obtains (same) "t = s" | (existing) "t = publish ''deposit.allocated'' i s"
  | (committed) d u items t' b where "List.find (\<lambda>d. dp_id d = i) (deposits s) = Some d"
      "plan_allocation D d (account_endpoints d u s) s = Inr items"
      "commit_allocation now d (account_endpoints d u s) items s = Inr (t', b)"
      "t = publish ''deposit.allocated'' i t'"
proof (cases r)
  case (Inl e)
  with assms allocateDeposit_error that(1) show thesis by blast
next
  case (Inr b)
  with assms obtain t' where "allocate_body D now i s = Inr (t', b)"
    and t: "t = publish ''deposit.allocated'' i t'"
    by (auto simp: allocateDeposit_def transaction_def split: prod.splits sum.splits)
  then obtain d where d: "List.find (\<lambda>d. dp_id d = i) (deposits s) = Some d"
    and body: "if dp_status d = DepositStatus.ALLOCATED then t' = s else allocate_confirmed D now d s = Inr (t', b)"
    by (auto simp: allocate_body_def split: option.splits if_splits)
  show thesis
  proof (cases "dp_status d = DepositStatus.ALLOCATED")
    case True
    with body t that(2) show thesis by simp
  next
    case False
    with body obtain u items where "plan_allocation D d (account_endpoints d u s) s = Inr items"
      "commit_allocation now d (account_endpoints d u s) items s = Inr (t', b)"
      by (auto simp: allocate_confirmed_def Let_def ebind_eq_Inr split: option.splits)
    with d t that(3) show thesis by blast
  qed
qed

lemma publish_deposits_inv [simp]: "deposits_inv (publish n x s) = deposits_inv s"
  by (simp add: deposits_inv_def publish_alloc)

lemma commit_batch_total:
  assumes "commit_allocation now d endpoints items s = Inr (t, b)"
  shows "ab_asset b = dp_asset d \<and> ab_totalAtomic b = dp_amountAtomic d"
  using assms by (rule commit_allocation_cases) simp

lemma commit_minted:
  assumes "wf_ledger s" and "commit_allocation now d endpoints items s = Inr (t, b)"
    and "sum_list (map al_customerAtomic items) + sum_list (map al_operatorAtomic items) = dp_amountAtomic d"
  shows "minted_ids s \<subseteq> minted_ids t"
proof -
  from assms(2) obtain s1 s2 where
    s1: "s1 = s\<lparr>minted := Suc (minted s), allocationBatches := allocationBatches s @ [b],
           shareEvents := update_where (unallocated endpoints)
             (\<lambda>sh. sh\<lparr>sh_allocationBatchId := Some (ab_id b)\<rparr>) (shareEvents s)\<rparr>"
    and p: "post_allocation d b items (sum_list (map al_operatorAtomic items)) s1 = Inr s2"
    and t: "t = set_deposit_allocated now (dp_id d) s2"
    by (rule commit_allocation_cases) blast
  have "wf_ledger s1" using wf_ledger_cong(1) [of s1 s] assms(1) by (simp add: s1)
  from ledger_only_minted [OF post_allocation_effect(2) [OF this p assms(3)]]
  show ?thesis by (auto simp: s1 t set_deposit_allocated_def minted_ids_def lessThan_Suc)
qed

lemma allocateDeposit_inv:
  assumes "deposits_inv s"
  shows "deposits_inv (fst (allocateDeposit D now i s))"
    and "balance (fst (allocateDeposit D now i s)) A ''treasury'' + allocated_total A (fst (allocateDeposit D now i s)) =
         balance s A ''treasury'' + allocated_total A s"
proof -
  obtain t r where tr: "allocateDeposit D now i s = (t, r)" by fastforce
  have a: "alloc_inv s" using assms by (simp add: deposits_inv_def)
  have "deposits_inv t \<and> balance t A ''treasury'' + allocated_total A t = balance s A ''treasury'' + allocated_total A s"
    using tr
  proof (cases rule: allocateDeposit_cases)
    case same
    with assms show ?thesis by simp
  next
    case existing
    with assms show ?thesis by (simp add: publish_alloc allocated_total_def)
  next
    case (committed d u items t' b)
    have d: "d \<in> set (deposits s)" using find_SomeD [OF committed(1)] by simp
    note tot = plan_allocation_Inr(3) [OF committed(2)]
    note e = commit_allocation_effect [OF a d committed(3) tot]
    have keys: "map deposit_key (deposits t') = map deposit_key (deposits s)"
      "map dp_id (deposits t') = map dp_id (deposits s)"
      by (simp_all add: e(11) map_update_where deposit_key_def)
    have "minted_ids s \<subseteq> minted_ids t'"
      using commit_minted [OF _ committed(3) tot] a by (simp add: alloc_inv_def)
    with assms keys e(1) have "deposits_inv t'"
      by (simp add: deposits_inv_def flip: set_map) (elim conjE, erule (1) subset_trans)
    with commit_batch_total [OF committed(3)] show ?thesis
      by (simp add: committed(4) publish_alloc allocated_total_def e(4,9))
  qed
  with tr show "deposits_inv (fst (allocateDeposit D now i s))"
    "balance (fst (allocateDeposit D now i s)) A ''treasury'' + allocated_total A (fst (allocateDeposit D now i s)) =
         balance s A ''treasury'' + allocated_total A s" by simp_all
qed

lemma upsert_deposit_inv:
  assumes "deposits_inv s" and "upsert_deposit now A u r s = (t, i, st)"
  shows "deposits_inv t" and "ledgerAccounts t = ledgerAccounts s" and "uuids t = uuids s"
    and "journalTransactions t = journalTransactions s" and "allocationBatches t = allocationBatches s"
proof -
  have "deposits_inv t \<and> ledgerAccounts t = ledgerAccounts s \<and> uuids t = uuids s \<and>
    journalTransactions t = journalTransactions s \<and> allocationBatches t = allocationBatches s"
  proof (cases "find_deposit A r s")
    case None
    obtain d where t: "t = s\<lparr>minted := Suc (minted s), deposits := deposits s @ [d]\<rparr>"
      and d: "dp_id d = uuids s (minted s)" "deposit_key d = (A, wr_txid r, wr_outputRef r)"
        "dp_status d \<noteq> DepositStatus.ALLOCATED"
      using assms(2) None by (auto simp: upsert_deposit_def new_id_def Let_def deposit_key_def receipt_status_def)
    have key: "deposit_key d \<notin> deposit_key ` set (deposits s)"
      unfolding d(2) using None by (auto simp: find_deposit_def find_None_iff deposit_key_def)
    have fresh: "dp_id d \<notin> dp_id ` set (deposits s)"
      using assms(1) new_id_fresh [of s] d(1)
      by (auto simp: deposits_inv_def alloc_inv_def wf_ledger_def wf_accounts_def)
    have a: "alloc_inv s" using assms(1) by (simp add: deposits_inv_def)
    have "alloc_inv t"
    proof (rule alloc_inv_deposits_cong [OF a])
      show "unique_on dp_id (deposits t)" using a fresh by (simp add: t alloc_inv_def)
      show "\<exists>d' \<in> set (deposits s). dp_id d' = dp_id e \<and> dp_status d' = DepositStatus.ALLOCATED"
        if "e \<in> set (deposits t)" "dp_status e = DepositStatus.ALLOCATED" for e
        using that d(3) by (auto simp: t)
    qed (simp_all add: t)
    moreover have "dp_id ` set (deposits t) \<subseteq> minted_ids t"
      using assms(1) d(1) by (auto simp: t minted_ids_def lessThan_Suc deposits_inv_def)
    ultimately show ?thesis using assms(1) key by (simp add: deposits_inv_def t)
  next
    case (Some d)
    then have "d \<in> set (deposits s)" by (auto simp: find_deposit_def dest!: find_SomeD)
    moreover obtain f where t: "t = s\<lparr>deposits := update_where (\<lambda>e. dp_id e = dp_id d) f (deposits s)\<rparr>"
      and "\<And>e. dp_id (f e) = dp_id e \<and> deposit_key (f e) = deposit_key e"
      and "dp_status (f d) = DepositStatus.ALLOCATED \<longrightarrow> dp_status d = DepositStatus.ALLOCATED"
      using assms(2) Some
      by (auto simp: upsert_deposit_def Let_def deposit_key_def receipt_status_def split: if_splits)
    ultimately have "deposits_inv t" unfolding t by (intro update_deposit_inv [OF assms(1)]) auto
    then show ?thesis by (simp add: t)
  qed
  then show "deposits_inv t" "ledgerAccounts t = ledgerAccounts s" "uuids t = uuids s"
    "journalTransactions t = journalTransactions s" "allocationBatches t = allocationBatches s" by simp_all
qed

lemma treasury_cong:
  assumes "ledgerAccounts t = ledgerAccounts s" "journalTransactions t = journalTransactions s"
    "allocationBatches t = allocationBatches s"
  shows "balance t A C = balance s A C" and "allocated_total A t = allocated_total A s"
  using assms by (simp_all add: balance_def account_total_def is_account_def all_entries_def allocated_total_def)

text \<open>Every receipt keeps the invariant and moves the treasury exactly by what it allocates.\<close>

definition scan_ok :: "store \<Rightarrow> bool" where
  "scan_ok s \<longleftrightarrow> deposits_inv s \<and> (\<forall>A. balance s A ''treasury'' + allocated_total A s = 0)"

lemma alerts_only_scan_ok:
  assumes "alerts_only s t" and "scan_ok s" shows "scan_ok t"
proof -
  note tab = alerts_only_tables [OF assms(1)]
  have "deposits_inv t" using assms alerts_only_deposits_inv by (simp add: scan_ok_def)
  with assms(2) treasury_cong [OF tab(4,5,6)] show ?thesis by (simp add: scan_ok_def)
qed

lemma observe_scan_ok:
  assumes "scan_ok s" and "upsert_deposit now asset u r s = (s1, i, st)"
  shows "scan_ok (if st = DepositStatus.CONFIRMED
    then fst (allocateDeposit D now i (publish n x s1)) else publish n x s1)"
proof -
  have inv: "deposits_inv s" and bal: "\<forall>A. balance s A ''treasury'' + allocated_total A s = 0"
    using assms(1) by (simp_all add: scan_ok_def)
  note u = upsert_deposit_inv [OF inv assms(2)]
  have "scan_ok s1" using u(1) treasury_cong [OF u(2,4,5)] bal by (simp add: scan_ok_def)
  then have p: "scan_ok (publish n x s1)" by (rule alerts_only_scan_ok [OF publish_alerts_only])
  with allocateDeposit_inv [of "publish n x s1" D now i] show ?thesis by (simp add: scan_ok_def)
qed

lemma process_receipt_scan_ok:
  assumes "scan_ok s" shows "scan_ok (process_receipt D now asset byAddress r s)"
proof (cases "map_of byAddress (wr_address r)")
  case None
  with assms show ?thesis by (simp add: process_receipt_def)
next
  case (Some u)
  obtain s1 i st where up: "upsert_deposit now asset u r s = (s1, i, st)"
    by (cases "upsert_deposit now asset u r s")
  note ok = observe_scan_ok [OF assms up, of D "''deposit.observed''" i]
  show ?thesis
  proof (cases "\<exists>d. find_deposit asset r s = Some d \<and> dp_status d = DepositStatus.ALLOCATED \<and> wr_locked r")
    case True
    then obtain d where d: "find_deposit asset r s = Some d" "dp_status d = DepositStatus.ALLOCATED" "wr_locked r"
      by blast
    let ?t = "s\<lparr>deposits := update_where (\<lambda>e. dp_id e = dp_id d)
            (\<lambda>e. e\<lparr>dp_status := DepositStatus.REORGED, dp_confirmations := wr_confirmations r,
                  dp_locked := True\<rparr>) (deposits s)\<rparr>"
    have "d \<in> set (deposits s)" using d(1) by (auto simp: find_deposit_def dest!: find_SomeD)
    then have "deposits_inv ?t"
      using assms d(2) by (intro update_deposit_inv) (simp_all add: scan_ok_def deposit_key_def)
    with assms treasury_cong [of ?t s] have "scan_ok ?t" by (simp add: scan_ok_def)
    then have "scan_ok (mark_reorged now asset r d s)"
      unfolding mark_reorged_def by (rule alerts_only_scan_ok [OF raise_alert_only])
    with Some d show ?thesis by (simp add: process_receipt_def)
  next
    case False
    then have "process_receipt D now asset byAddress r s = (if st = DepositStatus.CONFIRMED
        then fst (allocateDeposit D now i (publish ''deposit.observed'' i s1)) else publish ''deposit.observed'' i s1)"
      using Some up by (auto simp: process_receipt_def split: option.splits)
    with ok show ?thesis by simp
  qed
qed

lemma scanAsset_scan_ok:
  assumes "scan_ok s" shows "scan_ok (fst (scanAsset D w now asset s))"
proof -
  have "scan_ok (fold (process_receipt D now asset bya) rs s')" if "scan_ok s'" for bya rs s'
    using that by (induction rs arbitrary: s') (simp_all add: process_receipt_scan_ok)
  with assms show ?thesis
    by (auto simp: scanAsset_def alerts_only_scan_ok [OF resolveByDedupe_only] split: sum.splits)
qed

lemma scanAll_scan_ok:
  assumes "scan_ok s" shows "scan_ok (scanAll D w now scanning s)"
proof -
  have "scan_ok (scan_or_alert D w now asset s')" if "scan_ok s'" for asset s'
    using scanAsset_scan_ok [OF that, of D w now asset]
    by (auto simp: scan_or_alert_def alerts_only_scan_ok [OF raise_alert_only] split: prod.splits sum.splits)
  with assms show ?thesis by (simp add: scanAll_def)
qed

inductive scan_reachable :: "decimal_lib \<Rightarrow> store \<Rightarrow> bool" for D where
  start: "inj ids \<Longrightarrow> scan_reachable D (empty_store ids)"
| scan: "scan_reachable D s \<Longrightarrow> scan_reachable D (scanAll D w now scanning s)"
| other: "scan_reachable D s \<Longrightarrow> ledgerAccounts t = ledgerAccounts s \<Longrightarrow>
    journalTransactions t = journalTransactions s \<Longrightarrow> uuids t = uuids s \<Longrightarrow> minted s \<le> minted t \<Longrightarrow>
    allocationBatches t = allocationBatches s \<Longrightarrow> deposits t = deposits s \<Longrightarrow>
    (\<forall>sh \<in> set (shareEvents t). sh_allocationBatchId sh = None \<or> sh \<in> set (shareEvents s)) \<Longrightarrow>
    scan_reachable D t"

lemma scan_other:
  assumes "scan_ok s" "ledgerAccounts t = ledgerAccounts s" "journalTransactions t = journalTransactions s"
    "uuids t = uuids s" "minted s \<le> minted t" "allocationBatches t = allocationBatches s" "deposits t = deposits s"
    "\<forall>sh \<in> set (shareEvents t). sh_allocationBatchId sh = None \<or> sh \<in> set (shareEvents s)"
  shows "scan_ok t"
proof -
  have inv: "deposits_inv s" using assms(1) by (simp add: scan_ok_def)
  then have a: "alloc_inv s" by (simp add: deposits_inv_def)
  let ?t = "t\<lparr>shareEvents := shareEvents s\<rparr>"
  have "unique_on dp_id (deposits ?t)" using a by (simp add: alloc_inv_def assms(7))
  then have "alloc_inv ?t"
    using assms(2-7) by (intro alloc_inv_deposits_cong [OF a]) auto
  moreover have "\<forall>sh \<in> set (shareEvents t). \<forall>i. sh_allocationBatchId sh = Some i \<longrightarrow>
        i \<in> ab_id ` set (allocationBatches t)"
    using assms(8) a unfolding assms(6) alloc_inv_def by (metis option.distinct(1))
  ultimately have "alloc_inv t"
    by (simp add: alloc_inv_def references_ok_def wf_ledger_def wf_accounts_def account_keys_def minted_ids_def
        entries_of_asset_def is_account_def)
  moreover have "minted_ids s \<subseteq> minted_ids t" using assms(4,5) by (auto simp: minted_ids_def)
  ultimately have "deposits_inv t" using inv by (auto simp: deposits_inv_def assms(7))
  with assms(1) treasury_cong [OF assms(2,3,6)] show ?thesis by (simp add: scan_ok_def)
qed

lemma scan_reachable_ok: "scan_reachable D s \<Longrightarrow> scan_ok s"
proof (induction rule: scan_reachable.induct)
  case (start ids)
  then show ?case
    by (simp add: scan_ok_def deposits_inv_def alloc_inv_def wf_ledger_def wf_accounts_def empty_store_def
        account_keys_def balance_def account_total_def all_entries_def allocated_total_def)
qed (auto simp: scanAll_scan_ok intro: scan_other)

section \<open>Main properties\<close>

text \<open>C16: Every wallet receipt is credited at most once.  After any history of scans, however often and
  with whatever receipts the wallets answer, there is one deposit per transaction output and at most
  one allocation per deposit, every allocation hands out exactly its total, and the treasury holds
  exactly the sum of the allocated deposits.\<close>

theorem deposits_credited_once:
  assumes "scan_reachable D s"
  shows "unique_on deposit_key (deposits s) \<and> unique_on ab_depositId (allocationBatches s) \<and>
    list_all batch_adds_up (allocationBatches s) \<and>
    (\<forall>A. - balance s A ''treasury'' = allocated_total A s)"
proof -
  from scan_reachable_ok [OF assms] have "deposits_inv s"
    and "\<forall>A. balance s A ''treasury'' + allocated_total A s = 0" by (simp_all add: scan_ok_def)
  then show ?thesis by (simp add: deposits_inv_def alloc_inv_def list_all_iff minus_unique)
qed

definition example_receipt :: "bool \<Rightarrow> wallet_receipt" where
  "example_receipt locked =
     \<lparr>wr_asset = BTC, wr_txid = ''tx'', wr_outputRef = ''0'', wr_address = ''addr'', wr_amountAtomic = 1000,
      wr_confirmations = 6, wr_locked = locked\<rparr>"

definition example_wallet :: "wallet_receipt list \<Rightarrow> wallet_adapter" where
  "example_wallet receipts =
     \<lparr>wa_createReceiveAddress = (\<lambda>_. Inr ''addr''), wa_validateAddress = (\<lambda>_. Inr True),
      wa_scanReceipts = (\<lambda>as. Inr (filter (\<lambda>r. wr_address r \<in> set as) receipts)),
      wa_preparePayout = (\<lambda>_ _. Inl (Error ''no funds'')), wa_broadcast = (\<lambda>_. Inr []),
      wa_transactionKnown = (\<lambda>_. Inr False), wa_transactionConfirmations = (\<lambda>_. Inr 0)\<rparr>"

definition example_wallets :: "bool \<Rightarrow> wallets" where
  "example_wallets locked = \<lparr>bitcoin = example_wallet [example_receipt locked], monero = example_wallet []\<rparr>"

definition scan_store :: store where
  "scan_store = two_customers_store
     \<lparr>deposits := [],
      upstreams := map (\<lambda>u. u\<lparr>up_receiveAddress := Some ''addr''\<rparr>) (upstreams two_customers_store)\<rparr>"

lemma scan_store_reachable: "scan_reachable decimal_exact scan_store"
  by (rule scan_reachable.other [OF scan_reachable.start [OF inj_show_nat]])
    (simp_all add: scan_store_def two_customers_store_def empty_store_def share_of_def)

theorem deposits_credited_once_witness:
  "let t = scanAll decimal_exact (example_wallets False) 9 False
             (scanAll decimal_exact (example_wallets False) 5 False scan_store)
   in length (allocationBatches t) = 1 \<and> - balance t BTC ''treasury'' = 1000"
proof -
  let ?t = "scanAll decimal_exact (example_wallets False) 9 False
             (scanAll decimal_exact (example_wallets False) 5 False scan_store)"
  have "scan_reachable decimal_exact ?t"
    by (intro scan_reachable.scan scan_store_reachable)
  note ok = deposits_credited_once [OF this]
  have "map ab_totalAtomic (filter (\<lambda>b. ab_asset b = BTC) (allocationBatches ?t)) = [1000] \<and>
      length (allocationBatches ?t) = 1" by code_simp
  with ok show ?thesis by (simp add: Let_def allocated_total_def sum_where_def)
qed

text \<open>A reorganised deposit stops the payouts.  When a receipt of an allocated deposit is locked again,
  the scan marks the deposit as reorganised and raises a critical alert, and leaves the ledger alone.\<close>

theorem reorg_is_marked:
  assumes "map_of byAddress (wr_address r) = Some u" and "find_deposit asset r s = Some d"
    and "dp_status d = DepositStatus.ALLOCATED" and "wr_locked r"
  shows "let t = process_receipt D now asset byAddress r s in
    (\<exists>d'. find_deposit asset r t = Some d' \<and> dp_id d' = dp_id d \<and> dp_status d' = DepositStatus.REORGED) \<and>
    find_open (''deposit-reorg:'' @ dp_id d) t \<noteq> None \<and>
    journalTransactions t = journalTransactions s \<and> allocationBatches t = allocationBatches s"
proof -
  let ?f = "\<lambda>e. e\<lparr>dp_status := DepositStatus.REORGED, dp_confirmations := wr_confirmations r, dp_locked := True\<rparr>"
  let ?t = "s\<lparr>deposits := update_where (\<lambda>e. dp_id e = dp_id d) ?f (deposits s)\<rparr>"
  have t: "process_receipt D now asset byAddress r s = mark_reorged now asset r d s"
    using assms by (simp add: process_receipt_def)
  note tab = alerts_only_tables [OF raise_alert_only]
  have "find_deposit asset r ?t = Some (?f d)"
    using assms(2) by (simp add: find_deposit_def find_update_where)
  moreover have "find_open (''deposit-reorg:'' @ dp_id d) (mark_reorged now asset r d s) \<noteq> None"
    unfolding mark_reorged_def
    using raise_alert_opens [of "\<lparr>ai_dedupeKey = ''deposit-reorg:'' @ dp_id d, ai_severity = CRITICAL,
        ai_title = show_asset asset @ '' allocated deposit reorged'',
        ai_message = ''Deposit '' @ wr_txid r @
          '' lost required confirmations. Automatic payouts must be reviewed.''\<rparr>" now ?t] by simp
  ultimately show ?thesis unfolding t Let_def
    by (simp add: mark_reorged_def tab find_deposit_def)
qed

text \<open>The mark does not last.  The next scan that sees the same deposit still locked turns it from
  reorganised into observed, so that no reorganised deposit is left and the payouts are no longer
  halted although nothing has been resolved.\<close>

theorem reorg_mark_is_lost:
  assumes "map_of byAddress (wr_address r) = Some u" and "find_deposit asset r s = Some d"
    and "dp_status d = DepositStatus.REORGED" and "wr_locked r"
  shows "\<exists>d'. find_deposit asset r (process_receipt D now asset byAddress r s) = Some d' \<and>
    dp_id d' = dp_id d \<and> dp_status d' = DepositStatus.OBSERVED"
  using assms
  by (simp add: process_receipt_def upsert_deposit_def receipt_status_def Let_def)
    (simp add: find_deposit_def find_update_where)

theorem reorg_is_marked_witness:
  "let s = scanAll decimal_exact (example_wallets False) 5 False scan_store;
       t = process_receipt decimal_exact 9 BTC [(''addr'', hd (upstreams scan_store))] (example_receipt True) s
   in \<exists>d'. find_deposit BTC (example_receipt True) t = Some d' \<and> dp_status d' = DepositStatus.REORGED"
proof -
  let ?s = "scanAll decimal_exact (example_wallets False) 5 False scan_store"
  have "(case find_deposit BTC (example_receipt True) ?s of None \<Rightarrow> False
      | Some d \<Rightarrow> dp_status d = DepositStatus.ALLOCATED) = True" by code_simp
  then obtain d where "find_deposit BTC (example_receipt True) ?s = Some d" "dp_status d = DepositStatus.ALLOCATED"
    by (auto split: option.splits)
  from reorg_is_marked [OF _ this, of "[(''addr'', hd (upstreams scan_store))]" _ decimal_exact 9]
  show ?thesis by (auto simp: example_receipt_def Let_def)
qed

theorem reorg_mark_is_lost_witness:
  "let s = scanAll decimal_exact (example_wallets False) 5 False scan_store;
       by_addr = [(''addr'', hd (upstreams scan_store))];
       t = process_receipt decimal_exact 9 BTC by_addr (example_receipt True) s;
       t2 = process_receipt decimal_exact 12 BTC by_addr (example_receipt True) t
   in list_ex (\<lambda>d. dp_status d = DepositStatus.REORGED) (deposits t) \<and>
      (\<exists>d. find_deposit BTC (example_receipt True) t2 = Some d \<and> dp_status d = DepositStatus.OBSERVED)"
proof -
  let ?s = "scanAll decimal_exact (example_wallets False) 5 False scan_store"
  let ?b = "[(''addr'', hd (upstreams scan_store))]"
  let ?t = "process_receipt decimal_exact 9 BTC ?b (example_receipt True) ?s"
  have "(case find_deposit BTC (example_receipt True) ?t of None \<Rightarrow> False
      | Some d \<Rightarrow> dp_status d = DepositStatus.REORGED) = True" by code_simp
  then obtain d where d: "find_deposit BTC (example_receipt True) ?t = Some d" "dp_status d = DepositStatus.REORGED"
    by (auto split: option.splits)
  then have "list_ex (\<lambda>d. dp_status d = DepositStatus.REORGED) (deposits ?t)"
    by (auto simp: find_deposit_def list_ex_iff dest!: find_SomeD)
  with reorg_mark_is_lost [OF _ d, of ?b _ decimal_exact 12] show ?thesis
    by (simp add: example_receipt_def Let_def) blast
qed

end
