(* ===== verification/Payouts.thy ===== *)
theory Payouts
  imports Auth Deposits
begin

text \<open>
  Payouts: the state machine of \<open>payouts/payout-state.ts\<close> and the service of
  \<open>payouts/payouts.service.ts\<close> that plans, approves, executes and reconciles batches.

  An execution is cut into the phases in which it touches the store: prepare and sign, send,
  journal, and the catch block.  The k-th call of \<open>assertLock\<close> throws when \<open>lost k\<close>: the renewal of the
  lock runs beside the execution and may find it lost at any time.  An execution also returns the
  payloads it handed to the wallet, so that what went to the network can be stated.
\<close>

section \<open>States\<close>

fun TRANSITIONS :: "PayoutState \<Rightarrow> PayoutState list" where
  "TRANSITIONS PLANNED = [APPROVAL_REQUIRED, AUTO_APPROVED, PayoutState.FAILED, CANCELLED]"
| "TRANSITIONS APPROVAL_REQUIRED = [AUTO_APPROVED, PayoutState.FAILED, CANCELLED]"
| "TRANSITIONS AUTO_APPROVED = [SIGNED, PayoutState.FAILED, CANCELLED]"
| "TRANSITIONS SIGNED = [BROADCAST, PayoutState.FAILED]"
| "TRANSITIONS BROADCAST = [PayoutState.CONFIRMED, PayoutState.FAILED]"
| "TRANSITIONS PayoutState.CONFIRMED = []"
| "TRANSITIONS PayoutState.FAILED = [AUTO_APPROVED, SIGNED, BROADCAST]"
| "TRANSITIONS CANCELLED = []"

definition canTransitionPayout :: "PayoutState \<Rightarrow> PayoutState \<Rightarrow> bool" where
  "canTransitionPayout from to \<longleftrightarrow> from = to \<or> to \<in> set (TRANSITIONS from)"

fun state_text :: "PayoutState \<Rightarrow> string" where
  "state_text PLANNED = ''PLANNED''"
| "state_text APPROVAL_REQUIRED = ''APPROVAL_REQUIRED''"
| "state_text AUTO_APPROVED = ''AUTO_APPROVED''"
| "state_text SIGNED = ''SIGNED''"
| "state_text BROADCAST = ''BROADCAST''"
| "state_text PayoutState.CONFIRMED = ''CONFIRMED''"
| "state_text PayoutState.FAILED = ''FAILED''"
| "state_text CANCELLED = ''CANCELLED''"

definition assertPayoutTransition :: "PayoutState \<Rightarrow> PayoutState \<Rightarrow> unit result" where
  "assertPayoutTransition from to =
     guard_or (canTransitionPayout from to)
       (Error (''Invalid payout transition: '' @ state_text from @ '' -> '' @ state_text to))"

definition OPEN_PAYOUT_STATES :: "PayoutState list" where
  "OPEN_PAYOUT_STATES = [PLANNED, APPROVAL_REQUIRED, AUTO_APPROVED, SIGNED, BROADCAST, PayoutState.FAILED]"

section \<open>Batches and items\<close>

definition find_batch :: "uuid \<Rightarrow> store \<Rightarrow> payout_batch option" where
  "find_batch i s = List.find (\<lambda>b. pb_id b = i) (payoutBatches s)"

definition update_batch :: "uuid \<Rightarrow> (payout_batch \<Rightarrow> payout_batch) \<Rightarrow> store \<Rightarrow> store" where
  "update_batch i f s = s\<lparr>payoutBatches := update_where (\<lambda>b. pb_id b = i) f (payoutBatches s)\<rparr>"

definition update_item :: "uuid \<Rightarrow> (payout_item \<Rightarrow> payout_item) \<Rightarrow> store \<Rightarrow> store result" where
  "update_item i f s =
     (if list_ex (\<lambda>b. list_ex (\<lambda>x. pi_id x = i) (pb_items b)) (payoutBatches s)
      then Inr (s\<lparr>payoutBatches := map (\<lambda>b. b\<lparr>pb_items := update_where (\<lambda>x. pi_id x = i) f (pb_items b)\<rparr>)
                  (payoutBatches s)\<rparr>)
      else Inl (RecordNotFound ''PayoutItem''))"

definition open_items :: "(payout_batch \<Rightarrow> bool) \<Rightarrow> store \<Rightarrow> payout_item list" where
  "open_items P s =
     concat (map pb_items (filter (\<lambda>b. P b \<and> pb_state b \<in> set OPEN_PAYOUT_STATES) (payoutBatches s)))"

definition customer_reserved :: "AssetCode \<Rightarrow> uuid \<Rightarrow> store \<Rightarrow> atomic" where
  "customer_reserved asset c s =
     sum_where (\<lambda>x. pi_customerId x = Some c) pi_grossAtomic (open_items (\<lambda>b. pb_asset b = asset) s)"

definition operator_reserved :: "AssetCode \<Rightarrow> store \<Rightarrow> atomic" where
  "operator_reserved asset s =
     sum_where (\<lambda>x. pi_customerId x = None) pi_grossAtomic
       (open_items (\<lambda>b. pb_asset b = asset \<and> pb_kind b = PayoutKind.OPERATOR) s)"

section \<open>Planning\<close>

definition canAutoApprove ::
  "services \<Rightarrow> instant \<Rightarrow> AssetCode \<Rightarrow> atomic \<Rightarrow> payout_policy_setting \<Rightarrow> store \<Rightarrow> bool result" where
  "canAutoApprove V now asset amount policy s =
     (let limit = pp_dailyAutoLimitAtomic policy asset; Z = sv_zones V; zone = pp_timezone policy in
      if limit \<le> 0 \<or> amount > limit then Inr False
      else if \<not> zl_valid Z zone then Inl (Error ''Invalid Date'')
      else
        (let start = zl_startOfDay Z zone now;
             finish = zl_startOfDay Z zone (zl_plusDay Z zone now);
             used = sum_where (\<lambda>b. pb_asset b = asset \<and> \<not> pb_approvalThresholdHit b \<and>
                        start \<le> pb_createdAt b \<and> pb_createdAt b < finish \<and> pb_state b \<noteq> CANCELLED)
                      pb_totalGrossAtomic (payoutBatches s)
         in Inr (used + amount \<le> limit)))"

definition customer_active :: "uuid \<Rightarrow> store \<Rightarrow> bool" where
  "customer_active c s \<longleftrightarrow>
     list_ex (\<lambda>x. cust_id x = c \<and> cust_status x = EntityStatus.ACTIVE) (customers s)"

definition payable_destinations ::
  "instant \<Rightarrow> AssetCode \<Rightarrow> payout_policy_setting \<Rightarrow> store \<Rightarrow> payout_destination list" where
  "payable_destinations now asset policy s =
     take (nat (pp_maxBatchItems policy))
       (sort_key pd_createdAt
         (filter (\<lambda>d. pd_asset d = asset \<and> pd_status d = DestinationStatus.ACTIVE \<and>
             pd_effectiveAt d \<le> now \<and> customer_active (pd_customerId d) s) (payoutDestinations s)))"

record planned_item =
  pn_customerId :: "uuid option"
  pn_destination :: string
  pn_grossAtomic :: atomic

definition plan_item ::
  "AssetCode \<Rightarrow> payout_policy_setting \<Rightarrow> store \<Rightarrow> payout_destination \<Rightarrow> planned_item list" where
  "plan_item asset policy s d =
     (let available = customerBalance (pd_customerId d) asset s - customer_reserved asset (pd_customerId d) s;
          policyMinimum = pp_minimumAtomic policy asset;
          minimum = (if pd_minPayoutAtomic d > policyMinimum then pd_minPayoutAtomic d else policyMinimum)
      in if available \<ge> minimum
         then [\<lparr>pn_customerId = Some (pd_customerId d), pn_destination = pd_address d, pn_grossAtomic = available\<rparr>]
         else [])"

definition planned_items :: "instant \<Rightarrow> AssetCode \<Rightarrow> payout_policy_setting \<Rightarrow> store \<Rightarrow> planned_item list" where
  "planned_items now asset policy s =
     concat (map (plan_item asset policy s) (payable_destinations now asset policy s))"

fun new_items :: "planned_item list \<Rightarrow> store \<Rightarrow> store \<times> payout_item list" where
  "new_items [] s = (s, [])"
| "new_items (p # ps) s =
     (let (i, s1) = new_id s;
          x = \<lparr>pi_id = i, pi_customerId = pn_customerId p, pi_destination = pn_destination p,
               pi_grossAtomic = pn_grossAtomic p, pi_allocatedFeeAtomic = 0, pi_netAtomic = pn_grossAtomic p,
               pi_journalTransactionId = None\<rparr>;
          (s2, xs) = new_items ps s1
      in (s2, x # xs))"

definition create_batch ::
  "instant \<Rightarrow> AssetCode \<Rightarrow> PayoutKind \<Rightarrow> bool \<Rightarrow> policy_snapshot \<Rightarrow> planned_item list \<Rightarrow> store \<Rightarrow> store \<times> payout_batch" where
  "create_batch now asset kind auto snapshot planned s =
     (let total = sum_list (map pn_grossAtomic planned);
          (i, s1) = new_id s;
          (s2, xs) = new_items planned s1;
          b = \<lparr>pb_id = i, pb_asset = asset, pb_kind = kind,
               pb_state = (if auto then AUTO_APPROVED else APPROVAL_REQUIRED), pb_scheduledFor = now,
               pb_totalGrossAtomic = total, pb_totalFeeAtomic = 0, pb_totalNetAtomic = total,
               pb_transactionIds = [], pb_signedPayload = None, pb_approvalThresholdHit = \<not> auto,
               pb_policySnapshot = Some snapshot, pb_approvedById = None, pb_approvedAt = None,
               pb_broadcastAt = None, pb_confirmedAt = None, pb_errorCode = None, pb_errorMessage = None,
               pb_createdAt = now, pb_items = xs\<rparr>
      in (s2\<lparr>payoutBatches := payoutBatches s2 @ [b]\<rparr>, b))"

definition plan_body ::
  "services \<Rightarrow> instant \<Rightarrow> AssetCode \<Rightarrow> payout_policy_setting \<Rightarrow> store \<Rightarrow> (store \<times> payout_batch option) result" where
  "plan_body V now asset policy s =
     (let planned = planned_items now asset policy s;
          total = sum_list (map pn_grossAtomic planned)
      in if planned = [] then Inr (s, None)
         else ebind (canAutoApprove V now asset total policy s) (\<lambda>auto.
                let (t, b) = create_batch now asset PayoutKind.CUSTOMER auto
                       \<lparr>ps_feePayer = Some (pp_feePayer policy), ps_maxFeeBps = Some (pp_maxFeeBps policy),
                        ps_maxBatchItems = Some (pp_maxBatchItems policy)\<rparr> planned s
                in Inr (t, Some b)))"

definition publish_planned :: "string \<Rightarrow> payout_batch option \<Rightarrow> store \<Rightarrow> store \<times> payout_batch option result" where
  "publish_planned name r s = (case r of None \<Rightarrow> (s, Inr None) | Some b \<Rightarrow> (publish name (pb_id b) s, Inr (Some b)))"

definition plan :: "services \<Rightarrow> instant \<Rightarrow> AssetCode \<Rightarrow> store \<Rightarrow> store \<times> payout_batch option result" where
  "plan V now asset s =
     (let s1 = fst (activateDueDestinations now s);
          policy = payoutPolicy (sv_env V) s1
      in andThen (transaction (plan_body V now asset policy) s1) (publish_planned ''payout.planned''))"

definition plan_operator_body ::
  "services \<Rightarrow> instant \<Rightarrow> AssetCode \<Rightarrow> operator_payout_setting \<Rightarrow> payout_policy_setting \<Rightarrow> store
   \<Rightarrow> (store \<times> payout_batch option) result" where
  "plan_operator_body V now asset setting policy s =
     (let available = operatorBalance asset s - operator_reserved asset s
      in if available < os_minPayoutAtomic setting then Inr (s, None)
         else ebind (canAutoApprove V now asset available policy s) (\<lambda>auto.
                let (t, b) = create_batch now asset PayoutKind.OPERATOR auto
                       \<lparr>ps_feePayer = Some CUSTOMER, ps_maxFeeBps = Some (pp_maxFeeBps policy),
                        ps_maxBatchItems = Some 1\<rparr>
                       [\<lparr>pn_customerId = None, pn_destination = os_address setting, pn_grossAtomic = available\<rparr>] s
                in Inr (t, Some b)))"

definition planOperator :: "services \<Rightarrow> instant \<Rightarrow> AssetCode \<Rightarrow> store \<Rightarrow> store \<times> payout_batch option result" where
  "planOperator V now asset s =
     (let (s1, setting) = operatorPayout (sv_env V) now asset s;
          policy = payoutPolicy (sv_env V) s1
      in if os_mode setting = RETAIN \<or> os_address setting = []
         then (s1, Inl (ConflictException ''Operator revenue is configured to remain in treasury''))
         else andThen (transaction (plan_operator_body V now asset setting policy) s1)
                (publish_planned ''payout.operator.planned''))"

section \<open>Approval\<close>

fun kind_text :: "PayoutKind \<Rightarrow> string" where
  "kind_text PayoutKind.CUSTOMER = ''CUSTOMER''"
| "kind_text PayoutKind.OPERATOR = ''OPERATOR''"

definition snapshot_json :: "policy_snapshot option \<Rightarrow> json" where
  "snapshot_json p =
     (case p of None \<Rightarrow> JNull
      | Some q \<Rightarrow> JObj
          ((case ps_feePayer q of None \<Rightarrow> [] | Some f \<Rightarrow> [(''feePayer'', JStr (fee_payer_text f))]) @
           (case ps_maxFeeBps q of None \<Rightarrow> [] | Some n \<Rightarrow> [(''maxFeeBps'', JNum (show_int n))]) @
           (case ps_maxBatchItems q of None \<Rightarrow> [] | Some n \<Rightarrow> [(''maxBatchItems'', JNum (show_int n))])))"

text \<open>\<open>safeBatch\<close> drops the signed payload of a row and tells instead whether there is one.\<close>

type_synonym safe_batch = "payout_batch \<times> bool"

definition safeBatch :: "payout_batch \<Rightarrow> safe_batch" where
  "safeBatch b = (b\<lparr>pb_signedPayload := None\<rparr>, truthy (pb_signedPayload b))"

definition batch_json :: "safe_batch \<Rightarrow> json" where
  "batch_json = (\<lambda>(b, hasSignedPayload).
     JObj [(''id'', JStr (pb_id b)), (''asset'', JStr (show_asset (pb_asset b))), (''kind'', JStr (kind_text (pb_kind b))),
       (''state'', JStr (state_text (pb_state b))), (''scheduledFor'', JDate (pb_scheduledFor b)),
       (''totalGrossAtomic'', JBig (pb_totalGrossAtomic b)), (''totalFeeAtomic'', JBig (pb_totalFeeAtomic b)),
       (''totalNetAtomic'', JBig (pb_totalNetAtomic b)), (''transactionIds'', JArr (map JStr (pb_transactionIds b))),
       (''approvalThresholdHit'', JBool (pb_approvalThresholdHit b)),
       (''policySnapshot'', snapshot_json (pb_policySnapshot b)), (''approvedById'', opt_text (pb_approvedById b)),
       (''approvedAt'', opt_date (pb_approvedAt b)), (''broadcastAt'', opt_date (pb_broadcastAt b)),
       (''confirmedAt'', opt_date (pb_confirmedAt b)), (''errorCode'', opt_text (pb_errorCode b)),
       (''errorMessage'', opt_text (pb_errorMessage b)), (''createdAt'', JDate (pb_createdAt b)),
       (''hasSignedPayload'', JBool hasSignedPayload)])"

definition approve ::
  "services \<Rightarrow> instant \<Rightarrow> uuid \<Rightarrow> uuid \<Rightarrow> string \<Rightarrow> store \<Rightarrow> store \<times> safe_batch result" where
  "approve V now i adminId totp s =
     (case assertTotp V now adminId totp s of
        Inl e \<Rightarrow> (s, Inl e)
      | Inr _ \<Rightarrow>
          (case find_batch i s of
             None \<Rightarrow> (s, Inl (NotFoundException ''Payout batch not found''))
           | Some b \<Rightarrow>
               if pb_state b \<noteq> APPROVAL_REQUIRED \<and> pb_state b \<noteq> PayoutState.FAILED
               then (s, Inl (ConflictException (''Payout cannot be approved from '' @ state_text (pb_state b))))
               else
                 (let nextState = (if pb_state b = PayoutState.FAILED \<and> truthy (pb_signedPayload b) then SIGNED
                                   else AUTO_APPROVED)
                  in case assertPayoutTransition (pb_state b) nextState of
                       Inl e \<Rightarrow> (s, Inl e)
                     | Inr _ \<Rightarrow>
                         (let approved = (\<lambda>x. x\<lparr>pb_state := nextState, pb_approvedById := Some adminId,
                                pb_approvedAt := Some now, pb_errorCode := None, pb_errorMessage := None\<rparr>);
                              s1 = update_batch i approved s;
                              updated = safeBatch (approved b)
                          in andThen (audit V now (audit_entry adminId ''PAYOUT_APPROVED'' ''PayoutBatch'' i None
                                (Some (batch_json updated))) s1)
                               (\<lambda>_ s2. (s2, Inr updated))))))"

section \<open>Execution\<close>

definition assertLock :: "(nat \<Rightarrow> bool) \<Rightarrow> nat \<Rightarrow> unit result" where
  "assertLock lost k = guard_or (\<not> lost k) (ConflictException ''Payout execution lock was lost'')"

definition snapshot_feePayer :: "payout_batch \<Rightarrow> NetworkFeePayer option" where
  "snapshot_feePayer b = Option.bind (pb_policySnapshot b) ps_feePayer"

definition snapshot_maxFeeBps :: "payout_batch \<Rightarrow> int option" where
  "snapshot_maxFeeBps b = Option.bind (pb_policySnapshot b) ps_maxFeeBps"

definition candidates_of :: "payout_batch \<Rightarrow> payout_candidate list" where
  "candidates_of b =
     map (\<lambda>x. \<lparr>ca_id = pi_id x, ca_address = pi_destination x, ca_grossAtomic = pi_grossAtomic x\<rparr>) (pb_items b)"

definition prepare :: "services \<Rightarrow> (nat \<Rightarrow> bool) \<Rightarrow> payout_batch \<Rightarrow> store \<Rightarrow> prepared_payout result" where
  "prepare V lost b s =
     ebind (assertLock lost 1) (\<lambda>_.
       let currentPolicy = payoutPolicy (sv_env V) s;
           feePayer = orElse (snapshot_feePayer b) (pp_feePayer currentPolicy);
           maxFeeBps = orElse (snapshot_maxFeeBps b) (pp_maxFeeBps currentPolicy);
           operatorPaysCustomerFee = (pb_kind b = PayoutKind.CUSTOMER \<and> feePayer = OPERATOR)
       in ebind (wa_preparePayout (forAsset (sv_wallets V) (pb_asset b)) (candidates_of b) (\<not> operatorPaysCustomerFee)) (\<lambda>p.
          ebind (guard_or (\<not> (pb_kind b = PayoutKind.CUSTOMER \<and>
                    prep_feeAtomic p * 10000 > pb_totalGrossAtomic b * maxFeeBps))
                  (Error (''Payout network fee exceeds configured limit of '' @ show_int maxFeeBps @ '' basis points''))) (\<lambda>_.
          ebind (assertLock lost 2) (\<lambda>_.
          ebind (assertPayoutTransition (pb_state b) SIGNED) (\<lambda>_. Inr p)))))"

definition payload_context :: "uuid \<Rightarrow> string" where
  "payload_context i = ''payout:'' @ i @ '':signed-payload''"

definition store_fee :: "prepared_item \<Rightarrow> store \<Rightarrow> store result" where
  "store_fee r = update_item (pr_id r)
     (\<lambda>x. x\<lparr>pi_allocatedFeeAtomic := pr_allocatedFeeAtomic r, pi_netAtomic := pr_netAtomic r\<rparr>)"

definition signed :: "services \<Rightarrow> string \<Rightarrow> uuid \<Rightarrow> prepared_payout \<Rightarrow> payout_batch \<Rightarrow> payout_batch" where
  "signed V iv i p x =
     x\<lparr>pb_state := SIGNED,
       pb_signedPayload := Some (encrypt (sv_crypto V) iv (prep_signedPayload p) (payload_context i)),
       pb_transactionIds := prep_transactionIds p, pb_totalFeeAtomic := prep_feeAtomic p,
       pb_totalNetAtomic := sum_list (map pr_netAtomic (prep_items p)),
       pb_errorCode := None, pb_errorMessage := None\<rparr>"

definition sign_body :: "services \<Rightarrow> string \<Rightarrow> uuid \<Rightarrow> prepared_payout \<Rightarrow> store \<Rightarrow> (store \<times> unit) result" where
  "sign_body V iv i p s =
     ebind (fold_result store_fee (prep_items p) s) (\<lambda>s1. Inr (update_batch i (signed V iv i p) s1, ()))"

definition sign_phase ::
  "services \<Rightarrow> string \<Rightarrow> (nat \<Rightarrow> bool) \<Rightarrow> payout_batch \<Rightarrow> store \<Rightarrow> store \<times> payout_batch result" where
  "sign_phase V iv lost b s =
     (if truthy (pb_signedPayload b) then (s, Inr b)
      else
        (case prepare V lost b s of
           Inl e \<Rightarrow> (s, Inl e)
         | Inr p \<Rightarrow>
             andThen (transaction (sign_body V iv (pb_id b) p) s) (\<lambda>_ s1.
               (s1, case find_batch (pb_id b) s1 of
                      None \<Rightarrow> Inl (RecordNotFound ''PayoutBatch'')
                    | Some refreshed \<Rightarrow> Inr refreshed))))"

definition payload_of :: "crypto_service \<Rightarrow> payout_batch \<Rightarrow> string result" where
  "payload_of C b =
     (if \<not> truthy (pb_signedPayload b) then Inl (Error ''Signed payout payload is missing'')
      else (let signedPayload = the (pb_signedPayload b)
            in if startsWith signedPayload ''v1.'' then decrypt C signedPayload (payload_context (pb_id b))
               else Inr signedPayload))"

definition known_all :: "wallet_adapter \<Rightarrow> string list \<Rightarrow> bool result" where
  "known_all w expected =
     (if expected = [] then Inr False
      else ebind (map_result (wa_transactionKnown w) expected) (\<lambda>known. Inr (list_all id known)))"

text \<open>The transaction ids under which the batch is on the network, and the payloads that were handed over.\<close>

definition send_phase :: "services \<Rightarrow> (nat \<Rightarrow> bool) \<Rightarrow> payout_batch \<Rightarrow> string list result \<times> string list" where
  "send_phase V lost b =
     (let w = forAsset (sv_wallets V) (pb_asset b) in
      case ebind (payload_of (sv_crypto V) b) (\<lambda>payload. ebind (assertLock lost 3) (\<lambda>_.
             ebind (known_all w (pb_transactionIds b)) (\<lambda>alreadyBroadcast.
             ebind (assertLock lost 4) (\<lambda>_. Inr (payload, alreadyBroadcast))))) of
        Inl e \<Rightarrow> (Inl e, [])
      | Inr (payload, True) \<Rightarrow> (Inr (pb_transactionIds b), [])
      | Inr (payload, False) \<Rightarrow> (wa_broadcast w payload, [payload]))"

definition item_posting :: "payout_batch \<Rightarrow> payout_item \<Rightarrow> uuid \<Rightarrow> payout_posting" where
  "item_posting b x customerId =
     \<lparr>pq_batchId = pb_id b, pq_asset = pb_asset b, pq_customerId = customerId,
      pq_grossAtomic = pi_grossAtomic x, pq_feeAtomic = pi_allocatedFeeAtomic x,
      pq_operatorPaysFee = (pb_kind b = PayoutKind.CUSTOMER \<and>
        orElse (snapshot_feePayer b) (if pi_netAtomic x < pi_grossAtomic x then CUSTOMER else OPERATOR) = OPERATOR)\<rparr>"

definition post_item :: "payout_batch \<Rightarrow> payout_item \<Rightarrow> store \<Rightarrow> (store \<times> journal_transaction) result" where
  "post_item b x s =
     (if truthy (pi_customerId x) then postPayout (item_posting b x (the (pi_customerId x))) s
      else postOperatorPayout (pb_id b) (pb_asset b) (pi_grossAtomic x) (pi_allocatedFeeAtomic x) s)"

definition journal_item :: "payout_batch \<Rightarrow> payout_item \<Rightarrow> store \<Rightarrow> store result" where
  "journal_item b x s =
     (if truthy (pi_journalTransactionId x) then Inr s
      else ebind (post_item b x s) (\<lambda>(s1, j).
             update_item (pi_id x) (\<lambda>y. y\<lparr>pi_journalTransactionId := Some (jt_id j)\<rparr>) s1))"

definition broadcasted :: "instant \<Rightarrow> string list \<Rightarrow> payout_batch \<Rightarrow> payout_batch" where
  "broadcasted now txids x =
     x\<lparr>pb_state := BROADCAST, pb_transactionIds := txids, pb_broadcastAt := Some now,
       pb_errorCode := None, pb_errorMessage := None\<rparr>"

definition journal_body ::
  "instant \<Rightarrow> payout_batch \<Rightarrow> string list \<Rightarrow> store \<Rightarrow> (store \<times> unit) result" where
  "journal_body now b txids s =
     ebind (fold_result (journal_item b) (pb_items b) s) (\<lambda>s1.
       Inr (update_batch (pb_id b) (broadcasted now txids) s1, ()))"

definition journal_phase ::
  "instant \<Rightarrow> (nat \<Rightarrow> bool) \<Rightarrow> payout_batch \<Rightarrow> string list \<Rightarrow> store \<Rightarrow> store \<times> safe_batch result" where
  "journal_phase now lost b txids s =
     (case ebind (assertLock lost 5) (\<lambda>_. assertPayoutTransition (pb_state b) BROADCAST) of
        Inl e \<Rightarrow> (s, Inl e)
      | Inr _ \<Rightarrow>
          andThen (transaction (journal_body now b txids) s) (\<lambda>_ s1.
            let s2 = publish ''payout.broadcast'' (pb_id b) s1
            in (s2, case find_batch (pb_id b) s2 of
                      None \<Rightarrow> Inl (RecordNotFound ''PayoutBatch'')
                    | Some result \<Rightarrow> Inr (safeBatch result))))"

definition failed :: "error \<Rightarrow> payout_batch \<Rightarrow> payout_batch" where
  "failed e x = x\<lparr>pb_state := PayoutState.FAILED, pb_errorCode := Some ''EXECUTION_FAILED'',
                  pb_errorMessage := Some (take 5000 (error_message e))\<rparr>"

definition fail_phase :: "instant \<Rightarrow> uuid \<Rightarrow> AssetCode \<Rightarrow> error \<Rightarrow> store \<Rightarrow> store" where
  "fail_phase now i asset e s =
     raise_alert now
       \<lparr>ai_dedupeKey = ''payout:'' @ i, ai_severity = CRITICAL, ai_title = show_asset asset @ '' payout failed'',
        ai_message = error_message e\<rparr>
       (publish ''payout.failed'' i (update_batch i (failed e) s))"

text \<open>The try block: what it leaves in the store, what it sent, and how it ended.\<close>

definition attempt ::
  "services \<Rightarrow> instant \<Rightarrow> string \<Rightarrow> (nat \<Rightarrow> bool) \<Rightarrow> payout_batch \<Rightarrow> store \<Rightarrow> store \<times> string list \<times> safe_batch result" where
  "attempt V now iv lost b s =
     (case sign_phase V iv lost b s of
        (s1, Inl e) \<Rightarrow> (s1, [], Inl e)
      | (s1, Inr b1) \<Rightarrow>
          (case send_phase V lost b1 of
             (Inl e, sent) \<Rightarrow> (s1, sent, Inl e)
           | (Inr txids, sent) \<Rightarrow>
               (let (s2, r) = journal_phase now lost b1 txids s1 in (s2, sent, r))))"

definition executable :: "PayoutState \<Rightarrow> bool" where
  "executable st \<longleftrightarrow> st = AUTO_APPROVED \<or> st = SIGNED \<or> st = PayoutState.FAILED"

definition executeUnderLock ::
  "services \<Rightarrow> instant \<Rightarrow> string \<Rightarrow> (nat \<Rightarrow> bool) \<Rightarrow> uuid \<Rightarrow> store \<Rightarrow> store \<times> string list \<times> safe_batch result" where
  "executeUnderLock V now iv lost i s =
     (if lost 0 then (s, [], Inl (ConflictException ''Payout execution lock was lost''))
      else if list_ex (\<lambda>d. dp_status d = DepositStatus.REORGED) (deposits s)
      then (s, [], Inl (ConflictException ''Payouts are halted because an allocated deposit was reorged''))
      else
        (case find_batch i s of
           None \<Rightarrow> (s, [], Inl (NotFoundException ''Payout batch not found''))
         | Some b \<Rightarrow>
             if \<not> executable (pb_state b)
             then (s, [], Inl (ConflictException (''Payout cannot execute from '' @ state_text (pb_state b))))
             else
               (case attempt V now iv lost b s of
                  (s1, sent, Inr result) \<Rightarrow> (s1, sent, Inr result)
                | (s1, sent, Inl e) \<Rightarrow> (fail_phase now i (pb_asset b) e s1, sent, Inl e))))"

definition lock_key :: string where
  "lock_key = ''payout:execute:wallets''"

definition lock_ttl :: int where
  "lock_ttl = 600000"

text \<open>What one execution draws and meets: the lock token, the nonce, the losses of the lock, and when it ends.\<close>

record run_env =
  re_token :: string
  re_iv :: string
  re_lost :: "nat \<Rightarrow> bool"
  re_end :: instant

definition execute ::
  "services \<Rightarrow> instant \<Rightarrow> run_env \<Rightarrow> uuid \<Rightarrow> auth_state \<Rightarrow> auth_state \<times> string list \<times> safe_batch result" where
  "execute V now E i st =
     (case lock_acquire now lock_key (re_token E) lock_ttl (snd st) of
        (r, False) \<Rightarrow> ((fst st, r), [], Inl (ConflictException ''Another wallet payout is already being executed''))
      | (r, True) \<Rightarrow>
          (let (s1, sent, result) = executeUnderLock V now (re_iv E) (re_lost E) i (fst st)
           in ((s1, lock_release (re_end E) lock_key (re_token E) r), sent, result)))"

section \<open>Reconciliation and the schedule\<close>

definition confirmed_enough :: "services \<Rightarrow> payout_batch \<Rightarrow> bool result" where
  "confirmed_enough V b =
     (let required = cw_confirmations (wallet_setting (sv_env V) (pb_asset b))
      in ebind (map_result (wa_transactionConfirmations (forAsset (sv_wallets V) (pb_asset b))) (pb_transactionIds b))
           (\<lambda>counts. Inr (counts \<noteq> [] \<and> list_all (\<lambda>n. n \<ge> required) counts)))"

fun reconcile_all :: "services \<Rightarrow> instant \<Rightarrow> payout_batch list \<Rightarrow> store \<Rightarrow> store \<times> unit result" where
  "reconcile_all V now [] s = (s, Inr ())"
| "reconcile_all V now (b # bs) s =
     (case confirmed_enough V b of
        Inl e \<Rightarrow> (s, Inl e)
      | Inr False \<Rightarrow> reconcile_all V now bs s
      | Inr True \<Rightarrow>
          (case assertPayoutTransition (pb_state b) PayoutState.CONFIRMED of
             Inl e \<Rightarrow> (s, Inl e)
           | Inr _ \<Rightarrow>
               reconcile_all V now bs
                 (publish ''payout.confirmed'' (pb_id b)
                   (update_batch (pb_id b) (\<lambda>x. x\<lparr>pb_state := PayoutState.CONFIRMED, pb_confirmedAt := Some now\<rparr>) s))))"

definition reconcile :: "services \<Rightarrow> instant \<Rightarrow> store \<Rightarrow> store \<times> unit result" where
  "reconcile V now s =
     reconcile_all V now (filter (\<lambda>b. pb_state b = BROADCAST) (payoutBatches s)) s"

definition monitor :: "decimal_lib \<Rightarrow> services \<Rightarrow> instant \<Rightarrow> bool \<Rightarrow> store \<Rightarrow> store" where
  "monitor D V now scanning s = fst (reconcile V now (scanAll D (sv_wallets V) now scanning s))"

text \<open>A planned batch that needs no approval is executed at once.\<close>

definition execute_planned ::
  "services \<Rightarrow> instant \<Rightarrow> run_env \<Rightarrow> store \<times> payout_batch option result \<Rightarrow> redis \<Rightarrow> auth_state \<times> unit result" where
  "execute_planned V now E planned r =
     (case planned of
        (s, Inl e) \<Rightarrow> ((s, r), Inl e)
      | (s, Inr None) \<Rightarrow> ((s, r), Inr ())
      | (s, Inr (Some b)) \<Rightarrow>
          if pb_state b \<noteq> AUTO_APPROVED then ((s, r), Inr ())
          else (let (st, sent, result) = execute V now E (pb_id b) (s, r)
                in (st, ebind result (\<lambda>_. Inr ()))))"

definition scheduled_operator ::
  "services \<Rightarrow> instant \<Rightarrow> run_env \<Rightarrow> claim option \<Rightarrow> AssetCode \<Rightarrow> auth_state \<Rightarrow> auth_state \<times> unit result" where
  "scheduled_operator V now E operatorClaim asset st =
     (let (s1, operator) = operatorPayout (sv_env V) now asset (fst st);
          due = (case operatorClaim of None \<Rightarrow> False
                 | Some c \<Rightarrow> clm_run c \<and> (os_mode operator = OperatorPayoutMode.DAILY \<or>
                      (os_mode operator = WEEKLY \<and> os_weekday operator = clm_weekday c)))
      in if due then execute_planned V now E (planOperator V now asset s1) (snd st)
         else ((s1, snd st), Inr ()))"

definition scheduled_asset ::
  "services \<Rightarrow> instant \<Rightarrow> (PayoutKind \<Rightarrow> run_env) \<Rightarrow> bool \<Rightarrow> claim option \<Rightarrow> AssetCode \<Rightarrow> auth_state \<Rightarrow> auth_state \<times> unit result" where
  "scheduled_asset V now E run operatorClaim asset st =
     (case (if run then execute_planned V now (E PayoutKind.CUSTOMER) (plan V now asset (fst st)) (snd st)
            else (st, Inr ())) of
        (st1, Inl e) \<Rightarrow> (st1, Inl e)
      | (st1, Inr _) \<Rightarrow> scheduled_operator V now (E PayoutKind.OPERATOR) operatorClaim asset st1)"

definition result_option :: "'a result \<Rightarrow> 'a option" where
  "result_option r = (case r of Inl e \<Rightarrow> None | Inr x \<Rightarrow> Some x)"

definition claimed :: "claim option \<Rightarrow> bool" where
  "claimed c \<longleftrightarrow> (case c of None \<Rightarrow> False | Some x \<Rightarrow> clm_run x)"

definition scheduled ::
  "decimal_lib \<Rightarrow> services \<Rightarrow> instant \<Rightarrow> (AssetCode \<Rightarrow> PayoutKind \<Rightarrow> run_env) \<Rightarrow> bool \<Rightarrow> bool \<Rightarrow> auth_state \<Rightarrow> auth_state" where
  "scheduled D V now E running scanning st =
     (if running then st
      else
        (let (s1, r1) = claimScheduledRun V now (fst st);
             (s2, r2) = claimOperatorScheduledRun V now s1;
             claim = result_option r1; operatorClaim = result_option r2
         in if \<not> claimed claim \<and> \<not> claimed operatorClaim then (s2, snd st)
            else
              (let s3 = scanAll D (sv_wallets V) now scanning s2;
                   (st4, r4) = scheduled_asset V now (E BTC) (claimed claim) operatorClaim BTC (s3, snd st)
               in case r4 of
                    Inl e \<Rightarrow> st4
                  | Inr _ \<Rightarrow> fst (scheduled_asset V now (E XMR) (claimed claim) operatorClaim XMR st4))))"

end
