(* ===== verification/PayoutSafety.thy ===== *)
theory PayoutSafety
  imports Payouts
begin

text \<open>
  Safety of the payouts: what is planned is covered by the balances, what is journaled has been
  handed to the network, a batch is sent under one signed payload only, and it moves along the
  transitions of its state machine.  The section on reachable stores lets every operation of the
  service happen in any order, with executions that fail or crash between their phases.
\<close>

section \<open>Items and what they reserve\<close>

definition all_items :: "payout_batch list \<Rightarrow> (AssetCode \<times> payout_item) list" where
  "all_items bs = concat (map (\<lambda>b. map (Pair (pb_asset b)) (pb_items b)) bs)"

text \<open>What is still to be paid to a customer, or with \<open>None\<close> to the operator.\<close>

definition pending_to :: "uuid option \<Rightarrow> AssetCode \<Rightarrow> payout_batch list \<Rightarrow> atomic" where
  "pending_to c A bs =
     sum_where (\<lambda>(B, x). B = A \<and> pi_customerId x = c \<and> pi_journalTransactionId x = None)
       (\<lambda>(B, x). pi_grossAtomic x) (all_items bs)"

definition owed_to :: "uuid option \<Rightarrow> AssetCode \<Rightarrow> store \<Rightarrow> atomic" where
  "owed_to c A s = (case c of Some k \<Rightarrow> customerBalance k A s | None \<Rightarrow> operatorBalance A s)"

definition covered :: "store \<Rightarrow> bool" where
  "covered s \<longleftrightarrow> (\<forall>c A. pending_to c A (payoutBatches s) \<le> owed_to c A s)"

text \<open>The columns on which the bookkeeping depends.\<close>

definition item_core :: "payout_item \<Rightarrow> uuid \<times> uuid option \<times> atomic \<times> uuid option" where
  "item_core x = (pi_id x, pi_customerId x, pi_grossAtomic x, pi_journalTransactionId x)"

definition batch_core ::
  "payout_batch \<Rightarrow> uuid \<times> AssetCode \<times> PayoutKind \<times> (uuid \<times> uuid option \<times> atomic \<times> uuid option) list" where
  "batch_core b = (pb_id b, pb_asset b, pb_kind b, map item_core (pb_items b))"

definition booked :: "payout_batch \<Rightarrow> bool" where
  "booked b \<longleftrightarrow> pb_state b = BROADCAST \<or> pb_state b = PayoutState.CONFIRMED"

definition item_ok :: "AssetCode \<times> payout_item \<Rightarrow> bool" where
  "item_ok = (\<lambda>(A, x). 0 \<le> pi_grossAtomic x \<and> pi_customerId x \<noteq> Some [])"

definition batch_ok :: "payout_batch \<Rightarrow> bool" where
  "batch_ok b \<longleftrightarrow> pb_state b \<noteq> CANCELLED \<and>
     (\<forall>x \<in> set (pb_items b). (pi_customerId x = None \<longleftrightarrow> pb_kind b = PayoutKind.OPERATOR) \<and>
        (pi_journalTransactionId x \<noteq> None \<longleftrightarrow> booked b))"

definition batches_ok :: "payout_batch list \<Rightarrow> bool" where
  "batches_ok bs \<longleftrightarrow> unique_on pb_id bs \<and> unique_on (pi_id \<circ> snd) (all_items bs) \<and>
     list_all item_ok (all_items bs) \<and> list_all batch_ok bs"

definition batch_ids :: "payout_batch list \<Rightarrow> uuid set" where
  "batch_ids bs = pb_id ` set bs \<union> (pi_id \<circ> snd) ` set (all_items bs)"

definition payout_inv :: "store \<Rightarrow> bool" where
  "payout_inv s \<longleftrightarrow> wf_ledger s \<and> dest_unique s \<and> [] \<notin> cust_id ` set (customers s) \<and>
     batch_ids (payoutBatches s) \<subseteq> minted_ids s \<and> batches_ok (payoutBatches s) \<and> covered s"

lemma all_items_simps [simp]:
  "all_items [] = []"
  "all_items (b # bs) = map (Pair (pb_asset b)) (pb_items b) @ all_items bs"
  "all_items (bs @ cs) = all_items bs @ all_items cs"
  by (simp_all add: all_items_def)

lemma all_items_member:
  "(A, x) \<in> set (all_items bs) \<longleftrightarrow> (\<exists>b \<in> set bs. pb_asset b = A \<and> x \<in> set (pb_items b))"
  by (auto simp: all_items_def)

lemma pending_to_simps [simp]:
  "pending_to c A [] = 0"
  "pending_to c A (bs @ cs) = pending_to c A bs + pending_to c A cs"
  by (simp_all add: pending_to_def)

lemma sum_where_map: "sum_where P f (map g xs) = sum_where (P \<circ> g) (f \<circ> g) xs"
  by (induction xs) auto

text \<open>Rows with equal cores have equal books.\<close>

definition core_items :: "payout_batch list \<Rightarrow> (AssetCode \<times> uuid \<times> uuid option \<times> atomic \<times> uuid option) list" where
  "core_items bs = concat (map (\<lambda>(i, A, k, xs). map (Pair A) xs) (map batch_core bs))"

lemma core_items_eq: "core_items bs = map (map_prod id item_core) (all_items bs)"
  by (induction bs) (auto simp: core_items_def batch_core_def)

lemma pending_to_core:
  "pending_to c A bs = sum_where (\<lambda>(B, i, k, g, j). B = A \<and> k = c \<and> j = None) (\<lambda>(B, i, k, g, j). g) (core_items bs)"
  unfolding core_items_eq pending_to_def sum_where_map
  by (rule sum_where_cong) (auto simp: item_core_def)

lemma same_core:
  assumes "map batch_core bs = map batch_core cs"
  shows "pending_to c A bs = pending_to c A cs"
    and "map pb_id bs = map pb_id cs"
    and "map (pi_id \<circ> snd) (all_items bs) = map (pi_id \<circ> snd) (all_items cs)"
    and "list_all item_ok (all_items bs) \<longleftrightarrow> list_all item_ok (all_items cs)"
proof -
  from assms have c: "core_items bs = core_items cs" by (simp add: core_items_def)
  then show "pending_to c A bs = pending_to c A cs" by (simp add: pending_to_core)
  from assms have "map (fst \<circ> batch_core) bs = map (fst \<circ> batch_core) cs" by (metis map_map)
  then show "map pb_id bs = map pb_id cs" by (simp add: batch_core_def comp_def)
  have ids: "map (pi_id \<circ> snd) (all_items bs) = map (fst \<circ> snd) (core_items bs)" for bs
    by (simp add: core_items_eq item_core_def comp_def)
  then show "map (pi_id \<circ> snd) (all_items bs) = map (pi_id \<circ> snd) (all_items cs)" by (simp add: c)
  have "list_all item_ok (all_items bs) \<longleftrightarrow> list_all (\<lambda>(B, i, k, g, j). 0 \<le> g \<and> k \<noteq> Some []) (core_items bs)" for bs
    by (auto simp: core_items_eq item_core_def item_ok_def list_all_iff)
  then show "list_all item_ok (all_items bs) \<longleftrightarrow> list_all item_ok (all_items cs)" by (simp add: c)
qed

lemma same_core_ids:
  assumes "map batch_core bs = map batch_core cs" shows "batch_ids bs = batch_ids cs"
  using same_core(2,3) [OF assms] unfolding batch_ids_def by (metis set_map)

text \<open>A change of a batch that touches no book.\<close>

definition unbooked_step :: "payout_batch \<Rightarrow> payout_batch \<Rightarrow> bool" where
  "unbooked_step b c \<longleftrightarrow> batch_core c = batch_core b \<and> booked c = booked b \<and>
     (pb_state c = CANCELLED \<longrightarrow> pb_state b = CANCELLED)"

lemma unbooked_refl [simp]: "unbooked_step b b"
  by (simp add: unbooked_step_def)

lemma unbooked_core: "list_all2 unbooked_step bs cs \<Longrightarrow> map batch_core cs = map batch_core bs"
  by (induction rule: list_all2_induct) (auto simp: unbooked_step_def)

lemma batch_ok_core:
  "batch_ok b \<longleftrightarrow> pb_state b \<noteq> CANCELLED \<and>
     list_all (\<lambda>(i, k, g, j). (k = None \<longleftrightarrow> pb_kind b = PayoutKind.OPERATOR) \<and> (j \<noteq> None \<longleftrightarrow> booked b))
       (map item_core (pb_items b))"
  by (simp add: batch_ok_def list_all_iff item_core_def)

lemma unbooked_batch_ok: "unbooked_step b c \<Longrightarrow> batch_ok b \<Longrightarrow> batch_ok c"
  by (simp add: unbooked_step_def batch_ok_core batch_core_def)

lemma list_all2_preserves: "list_all2 R xs ys \<Longrightarrow> list_all P xs \<Longrightarrow> (\<And>x y. R x y \<Longrightarrow> P x \<Longrightarrow> P y) \<Longrightarrow> list_all P ys"
  by (induction rule: list_all2_induct) auto

lemma unbooked_batches_ok:
  assumes "list_all2 unbooked_step bs cs" and "batches_ok bs" shows "batches_ok cs"
proof -
  note core = same_core [OF unbooked_core [OF assms(1)]]
  have "list_all batch_ok cs"
    using assms(2) by (auto simp: batches_ok_def intro: list_all2_preserves [OF assms(1)] unbooked_batch_ok)
  with assms(2) show ?thesis by (simp add: batches_ok_def core(2,3,4))
qed

section \<open>Frames\<close>

definition same_ledger :: "store \<Rightarrow> store \<Rightarrow> bool" where
  "same_ledger s t \<longleftrightarrow> ledgerAccounts t = ledgerAccounts s \<and> journalTransactions t = journalTransactions s \<and>
     uuids t = uuids s \<and> minted s \<le> minted t"

lemma same_ledgerD:
  assumes "same_ledger s t"
  shows "wf_ledger s \<Longrightarrow> wf_ledger t" and "owed_to c A t = owed_to c A s" and "minted_ids s \<subseteq> minted_ids t"
proof -
  have "is_account t = is_account s" "all_entries t = all_entries s"
    using assms by (auto simp: same_ledger_def is_account_def all_entries_def fun_eq_iff)
  then show "owed_to c A t = owed_to c A s"
    by (simp add: owed_to_def customerBalance_def operatorBalance_def account_total_def split: option.splits)
  show "minted_ids s \<subseteq> minted_ids t" using assms by (auto simp: same_ledger_def minted_ids_def)
  show "wf_ledger s \<Longrightarrow> wf_ledger t" using assms by (auto simp: same_ledger_def intro: wf_ledger_cong)
qed

lemma same_ledger_trans: "same_ledger s t \<Longrightarrow> same_ledger t u \<Longrightarrow> same_ledger s u"
  by (auto simp: same_ledger_def)

lemma same_ledger_refl [simp]: "same_ledger s s"
  by (simp add: same_ledger_def)

lemma logged_same_ledger: "logged_only s t \<Longrightarrow> same_ledger s t"
  by (simp add: same_ledger_def logged_only_tables)

text \<open>What the operations other than postings leave of the tables the payouts use.\<close>

definition quiet :: "store \<Rightarrow> store \<Rightarrow> bool" where
  "quiet s t \<longleftrightarrow> same_ledger s t \<and> payoutDestinations t = payoutDestinations s \<and> customers t = customers s"

lemma quiet_refl [simp]: "quiet s s"
  by (simp add: quiet_def)

lemma quiet_trans: "quiet s t \<Longrightarrow> quiet t u \<Longrightarrow> quiet s u"
  by (auto simp: quiet_def intro: same_ledger_trans)

lemma logged_quiet: "logged_only s t \<Longrightarrow> quiet s t \<and> payoutBatches t = payoutBatches s"
  by (simp add: quiet_def logged_same_ledger logged_only_tables)

lemma quiet_update [simp]: "quiet s (s\<lparr>payoutBatches := bs\<rparr>)" "quiet s (update_batch i f s)"
  by (simp_all add: quiet_def same_ledger_def update_batch_def)

lemma payout_inv_step:
  assumes "payout_inv s" and "wf_ledger t" and "dest_unique t" and "[] \<notin> cust_id ` set (customers t)"
    and "list_all2 unbooked_step (payoutBatches s) (payoutBatches t)"
    and "minted_ids s \<subseteq> minted_ids t" and "\<And>c A. owed_to c A s \<le> owed_to c A t"
  shows "payout_inv t"
proof -
  note core = unbooked_core [OF assms(5)]
  have "covered t"
    using assms(1,7) same_core(1) [OF core] unfolding covered_def payout_inv_def by (metis order_trans)
  moreover have "batches_ok (payoutBatches t)"
    using assms(1) unbooked_batches_ok [OF assms(5)] by (simp add: payout_inv_def)
  moreover have "batch_ids (payoutBatches t) \<subseteq> minted_ids t"
    using assms(1,6) same_core_ids [OF core] by (auto simp: payout_inv_def)
  ultimately show ?thesis using assms(2-4) by (simp add: payout_inv_def)
qed

lemma payout_inv_quiet:
  assumes "payout_inv s" and "quiet s t" and "list_all2 unbooked_step (payoutBatches s) (payoutBatches t)"
  shows "payout_inv t"
proof -
  have "same_ledger s t" and tabs: "payoutDestinations t = payoutDestinations s" "customers t = customers s"
    using assms(2) by (simp_all add: quiet_def)
  note led = same_ledgerD [OF this(1)]
  from assms(1) have "wf_ledger s" "dest_unique s" "[] \<notin> cust_id ` set (customers s)" by (simp_all add: payout_inv_def)
  with led tabs show ?thesis
    by (intro payout_inv_step [OF assms(1) _ _ _ assms(3) led(3)]) (simp_all add: dest_unique_def)
qed

lemma unbooked_same: "list_all2 unbooked_step bs bs"
  by (simp add: list_all2_same)

lemma unbooked_step_trans: "unbooked_step b c \<Longrightarrow> unbooked_step c d \<Longrightarrow> unbooked_step b d"
  by (auto simp: unbooked_step_def)

text \<open>How a batch may change at all: it keeps what was planned, its payload stays once it is signed, it
  leaves the state in which it waits for approval only with an approver, and it moves along the
  transitions of the state machine.\<close>

definition legal :: "PayoutState \<Rightarrow> PayoutState \<Rightarrow> bool" where
  "legal = (\<lambda>a b. b \<in> set (TRANSITIONS a))\<^sup>*\<^sup>*"

definition item_plan :: "payout_item \<Rightarrow> uuid \<times> uuid option \<times> string \<times> atomic" where
  "item_plan x = (pi_id x, pi_customerId x, pi_destination x, pi_grossAtomic x)"

definition evolves :: "payout_batch \<Rightarrow> payout_batch \<Rightarrow> bool" where
  "evolves b c \<longleftrightarrow> pb_id c = pb_id b \<and> pb_asset c = pb_asset b \<and> pb_kind c = pb_kind b \<and>
     pb_totalGrossAtomic c = pb_totalGrossAtomic b \<and> pb_createdAt c = pb_createdAt b \<and>
     pb_approvalThresholdHit c = pb_approvalThresholdHit b \<and>
     map item_plan (pb_items c) = map item_plan (pb_items b) \<and>
     (truthy (pb_signedPayload b) \<longrightarrow> pb_signedPayload c = pb_signedPayload b) \<and>
     (pb_approvedById b \<noteq> None \<longrightarrow> pb_approvedById c \<noteq> None) \<and>
     (pb_state b = APPROVAL_REQUIRED \<longrightarrow> pb_state c = APPROVAL_REQUIRED \<or> pb_approvedById c \<noteq> None) \<and>
     legal (pb_state b) (pb_state c)"

lemma legal_refl [simp]: "legal a a"
  by (simp add: legal_def)

lemma legal_trans: "legal a b \<Longrightarrow> legal b c \<Longrightarrow> legal a c"
  by (simp add: legal_def)

lemma legal_step: "b \<in> set (TRANSITIONS a) \<Longrightarrow> legal a b"
  by (auto simp: legal_def)

lemma canTransition_legal: "canTransitionPayout a b \<Longrightarrow> legal a b"
  by (auto simp: canTransitionPayout_def intro: legal_step)

lemma legal_final: "legal PayoutState.CONFIRMED a \<longleftrightarrow> a = PayoutState.CONFIRMED"
  unfolding legal_def by (subst rtranclp.simps) (auto elim: converse_rtranclpE)

lemma evolves_refl [simp]: "evolves b b"
  by (simp add: evolves_def)

lemma evolves_trans:
  assumes "evolves b c" and "evolves c d" shows "evolves b d"
  using assms legal_trans [of "pb_state b" "pb_state c" "pb_state d"] unfolding evolves_def by (elim conjE) auto

definition settles :: "payout_batch \<Rightarrow> payout_batch \<Rightarrow> bool" where
  "settles b c \<longleftrightarrow> unbooked_step b c \<and> evolves b c"

lemma settles_refl [simp]: "settles b b"
  by (simp add: settles_def)

lemma settles_trans: "settles b c \<Longrightarrow> settles c d \<Longrightarrow> settles b d"
  unfolding settles_def by (blast intro: evolves_trans dest: unbooked_step_trans)

lemma all_settle_trans:
  "list_all2 settles bs cs \<Longrightarrow> list_all2 settles cs ds \<Longrightarrow> list_all2 settles bs ds"
  by (rule list_all2_trans [of settles settles settles bs cs ds]) (blast intro: settles_trans)

lemma all_settle_same [simp]: "list_all2 settles bs bs"
  by (simp add: list_all2_same)

lemma settleD:
  assumes "list_all2 settles bs cs" shows "list_all2 unbooked_step bs cs" and "list_all2 evolves bs cs"
  using assms by (auto elim: list_all2_mono simp: settles_def)

lemma settle_inv:
  "payout_inv s \<Longrightarrow> quiet s t \<Longrightarrow> list_all2 settles (payoutBatches s) (payoutBatches t) \<Longrightarrow> payout_inv t"
  by (blast intro: payout_inv_quiet settleD(1))

lemma update_batch_rel:
  assumes "\<And>b. b \<in> set (payoutBatches s) \<Longrightarrow> pb_id b = i \<Longrightarrow> R b (f b)" and "\<And>b. R b b"
  shows "list_all2 R (payoutBatches s) (payoutBatches (update_batch i f s))"
proof -
  have "list_all2 R bs (update_where (\<lambda>b. pb_id b = i) f bs)"
    if "\<And>b. b \<in> set bs \<Longrightarrow> pb_id b = i \<Longrightarrow> R b (f b)" for bs
    using that assms(2) by (induction bs) auto
  with assms(1) show ?thesis by (simp add: update_batch_def)
qed

lemma list_all2_map: "(\<And>b. b \<in> set bs \<Longrightarrow> R b (f b)) \<Longrightarrow> list_all2 R bs (map f bs)"
  by (induction bs) auto

lemma find_batch_unique:
  assumes "batches_ok (payoutBatches s)" and "find_batch i s = Some b"
  shows "b \<in> set (payoutBatches s)" and "pb_id b = i"
    and "c \<in> set (payoutBatches s) \<Longrightarrow> pb_id c = i \<Longrightarrow> c = b"
  using assms find_Some_iff_unique [of pb_id "payoutBatches s" i]
  by (auto simp: find_batch_def batches_ok_def distinct_map inj_on_def)

section \<open>Approval and reconciliation\<close>

lemma approve_cases:
  obtains (refused) "fst (approve V now i adminId totp s) = s"
  | (approved) b st f where "find_batch i s = Some b" "assertTotp V now adminId totp s = Inr ()"
      "pb_state b = APPROVAL_REQUIRED \<or> pb_state b = PayoutState.FAILED"
      "st = (if pb_state b = PayoutState.FAILED \<and> truthy (pb_signedPayload b) then SIGNED else AUTO_APPROVED)"
      "f = (\<lambda>x. x\<lparr>pb_state := st, pb_approvedById := Some adminId, pb_approvedAt := Some now,
             pb_errorCode := None, pb_errorMessage := None\<rparr>)"
      "logged_only (update_batch i f s) (fst (approve V now i adminId totp s))"
proof -
  have "fst (approve V now i adminId totp s) = s \<or> (\<exists>b st f. find_batch i s = Some b \<and>
      assertTotp V now adminId totp s = Inr () \<and> (pb_state b = APPROVAL_REQUIRED \<or> pb_state b = PayoutState.FAILED) \<and>
      st = (if pb_state b = PayoutState.FAILED \<and> truthy (pb_signedPayload b) then SIGNED else AUTO_APPROVED) \<and>
      f = (\<lambda>x. x\<lparr>pb_state := st, pb_approvedById := Some adminId, pb_approvedAt := Some now,
             pb_errorCode := None, pb_errorMessage := None\<rparr>) \<and>
      logged_only (update_batch i f s) (fst (approve V now i adminId totp s)))"
    unfolding approve_def Let_def
    by (auto split: sum.splits option.splits simp: andThen_audit_logged simp del: payout_batch.update_defs)
  with that show thesis by blast
qed

lemma approve_settles:
  assumes "batches_ok (payoutBatches s)"
  shows "quiet s (fst (approve V now i adminId totp s))"
    and "list_all2 settles (payoutBatches s) (payoutBatches (fst (approve V now i adminId totp s)))"
proof -
  have "quiet s (fst (approve V now i adminId totp s)) \<and>
    list_all2 settles (payoutBatches s) (payoutBatches (fst (approve V now i adminId totp s)))"
  proof (cases rule: approve_cases [of V now i adminId totp s])
    case refused
    then show ?thesis by simp
  next
    case (approved b st f)
    have "settles c (f c)" if "c \<in> set (payoutBatches s)" "pb_id c = i" for c
    proof -
      have "c = b" using find_batch_unique(3) [OF assms approved(1)] that .
      moreover have "legal (pb_state b) st" using approved(3,4) by (auto intro!: legal_step)
      ultimately show ?thesis
        using approved(3,4,5) by (auto simp: settles_def unbooked_step_def evolves_def batch_core_def booked_def)
    qed
    then have "list_all2 settles (payoutBatches s) (payoutBatches (update_batch i f s))"
      by (rule update_batch_rel) simp_all
    with logged_quiet [OF approved(6)] show ?thesis by (metis quiet_trans quiet_update(2))
  qed
  then show "quiet s (fst (approve V now i adminId totp s))"
    and "list_all2 settles (payoutBatches s) (payoutBatches (fst (approve V now i adminId totp s)))" by simp_all
qed

lemma publish_quiet [simp]: "quiet s (publish n x s)" "quiet t s \<Longrightarrow> quiet t (publish n x s)"
  using logged_quiet [OF publish_logged] quiet_trans by blast+

lemma reconcile_all_settles:
  assumes "\<And>b r. b \<in> set bs \<Longrightarrow> r \<in> set (payoutBatches s) \<Longrightarrow> pb_id r = pb_id b \<Longrightarrow> booked r"
  shows "quiet s (fst (reconcile_all V now bs s)) \<and>
    list_all2 settles (payoutBatches s) (payoutBatches (fst (reconcile_all V now bs s)))"
  using assms
proof (induction V now bs s rule: reconcile_all.induct)
  case (1 V now s)
  then show ?case by simp
next
  case (2 V now b bs s)
  let ?f = "\<lambda>x. x\<lparr>pb_state := PayoutState.CONFIRMED, pb_confirmedAt := Some now\<rparr>"
  let ?t = "publish ''payout.confirmed'' (pb_id b) (update_batch (pb_id b) ?f s)"
  have st: "list_all2 settles (payoutBatches s) (payoutBatches ?t)"
  proof -
    have "settles r (?f r)" if "r \<in> set (payoutBatches s)" "pb_id r = pb_id b" for r
      using "2.prems" [OF list.set_intros(1) that]
      by (auto simp: settles_def unbooked_step_def evolves_def batch_core_def booked_def intro: legal_step)
    then have "list_all2 settles (payoutBatches s) (payoutBatches (update_batch (pb_id b) ?f s))"
      by (rule update_batch_rel) simp_all
    then show ?thesis by simp
  qed
  have q: "quiet s ?t" by simp
  have keep: "booked r" if "c \<in> set bs" "r \<in> set (payoutBatches ?t)" "pb_id r = pb_id c" for c r
    using that "2.prems" [of c] by (auto simp: update_batch_def set_update_where booked_def split: if_splits)
  show ?case
  proof (cases "confirmed_enough V b")
    case (Inr yes)
    show ?thesis
    proof (cases yes)
      case True
      show ?thesis
      proof (cases "assertPayoutTransition (pb_state b) PayoutState.CONFIRMED")
        case ok: (Inr u)
        have "quiet ?t (fst (reconcile_all V now bs ?t)) \<and>
            list_all2 settles (payoutBatches ?t) (payoutBatches (fst (reconcile_all V now bs ?t)))"
          using Inr True ok keep by (intro "2.IH"(1)) auto
        then have "quiet s (fst (reconcile_all V now bs ?t))"
          "list_all2 settles (payoutBatches s) (payoutBatches (fst (reconcile_all V now bs ?t)))"
          using quiet_trans [OF q] all_settle_trans [OF st] by blast+
        then show ?thesis using Inr True ok by simp
      qed (use Inr True in simp)
    next
      case False
      have "quiet s (fst (reconcile_all V now bs s)) \<and>
          list_all2 settles (payoutBatches s) (payoutBatches (fst (reconcile_all V now bs s)))"
        by (rule "2.IH"(2) [OF Inr]) (use False in simp, blast intro: "2.prems" list.set_intros(2))
      then show ?thesis using Inr False by simp
    qed
  qed simp
qed

lemma reconcile_settles:
  assumes "batches_ok (payoutBatches s)"
  shows "quiet s (fst (reconcile V now s))"
    and "list_all2 settles (payoutBatches s) (payoutBatches (fst (reconcile V now s)))"
proof -
  have "booked r" if "b \<in> set (filter (\<lambda>b. pb_state b = BROADCAST) (payoutBatches s))"
    "r \<in> set (payoutBatches s)" "pb_id r = pb_id b" for b r
  proof -
    have "r = b" using assms that by (auto simp: batches_ok_def distinct_map inj_on_def)
    with that show ?thesis by (simp add: booked_def)
  qed
  then have "quiet s (fst (reconcile V now s)) \<and>
    list_all2 settles (payoutBatches s) (payoutBatches (fst (reconcile V now s)))"
    unfolding reconcile_def by (rule reconcile_all_settles)
  then show "quiet s (fst (reconcile V now s))"
    and "list_all2 settles (payoutBatches s) (payoutBatches (fst (reconcile V now s)))" by simp_all
qed

section \<open>Signing\<close>

lemma update_item_rows:
  assumes "update_item i f s = Inr t"
  shows "payoutBatches t = map (\<lambda>b. b\<lparr>pb_items := update_where (\<lambda>x. pi_id x = i) f (pb_items b)\<rparr>) (payoutBatches s)"
    and "quiet s t"
  using assms by (auto simp: update_item_def split: if_splits)

lemma find_map_first: "List.find P (map f xs) = map_option f (List.find (P \<circ> f) xs)"
  by (induction xs) auto

definition fee_only :: "(payout_item \<Rightarrow> payout_item) \<Rightarrow> bool" where
  "fee_only g \<longleftrightarrow> (\<forall>x. item_core (g x) = item_core x \<and> item_plan (g x) = item_plan x)"

lemma fee_only_batch: "fee_only g \<Longrightarrow> settles b (b\<lparr>pb_items := map g (pb_items b)\<rparr>)"
  by (simp add: fee_only_def settles_def unbooked_step_def evolves_def batch_core_def booked_def comp_def)

lemma store_fees:
  assumes "fold_result store_fee ps s = Inr t"
  shows "\<exists>g. fee_only g \<and> payoutBatches t = map (\<lambda>b. b\<lparr>pb_items := map g (pb_items b)\<rparr>) (payoutBatches s) \<and> quiet s t"
  using assms
proof (induction ps arbitrary: s)
  case Nil
  then show ?case by (intro exI [of _ id]) (simp add: fee_only_def)
next
  case (Cons p ps)
  then obtain u where u: "store_fee p s = Inr u" "fold_result store_fee ps u = Inr t" by (auto simp: ebind_eq_Inr)
  let ?f = "\<lambda>x. x\<lparr>pi_allocatedFeeAtomic := pr_allocatedFeeAtomic p, pi_netAtomic := pr_netAtomic p\<rparr>"
  let ?h = "\<lambda>x. if pi_id x = pr_id p then ?f x else x"
  from Cons.IH [OF u(2)] obtain g where g: "fee_only g" "quiet u t"
    "payoutBatches t = map (\<lambda>b. b\<lparr>pb_items := map g (pb_items b)\<rparr>) (payoutBatches u)" by blast
  note rows = update_item_rows [OF u(1) [unfolded store_fee_def]]
  have "fee_only (g \<circ> ?h)" using g(1) by (simp add: fee_only_def item_core_def item_plan_def)
  moreover have "payoutBatches t = map (\<lambda>b. b\<lparr>pb_items := map (g \<circ> ?h) (pb_items b)\<rparr>) (payoutBatches s)"
    by (simp add: g(3) rows(1) update_where_def comp_def)
  ultimately show ?case using g(2) rows(2) quiet_trans by blast
qed

lemma transaction_Inr: "transaction body s = (t, Inr x) \<longleftrightarrow> body s = Inr (t, x)"
  by (auto simp: transaction_def split: sum.splits prod.splits)

lemma transaction_Inl: "transaction body s = (t, Inl e) \<Longrightarrow> t = s"
  by (auto simp: transaction_def split: sum.splits prod.splits)

lemma settle_ids:
  assumes "list_all2 settles bs cs" shows "map pb_id cs = map pb_id bs"
  using assms by (induction rule: list_all2_induct) (auto simp: settles_def evolves_def)

lemma prepare_legal: "prepare V lost b s = Inr p \<Longrightarrow> canTransitionPayout (pb_state b) SIGNED"
  by (auto simp: prepare_def Let_def ebind_eq_Inr assertPayoutTransition_def)

lemma sign_body_rows:
  assumes "sign_body V iv i p s = Inr (t, u)"
  obtains g where "fee_only g" and "quiet s t"
    and "payoutBatches t = update_where (\<lambda>b. pb_id b = i) (signed V iv i p)
           (map (\<lambda>b. b\<lparr>pb_items := map g (pb_items b)\<rparr>) (payoutBatches s))"
proof -
  from assms obtain s1 where s1: "fold_result store_fee (prep_items p) s = Inr s1"
    and t: "t = update_batch i (signed V iv i p) s1" by (auto simp: sign_body_def ebind_eq_Inr)
  from store_fees [OF s1] obtain g where g: "fee_only g" "quiet s s1"
    "payoutBatches s1 = map (\<lambda>b. b\<lparr>pb_items := map g (pb_items b)\<rparr>) (payoutBatches s)" by blast
  show thesis by (rule that [OF g(1)]) (use t g quiet_trans [OF g(2) quiet_update(2)] in \<open>simp_all add: update_batch_def\<close>)
qed

lemma signed_settles:
  assumes "fee_only g" and "canTransitionPayout (pb_state b) SIGNED" and "\<not> truthy (pb_signedPayload b)" and "executable (pb_state b)"
  shows "settles b (signed V iv i p (b\<lparr>pb_items := map g (pb_items b)\<rparr>))"
  using assms canTransition_legal [OF assms(2)]
  by (auto simp: fee_only_def settles_def unbooked_step_def evolves_def batch_core_def booked_def comp_def signed_def executable_def)

lemma sign_phase_settles:
  assumes ok: "batches_ok (payoutBatches s)" and b: "find_batch i s = Some b" "executable (pb_state b)"
    and sp: "sign_phase V iv lost b s = (t, r)"
  shows "quiet s t" and "list_all2 settles (payoutBatches s) (payoutBatches t)"
    and "r = Inl e \<Longrightarrow> t = s"
    and "r = Inr c \<Longrightarrow> find_batch i t = Some c \<and> truthy (pb_signedPayload c) \<and> executable (pb_state c) \<and> settles b c"
proof -
  note uni = find_batch_unique [OF ok b(1)]
  have "quiet s t \<and> list_all2 settles (payoutBatches s) (payoutBatches t) \<and> (\<forall>e. r = Inl e \<longrightarrow> t = s) \<and>
    (\<forall>c. r = Inr c \<longrightarrow> find_batch i t = Some c \<and> truthy (pb_signedPayload c) \<and> executable (pb_state c) \<and> settles b c)"
  proof (cases "truthy (pb_signedPayload b)")
    case True
    with sp b show ?thesis by (auto simp: sign_phase_def)
  next
    case unsigned: False
    show ?thesis
    proof (cases "prepare V lost b s")
      case (Inl e)
      with sp unsigned show ?thesis by (auto simp: sign_phase_def)
    next
      case (Inr p)
      show ?thesis
      proof (cases "sign_body V iv i p s")
        case (Inl e)
        with sp unsigned Inr uni(2) show ?thesis by (auto simp: sign_phase_def transaction_def)
      next
        case body: (Inr tu)
        obtain u where tu: "tu = (u, ())" by (cases tu) auto
        from body [unfolded tu] obtain g where g: "fee_only g" "quiet s u"
          "payoutBatches u = update_where (\<lambda>b. pb_id b = i) (signed V iv i p)
             (map (\<lambda>b. b\<lparr>pb_items := map g (pb_items b)\<rparr>) (payoutBatches s))" by (rule sign_body_rows)
        let ?c = "signed V iv i p (b\<lparr>pb_items := map g (pb_items b)\<rparr>)"
        note st = signed_settles [OF g(1) prepare_legal [OF Inr] unsigned b(2), of V iv i p]
        have "list_all2 settles (payoutBatches s) (payoutBatches u)"
          unfolding g(3) update_where_def list.map_comp
          by (rule list_all2_map) (use uni(3) st fee_only_batch [OF g(1)] in auto)
        moreover have "find_batch i u = Some ?c"
          using b(1) uni(2) by (simp add: find_batch_def g(3) find_update_where signed_def find_map_first comp_def)
        ultimately show ?thesis
          using sp unsigned Inr body tu uni(2) g(2) st
          by (auto simp: sign_phase_def transaction_def) (simp_all add: signed_def executable_def)
      qed
    qed
  qed
  then show "quiet s t" and "list_all2 settles (payoutBatches s) (payoutBatches t)"
    and "r = Inl e \<Longrightarrow> t = s"
    and "r = Inr c \<Longrightarrow> find_batch i t = Some c \<and> truthy (pb_signedPayload c) \<and> executable (pb_state c) \<and> settles b c"
    by blast+
qed

section \<open>Journaling\<close>

definition slack :: "uuid option \<Rightarrow> AssetCode \<Rightarrow> store \<Rightarrow> atomic" where
  "slack c A s = owed_to c A s - pending_to c A (payoutBatches s)"

lemma covered_slack: "covered s \<longleftrightarrow> (\<forall>c A. 0 \<le> slack c A s)"
  by (simp add: covered_def slack_def)

definition posted :: "store \<Rightarrow> store \<Rightarrow> bool" where
  "posted s t \<longleftrightarrow> wf_ledger t \<and> minted_ids s \<subseteq> minted_ids t \<and> payoutDestinations t = payoutDestinations s \<and>
     customers t = customers s"

lemma ledger_only_posted: "ledger_only s t \<Longrightarrow> wf_ledger t \<Longrightarrow> posted s t \<and> payoutBatches t = payoutBatches s"
  using ledger_only_minted [of s t] by (simp add: posted_def ledger_only_tables)

lemma post_item_effect:
  assumes "wf_ledger s" and "pi_customerId x \<noteq> Some []" and "post_item b x s = Inr (t, j)"
  shows "posted s t" and "payoutBatches t = payoutBatches s"
    and "owed_to c A t = owed_to c A s - (if c = pi_customerId x \<and> A = pb_asset b then pi_grossAtomic x else 0)"
proof -
  have "posted s t \<and> payoutBatches t = payoutBatches s \<and>
    owed_to c A t = owed_to c A s - (if c = pi_customerId x \<and> A = pb_asset b then pi_grossAtomic x else 0)"
  proof (cases "pi_customerId x")
    case None
    with assms(3) have "postOperatorPayout (pb_id b) (pb_asset b) (pi_grossAtomic x) (pi_allocatedFeeAtomic x) s = Inr (t, j)"
      by (simp add: post_item_def truthy_def)
    note e = postOperatorPayout_effect [OF assms(1) this]
    from ledger_only_posted [OF e(2,1)] e(3,4) None show ?thesis by (cases c) (auto simp: owed_to_def)
  next
    case (Some k)
    with assms(2,3) have "postPayout (item_posting b x k) s = Inr (t, j)"
      by (simp add: post_item_def truthy_def)
    note e = postPayout_effect [OF assms(1) this]
    from ledger_only_posted [OF e(2,1)] e(3,4) Some show ?thesis by (cases c) (auto simp: owed_to_def item_posting_def)
  qed
  then show "posted s t" and "payoutBatches t = payoutBatches s"
    and "owed_to c A t = owed_to c A s - (if c = pi_customerId x \<and> A = pb_asset b then pi_grossAtomic x else 0)" by simp_all
qed

lemma posted_trans: "posted s t \<Longrightarrow> posted t u \<Longrightarrow> posted s u"
  by (auto simp: posted_def)

lemma quiet_posted: "wf_ledger s \<Longrightarrow> quiet s t \<Longrightarrow> posted s t"
  using same_ledgerD [of s t] by (simp add: quiet_def posted_def)

lemma all_items_update:
  "all_items (map (\<lambda>b. b\<lparr>pb_items := update_where (\<lambda>x. pi_id x = i) f (pb_items b)\<rparr>) bs) =
     update_where (\<lambda>p. (pi_id \<circ> snd) p = i) (map_prod id f) (all_items bs)"
proof -
  have "map (Pair A) (update_where (\<lambda>x. pi_id x = i) f xs) =
      update_where (\<lambda>p. (pi_id \<circ> snd) p = i) (map_prod id f) (map (Pair A) xs)" for A :: AssetCode and xs
    by (induction xs) auto
  then show ?thesis by (induction bs) (simp_all add: comp_def)
qed

definition journaled_as :: "uuid \<Rightarrow> payout_item \<Rightarrow> payout_item" where
  "journaled_as j x = x\<lparr>pi_journalTransactionId := Some j\<rparr>"

lemma journaled_as_fields [simp]:
  "pi_id (journaled_as j x) = pi_id x" "pi_customerId (journaled_as j x) = pi_customerId x"
  "pi_grossAtomic (journaled_as j x) = pi_grossAtomic x" "pi_journalTransactionId (journaled_as j x) = Some j"
  "item_plan (journaled_as j x) = item_plan x"
  by (simp_all add: journaled_as_def item_plan_def)

lemma journal_item_effect:
  assumes "wf_ledger s" and "unique_on (pi_id \<circ> snd) (all_items (payoutBatches s))"
    and "(pb_asset b, x) \<in> set (all_items (payoutBatches s))" and "pi_customerId x \<noteq> Some []"
    and "pi_journalTransactionId x = None" and "journal_item b x s = Inr t"
  shows "posted s t" and "slack c A t = slack c A s"
    and "\<exists>j. payoutBatches t = map (\<lambda>r. r\<lparr>pb_items := update_where (\<lambda>y. pi_id y = pi_id x) (journaled_as j) (pb_items r)\<rparr>)
           (payoutBatches s)"
proof -
  from assms(5,6) obtain u j where u: "post_item b x s = Inr (u, j)"
    and t: "update_item (pi_id x) (journaled_as (jt_id j)) u = Inr t"
    by (auto simp: journal_item_def truthy_def ebind_eq_Inr journaled_as_def [abs_def])
  note e = post_item_effect [OF assms(1,4) u]
  note rows = update_item_rows [OF t, unfolded e(2)]
  have "wf_ledger u" using e(1) by (simp add: posted_def)
  then show "posted s t" using e(1) rows(2) by (blast intro: posted_trans quiet_posted)
  show "\<exists>j. payoutBatches t = map (\<lambda>r. r\<lparr>pb_items := update_where (\<lambda>y. pi_id y = pi_id x) (journaled_as j) (pb_items r)\<rparr>)
      (payoutBatches s)" using rows(1) by blast
  have "owed_to c A t = owed_to c A u" using rows(2) same_ledgerD(2) by (auto simp: quiet_def)
  moreover have "pending_to c A (payoutBatches t) = pending_to c A (payoutBatches s) -
      (if c = pi_customerId x \<and> A = pb_asset b then pi_grossAtomic x else 0)"
  proof -
    note upd = sum_where_update_unique [of "pi_id \<circ> snd" "all_items (payoutBatches s)" "(pb_asset b, x)"
        "map_prod id (journaled_as (jt_id j))", OF assms(2,3)]
    have key: "(pi_id \<circ> snd) (pb_asset b, x) = pi_id x" by simp
    show ?thesis
      unfolding pending_to_def rows(1) all_items_update
      by (subst upd [unfolded key]) (auto simp: assms(5))
  qed
  ultimately show "slack c A t = slack c A s" using e(3) by (simp add: slack_def)
qed

text \<open>The loop over the items of a batch.\<close>

definition mark_items :: "uuid set \<Rightarrow> (uuid \<Rightarrow> uuid) \<Rightarrow> payout_item \<Rightarrow> payout_item" where
  "mark_items X J y = (if pi_id y \<in> X then journaled_as (J (pi_id y)) y else y)"

lemma mark_items_plan [simp]: "item_plan (mark_items X J y) = item_plan y" "pi_id (mark_items X J y) = pi_id y"
  by (simp_all add: mark_items_def)

lemma mark_items_step:
  assumes "pi_id x \<notin> X"
  shows "mark_items X J (if pi_id y = pi_id x then journaled_as j y else y) =
    mark_items (insert (pi_id x) X) (J(pi_id x := j)) y"
  using assms by (auto simp: mark_items_def)

lemma journal_fold:
  assumes "wf_ledger s" and "unique_on (pi_id \<circ> snd) (all_items (payoutBatches s))" and "unique_on pi_id xs"
    and "\<And>x. x \<in> set xs \<Longrightarrow> (pb_asset b, x) \<in> set (all_items (payoutBatches s)) \<and>
           pi_customerId x \<noteq> Some [] \<and> pi_journalTransactionId x = None"
    and "fold_result (journal_item b) xs s = Inr t"
  shows "posted s t \<and> (\<forall>c A. slack c A t = slack c A s) \<and>
    (\<exists>J. payoutBatches t = map (\<lambda>r. r\<lparr>pb_items := map (mark_items (pi_id ` set xs) J) (pb_items r)\<rparr>) (payoutBatches s))"
  using assms
proof (induction xs arbitrary: s)
  case Nil
  have "mark_items {} J = (\<lambda>y. y)" for J by (simp add: mark_items_def fun_eq_iff)
  with Nil show ?case by (simp add: posted_def)
next
  case (Cons x xs)
  from Cons.prems(5) obtain u where u: "journal_item b x s = Inr u" "fold_result (journal_item b) xs u = Inr t"
    by (auto simp: ebind_eq_Inr)
  have x: "(pb_asset b, x) \<in> set (all_items (payoutBatches s))" "pi_customerId x \<noteq> Some []" "pi_journalTransactionId x = None"
    using Cons.prems(4) by auto
  note e = journal_item_effect [OF Cons.prems(1,2) x u(1)]
  from e(3) obtain j where j: "payoutBatches u = map (\<lambda>r. r\<lparr>pb_items :=
      update_where (\<lambda>y. pi_id y = pi_id x) (journaled_as j) (pb_items r)\<rparr>) (payoutBatches s)" by blast
  let ?up = "update_where (\<lambda>p. (pi_id \<circ> snd) p = pi_id x) (map_prod id (journaled_as j)) (all_items (payoutBatches s))"
  have items: "all_items (payoutBatches u) = ?up" unfolding j by (rule all_items_update)
  have "map (pi_id \<circ> snd) ?up = map (pi_id \<circ> snd) (all_items (payoutBatches s))"
    by (rule map_update_where) auto
  then have uni: "unique_on (pi_id \<circ> snd) (all_items (payoutBatches u))" using Cons.prems(2) by (simp only: items)
  have fresh: "pi_id x \<notin> pi_id ` set xs" and "unique_on pi_id xs" using Cons.prems(3) by auto
  have rest: "(pb_asset b, y) \<in> set (all_items (payoutBatches u)) \<and> pi_customerId y \<noteq> Some [] \<and> pi_journalTransactionId y = None"
    if "y \<in> set xs" for y
  proof -
    have "pi_id y \<noteq> pi_id x" using that fresh by (auto simp: image_iff)
    moreover have "(pb_asset b, y) \<in> set (all_items (payoutBatches s))" "pi_customerId y \<noteq> Some []" "pi_journalTransactionId y = None"
      using Cons.prems(4) that by auto
    ultimately show ?thesis unfolding items set_update_where by force
  qed
  have "wf_ledger u" using e(1) by (simp add: posted_def)
  from Cons.IH [OF this uni \<open>unique_on pi_id xs\<close> rest u(2)] obtain J where IH: "posted u t" "\<And>c A. slack c A t = slack c A u"
    "payoutBatches t = map (\<lambda>r. r\<lparr>pb_items := map (mark_items (pi_id ` set xs) J) (pb_items r)\<rparr>) (payoutBatches u)" by blast
  have "payoutBatches t = map (\<lambda>r. r\<lparr>pb_items := map (mark_items (pi_id ` set (x # xs)) (J(pi_id x := j))) (pb_items r)\<rparr>) (payoutBatches s)"
    by (simp add: IH(3) j update_where_def comp_def mark_items_step [OF fresh])
  then show ?case using posted_trans [OF e(1) IH(1)] IH(2) e(2) by auto
qed

lemma items_disjoint:
  assumes "unique_on (pi_id \<circ> snd) (all_items bs)" and "b \<in> set bs" and "r \<in> set bs" and "r \<noteq> b"
    and "x \<in> set (pb_items b)" and "y \<in> set (pb_items r)"
  shows "pi_id y \<noteq> pi_id x"
  using assms
proof (induction bs)
  case (Cons c bs)
  have rest: "(pb_asset d, z) \<in> set (all_items bs)" if "d \<in> set bs" "z \<in> set (pb_items d)" for d z
    using that by (auto simp: all_items_member)
  have dis: "pi_id v \<noteq> pi_id w" if "v \<in> set (pb_items c)" "d \<in> set bs" "w \<in> set (pb_items d)" for v d w
    using Cons.prems(1) that rest [OF that(2,3)] by (force simp: image_iff)
  show ?case
  proof (cases "b = c \<or> r = c")
    case True
    then show ?thesis using Cons.prems(2-6) dis [of x r y] dis [of y b x] by force
  next
    case False
    then show ?thesis using Cons.prems by (intro Cons.IH) auto
  qed
qed simp

lemma broadcasted_core: "batch_core (broadcasted now txids r) = batch_core r"
  by (simp add: broadcasted_def batch_core_def)

lemma batch_items_unique:
  assumes "unique_on (pi_id \<circ> snd) (all_items bs)" and "b \<in> set bs" shows "unique_on pi_id (pb_items b)"
  using assms by (induction bs) (auto simp: comp_def)

lemma journal_body_rows:
  assumes inv: "payout_inv s" and b: "find_batch i s = Some b" "executable (pb_state b)"
    and body: "journal_body now b txids s = Inr (t, u)"
  obtains J where "posted s t" and "covered t"
    and "payoutBatches t = map (\<lambda>r. if r = b
           then broadcasted now txids (b\<lparr>pb_items := map (mark_items (pi_id ` set (pb_items b)) J) (pb_items b)\<rparr>) else r)
         (payoutBatches s)"
proof -
  let ?X = "pi_id ` set (pb_items b)"
  from inv have ok: "batches_ok (payoutBatches s)" and led: "wf_ledger s" and cov: "covered s" by (simp_all add: payout_inv_def)
  note uni = find_batch_unique [OF ok b(1)]
  from ok have items: "unique_on (pi_id \<circ> snd) (all_items (payoutBatches s))" "list_all item_ok (all_items (payoutBatches s))"
    and bok: "batch_ok b" using uni(1) by (auto simp: batches_ok_def list_all_iff)
  have xs: "(pb_asset b, x) \<in> set (all_items (payoutBatches s)) \<and> pi_customerId x \<noteq> Some [] \<and> pi_journalTransactionId x = None"
    if "x \<in> set (pb_items b)" for x
  proof -
    have m: "(pb_asset b, x) \<in> set (all_items (payoutBatches s))" using that uni(1) by (auto simp: all_items_member)
    moreover have "item_ok (pb_asset b, x)" using m items(2) by (simp add: list_all_iff)
    moreover have "\<not> booked b" using b(2) by (auto simp: booked_def executable_def)
    ultimately show ?thesis using bok that by (auto simp: item_ok_def batch_ok_def)
  qed
  from body obtain v where v: "fold_result (journal_item b) (pb_items b) s = Inr v"
    and t: "t = update_batch (pb_id b) (broadcasted now txids) v" by (auto simp: journal_body_def ebind_eq_Inr)
  from journal_fold [OF led items(1) batch_items_unique [OF items(1) uni(1)] xs v] obtain J where
    J: "posted s v" "\<And>c A. slack c A v = slack c A s"
      "payoutBatches v = map (\<lambda>r. r\<lparr>pb_items := map (mark_items ?X J) (pb_items r)\<rparr>) (payoutBatches s)" by blast
  have other: "r\<lparr>pb_items := map (mark_items ?X J) (pb_items r)\<rparr> = r" if "r \<in> set (payoutBatches s)" "r \<noteq> b" for r
  proof -
    have "mark_items ?X J y = y" if "y \<in> set (pb_items r)" for y
      using items_disjoint [OF items(1) uni(1) \<open>r \<in> _\<close> \<open>r \<noteq> b\<close> _ that] by (auto simp: mark_items_def)
    then have "map (mark_items ?X J) (pb_items r) = pb_items r" by (simp add: map_idI)
    then show ?thesis by simp
  qed
  have rows: "payoutBatches t = map (\<lambda>r. if r = b
           then broadcasted now txids (b\<lparr>pb_items := map (mark_items ?X J) (pb_items b)\<rparr>) else r) (payoutBatches s)"
  proof -
    let ?m = "\<lambda>r. r\<lparr>pb_items := map (mark_items ?X J) (pb_items r)\<rparr>"
    have "payoutBatches t = map (\<lambda>r. if pb_id r = pb_id b then broadcasted now txids (?m r) else ?m r) (payoutBatches s)"
      by (simp add: t update_batch_def J(3) update_where_def comp_def)
    also have "\<dots> = map (\<lambda>r. if r = b then broadcasted now txids (?m b) else r) (payoutBatches s)"
    proof (rule map_cong [OF refl])
      fix r assume r: "r \<in> set (payoutBatches s)"
      show "(if pb_id r = pb_id b then broadcasted now txids (?m r) else ?m r) =
          (if r = b then broadcasted now txids (?m b) else r)"
      proof (cases "r = b")
        case False
        then have "pb_id r \<noteq> pb_id b" using uni(2) uni(3) [OF r] by blast
        with False show ?thesis by (simp only: if_False other [OF r False])
      qed simp
    qed
    finally show ?thesis .
  qed
  have core: "map batch_core (payoutBatches t) = map batch_core (payoutBatches v)"
    unfolding t update_batch_def by (simp add: map_update_where broadcasted_core)
  have "owed_to c A t = owed_to c A v" for c A
    unfolding t by (rule same_ledgerD(2)) (use quiet_update(2) [of v "pb_id b" "broadcasted now txids"] in \<open>simp add: quiet_def\<close>)
  then have "slack c A t = slack c A v" for c A by (simp add: slack_def same_core(1) [OF core])
  then have "covered t" using cov J(2) by (simp add: covered_slack)
  moreover have "wf_ledger v" using J(1) by (simp add: posted_def)
  then have "posted s t" unfolding t by (intro posted_trans [OF J(1)] quiet_posted) simp_all
  ultimately show thesis using that rows by blast
qed

lemma map_if_same:
  "(\<And>r. r \<in> set xs \<Longrightarrow> r = b \<Longrightarrow> g (f r) = g r) \<Longrightarrow> map g (map (\<lambda>r. if r = b then f r else r) xs) = map g xs"
  by (induction xs) auto

lemma all_items_keys:
  assumes "list_all2 (\<lambda>b c. pb_asset c = pb_asset b \<and> map item_plan (pb_items c) = map item_plan (pb_items b)) bs cs"
  shows "map (map_prod id item_plan) (all_items cs) = map (map_prod id item_plan) (all_items bs)"
  using assms
proof (induction rule: list_all2_induct)
  case (Cons b bs c cs)
  have eq: "map (\<lambda>x. (A, item_plan x)) xs = map (Pair A) (map item_plan xs)" for A :: AssetCode and xs by simp
  have "map (\<lambda>x. (pb_asset b, item_plan x)) (pb_items c) = map (\<lambda>x. (pb_asset b, item_plan x)) (pb_items b)"
    using Cons.hyps(1) by (simp only: eq)
  with Cons show ?case by (simp add: comp_def)
qed simp

lemma item_plan_eqs:
  assumes "map (map_prod id item_plan) (all_items cs) = map (map_prod id item_plan) (all_items bs)"
  shows "map (pi_id \<circ> snd) (all_items cs) = map (pi_id \<circ> snd) (all_items bs)"
    and "list_all item_ok (all_items cs) = list_all item_ok (all_items bs)"
proof -
  have "map (pi_id \<circ> snd) (all_items bs) = map (fst \<circ> snd) (map (map_prod id item_plan) (all_items bs))" for bs
    by (simp add: item_plan_def comp_def)
  then show "map (pi_id \<circ> snd) (all_items cs) = map (pi_id \<circ> snd) (all_items bs)" by (simp only: assms)
  have "list_all item_ok (all_items bs) = list_all (\<lambda>(A, i, k, d, g). 0 \<le> g \<and> k \<noteq> Some []) (map (map_prod id item_plan) (all_items bs))" for bs
    by (auto simp: list_all_iff item_ok_def item_plan_def)
  then show "list_all item_ok (all_items cs) = list_all item_ok (all_items bs)" by (simp only: assms)
qed

lemma evolves_keys:
  assumes "list_all2 evolves bs cs"
  shows "map pb_id cs = map pb_id bs" and "batch_ids cs = batch_ids bs"
    and "map (pi_id \<circ> snd) (all_items cs) = map (pi_id \<circ> snd) (all_items bs)"
    and "list_all item_ok (all_items cs) = list_all item_ok (all_items bs)"
proof -
  show ids: "map pb_id cs = map pb_id bs" using assms by (induction rule: list_all2_induct) (auto simp: evolves_def)
  have "map (map_prod id item_plan) (all_items cs) = map (map_prod id item_plan) (all_items bs)"
    by (rule all_items_keys) (use assms in \<open>auto elim: list_all2_mono simp: evolves_def\<close>)
  note eqs = item_plan_eqs [OF this]
  show "map (pi_id \<circ> snd) (all_items cs) = map (pi_id \<circ> snd) (all_items bs)" by (rule eqs(1))
  show "list_all item_ok (all_items cs) = list_all item_ok (all_items bs)" by (rule eqs(2))
  show "batch_ids cs = batch_ids bs" unfolding batch_ids_def using ids eqs(1) by (metis set_map)
qed

lemma journal_body_inv:
  assumes inv: "payout_inv s" and b: "find_batch i s = Some b" "executable (pb_state b)"
    and "canTransitionPayout (pb_state b) BROADCAST" and body: "journal_body now b txids s = Inr (t, u)"
  shows "payout_inv t" and "list_all2 evolves (payoutBatches s) (payoutBatches t)"
    and "posted s t" and "find_batch i t \<noteq> None"
proof -
  let ?c = "\<lambda>J. broadcasted now txids (b\<lparr>pb_items := map (mark_items (pi_id ` set (pb_items b)) J) (pb_items b)\<rparr>)"
  from inv b body obtain J where J: "posted s t" "covered t"
    "payoutBatches t = map (\<lambda>r. if r = b then ?c J else r) (payoutBatches s)" by (rule journal_body_rows)
  from inv have ok: "batches_ok (payoutBatches s)" by (simp add: payout_inv_def)
  have "evolves b (?c J)"
    using b(2) canTransition_legal [OF assms(4)] by (auto simp: evolves_def broadcasted_def executable_def comp_def)
  then show ev: "list_all2 evolves (payoutBatches s) (payoutBatches t)"
    unfolding J(3) by (intro list_all2_map) simp
  note keys = evolves_keys [OF ev]
  have "batch_ok b" using ok find_batch_unique(1) [OF ok b(1)] by (auto simp: batches_ok_def list_all_iff)
  then have "batch_ok (?c J)"
    by (auto simp: batch_ok_def broadcasted_def booked_def mark_items_def)
  with ok have "list_all batch_ok (payoutBatches t)" unfolding J(3) by (auto simp: batches_ok_def list_all_iff)
  then have "batches_ok (payoutBatches t)" using ok by (simp add: batches_ok_def keys)
  with J(1,2) inv keys(2) show "payout_inv t"
    unfolding payout_inv_def posted_def dest_unique_def by (elim conjE, intro conjI) auto
  show "posted s t" by (rule J(1))
  have "i \<in> pb_id ` set (payoutBatches t)"
    using find_batch_unique(1,2) [OF ok b(1)] keys(1) by (metis image_eqI set_map)
  then show "find_batch i t \<noteq> None" by (simp add: find_batch_def find_None_key)
qed

lemma publish_inv [simp]: "payout_inv (publish n x s) = payout_inv s"
  by (simp add: payout_inv_def covered_def owed_to_def dest_unique_def publish_alloc split: option.splits)

section \<open>Execution\<close>

lemma all_evolve_same [simp]: "list_all2 evolves bs bs"
  by (simp add: list_all2_same)

lemma all_evolve_trans: "list_all2 evolves bs cs \<Longrightarrow> list_all2 evolves cs ds \<Longrightarrow> list_all2 evolves bs ds"
  by (rule list_all2_trans [of evolves evolves evolves bs cs ds]) (blast intro: evolves_trans)

lemma assertPayoutTransition_Inr [simp]: "assertPayoutTransition a b = Inr u \<longleftrightarrow> canTransitionPayout a b"
  by (simp add: assertPayoutTransition_def)

lemma journal_phase_cases:
  assumes "payout_inv s" and "find_batch i s = Some b" "executable (pb_state b)"
    and "journal_phase now lost b txids s = (t, r)"
  shows "(\<exists>e. r = Inl e \<and> t = s) \<or> (\<exists>x. r = Inr x \<and> payout_inv t \<and> list_all2 evolves (payoutBatches s) (payoutBatches t))"
proof -
  have id: "pb_id b = i" using assms(1,2) find_batch_unique(2) by (auto simp: payout_inv_def)
  show ?thesis
  proof (cases "ebind (assertLock lost 5) (\<lambda>_. assertPayoutTransition (pb_state b) BROADCAST)")
    case (Inl e)
    with assms(4) show ?thesis by (auto simp: journal_phase_def)
  next
    case (Inr u)
    then have tr: "canTransitionPayout (pb_state b) BROADCAST" by (auto simp: ebind_eq_Inr)
    show ?thesis
    proof (cases "journal_body now b txids s")
      case (Inl e)
      with assms(4) Inr show ?thesis by (auto simp: journal_phase_def transaction_def)
    next
      case body: (Inr p)
      obtain v where p: "p = (v, ())" by (cases p) auto
      note j = journal_body_inv [OF assms(1-3) tr body [unfolded p]]
      have "find_batch i (publish ''payout.broadcast'' i v) = find_batch i v" by (simp add: find_batch_def)
      with assms(4) Inr body p j id show ?thesis
        by (auto simp: journal_phase_def transaction_def Let_def split: option.splits)
    qed
  qed
qed

lemma fail_phase_settles:
  assumes "\<And>b. b \<in> set (payoutBatches s) \<Longrightarrow> pb_id b = i \<Longrightarrow> executable (pb_state b)"
  shows "quiet s (fail_phase now i A e s)" and "list_all2 settles (payoutBatches s) (payoutBatches (fail_phase now i A e s))"
proof -
  let ?u = "update_batch i (failed e) s"
  have "logged_only ?u (fail_phase now i A e s)"
    unfolding fail_phase_def by (rule logged_only_trans [OF publish_logged raise_logged])
  note q = logged_quiet [OF this]
  have "settles b (failed e b)" if "b \<in> set (payoutBatches s)" "pb_id b = i" for b
    using assms [OF that]
    by (auto simp: settles_def unbooked_step_def evolves_def batch_core_def booked_def failed_def executable_def intro: legal_step)
  then have "list_all2 settles (payoutBatches s) (payoutBatches ?u)" by (rule update_batch_rel) simp_all
  with q show "quiet s (fail_phase now i A e s)" "list_all2 settles (payoutBatches s) (payoutBatches (fail_phase now i A e s))"
    using quiet_trans [OF quiet_update(2)] by (metis, simp)
qed

lemma send_phase_sent: "send_phase V lost b = (r, sent) \<Longrightarrow> p \<in> set sent \<Longrightarrow> payload_of (sv_crypto V) b = Inr p"
  by (auto simp: send_phase_def Let_def ebind_eq_Inr split: sum.splits bool.splits)

definition may_send :: "PayoutState \<Rightarrow> bool" where
  "may_send st \<longleftrightarrow> st \<noteq> PLANNED \<and> st \<noteq> APPROVAL_REQUIRED"

lemma legal_may_send: "legal a b \<Longrightarrow> may_send a \<Longrightarrow> may_send b"
proof -
  have step: "may_send y" if "may_send x" "y \<in> set (TRANSITIONS x)" for x y
    using that by (cases x) (auto simp: may_send_def)
  assume "legal a b" and "may_send a"
  then have "(\<lambda>a b. b \<in> set (TRANSITIONS a))\<^sup>*\<^sup>* a b" by (simp add: legal_def)
  then show "may_send b" using \<open>may_send a\<close> by (induction rule: rtranclp_induct) (auto intro: step)
qed

text \<open>The row of a batch that has been sent: its payload is fixed, and it has left the states before approval.\<close>

definition sent_as :: "crypto_service \<Rightarrow> string \<Rightarrow> payout_batch \<Rightarrow> bool" where
  "sent_as C p b \<longleftrightarrow> truthy (pb_signedPayload b) \<and> payload_of C b = Inr p \<and> may_send (pb_state b)"

lemma evolves_sent:
  assumes "evolves b c" and "sent_as C p b" shows "sent_as C p c"
proof -
  have eq: "pb_id c = pb_id b" "pb_signedPayload c = pb_signedPayload b" "legal (pb_state b) (pb_state c)"
    using assms by (simp_all add: evolves_def sent_as_def)
  then have "payload_of C c = payload_of C b" by (simp add: payload_of_def Let_def)
  with eq assms(2) legal_may_send show ?thesis by (simp add: sent_as_def)
qed

lemma list_all2_find:
  assumes "list_all2 R bs cs" and "b \<in> set bs" shows "\<exists>c \<in> set cs. R b c"
  using assms by (induction rule: list_all2_induct) auto

lemma evolves_find:
  assumes "list_all2 evolves bs cs" and "b \<in> set bs" shows "\<exists>c \<in> set cs. pb_id c = pb_id b \<and> evolves b c"
  using list_all2_find [OF assms] by (auto simp: evolves_def)

lemma executable_may_send: "executable st \<Longrightarrow> may_send st"
  by (auto simp: executable_def may_send_def)

lemma attempt_inv:
  assumes inv: "payout_inv s" and b: "find_batch i s = Some b" "executable (pb_state b)"
    and at: "attempt V now iv lost b s = (t, sent, r)"
  shows "payout_inv t" and "list_all2 evolves (payoutBatches s) (payoutBatches t)"
    and "r = Inl e \<Longrightarrow> c \<in> set (payoutBatches t) \<Longrightarrow> pb_id c = i \<Longrightarrow> executable (pb_state c)"
    and "p \<in> set sent \<Longrightarrow> \<exists>c \<in> set (payoutBatches t). pb_id c = i \<and> sent_as (sv_crypto V) p c"
proof -
  have ok: "batches_ok (payoutBatches s)" using inv by (simp add: payout_inv_def)
  obtain s1 r1 where sp: "sign_phase V iv lost b s = (s1, r1)" by fastforce
  note sg = sign_phase_settles [OF ok b sp]
  have inv1: "payout_inv s1" by (rule settle_inv [OF inv sg(1,2)])
  then have ok1: "batches_ok (payoutBatches s1)" by (simp add: payout_inv_def)
  note ev1 = settleD(2) [OF sg(2)]
  have "payout_inv t \<and> list_all2 evolves (payoutBatches s) (payoutBatches t) \<and>
    (\<forall>e c. r = Inl e \<and> c \<in> set (payoutBatches t) \<and> pb_id c = i \<longrightarrow> executable (pb_state c)) \<and>
    (\<forall>p \<in> set sent. \<exists>c \<in> set (payoutBatches t). pb_id c = i \<and> sent_as (sv_crypto V) p c)"
  proof (cases r1)
    case (Inl e)
    with at sp sg(3) have "t = s" "sent = []" by (auto simp: attempt_def)
    then show ?thesis using inv b find_batch_unique(3) [OF ok b(1)] by auto
  next
    case (Inr b1)
    have b1: "find_batch i s1 = Some b1" "truthy (pb_signedPayload b1)" "executable (pb_state b1)" using sg(4) [OF Inr] by auto
    note u1 = find_batch_unique [OF ok1 b1(1)]
    obtain rs where sd: "send_phase V lost b1 = (rs, sent)"
      using at sp Inr by (cases "send_phase V lost b1"; cases "fst (send_phase V lost b1)")
        (auto simp: attempt_def Let_def split: prod.splits)
    have sent1: "sent_as (sv_crypto V) p b1" if "p \<in> set sent" for p
      using send_phase_sent [OF sd that] b1(2,3) by (simp add: sent_as_def executable_may_send)
    have same: ?thesis if "t = s1"
      using that inv1 ev1 u1 b1(3) sent1 by blast
    show ?thesis
    proof (cases rs)
      case (Inl e)
      with at sp Inr sd \<open>r1 = Inr b1\<close> have "t = s1" by (simp add: attempt_def)
      then show ?thesis by (rule same)
    next
      case txids: (Inr txids)
      obtain t' r' where j: "journal_phase now lost b1 txids s1 = (t', r')" by fastforce
      with at sp Inr sd txids have "t' = t" "r' = r" by (simp_all add: attempt_def)
      with journal_phase_cases [OF inv1 b1(1,3) j] consider "t = s1"
        | x where "r = Inr x" "payout_inv t" "list_all2 evolves (payoutBatches s1) (payoutBatches t)" by blast
      then show ?thesis
      proof cases
        case 2
        obtain c where "c \<in> set (payoutBatches t)" "pb_id c = i" "evolves b1 c"
          using evolves_find [OF 2(3) u1(1)] u1(2) by auto
        with 2 sent1 show ?thesis using all_evolve_trans [OF ev1 2(3)] evolves_sent by blast
      qed (rule same)
    qed
  qed
  then show "payout_inv t" and "list_all2 evolves (payoutBatches s) (payoutBatches t)"
    and "r = Inl e \<Longrightarrow> c \<in> set (payoutBatches t) \<Longrightarrow> pb_id c = i \<Longrightarrow> executable (pb_state c)"
    and "p \<in> set sent \<Longrightarrow> \<exists>c \<in> set (payoutBatches t). pb_id c = i \<and> sent_as (sv_crypto V) p c" by blast+
qed

lemma executeUnderLock_inv:
  assumes inv: "payout_inv s" and ex: "executeUnderLock V now iv lost i s = (t, sent, r)"
  shows "payout_inv t" and "list_all2 evolves (payoutBatches s) (payoutBatches t)"
    and "p \<in> set sent \<Longrightarrow> \<exists>c \<in> set (payoutBatches t). pb_id c = i \<and> sent_as (sv_crypto V) p c"
proof -
  have "payout_inv t \<and> list_all2 evolves (payoutBatches s) (payoutBatches t) \<and>
    (\<forall>p \<in> set sent. \<exists>c \<in> set (payoutBatches t). pb_id c = i \<and> sent_as (sv_crypto V) p c)"
  proof (cases "t = s \<and> sent = []")
    case True
    then show ?thesis using inv by simp
  next
    case False
    with ex obtain b where b: "find_batch i s = Some b" "executable (pb_state b)"
      and at: "(case attempt V now iv lost b s of (s1, sent, Inr result) \<Rightarrow> (s1, sent, Inr result)
        | (s1, sent, Inl e) \<Rightarrow> (fail_phase now i (pb_asset b) e s1, sent, Inl e)) = (t, sent, r)"
      by (auto simp: executeUnderLock_def split: if_splits option.splits)
    obtain s1 sent1 r1 where a: "attempt V now iv lost b s = (s1, sent1, r1)" by (metis prod.exhaust)
    note ai = attempt_inv [OF inv b a]
    show ?thesis
    proof (cases r1)
      case (Inr x)
      with at a ai show ?thesis by auto
    next
      case (Inl e)
      with at a have t: "t = fail_phase now i (pb_asset b) e s1" "sent = sent1" by auto
      note f = fail_phase_settles [of s1 i now "pb_asset b" e, OF ai(3) [OF Inl]]
      have "payout_inv t" unfolding t by (rule settle_inv [OF ai(1) f])
      moreover note ev = settleD(2) [OF f(2)]
      have "\<exists>c \<in> set (payoutBatches t). pb_id c = i \<and> sent_as (sv_crypto V) p c" if p: "p \<in> set sent" for p
      proof -
        obtain c where c: "c \<in> set (payoutBatches s1)" "pb_id c = i" "sent_as (sv_crypto V) p c" using ai(4) p t(2) by blast
        from evolves_find [OF ev c(1)] c(2,3) evolves_sent show ?thesis unfolding t(1) by metis
      qed
      ultimately show ?thesis using all_evolve_trans [OF ai(2) ev] t(1) by blast
    qed
  qed
  then show "payout_inv t" and "list_all2 evolves (payoutBatches s) (payoutBatches t)"
    and "p \<in> set sent \<Longrightarrow> \<exists>c \<in> set (payoutBatches t). pb_id c = i \<and> sent_as (sv_crypto V) p c" by blast+
qed

section \<open>Planning\<close>

definition planned_of :: "payout_item \<Rightarrow> planned_item" where
  "planned_of x = \<lparr>pn_customerId = pi_customerId x, pn_destination = pi_destination x, pn_grossAtomic = pi_grossAtomic x\<rparr>"

lemma new_items_facts:
  assumes "new_items ps s = (t, xs)"
  shows "t = s\<lparr>minted := minted s + length ps\<rparr> \<and> map pi_id xs = map (uuids s) [minted s ..< minted s + length ps] \<and>
    map planned_of xs = ps \<and> list_all (\<lambda>x. pi_journalTransactionId x = None) xs"
  using assms
proof (induction ps arbitrary: s t xs)
  case (Cons p ps)
  then obtain t' ys where "new_items ps (s\<lparr>minted := Suc (minted s)\<rparr>) = (t', ys)"
    "t = t'" "xs = \<lparr>pi_id = uuids s (minted s), pi_customerId = pn_customerId p, pi_destination = pn_destination p,
               pi_grossAtomic = pn_grossAtomic p, pi_allocatedFeeAtomic = 0, pi_netAtomic = pn_grossAtomic p,
               pi_journalTransactionId = None\<rparr> # ys"
    by (auto simp: new_id_def split: prod.splits)
  with Cons.IH [OF this(1)] show ?case by (simp add: planned_of_def upt_conv_Cons del: upt_Suc)
qed simp

lemma create_batch_facts:
  assumes "create_batch now A kind auto snap ps s = (t, b)"
  shows "t = s\<lparr>minted := minted s + Suc (length ps), payoutBatches := payoutBatches s @ [b]\<rparr>"
    and "pb_id b = uuids s (minted s)" and "pb_asset b = A" and "pb_kind b = kind"
    and "pb_state b = (if auto then AUTO_APPROVED else APPROVAL_REQUIRED)" and "pb_approvalThresholdHit b = (\<not> auto)"
    and "pb_createdAt b = now" and "pb_totalGrossAtomic b = sum_list (map pn_grossAtomic ps)"
    and "map pi_id (pb_items b) = map (uuids s) [Suc (minted s) ..< Suc (minted s) + length ps]"
    and "map planned_of (pb_items b) = ps" and "list_all (\<lambda>x. pi_journalTransactionId x = None) (pb_items b)"
    and "pb_signedPayload b = None" and "pb_approvedById b = None"
proof -
  obtain u xs where u: "new_items ps (s\<lparr>minted := Suc (minted s)\<rparr>) = (u, xs)" by fastforce
  note f = new_items_facts [OF u]
  from assms u f show "t = s\<lparr>minted := minted s + Suc (length ps), payoutBatches := payoutBatches s @ [b]\<rparr>"
    "pb_id b = uuids s (minted s)" "pb_asset b = A" "pb_kind b = kind"
    "pb_state b = (if auto then AUTO_APPROVED else APPROVAL_REQUIRED)" "pb_approvalThresholdHit b = (\<not> auto)"
    "pb_createdAt b = now" "pb_totalGrossAtomic b = sum_list (map pn_grossAtomic ps)"
    "map pi_id (pb_items b) = map (uuids s) [Suc (minted s) ..< Suc (minted s) + length ps]"
    "map planned_of (pb_items b) = ps" "list_all (\<lambda>x. pi_journalTransactionId x = None) (pb_items b)"
    "pb_signedPayload b = None" "pb_approvedById b = None"
    unfolding create_batch_def by (auto simp: new_id_def Let_def simp del: upt_Suc)
qed

lemma pending_new:
  assumes "map planned_of (pb_items b) = ps" and "list_all (\<lambda>x. pi_journalTransactionId x = None) (pb_items b)"
  shows "pending_to c A [b] = (if A = pb_asset b then sum_where (\<lambda>p. pn_customerId p = c) pn_grossAtomic ps else 0)"
proof -
  have "sum_where (\<lambda>(B, x). B = A \<and> pi_customerId x = c \<and> pi_journalTransactionId x = None) (\<lambda>(B, x). pi_grossAtomic x)
      (map (Pair (pb_asset b)) xs) =
      (if A = pb_asset b then sum_where (\<lambda>p. pn_customerId p = c) pn_grossAtomic (map planned_of xs) else 0)"
    if "list_all (\<lambda>x. pi_journalTransactionId x = None) xs" for xs
    using that by (induction xs) (auto simp: planned_of_def)
  with assms show ?thesis by (simp add: pending_to_def)
qed

lemma fresh_range:
  assumes "inj (uuids s)" shows "uuids s n \<notin> minted_ids s \<longleftrightarrow> minted s \<le> n"
  using assms by (auto simp: minted_ids_def inj_eq)

lemma create_batch_inv:
  assumes inv: "payout_inv s" and cb: "create_batch now A kind auto snap ps s = (t, b)"
    and ps: "list_all (\<lambda>p. 0 \<le> pn_grossAtomic p \<and> pn_customerId p \<noteq> Some [] \<and> (pn_customerId p = None \<longleftrightarrow> kind = PayoutKind.OPERATOR)) ps"
    and cover: "\<And>c. pending_to c A (payoutBatches s) + sum_where (\<lambda>p. pn_customerId p = c) pn_grossAtomic ps \<le> owed_to c A s"
  shows "payout_inv t" and "payoutBatches t = payoutBatches s @ [b]"
proof -
  note f = create_batch_facts [OF cb]
  show rows: "payoutBatches t = payoutBatches s @ [b]" by (simp add: f(1))
  have led: "wf_ledger s" and old: "batch_ids (payoutBatches s) \<subseteq> minted_ids s" "batches_ok (payoutBatches s)" "covered s"
    using inv by (simp_all add: payout_inv_def)
  then have inj: "inj (uuids s)" by (simp add: wf_ledger_def wf_accounts_def)
  have q: "same_ledger s t" by (simp add: same_ledger_def f(1))
  note sl = same_ledgerD [OF q]
  have ids: "pi_id ` set (pb_items b) = uuids s ` {Suc (minted s) ..< Suc (minted s) + length ps}"
    using f(9) by (metis set_map set_upt)
  have fresh: "i \<notin> minted_ids s" "i \<in> minted_ids t" if "i = pb_id b \<or> i \<in> pi_id ` set (pb_items b)" for i
  proof -
    from that obtain n where n: "i = uuids s n" "minted s \<le> n" "n < minted s + Suc (length ps)"
      unfolding ids f(2) by auto
    then show "i \<notin> minted_ids s" by (simp add: fresh_range [OF inj])
    from n show "i \<in> minted_ids t" by (simp add: f(1) minted_ids_def)
  qed
  have item: "0 \<le> pi_grossAtomic x \<and> pi_customerId x \<noteq> Some [] \<and> (pi_customerId x = None \<longleftrightarrow> kind = PayoutKind.OPERATOR) \<and>
      pi_journalTransactionId x = None" if "x \<in> set (pb_items b)" for x
    using ps f(10,11) that by (auto simp: list_all_iff planned_of_def)
  have "batch_ok b" using item f(4,5) by (auto simp: batch_ok_def booked_def)
  moreover have "unique_on pi_id (pb_items b)"
    unfolding f(9) using inj_on_subset [OF inj subset_UNIV] by (simp add: distinct_map del: upt_Suc)
  moreover have "pb_id b \<notin> pb_id ` set (payoutBatches s)"
    "pi_id ` set (pb_items b) \<inter> (pi_id \<circ> snd) ` set (all_items (payoutBatches s)) = {}"
    using fresh(1) old(1) unfolding batch_ids_def by blast+
  ultimately have "batches_ok (payoutBatches t)"
    using old(2) item unfolding rows batches_ok_def by (auto simp: item_ok_def comp_def list_all_iff image_iff)
  moreover have "batch_ids (payoutBatches t) \<subseteq> minted_ids t"
    using old(1) sl(3) fresh(2) unfolding rows batch_ids_def by auto
  moreover have "covered t"
    using old(3) cover pending_new [OF f(10,11)] unfolding covered_def sl(2) rows pending_to_simps f(3) by auto
  moreover have "dest_unique t" "[] \<notin> cust_id ` set (customers t)" using inv by (simp_all add: payout_inv_def f(1) dest_unique_def)
  ultimately show "payout_inv t" using sl(1) [OF led] by (simp add: payout_inv_def)
qed

lemma pending_reserved:
  assumes "list_all item_ok (all_items bs)" and "list_all batch_ok bs"
  shows "pending_to (Some k) A bs \<le> sum_where (\<lambda>x. pi_customerId x = Some k) pi_grossAtomic
           (concat (map pb_items (filter (\<lambda>b. pb_asset b = A \<and> pb_state b \<in> set OPEN_PAYOUT_STATES) bs)))"
    and "pending_to None A bs \<le> sum_where (\<lambda>x. pi_customerId x = None) pi_grossAtomic
           (concat (map pb_items (filter (\<lambda>b. (pb_asset b = A \<and> pb_kind b = PayoutKind.OPERATOR) \<and>
              pb_state b \<in> set OPEN_PAYOUT_STATES) bs)))"
proof -
  have one: "pending_to c A [b] \<le> (if pb_asset b = A \<and> pb_state b \<in> set OPEN_PAYOUT_STATES \<and>
        (c = None \<longrightarrow> pb_kind b = PayoutKind.OPERATOR)
      then sum_where (\<lambda>x. pi_customerId x = c) pi_grossAtomic (pb_items b) else 0)"
    if "\<forall>x \<in> set (pb_items b). 0 \<le> pi_grossAtomic x" "batch_ok b" for b c
  proof -
    have le: "sum_where (\<lambda>(B, x). B = A \<and> pi_customerId x = c \<and> pi_journalTransactionId x = None) (\<lambda>(B, x). pi_grossAtomic x)
        (map (Pair (pb_asset b)) xs) \<le> sum_where (\<lambda>x. pi_customerId x = c) pi_grossAtomic xs"
      if "\<forall>x \<in> set xs. 0 \<le> pi_grossAtomic x" for xs using that by (induction xs) auto
    have "pending_to c A [b] = 0" if closed: "\<not> (pb_asset b = A \<and> pb_state b \<in> set OPEN_PAYOUT_STATES \<and>
        (c = None \<longrightarrow> pb_kind b = PayoutKind.OPERATOR))"
      unfolding pending_to_def
    proof (rule sum_where_none)
      fix p assume p: "p \<in> set (all_items [b])"
      then obtain x where x: "p = (pb_asset b, x)" "x \<in> set (pb_items b)" by auto
      consider "pb_asset b \<noteq> A" | "booked b" | "c = None" "pb_kind b \<noteq> PayoutKind.OPERATOR"
        using closed \<open>batch_ok b\<close> by (cases "pb_state b") (auto simp: OPEN_PAYOUT_STATES_def batch_ok_def booked_def)
      then show "\<not> (case p of (B, x) \<Rightarrow> B = A \<and> pi_customerId x = c \<and> pi_journalTransactionId x = None)"
        by cases (use x \<open>batch_ok b\<close> in \<open>auto simp: batch_ok_def\<close>)
    qed
    with le [OF that(1)] show ?thesis by (auto simp: pending_to_def)
  qed
  have nonneg: "\<forall>x \<in> set (pb_items b). 0 \<le> pi_grossAtomic x" if "list_all item_ok (all_items (b # bs))" for b bs
    using that by (auto simp: list_all_iff item_ok_def)
  have cons: "pending_to c A (b # bs) = pending_to c A [b] + pending_to c A bs" for c b bs
    using pending_to_simps(2) [of c A "[b]" bs] by simp
  show "pending_to (Some k) A bs \<le> sum_where (\<lambda>x. pi_customerId x = Some k) pi_grossAtomic
           (concat (map pb_items (filter (\<lambda>b. pb_asset b = A \<and> pb_state b \<in> set OPEN_PAYOUT_STATES) bs)))"
    using assms
  proof (induction bs)
    case (Cons b bs)
    then show ?case using one [OF nonneg [OF Cons.prems(1)], of "Some k"] unfolding cons [of "Some k" b bs] by auto
  qed simp
  show "pending_to None A bs \<le> sum_where (\<lambda>x. pi_customerId x = None) pi_grossAtomic
           (concat (map pb_items (filter (\<lambda>b. (pb_asset b = A \<and> pb_kind b = PayoutKind.OPERATOR) \<and>
              pb_state b \<in> set OPEN_PAYOUT_STATES) bs)))"
    using assms
  proof (induction bs)
    case (Cons b bs)
    then show ?case using one [OF nonneg [OF Cons.prems(1)], of None] unfolding cons [of None b bs] by auto
  qed simp
qed

lemma reserved_covers:
  assumes "payout_inv s"
  shows "pending_to (Some k) A (payoutBatches s) \<le> customer_reserved A k s"
    and "pending_to None A (payoutBatches s) \<le> operator_reserved A s"
  using assms pending_reserved [of "payoutBatches s"]
  by (simp_all add: payout_inv_def batches_ok_def customer_reserved_def operator_reserved_def open_items_def)

lemma payable_unique:
  assumes "dest_unique s" shows "unique_on pd_customerId (payable_destinations now A policy s)"
proof -
  let ?P = "\<lambda>d. pd_asset d = A \<and> pd_status d = DestinationStatus.ACTIVE \<and> pd_effectiveAt d \<le> now \<and> customer_active (pd_customerId d) s"
  let ?ds = "sort_key pd_createdAt (filter ?P (payoutDestinations s))"
  have ids: "inj_on pd_id (set (payoutDestinations s))" and "distinct (payoutDestinations s)"
    using assms by (auto simp: dest_unique_def distinct_map)
  have "d = e" if "d \<in> set ?ds" "e \<in> set ?ds" "pd_customerId d = pd_customerId e" for d e
  proof -
    have "pd_id d = pd_id e" using assms that unfolding dest_unique_def single_active_def set_sort set_filter mem_Collect_eq by metis
    then show ?thesis using inj_onD [OF ids] that by auto
  qed
  then have "unique_on pd_customerId ?ds"
    using \<open>distinct (payoutDestinations s)\<close> by (simp add: distinct_map inj_on_def)
  then show ?thesis unfolding payable_destinations_def take_map [symmetric] by (rule distinct_take)
qed

lemma planned_customers:
  assumes "p \<in> set (concat (map (plan_item A policy s) ds))"
  obtains d where "d \<in> set ds" and "pn_customerId p = Some (pd_customerId d)" and "pp_minimumAtomic policy A \<le> pn_grossAtomic p"
  using assms by (auto simp: plan_item_def Let_def split: if_splits)

lemma planned_sum:
  assumes "unique_on pd_customerId ds"
  shows "sum_where (\<lambda>p. pn_customerId p = Some k) pn_grossAtomic (concat (map (plan_item A policy s) ds)) = 0 \<or>
    sum_where (\<lambda>p. pn_customerId p = Some k) pn_grossAtomic (concat (map (plan_item A policy s) ds)) =
      customerBalance k A s - customer_reserved A k s"
  using assms
proof (induction ds)
  case (Cons d ds)
  show ?case
  proof (cases "pd_customerId d = k")
    case True
    then have "pn_customerId p \<noteq> Some k" if "p \<in> set (concat (map (plan_item A policy s) ds))" for p
      using Cons.prems that by (metis distinct.simps(2) image_eqI list.map(2) list.set_map option.inject planned_customers)
    then have "sum_where (\<lambda>p. pn_customerId p = Some k) pn_grossAtomic (concat (map (plan_item A policy s) ds)) = 0"
      by (rule sum_where_none)
    moreover have "sum_where (\<lambda>p. pn_customerId p = Some k) pn_grossAtomic (plan_item A policy s d) = 0 \<or>
      sum_where (\<lambda>p. pn_customerId p = Some k) pn_grossAtomic (plan_item A policy s d) = customerBalance k A s - customer_reserved A k s"
      using True by (simp add: plan_item_def Let_def)
    ultimately show ?thesis by simp
  next
    case False
    then have "sum_where (\<lambda>p. pn_customerId p = Some k) pn_grossAtomic (plan_item A policy s d) = 0"
      by (simp add: plan_item_def Let_def)
    with Cons show ?thesis by simp
  qed
qed simp

lemma payable_active:
  assumes "d \<in> set (payable_destinations now A policy s)" shows "pd_customerId d \<in> cust_id ` set (customers s)"
proof -
  have "customer_active (pd_customerId d) s" using in_set_takeD [OF assms [unfolded payable_destinations_def]] by simp
  then show ?thesis by (force simp: customer_active_def list_ex_iff)
qed

definition new_batch :: "payout_batch \<Rightarrow> bool" where
  "new_batch b \<longleftrightarrow> \<not> truthy (pb_signedPayload b) \<and> (pb_state b = APPROVAL_REQUIRED \<or> pb_state b = AUTO_APPROVED \<and> \<not> pb_approvalThresholdHit b)"

lemma create_batch_new: "create_batch now A kind auto snap ps s = (t, b) \<Longrightarrow> new_batch b"
  by (simp add: new_batch_def create_batch_facts truthy_def)

lemma plan_body_cases:
  assumes "plan_body V now A policy s = Inr (t, r)"
  obtains "t = s" | auto snap b where "canAutoApprove V now A (sum_list (map pn_grossAtomic (planned_items now A policy s))) policy s = Inr auto"
    "create_batch now A PayoutKind.CUSTOMER auto snap (planned_items now A policy s) s = (t, b)"
proof (cases "planned_items now A policy s = []")
  case True
  with assms that(1) show thesis by (simp add: plan_body_def)
next
  case False
  let ?snap = "\<lparr>ps_feePayer = Some (pp_feePayer policy), ps_maxFeeBps = Some (pp_maxFeeBps policy),
    ps_maxBatchItems = Some (pp_maxBatchItems policy)\<rparr>"
  from False assms obtain auto where auto: "canAutoApprove V now A (sum_list (map pn_grossAtomic (planned_items now A policy s))) policy s = Inr auto"
    and r: "(let (t, b) = create_batch now A PayoutKind.CUSTOMER auto ?snap (planned_items now A policy s) s in Inr (t, Some b)) = (Inr (t, r) :: (store \<times> payout_batch option) result)"
    by (auto simp: plan_body_def Let_def ebind_eq_Inr)
  obtain u b where cb: "create_batch now A PayoutKind.CUSTOMER auto ?snap (planned_items now A policy s) s = (u, b)" by fastforce
  with r have "u = t" by simp
  with auto cb that(2) show thesis by blast
qed

lemma planned_ok:
  assumes "payout_inv s" and "0 \<le> pp_minimumAtomic policy A"
  shows "list_all (\<lambda>p. 0 \<le> pn_grossAtomic p \<and> pn_customerId p \<noteq> Some [] \<and>
      (pn_customerId p = None \<longleftrightarrow> PayoutKind.CUSTOMER = PayoutKind.OPERATOR)) (planned_items now A policy s)"
proof -
  have "0 \<le> pn_grossAtomic p \<and> pn_customerId p \<noteq> Some [] \<and> pn_customerId p \<noteq> None"
    if "p \<in> set (planned_items now A policy s)" for p
  proof -
    from that obtain d where d: "d \<in> set (payable_destinations now A policy s)" "pn_customerId p = Some (pd_customerId d)"
      "pp_minimumAtomic policy A \<le> pn_grossAtomic p" unfolding planned_items_def by (rule planned_customers)
    have "[] \<notin> cust_id ` set (customers s)" using assms(1) by (simp add: payout_inv_def)
    then have "pd_customerId d \<noteq> []" using payable_active [OF d(1)] by metis
    with d assms(2) show ?thesis by simp
  qed
  then show ?thesis by (auto simp: list_all_iff)
qed

lemma planned_covered:
  assumes "payout_inv s"
  shows "pending_to c A (payoutBatches s) + sum_where (\<lambda>p. pn_customerId p = c) pn_grossAtomic (planned_items now A policy s) \<le> owed_to c A s"
proof -
  have cov: "pending_to c A (payoutBatches s) \<le> owed_to c A s" and du: "dest_unique s"
    using assms by (simp_all add: payout_inv_def covered_def)
  show ?thesis
  proof (cases c)
    case None
    have "sum_where (\<lambda>p. pn_customerId p = None) pn_grossAtomic (planned_items now A policy s) = 0"
      unfolding planned_items_def by (rule sum_where_none) (erule planned_customers, simp)
    with None cov show ?thesis by simp
  next
    case (Some k)
    from planned_sum [OF payable_unique [OF du, of now A policy], of k A policy s, folded planned_items_def]
      reserved_covers(1) [OF assms, of k A] cov Some
    show ?thesis by (auto simp: owed_to_def)
  qed
qed

lemma plan_body_inv:
  assumes inv: "payout_inv s" and "0 \<le> pp_minimumAtomic policy A" and pb: "plan_body V now A policy s = Inr (t, r)"
  shows "payout_inv t \<and> (\<exists>new. payoutBatches t = payoutBatches s @ new \<and> list_all new_batch new)"
  using pb
proof (cases rule: plan_body_cases)
  case 1
  with inv show ?thesis by simp
next
  case (2 auto snap b)
  note cb = create_batch_inv [OF inv 2(2) planned_ok [OF inv assms(2)] planned_covered [OF inv]]
  with create_batch_new [OF 2(2)] show ?thesis by (intro conjI exI [of _ "[b]"]) simp_all
qed

lemma activateDue_inv_payout: "payout_inv s \<Longrightarrow> payout_inv (fst (activateDueDestinations now s))"
proof -
  let ?t = "fst (activateDueDestinations now s)"
  assume inv: "payout_inv s"
  note tab = activateDue_tables [of now s]
  have "same_ledger s ?t" by (simp add: same_ledger_def tab)
  note led = same_ledgerD [OF this]
  show ?thesis
    by (rule payout_inv_step [OF inv]) (use inv led activateDue_unique [of s now] in \<open>simp_all add: payout_inv_def tab unbooked_same\<close>)
qed

lemma publish_planned_rows [simp]:
  "payoutBatches (fst (publish_planned n r t)) = payoutBatches t"
  "payout_inv (fst (publish_planned n r t)) = payout_inv t"
  by (auto simp: publish_planned_def split: option.splits)

lemma plan_inv:
  assumes "payout_inv s" and "0 \<le> pp_minimumAtomic (payoutPolicy (sv_env V) s) A"
  shows "payout_inv (fst (plan V now A s)) \<and>
    (\<exists>new. payoutBatches (fst (plan V now A s)) = payoutBatches s @ new \<and> list_all new_batch new)"
proof -
  let ?s = "fst (activateDueDestinations now s)"
  note tab = activateDue_tables [of now s]
  have policy: "payoutPolicy (sv_env V) ?s = payoutPolicy (sv_env V) s"
    by (rule payoutPolicy_cong) (simp add: find_setting_def tab)
  show ?thesis
  proof (cases "plan_body V now A (payoutPolicy (sv_env V) s) ?s")
    case (Inl e)
    then show ?thesis
      using activateDue_inv_payout [OF assms(1)] by (simp add: plan_def Let_def policy publish_planned_rows transaction_def tab)
  next
    case (Inr p)
    obtain t r where p: "p = (t, r)" by fastforce
    from plan_body_inv [OF activateDue_inv_payout [OF assms(1)] assms(2) Inr [unfolded p]] show ?thesis
      by (simp add: plan_def Let_def policy publish_planned_rows transaction_def tab Inr p)
  qed
qed

lemma activate_operator_quiet: "quiet s (activateDueOperatorPayouts now s) \<and> payoutBatches (activateDueOperatorPayouts now s) = payoutBatches s"
proof -
  have one: "quiet s (activate_due now A s) \<and> payoutBatches (activate_due now A s) = payoutBatches s" for A s
  proof -
    have "quiet s (upsert_setting k v s) \<and> payoutBatches (upsert_setting k v s) = payoutBatches s"
      "quiet s (delete_setting k s) \<and> payoutBatches (delete_setting k s) = payoutBatches s" for k v s
      by (simp_all add: quiet_def same_ledger_def upsert_setting_def delete_setting_def)
    then show ?thesis
      using logged_quiet [OF resolve_logged] quiet_trans unfolding activate_due_def
      by (auto split: option.splits) (meson quiet_trans)+
  qed
  then show ?thesis using quiet_trans unfolding activateDueOperatorPayouts_def by simp blast
qed

lemma plan_operator_body_inv:
  assumes inv: "payout_inv s" and "0 \<le> os_minPayoutAtomic setting"
    and pb: "plan_operator_body V now A setting policy s = Inr (t, r)"
  shows "payout_inv t \<and> (\<exists>new. payoutBatches t = payoutBatches s @ new \<and> list_all new_batch new)"
proof (cases "operatorBalance A s - operator_reserved A s < os_minPayoutAtomic setting")
  case True
  with pb inv show ?thesis by (simp add: plan_operator_body_def Let_def)
next
  case False
  let ?g = "operatorBalance A s - operator_reserved A s"
  let ?ps = "[\<lparr>pn_customerId = None, pn_destination = os_address setting, pn_grossAtomic = ?g\<rparr>]"
  let ?snap = "\<lparr>ps_feePayer = Some CUSTOMER, ps_maxFeeBps = Some (pp_maxFeeBps policy), ps_maxBatchItems = Some 1\<rparr>"
  from False pb obtain auto where
    r: "(let (t, b) = create_batch now A PayoutKind.OPERATOR auto ?snap ?ps s in Inr (t, Some b)) = (Inr (t, r) :: (store \<times> payout_batch option) result)"
    by (auto simp: plan_operator_body_def Let_def ebind_eq_Inr)
  obtain u b where cb: "create_batch now A PayoutKind.OPERATOR auto ?snap ?ps s = (u, b)" by fastforce
  with r have u: "u = t" by simp
  have cov: "pending_to c A (payoutBatches s) \<le> owed_to c A s" for c using inv by (simp add: payout_inv_def covered_def)
  have "pending_to c A (payoutBatches s) + sum_where (\<lambda>p. pn_customerId p = c) pn_grossAtomic ?ps \<le> owed_to c A s" for c
    using reserved_covers(2) [OF inv, of A] cov [of c] by (cases c) (simp_all add: owed_to_def)
  note ci = create_batch_inv [OF inv cb _ this]
  from False assms(2) have "0 \<le> ?g" by simp
  with ci create_batch_new [OF cb] u show ?thesis by (intro conjI exI [of _ "[b]"]) simp_all
qed

lemma planOperator_inv:
  assumes "payout_inv s" and "0 \<le> os_minPayoutAtomic (snd (operatorPayout (sv_env V) now A s))"
  shows "payout_inv (fst (planOperator V now A s)) \<and>
    (\<exists>new. payoutBatches (fst (planOperator V now A s)) = payoutBatches s @ new \<and> list_all new_batch new)"
proof -
  obtain s1 setting where o: "operatorPayout (sv_env V) now A s = (s1, setting)" by fastforce
  then have s1: "s1 = activateDueOperatorPayouts now s" by (simp add: operatorPayout_def Let_def)
  note q = activate_operator_quiet [of s now, folded s1]
  have inv: "payout_inv s1" using payout_inv_quiet [OF assms(1)] q unbooked_same by metis
  let ?policy = "payoutPolicy (sv_env V) s1"
  show ?thesis
  proof (cases "plan_operator_body V now A setting ?policy s1")
    case (Inl e)
    then show ?thesis using inv q by (simp add: planOperator_def o transaction_def)
  next
    case (Inr p)
    obtain t r where p: "p = (t, r)" by fastforce
    from plan_operator_body_inv [OF inv _ Inr [unfolded p]] assms(2) o
    have "payout_inv t \<and> (\<exists>new. payoutBatches t = payoutBatches s1 @ new \<and> list_all new_batch new)" by simp
    then show ?thesis using inv q by (auto simp: planOperator_def o transaction_def Inr p)
  qed
qed

end
