(* ===== verification/PayoutHistory.thy ===== *)
theory PayoutHistory
  imports PayoutSafety
begin

text \<open>
  Histories of the payout service.  A step is one operation, in any order and with any answers of the
  wallets; an execution may also crash after it has signed and sent, and every other operation
  of the system is a step that leaves the batches alone and lowers no balance (deposits are credited,
  destinations and settings change).  With each step goes what it handed to the network.
\<close>

section \<open>Steps\<close>

inductive payout_step :: "crypto_service \<Rightarrow> store \<Rightarrow> (uuid \<times> string) list \<Rightarrow> store \<Rightarrow> bool" for C where
  plan: "0 \<le> pp_minimumAtomic (payoutPolicy (sv_env V) s) A \<Longrightarrow> payout_step C s [] (fst (plan V now A s))"
| plan_operator: "0 \<le> os_minPayoutAtomic (snd (operatorPayout (sv_env V) now A s)) \<Longrightarrow>
    payout_step C s [] (fst (planOperator V now A s))"
| approve: "payout_step C s [] (fst (approve V now i adminId totp s))"
| execute: "sv_crypto V = C \<Longrightarrow> executeUnderLock V now iv lost i s = (t, sent, r) \<Longrightarrow>
    payout_step C s (map (Pair i) sent) t"
| crash: "sv_crypto V = C \<Longrightarrow> find_batch i s = Some b \<Longrightarrow> executable (pb_state b) \<Longrightarrow>
    sign_phase V iv lost b s = (t, Inr b1) \<Longrightarrow> send_phase V lost b1 = (r, sent) \<Longrightarrow>
    payout_step C s (map (Pair i) sent) t"
| reconcile: "payout_step C s [] (fst (reconcile V now s))"
| other: "wf_ledger t \<Longrightarrow> dest_unique t \<Longrightarrow> [] \<notin> cust_id ` set (customers t) \<Longrightarrow>
    payoutBatches t = payoutBatches s \<Longrightarrow> minted_ids s \<subseteq> minted_ids t \<Longrightarrow>
    (\<And>c A. owed_to c A s \<le> owed_to c A t) \<Longrightarrow> payout_step C s [] t"

inductive payout_reachable :: "crypto_service \<Rightarrow> store \<Rightarrow> (uuid \<times> string) list \<Rightarrow> bool" for C where
  start: "wf_ledger s \<Longrightarrow> dest_unique s \<Longrightarrow> [] \<notin> cust_id ` set (customers s) \<Longrightarrow> payoutBatches s = [] \<Longrightarrow>
    (\<And>c A. 0 \<le> owed_to c A s) \<Longrightarrow> payout_reachable C s []"
| step: "payout_reachable C s wire \<Longrightarrow> payout_step C s sent t \<Longrightarrow> payout_reachable C t (wire @ sent)"

section \<open>Invariants\<close>

definition approval_ok :: "payout_batch \<Rightarrow> bool" where
  "approval_ok b \<longleftrightarrow> pb_state b \<noteq> PLANNED \<and>
     (may_send (pb_state b) \<longrightarrow> \<not> pb_approvalThresholdHit b \<or> pb_approvedById b \<noteq> None)"

definition wire_ok :: "crypto_service \<Rightarrow> payout_batch list \<Rightarrow> (uuid \<times> string) list \<Rightarrow> bool" where
  "wire_ok C bs wire \<longleftrightarrow> (\<forall>(i, p) \<in> set wire. \<exists>b \<in> set bs. pb_id b = i \<and> sent_as C p b)"

lemma legal_planned: "legal a PLANNED \<Longrightarrow> a = PLANNED"
proof -
  assume "legal a PLANNED"
  moreover have "PLANNED \<notin> set (TRANSITIONS x)" for x by (cases x) auto
  ultimately show "a = PLANNED" unfolding legal_def by (metis rtranclp.cases)
qed

lemma approval_evolves: "evolves b c \<Longrightarrow> approval_ok b \<Longrightarrow> approval_ok c"
  using legal_planned [of "pb_state b"] by (auto simp: approval_ok_def evolves_def may_send_def)

lemma approval_new: "new_batch b \<Longrightarrow> approval_ok b"
  by (auto simp: new_batch_def approval_ok_def may_send_def)

text \<open>What every step leaves of the batches.\<close>

definition grows :: "payout_batch list \<Rightarrow> payout_batch list \<Rightarrow> bool" where
  "grows bs cs \<longleftrightarrow> (\<exists>old new. cs = old @ new \<and> list_all2 evolves bs old \<and> list_all new_batch new)"

lemma grows_evolve: "list_all2 evolves bs cs \<Longrightarrow> grows bs cs"
  unfolding grows_def by (intro exI [of _ cs] exI [of _ "[]"]) simp

lemma grows_new: "list_all new_batch new \<Longrightarrow> grows bs (bs @ new)"
  unfolding grows_def by (intro exI [of _ bs] exI [of _ new]) simp

lemma grows_approval: "grows bs cs \<Longrightarrow> list_all approval_ok bs \<Longrightarrow> list_all approval_ok cs"
proof -
  assume "grows bs cs" and ok: "list_all approval_ok bs"
  then obtain old new where cs: "cs = old @ new" "list_all2 evolves bs old" "list_all new_batch new"
    unfolding grows_def by blast
  have "list_all approval_ok old" by (rule list_all2_preserves [OF cs(2) ok]) (rule approval_evolves)
  with cs show "list_all approval_ok cs" by (auto simp: list_all_iff approval_new)
qed

lemma grows_wire: "grows bs cs \<Longrightarrow> wire_ok C bs wire \<Longrightarrow> wire_ok C cs wire"
proof -
  assume g: "grows bs cs" and ok: "wire_ok C bs wire"
  from g obtain old new where cs: "cs = old @ new" "list_all2 evolves bs old" unfolding grows_def by blast
  have "\<exists>c \<in> set cs. pb_id c = i \<and> sent_as C p c" if ip: "(i, p) \<in> set wire" for i p
  proof -
    obtain b where "b \<in> set bs" "pb_id b = i" "sent_as C p b" using ok ip by (auto simp: wire_ok_def)
    with evolves_find [OF cs(2)] evolves_sent cs(1) show ?thesis by (metis Un_iff set_append)
  qed
  then show "wire_ok C cs wire" by (auto simp: wire_ok_def)
qed

lemma payout_step_facts:
  assumes "payout_step C s sent t" and "payout_inv s"
  shows "payout_inv t \<and> grows (payoutBatches s) (payoutBatches t) \<and> wire_ok C (payoutBatches t) sent"
  using assms
proof (induction rule: payout_step.induct)
  case (plan V s A now)
  with plan_inv [of s V A now] show ?case by (auto simp: wire_ok_def intro: grows_new)
next
  case (plan_operator V now A s)
  with planOperator_inv [of s V now A] show ?case by (auto simp: wire_ok_def intro: grows_new)
next
  case (approve s V now i adminId totp)
  then have ok: "batches_ok (payoutBatches s)" by (simp add: payout_inv_def)
  note st = approve_settles [OF ok, of V now i adminId totp]
  show ?case using settle_inv [OF approve.prems st] grows_evolve [OF settleD(2) [OF st(2)]] by (simp add: wire_ok_def)
next
  case (execute V now iv lost i s t sent r)
  note ex = executeUnderLock_inv [OF execute.prems execute.hyps(2)]
  have "wire_ok C (payoutBatches t) (map (Pair i) sent)" using ex(3) execute.hyps(1) by (auto simp: wire_ok_def)
  then show ?case using ex(1) grows_evolve [OF ex(2)] by blast
next
  case (crash V i s b iv lost t b1 r sent)
  then have ok: "batches_ok (payoutBatches s)" by (simp add: payout_inv_def)
  note sg = sign_phase_settles [OF ok crash.hyps(2,3,4)]
  have inv: "payout_inv t" by (rule settle_inv [OF crash.prems sg(1,2)])
  then have "batches_ok (payoutBatches t)" by (simp add: payout_inv_def)
  from find_batch_unique(1,2) [OF this] sg(4) [OF refl] have b1: "b1 \<in> set (payoutBatches t)" "pb_id b1 = i"
    "truthy (pb_signedPayload b1)" "may_send (pb_state b1)" by (auto intro: executable_may_send)
  have "wire_ok C (payoutBatches t) (map (Pair i) sent)"
    using b1 send_phase_sent [OF crash.hyps(5)] crash.hyps(1) by (auto simp: wire_ok_def sent_as_def)
  then show ?case using inv grows_evolve [OF settleD(2) [OF sg(2)]] by blast
next
  case (reconcile s V now)
  then have ok: "batches_ok (payoutBatches s)" by (simp add: payout_inv_def)
  note st = reconcile_settles [OF ok, of V now]
  show ?case using settle_inv [OF reconcile.prems st] grows_evolve [OF settleD(2) [OF st(2)]] by (simp add: wire_ok_def)
next
  case (other t s)
  have "payout_inv t"
    by (rule payout_inv_step [OF other.prems other.hyps(1-3) _ other.hyps(5,6)]) (simp add: other.hyps(4) unbooked_same)
  then show ?case using other.hyps(4) by (simp add: wire_ok_def grows_evolve)
qed

lemma payout_reachable_inv:
  assumes "payout_reachable C s wire"
  shows "payout_inv s \<and> list_all approval_ok (payoutBatches s) \<and> wire_ok C (payoutBatches s) wire"
  using assms
proof (induction rule: payout_reachable.induct)
  case (start s)
  then show ?case by (simp add: payout_inv_def batches_ok_def batch_ids_def covered_def wire_ok_def)
next
  case (step s wire sent t)
  note f = payout_step_facts [OF step.hyps(2) conjunct1 [OF step.IH]]
  have "list_all approval_ok (payoutBatches t)" using f step.IH grows_approval by blast
  moreover have "wire_ok C (payoutBatches t) (wire @ sent)"
    using f grows_wire [of "payoutBatches s" "payoutBatches t" C wire] step.IH by (auto simp: wire_ok_def)
  ultimately show ?case using f by blast
qed

section \<open>An example\<close>

definition paid_store :: store where
  "paid_store = (empty_store show_nat)
     \<lparr>minted := 4, customers := [example_customer],
      ledgerAccounts :=
        [\<lparr>la_id = ''0'', la_asset = XMR, la_customerId = Some ''c1'', la_code = liability_code ''c1'',
          la_name = ''Acme liability'', la_type = LIABILITY\<rparr>,
         \<lparr>la_id = ''1'', la_asset = XMR, la_customerId = None, la_code = ''treasury'',
          la_name = ''XMR treasury'', la_type = ASSET\<rparr>],
      journalTransactions :=
        [\<lparr>jt_id = ''2'', jt_asset = XMR, jt_type = JournalType.ALLOCATION, jt_referenceType = ''Deposit'',
          jt_referenceId = ''d'', jt_description = [],
          jt_entries = [debit_entry ''1'' 1000, credit_entry ''0'' 1000]\<rparr>],
      payoutDestinations :=
        [\<lparr>pd_id = ''3'', pd_customerId = ''c1'', pd_asset = XMR, pd_address = ''addr123456'',
          pd_status = DestinationStatus.ACTIVE, pd_effectiveAt = 0, pd_minPayoutAtomic = 1, pd_createdAt = 0,
          pd_revokedAt = None\<rparr>]\<rparr>"

lemma paid_store_account:
  "is_account paid_store A C i \<longleftrightarrow> A = XMR \<and> (i = ''0'' \<and> C = liability_code ''c1'' \<or> i = ''1'' \<and> C = ''treasury'')"
  by (auto simp: is_account_def paid_store_def)

lemma paid_store_entries: "all_entries paid_store = [debit_entry ''1'' 1000, credit_entry ''0'' 1000]"
  by (simp add: all_entries_def paid_store_def)

lemma paid_store_owed: "owed_to c A paid_store = (if c = Some ''c1'' \<and> A = XMR then 1000 else 0)"
  by (cases c) (auto simp: owed_to_def customerBalance_def operatorBalance_def account_total_def paid_store_account
      paid_store_entries)

lemma paid_store_reachable: "payout_reachable C paid_store []"
proof (rule payout_reachable.start)
  have ids: "show_nat 0 = ''0''" "show_nat 1 = ''1''" "show_nat 2 = ''2''" "show_nat 3 = ''3''" by code_simp+
  have "{..<4::nat} = {0, 1, 2, 3}" by auto
  then have minted: "minted_ids paid_store = {''0'', ''1'', ''2'', ''3''}"
    using ids by (simp add: minted_ids_def paid_store_def empty_store_def)
  show "wf_ledger paid_store"
    unfolding wf_ledger_def wf_accounts_def minted
    by (auto simp: paid_store_def empty_store_def account_keys_def balanced_def entries_of_asset_def is_account_def journal_key_def)
  show "dest_unique paid_store" "payoutBatches paid_store = []" "[] \<notin> cust_id ` set (customers paid_store)"
    by (simp_all add: dest_unique_def single_active_def paid_store_def empty_store_def example_customer_def)
  show "0 \<le> owed_to c A paid_store" for c A by (simp add: paid_store_owed)
qed

definition planned_store :: store where
  "planned_store = fst (plan example_services 5 XMR paid_store)"

lemma planned_store_reachable: "payout_reachable C planned_store []"
proof -
  have "0 \<le> pp_minimumAtomic (payoutPolicy (sv_env example_services) paid_store) XMR" by code_simp
  from payout_reachable.step [OF paid_store_reachable payout_step.plan [OF this]] show ?thesis
    by (simp add: planned_store_def)
qed

lemma planned_store_rows: "map pb_totalGrossAtomic (payoutBatches planned_store) = [1000] \<and> map pb_state (payoutBatches planned_store) = [AUTO_APPROVED]"
  by code_simp

section \<open>Main properties\<close>

text \<open>C2: Payouts never exceed what is owed.  In every history of planning, approving, executing, crashing
  and reconciling, what is planned and not yet journaled to a customer or to the operator is
  nonnegative and covered by the balance the ledger shows; and the items of a batch are journaled exactly
  when the batch has been broadcast or confirmed.\<close>

theorem payouts_covered:
  assumes "payout_reachable C s wire"
  shows "(\<forall>c A. 0 \<le> pending_to c A (payoutBatches s) \<and> pending_to c A (payoutBatches s) \<le> owed_to c A s) \<and>
    (\<forall>b \<in> set (payoutBatches s). \<forall>x \<in> set (pb_items b). pi_journalTransactionId x \<noteq> None \<longleftrightarrow> booked b)"
proof -
  have inv: "covered s" "batches_ok (payoutBatches s)" using payout_reachable_inv [OF assms] by (simp_all add: payout_inv_def)
  then have "0 \<le> pending_to c A (payoutBatches s)" for c A
    unfolding pending_to_def by (intro sum_where_nonneg) (auto simp: batches_ok_def list_all_iff item_ok_def)
  with inv show ?thesis by (auto simp: covered_def batches_ok_def list_all_iff batch_ok_def)
qed

theorem payouts_covered_witness:
  "pending_to (Some ''c1'') XMR (payoutBatches planned_store) = 1000 \<and> 1000 \<le> owed_to (Some ''c1'') XMR planned_store"
proof -
  have "pending_to (Some ''c1'') XMR (payoutBatches planned_store) = 1000" by code_simp
  with payouts_covered [OF planned_store_reachable] show ?thesis by metis
qed

text \<open>C3: A batch is paid once.  Whatever fails or crashes in between, everything that is ever handed to the
  network for a batch is one and the same signed payload, the one stored with the batch; and the
  batch was within the automatic limit or has been approved by an administrator.\<close>

theorem one_payload_per_batch:
  assumes "payout_reachable C s wire" and "(i, p) \<in> set wire" and "(i, q) \<in> set wire"
  shows "p = q \<and> (\<exists>b. find_batch i s = Some b \<and> payload_of C b = Inr p \<and>
    (pb_approvalThresholdHit b \<longrightarrow> pb_approvedById b \<noteq> None))"
proof -
  note inv = payout_reachable_inv [OF assms(1)]
  have uni: "unique_on pb_id (payoutBatches s)" using inv by (simp add: payout_inv_def batches_ok_def)
  from inv assms(2,3) obtain b c where b: "b \<in> set (payoutBatches s)" "pb_id b = i" "sent_as C p b"
    and c: "c \<in> set (payoutBatches s)" "pb_id c = i" "sent_as C q c" unfolding wire_ok_def by blast
  have "c = b" using uni b c by (auto simp: distinct_map inj_on_def)
  moreover have "find_batch i s = Some b" using find_Some_iff_unique [OF uni] b by (simp add: find_batch_def)
  moreover have "approval_ok b" using inv b(1) by (auto simp: list_all_iff)
  ultimately show ?thesis using b(3) c(3) by (auto simp: sent_as_def approval_ok_def)
qed

definition planned_payload :: string where
  "planned_payload = print_json (payload_json [''m1'', ''m2''] [''t1'', ''t2''])"

lemma planned_store_sent:
  "fst (snd (executeUnderLock example_services 6 (replicate 12 CHR ''i'') (\<lambda>_. False) ''4'' planned_store)) = [planned_payload]"
  by code_simp

theorem one_payload_per_batch_witness:
  "\<exists>t b. payout_reachable example_crypto t [(''4'', planned_payload)] \<and>
     find_batch ''4'' t = Some b \<and> payload_of example_crypto b = Inr planned_payload"
proof -
  obtain t r where e: "executeUnderLock example_services 6 (replicate 12 CHR ''i'') (\<lambda>_. False) ''4'' planned_store = (t, [planned_payload], r)"
    using planned_store_sent by (metis prod.collapse)
  have "sv_crypto example_services = example_crypto" by (simp add: example_services_def)
  from payout_reachable.step [OF planned_store_reachable payout_step.execute [OF this e]]
  have "payout_reachable example_crypto t [(''4'', planned_payload)]" by simp
  with one_payload_per_batch [OF this, of "''4''" planned_payload planned_payload] show ?thesis by auto
qed

text \<open>C4: The service refines its state machine.  Every operation moves every batch along the transitions of
  \<open>TRANSITIONS\<close>, possibly several, so that a confirmed batch stays confirmed; it keeps the planned items and
  amounts and the signed payload; and what it adds is a new batch without payload that waits for approval
  or was approved automatically.\<close>

theorem payout_state_machine:
  assumes "payout_reachable C s wire" and "payout_step C s sent t"
  shows "\<exists>old new. payoutBatches t = old @ new \<and> list_all2 evolves (payoutBatches s) old \<and> list_all new_batch new \<and>
    list_all2 (\<lambda>b c. pb_state b = PayoutState.CONFIRMED \<longrightarrow> pb_state c = PayoutState.CONFIRMED) (payoutBatches s) old"
proof -
  from payout_step_facts [OF assms(2)] payout_reachable_inv [OF assms(1)] obtain old new where
    o: "payoutBatches t = old @ new" "list_all2 evolves (payoutBatches s) old" "list_all new_batch new"
    unfolding grows_def by blast
  moreover have "list_all2 (\<lambda>b c. pb_state b = PayoutState.CONFIRMED \<longrightarrow> pb_state c = PayoutState.CONFIRMED) (payoutBatches s) old"
    using o(2) by (rule list_all2_mono) (auto simp: evolves_def legal_final)
  ultimately show ?thesis by blast
qed

theorem payout_state_machine_witness:
  "\<exists>old new. payoutBatches planned_store = old @ new \<and> list_all2 evolves (payoutBatches paid_store) old \<and>
     list_all new_batch new \<and> new \<noteq> []"
proof -
  have "0 \<le> pp_minimumAtomic (payoutPolicy (sv_env example_services) paid_store) XMR" by code_simp
  from payout_state_machine [OF paid_store_reachable payout_step.plan [OF this, where C = example_crypto and now = 5]]
  obtain old new where o: "payoutBatches planned_store = old @ new" "list_all2 evolves (payoutBatches paid_store) old" "list_all new_batch new"
    unfolding planned_store_def by blast
  moreover from o(2) have "old = []" by (simp add: paid_store_def empty_store_def)
  moreover have "payoutBatches planned_store \<noteq> []" using planned_store_rows by auto
  ultimately show ?thesis by auto
qed

end
