(* ===== verification/GatewayAuth.thy ===== *)
theory GatewayAuth
  imports Auth
begin

text \<open>
  Authentication of miners at the gateway (\<open>gateway/gateway-auth.service.ts\<close>): the parsing of user
  names, the check of an existing worker, the provisioning of an unknown one, and the lease that
  counts its connections.  Random values are arguments; the exception that denies a provisioning is the
  value \<open>None\<close>, after which the transaction is rolled back.
\<close>

section \<open>User names\<close>

definition parseUsername :: "environment \<Rightarrow> string \<Rightarrow> (string \<times> string) option" where
  "parseUsername env username =
     (case index_of CHR ''.'' username of
        Some (Suc n) \<Rightarrow> Some (toLowerCase (take (Suc n) username), drop (Suc (Suc n)) username)
      | _ \<Rightarrow>
          if \<not> gl_auto_provision_enabled (GATEWAY env) then None
          else (let trimmed = toLowerCase (trim username)
                in if trimmed = [] then None else Some (trimmed, ''default'')))"

text \<open>\<open>replace\<close> of every maximal run of characters with a property by a dash.\<close>

function dash_runs :: "(char \<Rightarrow> bool) \<Rightarrow> string \<Rightarrow> string" where
  "dash_runs P [] = []"
| "dash_runs P (c # cs) =
     (if P c then CHR ''-'' # dash_runs P (dropWhile P cs) else c # dash_runs P cs)"
  by pat_completeness auto

termination dash_runs
  by (relation "measure (length \<circ> snd)") (auto simp: le_imp_less_Suc length_dropWhile_le)

definition strip_end :: "(char \<Rightarrow> bool) \<Rightarrow> string \<Rightarrow> string" where
  "strip_end P cs = rev (dropWhile P (rev cs))"

definition is_dash :: "char \<Rightarrow> bool" where
  "is_dash c \<longleftrightarrow> c = CHR ''-''"

definition clean_customer_slug :: "string \<Rightarrow> string" where
  "clean_customer_slug raw =
     strip_end is_dash (take 48 (strip_end is_dash (dropWhile is_dash
       (dash_runs is_dash (dash_runs (\<lambda>c. \<not> (is_lower c \<or> is_digit c \<or> is_dash c)) (toLowerCase raw))))))"

definition sanitizeCustomerSlug :: "string \<Rightarrow> string \<Rightarrow> string" where
  "sanitizeCustomerSlug random raw =
     (let cleaned = clean_customer_slug raw in
      if length cleaned \<ge> 3 then cleaned
      else take 48 ((if cleaned = [] then ''rig'' else cleaned) @ ''-'' @ to_hex random))"

definition sanitizeWorkerSlug :: "string \<Rightarrow> string" where
  "sanitizeWorkerSlug raw =
     (let cleaned = take 64 (dropWhile (\<lambda>c. \<not> is_alnum c)
            (dash_runs (\<lambda>c. \<not> (is_alnum c \<or> c = CHR ''_'' \<or> is_dash c)) raw))
      in if cleaned = [] then ''default'' else cleaned)"

section \<open>Workers\<close>

definition valid_credential :: "instant \<Rightarrow> worker_credential \<Rightarrow> bool" where
  "valid_credential now c \<longleftrightarrow> wc_revokedAt c = None \<and> wc_activeFrom c \<le> now \<and>
     (case wc_expiresAt c of None \<Rightarrow> True | Some t \<Rightarrow> t > now)"

definition matching_worker :: "AssetCode \<Rightarrow> string \<Rightarrow> string \<Rightarrow> store \<Rightarrow> worker \<Rightarrow> bool" where
  "matching_worker asset customerSlug workerSlug s w \<longleftrightarrow>
     wk_asset w = asset \<and> wk_slug w = workerSlug \<and> wk_status w = EntityStatus.ACTIVE \<and>
     (case find_customer (wk_customerId w) s of
        None \<Rightarrow> False
      | Some c \<Rightarrow> cust_slug c = customerSlug \<and> cust_status c = EntityStatus.ACTIVE)"

definition findActiveWorker ::
  "instant \<Rightarrow> AssetCode \<Rightarrow> string \<Rightarrow> string \<Rightarrow> store \<Rightarrow> (worker \<times> customer \<times> worker_credential list) option" where
  "findActiveWorker now asset customerSlug workerSlug s =
     (case List.find (matching_worker asset customerSlug workerSlug s) (workers s) of
        None \<Rightarrow> None
      | Some w \<Rightarrow> Some (w, the (find_customer (wk_customerId w) s),
          newest_first wc_createdAt
            (filter (\<lambda>c. wc_workerId c = wk_id w \<and> valid_credential now c) (workerCredentials s))))"

record authorized_worker =
  aw_worker :: worker
  aw_customer :: customer
  aw_policy :: split_policy
  aw_connectionLeaseId :: string

definition connectionKey :: "uuid \<Rightarrow> string" where
  "connectionKey workerId = ''gateway:connections:'' @ workerId"

definition leaseMs :: int where
  "leaseMs = 180000"

definition current_policy :: "instant \<Rightarrow> uuid \<Rightarrow> AssetCode \<Rightarrow> store \<Rightarrow> split_policy option" where
  "current_policy now customerId asset s =
     (case newest_first sp_effectiveAt
        (filter (\<lambda>p. sp_customerId p = customerId \<and> sp_asset p = asset \<and> sp_effectiveAt p \<le> now) (splitPolicies s)) of
        [] \<Rightarrow> None | p # _ \<Rightarrow> Some p)"

definition finalize ::
  "instant \<Rightarrow> string \<Rightarrow> worker \<Rightarrow> customer \<Rightarrow> AssetCode \<Rightarrow> auth_state \<Rightarrow> auth_state \<times> authorized_worker option" where
  "finalize now bytes w c asset st =
     (case current_policy now (wk_customerId w) asset (fst st) of
        None \<Rightarrow> (st, None)
      | Some policy \<Rightarrow>
          (let lease = randomToken bytes;
               (r, acquired) = lease_acquire now (connectionKey (wk_id w)) leaseMs (wk_maxConnections w) lease (snd st)
           in ((fst st, r),
               if acquired then Some \<lparr>aw_worker = w, aw_customer = c, aw_policy = policy, aw_connectionLeaseId = lease\<rparr>
               else None)))"

definition renewConnection :: "instant \<Rightarrow> uuid \<Rightarrow> string \<Rightarrow> redis \<Rightarrow> redis \<times> bool" where
  "renewConnection now workerId leaseId r = lease_renew now (connectionKey workerId) leaseMs leaseId r"

definition connectionClosed :: "instant \<Rightarrow> uuid \<Rightarrow> string \<Rightarrow> redis \<Rightarrow> redis" where
  "connectionClosed now workerId leaseId r = lease_remove now (connectionKey workerId) leaseId r"

section \<open>Provisioning\<close>

definition autoProvisionRateOk :: "services \<Rightarrow> instant \<Rightarrow> string \<Rightarrow> redis \<Rightarrow> redis \<times> bool" where
  "autoProvisionRateOk V now remoteIp r =
     (let key = ''gateway:autoprovision:'' @ sha256 (sv_crypto V) remoteIp;
          (r1, attempts) = redis_incr now key r;
          r2 = (if attempts = 1 then redis_expire now key 3600000 r1 else r1)
      in (r2, attempts \<le> gl_auto_provision_max_per_ip_per_hour (GATEWAY (sv_env V))))"

definition provision_policy :: "instant \<Rightarrow> uuid \<Rightarrow> int \<Rightarrow> AssetCode \<Rightarrow> store \<Rightarrow> store" where
  "provision_policy now customerId customerBps asset s =
     (let (i, s1) = new_id s
      in s1\<lparr>splitPolicies := splitPolicies s1 @ [\<lparr>sp_id = i, sp_customerId = customerId, sp_asset = asset,
           sp_customerBps = customerBps, sp_operatorBps = 10000 - customerBps, sp_effectiveAt = now,
           sp_createdById = None\<rparr>]\<rparr>)"

definition provision_customer :: "instant \<Rightarrow> string \<Rightarrow> int \<Rightarrow> store \<Rightarrow> (store \<times> customer) result" where
  "provision_customer now slug customerBps s =
     (case List.find (\<lambda>c. cust_slug c = slug) (customers s) of
        Some c \<Rightarrow> Inr (s, c)
      | None \<Rightarrow>
          (let (i, s1) = new_id s;
               c = \<lparr>cust_id = i, cust_slug = slug, cust_displayName = slug, cust_status = EntityStatus.ACTIVE,
                    cust_notes = None, cust_createdAt = now\<rparr>;
               s2 = s1\<lparr>customers := customers s1 @ [c]\<rparr>;
               s3 = fold (provision_policy now i customerBps) [BTC, XMR] s2
           in ebind (create_liability c BTC s3) (\<lambda>(s4, _).
              ebind (create_liability c XMR s4) (\<lambda>(s5, _). Inr (s5, c)))))"

definition provision_worker ::
  "instant \<Rightarrow> AssetCode \<Rightarrow> string \<Rightarrow> int \<Rightarrow> string \<Rightarrow> string \<Rightarrow> customer \<Rightarrow> store \<Rightarrow> store \<times> worker" where
  "provision_worker now asset slug maxConnections tokenHash tokenPrefix c s =
     (let (i, s1) = new_id s;
          w = \<lparr>wk_id = i, wk_customerId = cust_id c, wk_slug = slug, wk_asset = asset,
               wk_status = EntityStatus.ACTIVE, wk_maxConnections = maxConnections, wk_allowedIps = [],
               wk_lastSeenAt = None\<rparr>;
          (k, s2) = new_id (s1\<lparr>workers := workers s1 @ [w]\<rparr>)
      in (s2\<lparr>workerCredentials := workerCredentials s2 @ [\<lparr>wc_id = k, wc_workerId = i, wc_tokenHash = tokenHash,
            wc_tokenPrefix = tokenPrefix, wc_activeFrom = now, wc_expiresAt = None, wc_revokedAt = None,
            wc_createdAt = now\<rparr>]\<rparr>, w))"

text \<open>The transaction; a denial rolls back and gives \<open>None\<close>.\<close>

definition provision_body ::
  "services \<Rightarrow> instant \<Rightarrow> AssetCode \<Rightarrow> string \<Rightarrow> string \<Rightarrow> string \<Rightarrow> string \<Rightarrow> store \<Rightarrow> (store \<times> (worker \<times> customer) option) result" where
  "provision_body V now asset customerSlug workerSlug tokenHash tokenPrefix s =
     ebind (provision_customer now customerSlug (gl_auto_provision_customer_bps (GATEWAY (sv_env V))) s) (\<lambda>(s1, c).
       if cust_status c \<noteq> EntityStatus.ACTIVE then Inr (s, None)
       else if (cust_id c, asset, workerSlug) \<in> (\<lambda>w. (wk_customerId w, wk_asset w, wk_slug w)) ` set (workers s1)
       then Inr (s, None)
       else (let (s2, w) = provision_worker now asset workerSlug
                   (gl_auto_provision_max_connections (GATEWAY (sv_env V))) tokenHash tokenPrefix c s1
             in Inr (s2, Some (w, c))))"

definition provision_audit :: "string \<Rightarrow> AssetCode \<Rightarrow> worker \<Rightarrow> customer \<Rightarrow> audit_input" where
  "provision_audit remoteIp asset w c =
     \<lparr>au_actorId = None, au_action = ''GATEWAY_AUTO_PROVISIONED'', au_entityType = ''Worker'',
      au_entityId = Some (wk_id w), au_ipAddress = Some remoteIp, au_before = None,
      au_after = Some (JObj [(''customerSlug'', JStr (cust_slug c)), (''workerSlug'', JStr (wk_slug w)),
        (''asset'', JStr (show_asset asset)), (''maxConnections'', JNum (show_int (wk_maxConnections w)))])\<rparr>"

text \<open>What one attempt draws: the bytes for a slug, for the lease, and the salt of the hash.\<close>

record gateway_random =
  gr_slug :: string
  gr_lease :: string
  gr_salt :: string

definition autoProvision ::
  "services \<Rightarrow> instant \<Rightarrow> gateway_random \<Rightarrow> AssetCode \<Rightarrow> string \<Rightarrow> string \<Rightarrow> string \<Rightarrow> string \<Rightarrow> auth_state
   \<Rightarrow> auth_state \<times> (worker \<times> customer) option result" where
  "autoProvision V now rnd asset customerSlugRaw workerSlugRaw password remoteIp st =
     (let (r, ok) = autoProvisionRateOk V now remoteIp (snd st) in
      if \<not> ok then ((fst st, r), Inr None)
      else
        (let customerSlug = sanitizeCustomerSlug (gr_slug rnd) customerSlugRaw;
             workerSlug = sanitizeWorkerSlug workerSlugRaw;
             tokenHash = hashSecret (sv_crypto V) (gr_salt rnd) password;
             tokenPrefix = (if password = [] then ''auto-claimed'' else take 10 password);
             (s1, result) = andThen (transaction (provision_body V now asset customerSlug workerSlug tokenHash tokenPrefix) (fst st))
               (\<lambda>found s1. case found of None \<Rightarrow> (s1, Inr None)
                  | Some (w, c) \<Rightarrow> andThen (audit V now (provision_audit remoteIp asset w c) s1) (\<lambda>_ s2. (s2, Inr (Some (w, c)))))
         in ((s1, r), case result of Inl (UniqueConstraint m) \<Rightarrow> Inr None | _ \<Rightarrow> result)))"

definition authenticate ::
  "services \<Rightarrow> instant \<Rightarrow> gateway_random \<Rightarrow> AssetCode \<Rightarrow> string \<Rightarrow> string \<Rightarrow> string \<Rightarrow> auth_state
   \<Rightarrow> auth_state \<times> authorized_worker option result" where
  "authenticate V now rnd asset username password remoteIp st =
     (case parseUsername (sv_env V) username of
        None \<Rightarrow> (st, Inr None)
      | Some (customerSlug, workerSlug) \<Rightarrow>
          (case findActiveWorker now asset customerSlug workerSlug (fst st) of
             Some (w, c, credentials) \<Rightarrow>
               if \<not> ipAllowed remoteIp (wk_allowedIps w) then (st, Inr None)
               else if \<not> list_ex (\<lambda>k. verifySecret (sv_crypto V) (wc_tokenHash k) password) credentials then (st, Inr None)
               else (let (st1, aw) = finalize now (gr_lease rnd) w c asset st in (st1, Inr aw))
           | None \<Rightarrow>
               if \<not> gl_auto_provision_enabled (GATEWAY (sv_env V)) then (st, Inr None)
               else
                 (case autoProvision V now rnd asset customerSlug workerSlug password remoteIp st of
                    (st1, Inl e) \<Rightarrow> (st1, Inl e)
                  | (st1, Inr None) \<Rightarrow> (st1, Inr None)
                  | (st1, Inr (Some (w, c))) \<Rightarrow>
                      (let (st2, aw) = finalize now (gr_lease rnd) w c asset st1 in (st2, Inr aw)))))"

section \<open>What an attempt does\<close>

lemma finalize_cases:
  assumes "finalize now bytes w c asset st = (st', Some aw)"
  shows "fst st' = fst st" and "aw_worker aw = w" and "aw_customer aw = c"
    and "current_policy now (wk_customerId w) asset (fst st) = Some (aw_policy aw)"
    and "int (length (live_set now (connectionKey (wk_id w)) (snd st'))) \<le> wk_maxConnections w"
proof -
  from assms obtain policy r where p: "current_policy now (wk_customerId w) asset (fst st) = Some policy"
    and l: "lease_acquire now (connectionKey (wk_id w)) leaseMs (wk_maxConnections w) (randomToken bytes) (snd st) = (r, True)"
    and st': "st' = (fst st, r)"
    and aw: "aw = \<lparr>aw_worker = w, aw_customer = c, aw_policy = policy, aw_connectionLeaseId = randomToken bytes\<rparr>"
    by (auto simp: finalize_def Let_def split: option.splits prod.splits if_splits)
  from lease_acquire_limit [OF l] show "int (length (live_set now (connectionKey (wk_id w)) (snd st'))) \<le> wk_maxConnections w"
    by (simp add: st' leaseMs_def)
  from p st' aw show "fst st' = fst st" "aw_worker aw = w" "aw_customer aw = c"
    "current_policy now (wk_customerId w) asset (fst st) = Some (aw_policy aw)" by simp_all
qed

lemma find_snoc: "List.find P (xs @ [x]) = (case List.find P xs of Some y \<Rightarrow> Some y | None \<Rightarrow> if P x then Some x else None)"
  by (induction xs) auto

lemma finalize_store [simp]: "fst (fst (finalize now bytes w c asset st)) = fst st"
  by (simp add: finalize_def Let_def split: option.splits prod.splits)

lemma create_liability_frame:
  "create_liability c asset s = Inr (t, u) \<Longrightarrow> customers t = customers s \<and> workers t = workers s \<and>
     workerCredentials t = workerCredentials s \<and> splitPolicies t = splitPolicies s \<and> uuids t = uuids s \<and> minted t = Suc (minted s)"
  by (auto simp: create_liability_def new_id_def split: if_splits)

lemma provision_policy_frame:
  "customers (provision_policy now i b asset s) = customers s" "workers (provision_policy now i b asset s) = workers s"
  "workerCredentials (provision_policy now i b asset s) = workerCredentials s"
  "uuids (provision_policy now i b asset s) = uuids s" "minted (provision_policy now i b asset s) = Suc (minted s)"
  by (simp_all add: provision_policy_def new_id_def)

lemma provision_customer_cases:
  assumes "provision_customer now slug bps s = Inr (t, c)"
  shows "workers t = workers s" and "workerCredentials t = workerCredentials s" and "uuids t = uuids s" and "minted s \<le> minted t"
    and "List.find (\<lambda>c. cust_slug c = slug) (customers t) = Some c"
    and "customers t = customers s \<or> customers t = customers s @ [c] \<and> cust_id c = uuids s (minted s) \<and> minted s < minted t"
proof -
  have "workers t = workers s \<and> workerCredentials t = workerCredentials s \<and> uuids t = uuids s \<and> minted s \<le> minted t \<and>
    List.find (\<lambda>c. cust_slug c = slug) (customers t) = Some c \<and>
    (customers t = customers s \<or> customers t = customers s @ [c] \<and> cust_id c = uuids s (minted s) \<and> minted s < minted t)"
  proof (cases "List.find (\<lambda>c. cust_slug c = slug) (customers s)")
    case (Some d)
    with assms show ?thesis by (auto simp: provision_customer_def)
  next
    case None
    let ?c = "\<lparr>cust_id = uuids s (minted s), cust_slug = slug, cust_displayName = slug, cust_status = EntityStatus.ACTIVE,
      cust_notes = None, cust_createdAt = now\<rparr>"
    let ?s3 = "fold (provision_policy now (uuids s (minted s)) bps) [BTC, XMR]
      (s\<lparr>minted := Suc (minted s), customers := customers s @ [?c]\<rparr>)"
    from assms None obtain s4 where s4: "create_liability ?c BTC ?s3 = Inr (s4, ())" "create_liability ?c XMR s4 = Inr (t, ())" and c: "c = ?c"
      by (auto simp: provision_customer_def Let_def new_id_def ebind_eq_Inr)
    have "List.find (\<lambda>c. cust_slug c = slug) (customers s @ [?c]) = Some ?c"
      using None by (simp add: find_snoc)
    with create_liability_frame [OF s4(1)] create_liability_frame [OF s4(2)] c show ?thesis
      by (simp add: provision_policy_frame)
  qed
  then show "workers t = workers s" "workerCredentials t = workerCredentials s" "uuids t = uuids s" "minted s \<le> minted t"
    "List.find (\<lambda>c. cust_slug c = slug) (customers t) = Some c"
    "customers t = customers s \<or> customers t = customers s @ [c] \<and> cust_id c = uuids s (minted s) \<and> minted s < minted t"
    by simp_all
qed

text \<open>A provisioning that succeeds leaves the worker under the cleaned names, with one new credential.\<close>

lemma provision_body_Some:
  assumes "provision_body V now asset cslug wslug hash tokenPrefix s = Inr (t, Some (w, c))"
  obtains s1 where "provision_customer now cslug (gl_auto_provision_customer_bps (GATEWAY (sv_env V))) s = Inr (s1, c)"
    "cust_status c = EntityStatus.ACTIVE"
    "(cust_id c, asset, wslug) \<notin> (\<lambda>w. (wk_customerId w, wk_asset w, wk_slug w)) ` set (workers s1)"
    "(t, w) = provision_worker now asset wslug (gl_auto_provision_max_connections (GATEWAY (sv_env V))) hash tokenPrefix c s1"
proof -
  from assms obtain s1 where 1: "provision_customer now cslug (gl_auto_provision_customer_bps (GATEWAY (sv_env V))) s = Inr (s1, c)"
    "cust_status c = EntityStatus.ACTIVE"
    "(cust_id c, asset, wslug) \<notin> (\<lambda>w. (wk_customerId w, wk_asset w, wk_slug w)) ` set (workers s1)"
    "(t, w) = provision_worker now asset wslug (gl_auto_provision_max_connections (GATEWAY (sv_env V))) hash tokenPrefix c s1"
    by (auto simp: provision_body_def ebind_eq_Inr Let_def split: if_splits prod.splits)
  then show thesis by (rule that)
qed

definition claimed_worker :: "AssetCode \<Rightarrow> string \<Rightarrow> int \<Rightarrow> customer \<Rightarrow> uuid \<Rightarrow> worker" where
  "claimed_worker asset slug maxConnections c i =
     \<lparr>wk_id = i, wk_customerId = cust_id c, wk_slug = slug, wk_asset = asset, wk_status = EntityStatus.ACTIVE,
      wk_maxConnections = maxConnections, wk_allowedIps = [], wk_lastSeenAt = None\<rparr>"

definition claimed_credential :: "instant \<Rightarrow> string \<Rightarrow> string \<Rightarrow> uuid \<Rightarrow> uuid \<Rightarrow> worker_credential" where
  "claimed_credential now hash tokenPrefix i k =
     \<lparr>wc_id = k, wc_workerId = i, wc_tokenHash = hash, wc_tokenPrefix = tokenPrefix, wc_activeFrom = now,
      wc_expiresAt = None, wc_revokedAt = None, wc_createdAt = now\<rparr>"

lemma provision_worker_eq:
  "provision_worker now asset slug n hash tokenPrefix c s =
     (s\<lparr>minted := Suc (Suc (minted s)), workers := workers s @ [claimed_worker asset slug n c (uuids s (minted s))],
        workerCredentials := workerCredentials s @
          [claimed_credential now hash tokenPrefix (uuids s (minted s)) (uuids s (Suc (minted s)))]\<rparr>,
      claimed_worker asset slug n c (uuids s (minted s)))"
  by (simp add: provision_worker_def new_id_def claimed_worker_def claimed_credential_def Let_def)

lemma audit_tables:
  assumes "audit V now input s = (t, r)"
  shows "customers t = customers s" "workers t = workers s" "workerCredentials t = workerCredentials s"
    "splitPolicies t = splitPolicies s"
  using logged_only_tables [OF record_event_frame [OF assms [unfolded audit_def]]] by simp_all

text \<open>The names under which a claim is stored and the hash it is stored with.\<close>

lemma autoProvision_Some:
  assumes "autoProvision V now rnd asset craw wraw password ip st = (st', Inr (Some (w, c)))"
  obtains s1 n where "snd (autoProvisionRateOk V now ip (snd st))"
    "provision_customer now (sanitizeCustomerSlug (gr_slug rnd) craw) (gl_auto_provision_customer_bps (GATEWAY (sv_env V))) (fst st) = Inr (s1, c)"
    "cust_status c = EntityStatus.ACTIVE" "customers (fst st') = customers s1"
    "n = gl_auto_provision_max_connections (GATEWAY (sv_env V))"
    "w = claimed_worker asset (sanitizeWorkerSlug wraw) n c (uuids s1 (minted s1))"
    "workers (fst st') = workers s1 @ [w]"
    "workerCredentials (fst st') = workerCredentials s1 @ [claimed_credential now (hashSecret (sv_crypto V) (gr_salt rnd) password)
       (if password = [] then ''auto-claimed'' else take 10 password) (wk_id w) (uuids s1 (Suc (minted s1)))]"
    "(cust_id c, asset, sanitizeWorkerSlug wraw) \<notin> (\<lambda>w. (wk_customerId w, wk_asset w, wk_slug w)) ` set (workers s1)"
proof -
  let ?cs = "sanitizeCustomerSlug (gr_slug rnd) craw" and ?ws = "sanitizeWorkerSlug wraw"
  let ?h = "hashSecret (sv_crypto V) (gr_salt rnd) password" and ?p = "if password = [] then ''auto-claimed'' else take 10 password"
  let ?tr = "transaction (provision_body V now asset ?cs ?ws ?h ?p) (fst st)"
  let ?after = "\<lambda>found s1. case found of None \<Rightarrow> (s1, Inr None)
                  | Some (w, c) \<Rightarrow> andThen (audit V now (provision_audit ip asset w c) s1) (\<lambda>_ s2. (s2, Inr (Some (w, c))))"
  obtain r ok where ro: "autoProvisionRateOk V now ip (snd st) = (r, ok)" by fastforce
  obtain s2 res where sr: "andThen ?tr ?after = (s2, res)" by fastforce
  from assms ro sr have ok: "ok" and st': "st' = (s2, r)" and res: "res = Inr (Some (w, c))"
    by (auto simp: autoProvision_def Let_def split: if_splits sum.splits error.splits)
  from sr res obtain t found where t: "?tr = (t, Inr found)" "?after found t = (s2, Inr (Some (w, c)))"
    by (auto simp: andThen_eq_Inr)
  from t(2) obtain u where f: "found = Some (w, c)" "audit V now (provision_audit ip asset w c) t = (s2, Inr u)"
    by (auto simp: andThen_eq_Inr split: option.splits prod.splits)
  from t(1) f(1) have "provision_body V now asset ?cs ?ws ?h ?p (fst st) = Inr (t, Some (w, c))"
    by (auto simp: transaction_def split: sum.splits prod.splits)
  then obtain s1 where s1: "provision_customer now ?cs (gl_auto_provision_customer_bps (GATEWAY (sv_env V))) (fst st) = Inr (s1, c)"
    "cust_status c = EntityStatus.ACTIVE"
    "(cust_id c, asset, ?ws) \<notin> (\<lambda>w. (wk_customerId w, wk_asset w, wk_slug w)) ` set (workers s1)"
    "(t, w) = provision_worker now asset ?ws (gl_auto_provision_max_connections (GATEWAY (sv_env V))) ?h ?p c s1"
    by (rule provision_body_Some)
  note tw = s1(4) [unfolded provision_worker_eq, simplified]
  note tab = audit_tables [OF f(2)]
  show thesis
    by (rule that [OF _ s1(1,2) _ refl _ _ _ s1(3)]) (use ro ok tw tab st' in \<open>simp_all add: claimed_worker_def\<close>)
qed

section \<open>Claimed identities\<close>

text \<open>What the schema's keys give: identifiers are fresh, and a worker has a customer and a credential a worker.\<close>

definition gateway_ok :: "store \<Rightarrow> bool" where
  "gateway_ok s \<longleftrightarrow> inj (uuids s) \<and> unique_on cust_id (customers s) \<and> cust_id ` set (customers s) \<subseteq> minted_ids s \<and>
     wk_customerId ` set (workers s) \<subseteq> cust_id ` set (customers s) \<and>
     wk_id ` set (workers s) \<subseteq> minted_ids s \<and> wc_workerId ` set (workerCredentials s) \<subseteq> wk_id ` set (workers s)"

lemma find_unique: "unique_on key xs \<Longrightarrow> x \<in> set xs \<Longrightarrow> List.find (\<lambda>y. key y = key x) xs = Some x"
  by (induction xs) auto

lemma find_append_old: "x \<in> set xs \<Longrightarrow> P x \<Longrightarrow> List.find P (xs @ ys) = List.find P xs"
  by (induction xs) auto

lemma minted_mono: "minted s \<le> n \<Longrightarrow> inj (uuids s) \<Longrightarrow> uuids s n \<notin> minted_ids s"
  by (auto simp: minted_ids_def inj_eq)

lemma provision_customer_ids:
  assumes "provision_customer now slug bps s = Inr (t, c)" and "gateway_ok s"
  shows "find_customer (cust_id c) t = Some c"
    and "i \<in> cust_id ` set (customers s) \<Longrightarrow> find_customer i t = find_customer i s"
proof -
  note p = provision_customer_cases [OF assms(1)]
  have u: "unique_on cust_id (customers t)"
    using p(6) assms(2) new_id_fresh [of s] by (auto simp: gateway_ok_def)
  from find_SomeD [OF p(5)] have "c \<in> set (customers t)" by simp
  from find_unique [OF u this] show "find_customer (cust_id c) t = Some c" by (simp add: find_customer_def)
  show "find_customer i t = find_customer i s" if i: "i \<in> cust_id ` set (customers s)"
  proof -
    from i obtain d where "d \<in> set (customers s)" "cust_id d = i" by auto
    with p(6) show ?thesis by (auto simp: find_customer_def find_append_old)
  qed
qed

text \<open>
  After a claim the workers of before match what they matched, and the new one exactly the cleaned names,
  with the credential of the claim.
\<close>

lemma autoProvision_claim:
  assumes a: "autoProvision V now rnd asset craw wraw password ip st = (st', Inr (Some (w, c)))"
    and ok: "gateway_ok (fst st)"
    and none: "findActiveWorker now asset cs ws (fst st) = None" and later: "now \<le> now'"
  shows "\<exists>k. findActiveWorker now' asset cs ws (fst st') =
      (if cs = sanitizeCustomerSlug (gr_slug rnd) craw \<and> ws = sanitizeWorkerSlug wraw
       then Some (w, c, [k]) else None) \<and>
      wc_tokenHash k = hashSecret (sv_crypto V) (gr_salt rnd) password"
    and "wk_allowedIps w = []" and "wk_asset w = asset" and "w \<notin> set (workers (fst st))" and "w \<in> set (workers (fst st'))"
proof -
  from a obtain s1 n where
    1: "provision_customer now (sanitizeCustomerSlug (gr_slug rnd) craw) (gl_auto_provision_customer_bps (GATEWAY (sv_env V))) (fst st) = Inr (s1, c)"
    and act: "cust_status c = EntityStatus.ACTIVE" and cs: "customers (fst st') = customers s1"
    and w: "w = claimed_worker asset (sanitizeWorkerSlug wraw) n c (uuids s1 (minted s1))"
    and ww: "workers (fst st') = workers s1 @ [w]"
    and wc: "workerCredentials (fst st') = workerCredentials s1 @ [claimed_credential now (hashSecret (sv_crypto V) (gr_salt rnd) password)
       (if password = [] then ''auto-claimed'' else take 10 password) (wk_id w) (uuids s1 (Suc (minted s1)))]"
    and new: "(cust_id c, asset, sanitizeWorkerSlug wraw) \<notin> (\<lambda>w. (wk_customerId w, wk_asset w, wk_slug w)) ` set (workers s1)"
    by (rule autoProvision_Some)
  let ?k = "claimed_credential now (hashSecret (sv_crypto V) (gr_salt rnd) password)
       (if password = [] then ''auto-claimed'' else take 10 password) (wk_id w) (uuids s1 (Suc (minted s1)))"
  note p = provision_customer_cases [OF 1]
  note ids = provision_customer_ids [OF 1 ok]
  have fc: "find_customer i (fst st') = find_customer i s1" for i by (simp add: find_customer_def cs)
  have slug: "cust_slug c = sanitizeCustomerSlug (gr_slug rnd) craw" using find_SomeD [OF p(5)] by simp
  have old: "\<not> matching_worker asset cs ws (fst st') v" if v: "v \<in> set (workers (fst st))" for v
  proof -
    from ok v have "wk_customerId v \<in> cust_id ` set (customers (fst st))" by (auto simp: gateway_ok_def)
    moreover from none v have "\<not> matching_worker asset cs ws (fst st) v"
      by (auto simp: findActiveWorker_def find_None_iff split: option.splits)
    ultimately show ?thesis by (simp add: matching_worker_def fc ids(2))
  qed
  have m: "matching_worker asset cs ws (fst st') w \<longleftrightarrow>
      cs = sanitizeCustomerSlug (gr_slug rnd) craw \<and> ws = sanitizeWorkerSlug wraw"
    using ids(1) act slug by (auto simp: matching_worker_def fc w claimed_worker_def)
  have fresh: "wk_id w \<notin> wk_id ` set (workers (fst st))"
    using ok minted_mono [OF p(4)] by (auto simp: w claimed_worker_def p(3) gateway_ok_def)
  then have f0: "filter (\<lambda>k. wc_workerId k = wk_id w \<and> valid_credential now' k) (workerCredentials (fst st)) = []"
    using ok unfolding gateway_ok_def filter_empty_conv by (metis image_eqI subsetD)
  have fk: "filter (\<lambda>k. wc_workerId k = wk_id w \<and> valid_credential now' k) (workerCredentials (fst st')) = [?k]"
    using f0 later by (simp add: wc p(2) claimed_credential_def valid_credential_def)
  have "List.find (matching_worker asset cs ws (fst st')) (workers (fst st)) = None"
    using old by (simp add: find_None_iff)
  then have "findActiveWorker now' asset cs ws (fst st') =
      (if cs = sanitizeCustomerSlug (gr_slug rnd) craw \<and> ws = sanitizeWorkerSlug wraw
       then Some (w, c, [?k]) else None)"
    using ids(1) by (simp add: findActiveWorker_def ww p(1) find_snoc m fk newest_first_def)
      (simp add: fc w claimed_worker_def)
  then show "\<exists>k. findActiveWorker now' asset cs ws (fst st') =
      (if cs = sanitizeCustomerSlug (gr_slug rnd) craw \<and> ws = sanitizeWorkerSlug wraw
       then Some (w, c, [k]) else None) \<and>
      wc_tokenHash k = hashSecret (sv_crypto V) (gr_salt rnd) password"
    by (intro exI [of _ ?k]) (simp add: claimed_credential_def)
  show "wk_allowedIps w = []" "wk_asset w = asset" by (simp_all add: w claimed_worker_def)
  show "w \<notin> set (workers (fst st))" using fresh by auto
  show "w \<in> set (workers (fst st'))" by (simp add: ww)
qed

lemma authenticate_provisioned:
  assumes "authenticate V now rnd asset username password ip st = (st', Inr (Some aw))"
    and "parseUsername (sv_env V) username = Some (cs, ws)" and "findActiveWorker now asset cs ws (fst st) = None"
  obtains st1 where "gl_auto_provision_enabled (GATEWAY (sv_env V))"
    "autoProvision V now rnd asset cs ws password ip st = (st1, Inr (Some (aw_worker aw, aw_customer aw)))"
    "finalize now (gr_lease rnd) (aw_worker aw) (aw_customer aw) asset st1 = (st', Some aw)" "fst st' = fst st1"
proof -
  from assms obtain st1 w c where e: "gl_auto_provision_enabled (GATEWAY (sv_env V))"
    and p: "autoProvision V now rnd asset cs ws password ip st = (st1, Inr (Some (w, c)))"
    and f: "finalize now (gr_lease rnd) w c asset st1 = (st', Some aw)"
    by (auto simp: authenticate_def split: if_splits prod.splits sum.splits option.splits)
  from finalize_cases(1-3) [OF f] show thesis
    by (intro that [OF e]) (use p f in simp_all)
qed

section \<open>Main properties\<close>

text \<open>C31: Who a miner may connect as.  An accepted connection is either for an active worker of an active
  customer, from an allowed address and with a password that verifies against a credential in force,
  and then nothing is written; or it claims an identity nobody holds, with provisioning enabled and
  within its rate limit, and the worker is new.  In both cases the split policy handed out is the one
  in force, and no more leases are live than the worker may have connections.\<close>

theorem authenticate_sound:
  assumes "authenticate V now rnd asset username password ip st = (st', Inr (Some aw))" and "gateway_ok (fst st)"
  shows "(\<exists>cs ws. parseUsername (sv_env V) username = Some (cs, ws) \<and>
      ((\<exists>ks. findActiveWorker now asset cs ws (fst st) = Some (aw_worker aw, aw_customer aw, ks) \<and>
          ipAllowed ip (wk_allowedIps (aw_worker aw)) \<and>
          (\<exists>k \<in> set ks. verifySecret (sv_crypto V) (wc_tokenHash k) password) \<and> fst st' = fst st) \<or>
       (findActiveWorker now asset cs ws (fst st) = None \<and> gl_auto_provision_enabled (GATEWAY (sv_env V)) \<and>
          snd (autoProvisionRateOk V now ip (snd st)) \<and>
          aw_worker aw \<in> set (workers (fst st')) - set (workers (fst st))))) \<and>
    current_policy now (wk_customerId (aw_worker aw)) asset (fst st') = Some (aw_policy aw) \<and>
    int (length (live_set now (connectionKey (wk_id (aw_worker aw))) (snd st'))) \<le> wk_maxConnections (aw_worker aw)"
proof -
  from assms(1) obtain cs ws where pu: "parseUsername (sv_env V) username = Some (cs, ws)"
    by (auto simp: authenticate_def split: option.splits)
  show ?thesis
  proof (cases "findActiveWorker now asset cs ws (fst st)")
    case None
    from authenticate_provisioned [OF assms(1) pu None] obtain st1
      where e: "gl_auto_provision_enabled (GATEWAY (sv_env V))"
        and a: "autoProvision V now rnd asset cs ws password ip st = (st1, Inr (Some (aw_worker aw, aw_customer aw)))"
        and f: "finalize now (gr_lease rnd) (aw_worker aw) (aw_customer aw) asset st1 = (st', Some aw)" and s: "fst st' = fst st1" .
    have "snd (autoProvisionRateOk V now ip (snd st))" using a by (rule autoProvision_Some)
    with autoProvision_claim(4,5) [OF a assms(2) None order_refl] finalize_cases(4,5) [OF f] e s pu None
    show ?thesis by auto
  next
    case (Some found)
    with assms(1) pu obtain w c ks where "found = (w, c, ks)" and i: "ipAllowed ip (wk_allowedIps w)"
      and v: "list_ex (\<lambda>k. verifySecret (sv_crypto V) (wc_tokenHash k) password) ks"
      and f: "finalize now (gr_lease rnd) w c asset st = (st', Some aw)"
      by (cases found) (auto simp: authenticate_def split: if_splits prod.splits)
    with Some pu finalize_cases [OF f] show ?thesis by (auto simp: list_ex_iff)
  qed
qed

text \<open>C32: A claim protects its identity.  When a name that is already in its cleaned form is claimed with a
  password, then from that moment, as long as the records stay, the name connects from everywhere with
  that password, up to the worker's connections, and every other password is refused without a
  write.  The hypothesis on the library is that a hash verifies exactly the secret it was made from.\<close>

theorem claim_protects_identity:
  assumes "authenticate V now rnd asset username password ip st = (st', Inr (Some aw))" and "gateway_ok (fst st)"
    and "parseUsername (sv_env V) username = Some (cs, ws)" and "findActiveWorker now asset cs ws (fst st) = None"
    and "sanitizeCustomerSlug (gr_slug rnd) cs = cs" and "sanitizeWorkerSlug ws = ws"
    and argon: "\<And>q. cl_argon_verify (cr_lib (sv_crypto V)) (cl_argon_hash (cr_lib (sv_crypto V)) (gr_salt rnd) password) q = Inr (password = q)"
    and "now \<le> now'"
  shows "authenticate V now' rnd' asset username other ip' (fst st', r) =
    (if other = password
     then (let (st2, again) = finalize now' (gr_lease rnd') (aw_worker aw) (aw_customer aw) asset (fst st', r) in (st2, Inr again))
     else ((fst st', r), Inr None))"
proof -
  from authenticate_provisioned [OF assms(1,3,4)] obtain st1
    where a: "autoProvision V now rnd asset cs ws password ip st = (st1, Inr (Some (aw_worker aw, aw_customer aw)))"
      and s: "fst st' = fst st1" .
  from autoProvision_claim(1,2) [OF a assms(2,4,8)] assms(5,6) s obtain k
    where "findActiveWorker now' asset cs ws (fst st') = Some (aw_worker aw, aw_customer aw, [k])"
      and "wc_tokenHash k = hashSecret (sv_crypto V) (gr_salt rnd) password" and "wk_allowedIps (aw_worker aw) = []" by auto
  then show ?thesis
    by (auto simp: authenticate_def assms(3) ipAllowed_def verifySecret_def hashSecret_def argon Let_def split: prod.splits)
qed

text \<open>A name that the cleaning changes is lost after its first connection.  The claim is stored under
  the cleaned name while the lookup uses the name as sent, so after a successful first
  connection every later one with the same name is refused, also with the password that claimed it.
  (\<open>gateway-auth.service.ts\<close>, lines 47 and 158.)\<close>

theorem uncleaned_name_locked_out:
  assumes "authenticate V now rnd asset username password ip st = (st', Inr (Some aw))" and "gateway_ok (fst st)"
    and "parseUsername (sv_env V) username = Some (cs, ws)" and "findActiveWorker now asset cs ws (fst st) = None"
    and "(clean_customer_slug cs, sanitizeWorkerSlug ws) \<noteq> (cs, ws)" and "3 \<le> length (clean_customer_slug cs)"
    and "now \<le> now'"
  shows "snd (authenticate V now' rnd' asset username any_password ip' (fst st', r)) = Inr None"
proof -
  have clean: "sanitizeCustomerSlug b cs = clean_customer_slug cs" for b
    using assms(6) by (simp add: sanitizeCustomerSlug_def)
  from authenticate_provisioned [OF assms(1,3,4)] obtain st1
    where e: "gl_auto_provision_enabled (GATEWAY (sv_env V))"
      and a: "autoProvision V now rnd asset cs ws password ip st = (st1, Inr (Some (aw_worker aw, aw_customer aw)))"
      and s: "fst st' = fst st1" .
  from autoProvision_claim(1) [OF a assms(2,4,7)] assms(5) s
  have none: "findActiveWorker now' asset cs ws (fst st') = None" by (auto simp: clean)
  from a obtain s1 n where 0: "provision_customer now (sanitizeCustomerSlug (gr_slug rnd) cs) (gl_auto_provision_customer_bps (GATEWAY (sv_env V))) (fst st) = Inr (s1, aw_customer aw)"
    and act: "cust_status (aw_customer aw) = EntityStatus.ACTIVE" and cc: "customers (fst st1) = customers s1"
    and w: "aw_worker aw = claimed_worker asset (sanitizeWorkerSlug ws) n (aw_customer aw) (uuids s1 (minted s1))"
    and ww: "workers (fst st1) = workers s1 @ [aw_worker aw]"
    by (rule autoProvision_Some)
  note 1 = 0 [unfolded clean]
  have again: "provision_customer t (clean_customer_slug cs) b (fst st') = Inr (fst st', aw_customer aw)" for t b
    using provision_customer_cases(5) [OF 1] by (simp add: provision_customer_def s cc)
  have body: "provision_body V now' asset (clean_customer_slug cs) (sanitizeWorkerSlug ws) h p (fst st') = Inr (fst st', None)" for h p
    using act by (simp add: provision_body_def s again [unfolded s] ww) (simp add: w claimed_worker_def)
  have "snd (autoProvision V now' rnd' asset cs ws any_password ip' (fst st', r)) = Inr None"
    by (simp add: autoProvision_def Let_def clean transaction_def body split: prod.splits)
  then show ?thesis
    by (cases "autoProvision V now' rnd' asset cs ws any_password ip' (fst st', r)")
      (simp add: authenticate_def assms(3) none e)
qed

subsection \<open>Witnesses\<close>

definition open_services :: services where
  "open_services = example_services\<lparr>sv_env := example_env\<lparr>GATEWAY := (GATEWAY example_env)\<lparr>gl_auto_provision_enabled := True\<rparr>\<rparr>\<rparr>"

definition draws :: gateway_random where
  "draws = \<lparr>gr_slug = ''abcd'', gr_lease = ''lease'', gr_salt = ''salt''\<rparr>"

lemma authenticate_claims:
  assumes "parseUsername (sv_env V) username = Some (cs, ws)" and "findActiveWorker now asset cs ws (fst st) = None"
    and "gl_auto_provision_enabled (GATEWAY (sv_env V))" and "autoProvisionRateOk V now ip (snd st) = (r, True)"
    and body: "\<And>h p. \<exists>t. provision_body V now asset (sanitizeCustomerSlug (gr_slug rnd) cs) (sanitizeWorkerSlug ws) h p (fst st) = Inr (t, Some (w, c)) \<and>
      (\<exists>policy. current_policy now (wk_customerId w) asset t = Some policy)"
    and "rd_set r = Map.empty" and "0 < wk_maxConnections w"
  shows "\<exists>st' aw. authenticate V now rnd asset username password ip st = (st', Inr (Some aw))"
proof -
  let ?h = "hashSecret (sv_crypto V) (gr_salt rnd) password" and ?p = "if password = [] then ''auto-claimed'' else take 10 password"
  from body [of ?h ?p] obtain t policy where t: "provision_body V now asset (sanitizeCustomerSlug (gr_slug rnd) cs) (sanitizeWorkerSlug ws) ?h ?p (fst st) = Inr (t, Some (w, c))"
    "current_policy now (wk_customerId w) asset t = Some policy" by blast
  have "audit_value (provision_audit ip asset w c)" by (simp add: audit_value_def provision_audit_def)
  then obtain u where u: "record_event (sv_crypto V) (sv_loc V) now (provision_audit ip asset w c) t = (u, Inr ())"
    by (rule record_event_total)
  with audit_tables(4) [of V now "provision_audit ip asset w c" t] have "splitPolicies u = splitPolicies t" by (simp add: audit_def)
  with t(2) have "current_policy now (wk_customerId w) asset u = Some policy" by (simp add: current_policy_def)
  moreover have "autoProvision V now rnd asset cs ws password ip st = ((u, r), Inr (Some (w, c)))"
    using assms(4) t(1) u by (simp add: autoProvision_def Let_def transaction_def audit_def)
  moreover from assms(6,7) obtain r' where "lease_acquire now (connectionKey (wk_id w)) leaseMs (wk_maxConnections w) (randomToken (gr_lease rnd)) r = (r', True)"
    by (auto simp: lease_acquire_def live_set_def alive_def Let_def)
  ultimately show ?thesis using assms(1-3) by (simp add: authenticate_def finalize_def Let_def)
qed

lemma open_limits [simp]:
  "gl_auto_provision_enabled (GATEWAY (sv_env open_services))"
  "gl_auto_provision_customer_bps (GATEWAY (sv_env open_services)) = 8000"
  "gl_auto_provision_max_connections (GATEWAY (sv_env open_services)) = 4"
  "gl_auto_provision_max_per_ip_per_hour (GATEWAY (sv_env open_services)) = 20"
  "sv_crypto open_services = example_crypto"
  by (simp_all add: open_services_def example_services_def example_env_def)

lemma open_claims:
  assumes "parseUsername (sv_env open_services) username = Some (cs, ws)" and "3 \<le> length (clean_customer_slug cs)"
  shows "\<exists>st' aw. authenticate open_services 100 draws BTC username ''pw'' ''10.0.0.1'' (empty_store show_nat, empty_redis) = (st', Inr (Some aw))"
proof (rule authenticate_claims [OF assms(1)])
  let ?c = "\<lparr>cust_id = show_nat 0, cust_slug = clean_customer_slug cs, cust_displayName = clean_customer_slug cs,
    cust_status = EntityStatus.ACTIVE, cust_notes = None, cust_createdAt = 100\<rparr>"
  let ?w = "claimed_worker BTC (sanitizeWorkerSlug ws) 4 ?c (show_nat 5)"
  show "\<exists>t. provision_body open_services 100 BTC (sanitizeCustomerSlug (gr_slug draws) cs) (sanitizeWorkerSlug ws) h p
      (fst (empty_store show_nat, empty_redis)) = Inr (t, Some (?w, ?c)) \<and>
      (\<exists>policy. current_policy 100 (wk_customerId ?w) BTC t = Some policy)" for h p
    using assms(2)
    by (simp add: sanitizeCustomerSlug_def provision_body_def provision_customer_def provision_policy_def new_id_def
        create_liability_def find_account_def provision_worker_def claimed_worker_def empty_store_def current_policy_def newest_first_def Let_def)
qed (simp_all add: findActiveWorker_def empty_store_def Let_def
    autoProvisionRateOk_def redis_incr_def redis_expire_def empty_redis_def alive_def claimed_worker_def, simp)

lemma gateway_ok_empty: "gateway_ok (empty_store show_nat)"
  by (simp add: gateway_ok_def empty_store_def inj_show_nat)

lemma findActiveWorker_empty: "findActiveWorker now asset cs ws (empty_store show_nat) = None"
  by (simp add: findActiveWorker_def empty_store_def)

lemma open_parse:
  "parseUsername (sv_env open_services) ''alice.rig1'' = Some (''alice'', ''rig1'')"
  "parseUsername (sv_env open_services) ''My Rig.w1'' = Some (''my rig'', ''w1'')"
  by (code_simp)+

lemma open_clean:
  "clean_customer_slug ''alice'' = ''alice''" "sanitizeWorkerSlug ''rig1'' = ''rig1''"
  "clean_customer_slug ''my rig'' = ''my-rig''"
  by (code_simp)+

lemma open_argon:
  "cl_argon_verify (cr_lib example_crypto) (cl_argon_hash (cr_lib example_crypto) (gr_salt draws) p) q = Inr (p = q)"
  by (auto simp: draws_def example_crypto_def crypto_init_def example_crypto_lib_def)

theorem authenticate_sound_witness:
  "\<exists>st' aw. authenticate open_services 100 draws BTC ''alice.rig1'' ''pw'' ''10.0.0.1'' (empty_store show_nat, empty_redis) = (st', Inr (Some aw)) \<and>
    current_policy 100 (wk_customerId (aw_worker aw)) BTC (fst st') = Some (aw_policy aw)"
proof -
  obtain st' aw where a: "authenticate open_services 100 draws BTC ''alice.rig1'' ''pw'' ''10.0.0.1'' (empty_store show_nat, empty_redis) = (st', Inr (Some aw))"
    using open_claims [OF open_parse(1)] by (auto simp: open_clean)
  with authenticate_sound [OF a] show ?thesis by (auto simp: gateway_ok_empty)
qed

theorem claim_protects_identity_witness:
  "\<exists>st' aw. authenticate open_services 100 draws BTC ''alice.rig1'' ''pw'' ''10.0.0.1'' (empty_store show_nat, empty_redis) = (st', Inr (Some aw)) \<and>
    authenticate open_services 200 draws BTC ''alice.rig1'' ''other'' ''10.0.0.2'' (fst st', empty_redis) = ((fst st', empty_redis), Inr None)"
proof -
  obtain st' aw where a: "authenticate open_services 100 draws BTC ''alice.rig1'' ''pw'' ''10.0.0.1'' (empty_store show_nat, empty_redis) = (st', Inr (Some aw))"
    using open_claims [OF open_parse(1)] by (auto simp: open_clean)
  from claim_protects_identity [OF a _ open_parse(1), where rnd' = draws and other = "''other''" and now' = 200 and ip' = "''10.0.0.2''" and r = empty_redis] a
  show ?thesis by (auto simp: gateway_ok_empty findActiveWorker_empty sanitizeCustomerSlug_def open_clean open_argon)
qed

theorem uncleaned_name_locked_out_witness:
  "\<exists>st' aw. authenticate open_services 100 draws BTC ''My Rig.w1'' ''pw'' ''10.0.0.1'' (empty_store show_nat, empty_redis) = (st', Inr (Some aw)) \<and>
    snd (authenticate open_services 200 draws BTC ''My Rig.w1'' ''pw'' ''10.0.0.1'' (fst st', empty_redis)) = Inr None"
proof -
  obtain st' aw where a: "authenticate open_services 100 draws BTC ''My Rig.w1'' ''pw'' ''10.0.0.1'' (empty_store show_nat, empty_redis) = (st', Inr (Some aw))"
    using open_claims [OF open_parse(2)] by (auto simp: open_clean)
  from uncleaned_name_locked_out [OF a _ open_parse(2), where rnd' = draws and any_password = "''pw''" and now' = 200 and ip' = "''10.0.0.1''" and r = empty_redis] a
  show ?thesis by (auto simp: gateway_ok_empty findActiveWorker_empty open_clean)
qed

end
