(* ===== verification/Admission.thy ===== *)
theory Admission
  imports Environment IpRules
begin

text \<open>
  Admission of connections (\<open>gateway/gateway.service.ts\<close>): which listeners are started, and the counters
  that limit the sockets of the gateway, of one address, and of one address before
  authorisation.  A socket that was admitted keeps the variables of its handlers, also after it has closed:
  both handlers are registered with \<open>once\<close>, and the one for \<open>gateway:authorized\<close> outlives the
  other.  That a session may authorise late is part of the model.
\<close>

section \<open>Listeners\<close>

datatype gateway_transport = Tcp | Tls string string

record gateway_listener =
  ga_label :: string
  ga_host :: string
  ga_port :: int
  ga_transport :: gateway_transport

definition tcp_listener :: "string \<Rightarrow> coin_gateway \<Rightarrow> gateway_listener list" where
  "tcp_listener label c =
     (if cg_tcp_enabled c then [\<lparr>ga_label = label, ga_host = cg_host c, ga_port = cg_port c, ga_transport = Tcp\<rparr>] else [])"

definition tls_listener :: "string \<Rightarrow> coin_gateway \<Rightarrow> gateway_listener list" where
  "tls_listener label c =
     (if cg_tls_enabled c
      then [\<lparr>ga_label = label, ga_host = cg_tls_host c, ga_port = cg_tls_port c,
             ga_transport = Tls (cg_tls_cert_file c) (cg_tls_key_file c)\<rparr>] else [])"

definition onApplicationBootstrap :: "environment \<Rightarrow> gateway_listener list" where
  "onApplicationBootstrap e =
     (if \<not> gl_enabled (GATEWAY e) then []
      else tcp_listener ''Bitcoin Stratum V1 TCP'' (BITCOIN_GATEWAY e) @
           tls_listener ''Bitcoin Stratum V1 TLS'' (BITCOIN_GATEWAY e) @
           tcp_listener ''Monero JSON-RPC TCP'' (MONERO_GATEWAY e) @
           tls_listener ''Monero JSON-RPC TLS'' (MONERO_GATEWAY e))"

section \<open>Sockets\<close>

record socket_handlers =
  so_id :: nat
  so_ip :: string
  so_authenticated :: bool
  so_open :: bool

record gateway_state =
  gs_activeSockets :: int
  gs_socketsByIp :: "string \<rightharpoonup> int"
  gs_unauthenticatedByIp :: "string \<rightharpoonup> int"
  gs_sockets :: "socket_handlers list"

definition gateway_start :: gateway_state where
  "gateway_start = \<lparr>gs_activeSockets = 0, gs_socketsByIp = Map.empty, gs_unauthenticatedByIp = Map.empty, gs_sockets = []\<rparr>"

definition remote_ip :: "string option \<Rightarrow> string" where
  "remote_ip address = (case address of None \<Rightarrow> ''unknown'' | Some a \<Rightarrow> strip_mapped a)"

definition counter :: "(string \<rightharpoonup> int) \<Rightarrow> string \<Rightarrow> int" where
  "counter m ip = (case m ip of None \<Rightarrow> 0 | Some n \<Rightarrow> n)"

definition decrementIpCounter :: "string \<Rightarrow> (string \<rightharpoonup> int) \<Rightarrow> (string \<rightharpoonup> int)" where
  "decrementIpCounter ip m =
     (let remaining = (case m ip of None \<Rightarrow> 1 | Some n \<Rightarrow> n) - 1
      in if remaining \<le> 0 then m(ip := None) else m(ip \<mapsto> remaining))"

definition refusal :: "int \<Rightarrow> string \<Rightarrow> json" where
  "refusal code message = JObj [(''id'', JNull), (''error'', JArr [JNum (show_int code), JStr message, JNull])]"

definition accept_socket :: "gateway_limits \<Rightarrow> nat \<Rightarrow> string option \<Rightarrow> gateway_state \<Rightarrow> gateway_state \<times> json option" where
  "accept_socket L i address g =
     (let ip = remote_ip address;
          activeForIp = counter (gs_socketsByIp g) ip;
          unauthenticatedForIp = counter (gs_unauthenticatedByIp g) ip
      in if gs_activeSockets g \<ge> gl_max_connections L then (g, Some (refusal 20 ''Gateway connection limit reached''))
         else if activeForIp \<ge> gl_max_connections_per_ip L then (g, Some (refusal 20 ''Gateway per-IP limit reached''))
         else if unauthenticatedForIp \<ge> gl_max_unauthenticated_per_ip L
         then (g, Some (refusal 24 ''Too many unauthenticated connections''))
         else (\<lparr>gs_activeSockets = gs_activeSockets g + 1,
                gs_socketsByIp = (gs_socketsByIp g)(ip \<mapsto> activeForIp + 1),
                gs_unauthenticatedByIp = (gs_unauthenticatedByIp g)(ip \<mapsto> unauthenticatedForIp + 1),
                gs_sockets = gs_sockets g @ [\<lparr>so_id = i, so_ip = ip, so_authenticated = False, so_open = True\<rparr>]\<rparr>, None))"

text \<open>The handler of \<open>gateway:authorized\<close>.\<close>

definition authorized_event :: "nat \<Rightarrow> gateway_state \<Rightarrow> gateway_state" where
  "authorized_event i g =
     (case List.find (\<lambda>x. so_id x = i) (gs_sockets g) of
        None \<Rightarrow> g
      | Some x \<Rightarrow>
          if so_authenticated x then g
          else g\<lparr>gs_unauthenticatedByIp := decrementIpCounter (so_ip x) (gs_unauthenticatedByIp g),
                 gs_sockets := update_where (\<lambda>x. so_id x = i) (\<lambda>x. x\<lparr>so_authenticated := True\<rparr>) (gs_sockets g)\<rparr>)"

text \<open>The handler of \<open>close\<close>.\<close>

definition close_event :: "nat \<Rightarrow> gateway_state \<Rightarrow> gateway_state" where
  "close_event i g =
     (case List.find (\<lambda>x. so_id x = i) (gs_sockets g) of
        None \<Rightarrow> g
      | Some x \<Rightarrow>
          if \<not> so_open x then g
          else \<lparr>gs_activeSockets = max 0 (gs_activeSockets g - 1),
                gs_socketsByIp = decrementIpCounter (so_ip x) (gs_socketsByIp g),
                gs_unauthenticatedByIp =
                  (if so_authenticated x then gs_unauthenticatedByIp g
                   else decrementIpCounter (so_ip x) (gs_unauthenticatedByIp g)),
                gs_sockets = update_where (\<lambda>x. so_id x = i) (\<lambda>x. x\<lparr>so_open := False\<rparr>) (gs_sockets g)\<rparr>)"

section \<open>Histories\<close>

text \<open>With \<open>late\<close>, a session may authorise a socket that has closed in the meantime.\<close>

definition open_socket :: "nat \<Rightarrow> gateway_state \<Rightarrow> bool" where
  "open_socket i g \<longleftrightarrow> (\<exists>x \<in> set (gs_sockets g). so_id x = i \<and> so_open x)"

inductive gateway_reachable :: "gateway_limits \<Rightarrow> bool \<Rightarrow> gateway_state \<Rightarrow> bool" for L late where
  start: "gateway_reachable L late gateway_start"
| accept: "gateway_reachable L late g \<Longrightarrow> i \<notin> so_id ` set (gs_sockets g) \<Longrightarrow>
    gateway_reachable L late (fst (accept_socket L i address g))"
| authorized: "gateway_reachable L late g \<Longrightarrow> late \<or> open_socket i g \<Longrightarrow> gateway_reachable L late (authorized_event i g)"
| close: "gateway_reachable L late g \<Longrightarrow> gateway_reachable L late (close_event i g)"

definition open_from :: "string \<Rightarrow> gateway_state \<Rightarrow> int" where
  "open_from ip g = int (length (filter (\<lambda>x. so_open x \<and> so_ip x = ip) (gs_sockets g)))"

definition waiting_from :: "string \<Rightarrow> gateway_state \<Rightarrow> int" where
  "waiting_from ip g = int (length (filter (\<lambda>x. so_open x \<and> \<not> so_authenticated x \<and> so_ip x = ip) (gs_sockets g)))"

definition open_sockets :: "gateway_state \<Rightarrow> int" where
  "open_sockets g = int (length (filter so_open (gs_sockets g)))"

text \<open>A counter in a map: absent when zero.\<close>

definition counts :: "(string \<rightharpoonup> int) \<Rightarrow> (string \<Rightarrow> int) \<Rightarrow> bool" where
  "counts m f \<longleftrightarrow> (\<forall>ip. m ip = (if f ip = 0 then None else Some (f ip))) \<and> (\<forall>ip. 0 \<le> f ip)"

definition gateway_inv :: "gateway_limits \<Rightarrow> gateway_state \<Rightarrow> bool" where
  "gateway_inv L g \<longleftrightarrow> unique_on so_id (gs_sockets g) \<and> gs_activeSockets g = open_sockets g \<and>
     counts (gs_socketsByIp g) (\<lambda>ip. open_from ip g) \<and> counts (gs_unauthenticatedByIp g) (\<lambda>ip. waiting_from ip g) \<and>
     gs_activeSockets g \<le> max 0 (gl_max_connections L) \<and>
     (\<forall>ip. open_from ip g \<le> max 0 (gl_max_connections_per_ip L) \<and> waiting_from ip g \<le> max 0 (gl_max_unauthenticated_per_ip L))"

lemma counts_counter: "counts m f \<Longrightarrow> counter m ip = f ip"
  by (simp add: counts_def counter_def)

lemma counts_up: "counts m f \<Longrightarrow> counts (m(ip \<mapsto> f ip + 1)) (\<lambda>i. f i + (if i = ip then 1 else 0))"
proof -
  assume c: "counts m f"
  then have "f ip + 1 \<noteq> 0" by (auto simp: counts_def dest: spec [of _ ip])
  with c show ?thesis by (auto simp: counts_def)
qed

lemma counts_down:
  assumes "counts m f" and "0 < f ip" shows "counts (decrementIpCounter ip m) (\<lambda>i. f i - (if i = ip then 1 else 0))"
  using assms by (auto simp: counts_def decrementIpCounter_def Let_def)

lemma length_filter_update:
  assumes "unique_on key xs" and "x \<in> set xs"
  shows "int (length (filter P (update_where (\<lambda>y. key y = key x) h xs))) =
    int (length (filter P xs)) - (if P x then 1 else 0) + (if P (h x) then 1 else 0)"
  using assms
proof (induction xs)
  case (Cons y xs)
  have "update_where (\<lambda>z. key z = key x) h xs = xs" if "x = y"
    using Cons.prems(1) that by (intro update_where_none) (auto simp: image_iff)
  moreover have "key y \<noteq> key x" if "x \<in> set xs" using Cons.prems(1) that by force
  ultimately show ?case using Cons by (cases "x = y") (auto simp: update_where_def)
qed simp

lemma accept_inv:
  assumes "gateway_inv L g" and "i \<notin> so_id ` set (gs_sockets g)"
  shows "gateway_inv L (fst (accept_socket L i address g))"
proof (cases "snd (accept_socket L i address g)")
  case None
  let ?ip = "remote_ip address"
  let ?g = "fst (accept_socket L i address g)"
  have inv: "counts (gs_socketsByIp g) (\<lambda>ip. open_from ip g)" "counts (gs_unauthenticatedByIp g) (\<lambda>ip. waiting_from ip g)"
    using assms(1) by (simp_all add: gateway_inv_def)
  note c = inv [THEN counts_counter]
  from None have lim: "gs_activeSockets g < gl_max_connections L" "open_from ?ip g < gl_max_connections_per_ip L"
    "waiting_from ?ip g < gl_max_unauthenticated_per_ip L"
    by (auto simp: accept_socket_def Let_def c split: if_splits)
  have g: "?g = \<lparr>gs_activeSockets = gs_activeSockets g + 1,
                gs_socketsByIp = (gs_socketsByIp g)(?ip \<mapsto> open_from ?ip g + 1),
                gs_unauthenticatedByIp = (gs_unauthenticatedByIp g)(?ip \<mapsto> waiting_from ?ip g + 1),
                gs_sockets = gs_sockets g @ [\<lparr>so_id = i, so_ip = ?ip, so_authenticated = False, so_open = True\<rparr>]\<rparr>"
    using lim by (simp add: accept_socket_def Let_def c)
  have o: "(\<lambda>ip. open_from ip ?g) = (\<lambda>ip. open_from ip g + (if ip = ?ip then 1 else 0))"
    "(\<lambda>ip. waiting_from ip ?g) = (\<lambda>ip. waiting_from ip g + (if ip = ?ip then 1 else 0))"
    "open_sockets ?g = open_sockets g + 1"
    by (auto simp: g open_from_def waiting_from_def open_sockets_def fun_eq_iff)
  have cnt: "counts (gs_socketsByIp ?g) (\<lambda>ip. open_from ip ?g)" "counts (gs_unauthenticatedByIp ?g) (\<lambda>ip. waiting_from ip ?g)"
    unfolding o(1,2) using inv [THEN counts_up, of ?ip] by (simp_all add: g)
  have lims: "open_from ip ?g \<le> max 0 (gl_max_connections_per_ip L) \<and> waiting_from ip ?g \<le> max 0 (gl_max_unauthenticated_per_ip L)" for ip
    using fun_cong [OF o(1), of ip] fun_cong [OF o(2), of ip] lim assms(1) by (auto simp: gateway_inv_def)
  have "gs_activeSockets ?g = gs_activeSockets g + 1" "unique_on so_id (gs_sockets ?g)"
    using assms by (simp_all add: g gateway_inv_def)
  with cnt lims o(3) lim(1) assms(1) show ?thesis unfolding gateway_inv_def by simp
next
  case (Some m)
  then have "fst (accept_socket L i address g) = g" by (auto simp: accept_socket_def Let_def split: if_splits)
  with assms(1) show ?thesis by simp
qed

text \<open>A handler changes one socket; the numbers of open and waiting sockets change by that socket.\<close>

lemma open_from_update:
  assumes "unique_on so_id (gs_sockets g)" and "x \<in> set (gs_sockets g)"
    and "gs_sockets g' = update_where (\<lambda>y. so_id y = so_id x) h (gs_sockets g)" and "so_ip (h x) = so_ip x"
  shows "open_from ip g' = open_from ip g - (if so_ip x = ip \<and> so_open x then 1 else 0) + (if so_ip x = ip \<and> so_open (h x) then 1 else 0)"
    and "waiting_from ip g' = waiting_from ip g - (if so_ip x = ip \<and> so_open x \<and> \<not> so_authenticated x then 1 else 0)
      + (if so_ip x = ip \<and> so_open (h x) \<and> \<not> so_authenticated (h x) then 1 else 0)"
    and "open_sockets g' = open_sockets g - (if so_open x then 1 else 0) + (if so_open (h x) then 1 else 0)"
  unfolding open_from_def waiting_from_def open_sockets_def assms(3) length_filter_update [OF assms(1,2)]
  using assms(4) by auto

lemma counted_positive:
  assumes "x \<in> set (gs_sockets g)" and "so_open x"
  shows "0 < open_from (so_ip x) g" and "\<not> so_authenticated x \<Longrightarrow> 0 < waiting_from (so_ip x) g" and "0 < open_sockets g"
  using assms by (auto simp: open_from_def waiting_from_def open_sockets_def filter_empty_conv)

lemma unique_update: "unique_on key xs \<Longrightarrow> (\<And>x. key (h x) = key x) \<Longrightarrow> unique_on key (update_where P h xs)"
  by (simp add: update_where_def comp_def if_distrib cong: if_cong)

lemma gateway_inv_down:
  assumes "gateway_inv L g" and "unique_on so_id (gs_sockets g')" and "gs_activeSockets g' = open_sockets g'"
    and "counts (gs_socketsByIp g') (\<lambda>ip. open_from ip g')" and "counts (gs_unauthenticatedByIp g') (\<lambda>ip. waiting_from ip g')"
    and "gs_activeSockets g' \<le> max 0 (gs_activeSockets g)"
    and "\<And>ip. open_from ip g' \<le> open_from ip g" and "\<And>ip. waiting_from ip g' \<le> waiting_from ip g"
  shows "gateway_inv L g'"
proof -
  have "open_from ip g' \<le> max 0 (gl_max_connections_per_ip L)" "waiting_from ip g' \<le> max 0 (gl_max_unauthenticated_per_ip L)" for ip
    using assms(1) assms(7,8) [of ip] unfolding gateway_inv_def by (meson order_trans)+
  moreover have "gs_activeSockets g' \<le> max 0 (gl_max_connections L)" using assms(1,6) by (auto simp: gateway_inv_def)
  ultimately show ?thesis using assms(2-5) unfolding gateway_inv_def by blast
qed

lemma close_inv:
  assumes "gateway_inv L g" shows "gateway_inv L (close_event i g)"
proof (cases "close_event i g = g")
  case False
  let ?g = "close_event i g"
  from False obtain x where f: "List.find (\<lambda>x. so_id x = i) (gs_sockets g) = Some x" and op: "so_open x"
    by (auto simp: close_event_def split: option.splits if_splits)
  from find_SomeD [OF f] have x: "x \<in> set (gs_sockets g)" "so_id x = i" by auto
  have g: "?g = \<lparr>gs_activeSockets = max 0 (gs_activeSockets g - 1),
                gs_socketsByIp = decrementIpCounter (so_ip x) (gs_socketsByIp g),
                gs_unauthenticatedByIp =
                  (if so_authenticated x then gs_unauthenticatedByIp g
                   else decrementIpCounter (so_ip x) (gs_unauthenticatedByIp g)),
                gs_sockets = update_where (\<lambda>y. so_id y = so_id x) (\<lambda>x. x\<lparr>so_open := False\<rparr>) (gs_sockets g)\<rparr>"
    using f op x(2) by (simp add: close_event_def)
  have uni: "unique_on so_id (gs_sockets g)" using assms by (simp add: gateway_inv_def)
  have sk: "gs_sockets ?g = update_where (\<lambda>y. so_id y = so_id x) (\<lambda>x. x\<lparr>so_open := False\<rparr>) (gs_sockets g)" by (simp add: g)
  note n = open_from_update [OF uni x(1) sk, simplified]
  have o: "(\<lambda>ip. open_from ip ?g) = (\<lambda>ip. open_from ip g - (if ip = so_ip x then 1 else 0))"
    "(\<lambda>ip. waiting_from ip ?g) = (if so_authenticated x then (\<lambda>ip. waiting_from ip g) else (\<lambda>ip. waiting_from ip g - (if ip = so_ip x then 1 else 0)))"
    using n(1,2) op by (auto simp: fun_eq_iff)
  have inv: "counts (gs_socketsByIp g) (\<lambda>ip. open_from ip g)" "counts (gs_unauthenticatedByIp g) (\<lambda>ip. waiting_from ip g)"
    using assms by (simp_all add: gateway_inv_def)
  have cnt: "counts (gs_socketsByIp ?g) (\<lambda>ip. open_from ip ?g)" "counts (gs_unauthenticatedByIp ?g) (\<lambda>ip. waiting_from ip ?g)"
    unfolding o using counts_down [OF inv(1)] counts_down [OF inv(2)] counted_positive [OF x(1) op] inv(2) by (simp_all add: g)
  show ?thesis
  proof (rule gateway_inv_down [OF assms _ _ cnt])
    show "unique_on so_id (gs_sockets ?g)" unfolding sk by (rule unique_update [OF uni]) simp
    show "gs_activeSockets ?g = open_sockets ?g" "gs_activeSockets ?g \<le> max 0 (gs_activeSockets g)"
      using n(3) op counted_positive(3) [OF x(1) op] assms by (simp_all add: g gateway_inv_def)
    show "open_from ip ?g \<le> open_from ip g" "waiting_from ip ?g \<le> waiting_from ip g" for ip using n(1,2) by simp_all
  qed
qed (use assms in simp)

lemma authorized_inv:
  assumes "gateway_inv L g" and "open_socket i g" shows "gateway_inv L (authorized_event i g)"
proof (cases "authorized_event i g = g")
  case False
  let ?g = "authorized_event i g"
  have uni: "unique_on so_id (gs_sockets g)" using assms by (simp add: gateway_inv_def)
  from False obtain x where f: "List.find (\<lambda>x. so_id x = i) (gs_sockets g) = Some x" and na: "\<not> so_authenticated x"
    by (auto simp: authorized_event_def split: option.splits if_splits)
  from find_SomeD [OF f] have x: "x \<in> set (gs_sockets g)" "so_id x = i" by auto
  have op: "so_open x" using assms(2) uni x by (auto simp: open_socket_def distinct_map inj_on_def)
  have g: "?g = g\<lparr>gs_unauthenticatedByIp := decrementIpCounter (so_ip x) (gs_unauthenticatedByIp g),
                 gs_sockets := update_where (\<lambda>y. so_id y = so_id x) (\<lambda>x. x\<lparr>so_authenticated := True\<rparr>) (gs_sockets g)\<rparr>"
    using f na x(2) by (simp add: authorized_event_def)
  have sk: "gs_sockets ?g = update_where (\<lambda>y. so_id y = so_id x) (\<lambda>x. x\<lparr>so_authenticated := True\<rparr>) (gs_sockets g)" by (simp add: g)
  note n = open_from_update [OF uni x(1) sk, simplified]
  have o: "(\<lambda>ip. open_from ip ?g) = (\<lambda>ip. open_from ip g)"
    "(\<lambda>ip. waiting_from ip ?g) = (\<lambda>ip. waiting_from ip g - (if ip = so_ip x then 1 else 0))" "open_sockets ?g = open_sockets g"
    using n op na by (auto simp: fun_eq_iff)
  have inv: "counts (gs_unauthenticatedByIp g) (\<lambda>ip. waiting_from ip g)" using assms by (simp add: gateway_inv_def)
  have cnt: "counts (gs_unauthenticatedByIp ?g) (\<lambda>ip. waiting_from ip ?g)"
    unfolding o using counts_down [OF inv] counted_positive(2) [OF x(1) op na] by (simp add: g)
  show ?thesis
  proof (rule gateway_inv_down [OF assms(1) _ _ _ cnt])
    show "unique_on so_id (gs_sockets ?g)" unfolding sk by (rule unique_update [OF uni]) simp
    show "gs_activeSockets ?g = open_sockets ?g" "gs_activeSockets ?g \<le> max 0 (gs_activeSockets g)"
      using assms(1) unfolding o(3) by (simp_all add: g gateway_inv_def)
    show "counts (gs_socketsByIp ?g) (\<lambda>ip. open_from ip ?g)" using assms(1) unfolding o(1) by (simp add: g gateway_inv_def)
    show "open_from ip ?g \<le> open_from ip g" "waiting_from ip ?g \<le> waiting_from ip g" for ip
      using n(1,2) op na by simp_all
  qed
qed (use assms in simp)

lemma gateway_reachable_inv: "gateway_reachable L False g \<Longrightarrow> gateway_inv L g"
proof (induction rule: gateway_reachable.induct)
  case start
  show ?case
    by (simp add: gateway_start_def gateway_inv_def counts_def open_from_def waiting_from_def open_sockets_def)
qed (simp_all add: accept_inv authorized_inv close_inv)

text \<open>Every listener that is started has been checked by the validation of the environment.\<close>

lemma started_listeners:
  "gl_enabled (GATEWAY e) \<Longrightarrow>
   map (\<lambda>l. (ga_host l, ga_port l)) (onApplicationBootstrap e) = map (\<lambda>l. (li_host l, li_port l)) (tl (listeners e))"
  by (simp add: onApplicationBootstrap_def tcp_listener_def tls_listener_def listeners_def)

lemma find_append_new: "x \<notin> key ` set xs \<Longrightarrow> List.find (\<lambda>y. key y = x) (xs @ ys) = List.find (\<lambda>y. key y = x) ys"
  by (induction xs) auto

lemma update_absent: "x \<notin> key ` set xs \<Longrightarrow> update_where (\<lambda>y. key y = x) h xs = xs"
  by (rule update_where_none) auto

section \<open>Main properties\<close>

text \<open>C22: The connection limits hold.  As long as no socket is authorised after it has closed, the counters of
  the gateway are exactly the numbers of open sockets, of open sockets per address and of those
  not yet authorised, and none of them exceeds its configured limit.\<close>

theorem admission_limits:
  assumes "gateway_reachable L False g"
  shows "gs_activeSockets g = open_sockets g \<and> open_sockets g \<le> max 0 (gl_max_connections L) \<and>
    (\<forall>ip. counter (gs_socketsByIp g) ip = open_from ip g \<and> open_from ip g \<le> max 0 (gl_max_connections_per_ip L) \<and>
       counter (gs_unauthenticatedByIp g) ip = waiting_from ip g \<and> waiting_from ip g \<le> max 0 (gl_max_unauthenticated_per_ip L))"
  using gateway_reachable_inv [OF assms] counts_counter unfolding gateway_inv_def by metis

text \<open>A late authorisation loses a count.  A socket that opens and closes while its authentication is
  still running is subtracted twice from the unauthorised sockets of its address: the open sockets are
  those of before, and the counter is one less, so one more unauthorised socket than the limit
  allows is let in.  (\<open>gateway.service.ts\<close>, lines 168 to 178, with the sessions' \<open>authorize\<close>.)\<close>

theorem late_authorization_undercounts:
  assumes "gateway_reachable L False g" and "i \<notin> so_id ` set (gs_sockets g)"
    and "snd (accept_socket L i address g) = None" and "0 < waiting_from (remote_ip address) g"
  shows "waiting_from (remote_ip address) (authorized_event i (close_event i (fst (accept_socket L i address g)))) =
      waiting_from (remote_ip address) g \<and>
    counter (gs_unauthenticatedByIp (authorized_event i (close_event i (fst (accept_socket L i address g))))) (remote_ip address) =
      waiting_from (remote_ip address) g - 1"
proof -
  let ?ip = "remote_ip address" and ?w = "waiting_from (remote_ip address) g"
  let ?x = "\<lambda>a b. \<lparr>so_id = i, so_ip = ?ip, so_authenticated = a, so_open = b\<rparr>"
  have cnt: "counter (gs_unauthenticatedByIp g) ?ip = ?w"
    using gateway_reachable_inv [OF assms(1)] counts_counter by (auto simp: gateway_inv_def)
  from assms(3) cnt have a: "gs_unauthenticatedByIp (fst (accept_socket L i address g)) = (gs_unauthenticatedByIp g)(?ip \<mapsto> ?w + 1)"
    "gs_sockets (fst (accept_socket L i address g)) = gs_sockets g @ [?x False True]"
    by (auto simp: accept_socket_def Let_def split: if_splits)
  let ?c = "close_event i (fst (accept_socket L i address g))"
  have c: "gs_unauthenticatedByIp ?c = (gs_unauthenticatedByIp g)(?ip \<mapsto> ?w)" "gs_sockets ?c = gs_sockets g @ [?x False False]"
    using assms(4) by (simp_all add: close_event_def a find_append_new [OF assms(2)] update_absent [OF assms(2)] decrementIpCounter_def)
  let ?d = "authorized_event i ?c"
  have d: "counter (gs_unauthenticatedByIp ?d) ?ip = ?w - 1" "gs_sockets ?d = gs_sockets g @ [?x True False]"
    using assms(4)
    by (simp_all add: authorized_event_def c find_append_new [OF assms(2)] update_absent [OF assms(2)] decrementIpCounter_def counter_def)
  then show ?thesis by (simp add: waiting_from_def)
qed

definition small_limits :: gateway_limits where
  "small_limits = \<lparr>gl_max_connections = 10, gl_max_connections_per_ip = 5, gl_max_unauthenticated_per_ip = 2,
     gl_auth_timeout_ms = 15000, gl_max_line_bytes = 65536, gl_idle_timeout_ms = 180000, gl_enabled = True,
     gl_auto_provision_enabled = False, gl_auto_provision_customer_bps = 8000, gl_auto_provision_max_connections = 4,
     gl_auto_provision_max_per_ip_per_hour = 20\<rparr>"

definition one_waiting :: gateway_state where
  "one_waiting = fst (accept_socket small_limits 0 (Some ''::ffff:10.0.0.1'') gateway_start)"

lemma one_waiting_reachable: "gateway_reachable small_limits False one_waiting"
  unfolding one_waiting_def by (rule gateway_reachable.accept [OF gateway_reachable.start]) (simp add: gateway_start_def)

theorem admission_limits_witness: "open_sockets one_waiting = 1 \<and> counter (gs_unauthenticatedByIp one_waiting) ''10.0.0.1'' = 1"
proof -
  have "open_sockets one_waiting = 1 \<and> waiting_from ''10.0.0.1'' one_waiting = 1" by code_simp
  with admission_limits [OF one_waiting_reachable] show ?thesis by metis
qed

theorem late_authorization_undercounts_witness:
  "counter (gs_unauthenticatedByIp (authorized_event 1 (close_event 1 (fst (accept_socket small_limits 1 (Some ''10.0.0.1'') one_waiting))))) ''10.0.0.1'' = 0 \<and>
   waiting_from ''10.0.0.1'' (authorized_event 1 (close_event 1 (fst (accept_socket small_limits 1 (Some ''10.0.0.1'') one_waiting)))) = 1"
proof -
  have e: "remote_ip (Some ''10.0.0.1'') = ''10.0.0.1'' \<and> 1 \<notin> so_id ` set (gs_sockets one_waiting) \<and>
    snd (accept_socket small_limits 1 (Some ''10.0.0.1'') one_waiting) = None \<and> waiting_from ''10.0.0.1'' one_waiting = 1" by code_simp
  with late_authorization_undercounts [OF one_waiting_reachable, of 1 "Some ''10.0.0.1''"] show ?thesis by simp
qed

end
