(* ===== verification/Proxy.thy ===== *)
theory Proxy
  imports Auth
begin

text \<open>
  The outgoing proxy: its setting (\<open>network/proxy-settings.service.ts\<close>) and the health check that decides
  whether the direct path is used (\<open>network/proxy-health.service.ts\<close>).  The answers of the TCP
  probe are arguments; the files written for the privileged helper are the value \<open>writeState\<close> returns.
\<close>

section \<open>The setting\<close>

definition SETTING_KEY :: string where
  "SETTING_KEY = ''network.proxy''"

definition PASSWORD_CONTEXT :: string where
  "PASSWORD_CONTEXT = ''network-proxy:password''"

definition VPN_CONFIG_CONTEXT :: string where
  "VPN_CONFIG_CONTEXT = ''network-proxy:vpn-config''"

definition DEFAULT_SETTING :: proxy_setting where
  "DEFAULT_SETTING =
     \<lparr>px_enabled = False, px_mode = FAILOVER, px_applyToGateway = True, px_applyToSystem = False, px_protocol = SOCKS5,
      px_host = [], px_port = 1080, px_username = None, px_passwordCiphertext = None, px_healthCheckHost = ''1.1.1.1'',
      px_healthCheckPort = 443, px_healthCheckIntervalSeconds = 30, px_healthCheckFailureThreshold = 3,
      px_vpnConfigType = NONE, px_vpnConfigCiphertext = None\<rparr>"

definition proxy_get :: "store \<Rightarrow> proxy_setting" where
  "proxy_get s = (case find_setting SETTING_KEY s of Some (ProxyValue v) \<Rightarrow> v | _ \<Rightarrow> DEFAULT_SETTING)"

definition proxy_safe :: "store \<Rightarrow> proxy_setting \<times> bool \<times> bool" where
  "proxy_safe s =
     (let v = proxy_get s
      in (v\<lparr>px_passwordCiphertext := None, px_vpnConfigCiphertext := None\<rparr>,
          truthy (px_passwordCiphertext v), truthy (px_vpnConfigCiphertext v)))"

record proxy_dto =
  pxd_enabled :: bool
  pxd_mode :: ProxyMode
  pxd_applyToGateway :: bool
  pxd_applyToSystem :: bool
  pxd_protocol :: ProxyProtocol
  pxd_host :: string
  pxd_port :: int
  pxd_username :: "string option"
  pxd_password :: "string option"
  pxd_healthCheckHost :: string
  pxd_healthCheckPort :: int
  pxd_healthCheckIntervalSeconds :: int
  pxd_healthCheckFailureThreshold :: int
  pxd_vpnConfigType :: VpnConfigType
  pxd_vpnConfig :: "string option"

fun show_protocol :: "ProxyProtocol \<Rightarrow> string" where
  "show_protocol SOCKS5 = ''SOCKS5''"
| "show_protocol HTTP = ''HTTP''"

fun show_proxy_mode :: "ProxyMode \<Rightarrow> string" where
  "show_proxy_mode ALWAYS_ON = ''ALWAYS_ON''"
| "show_proxy_mode FAILOVER = ''FAILOVER''"

fun show_vpn :: "VpnConfigType \<Rightarrow> string" where
  "show_vpn NONE = ''NONE''"
| "show_vpn OPENVPN = ''OPENVPN''"
| "show_vpn WIREGUARD = ''WIREGUARD''"

definition redacted :: "string option \<Rightarrow> json" where
  "redacted t = (if truthy t then JStr ''[redacted]'' else JNull)"

definition redact :: "proxy_setting \<Rightarrow> json" where
  "redact v =
     JObj [(''enabled'', JBool (px_enabled v)), (''mode'', JStr (show_proxy_mode (px_mode v))),
       (''applyToGateway'', JBool (px_applyToGateway v)), (''applyToSystem'', JBool (px_applyToSystem v)),
       (''protocol'', JStr (show_protocol (px_protocol v))), (''host'', JStr (px_host v)),
       (''port'', JNum (show_int (px_port v))), (''username'', opt_text (px_username v)),
       (''passwordCiphertext'', redacted (px_passwordCiphertext v)),
       (''healthCheckHost'', JStr (px_healthCheckHost v)), (''healthCheckPort'', JNum (show_int (px_healthCheckPort v))),
       (''healthCheckIntervalSeconds'', JNum (show_int (px_healthCheckIntervalSeconds v))),
       (''healthCheckFailureThreshold'', JNum (show_int (px_healthCheckFailureThreshold v))),
       (''vpnConfigType'', JStr (show_vpn (px_vpnConfigType v))),
       (''vpnConfigCiphertext'', redacted (px_vpnConfigCiphertext v))]"

text \<open>\<open>dto.username?.trim() || null\<close>.\<close>

definition trimmed_or_null :: "string option \<Rightarrow> string option" where
  "trimmed_or_null t = (case t of None \<Rightarrow> None | Some x \<Rightarrow> if trim x = [] then None else Some (trim x))"

definition proxy_value :: "crypto_service \<Rightarrow> string \<Rightarrow> string \<Rightarrow> proxy_dto \<Rightarrow> proxy_setting \<Rightarrow> proxy_setting" where
  "proxy_value C iv1 iv2 dto before =
     \<lparr>px_enabled = pxd_enabled dto, px_mode = pxd_mode dto, px_applyToGateway = pxd_applyToGateway dto,
      px_applyToSystem = pxd_applyToSystem dto, px_protocol = pxd_protocol dto, px_host = trim (pxd_host dto),
      px_port = pxd_port dto, px_username = trimmed_or_null (pxd_username dto),
      px_passwordCiphertext =
        (case pxd_password dto of
           None \<Rightarrow> px_passwordCiphertext before
         | Some p \<Rightarrow> if p = [] then None else Some (encrypt C iv1 p PASSWORD_CONTEXT)),
      px_healthCheckHost = trim (pxd_healthCheckHost dto), px_healthCheckPort = pxd_healthCheckPort dto,
      px_healthCheckIntervalSeconds = pxd_healthCheckIntervalSeconds dto,
      px_healthCheckFailureThreshold = pxd_healthCheckFailureThreshold dto, px_vpnConfigType = pxd_vpnConfigType dto,
      px_vpnConfigCiphertext =
        (case pxd_vpnConfig dto of
           None \<Rightarrow> if px_vpnConfigType before = pxd_vpnConfigType dto then px_vpnConfigCiphertext before else None
         | Some c \<Rightarrow> Some (encrypt C iv2 c VPN_CONFIG_CONTEXT))\<rparr>"

datatype active_mode = DirectPath | ProxyPath

record proxy_state =
  pst_applyToSystem :: bool
  pst_active :: bool
  pst_vpnConfigType :: VpnConfigType
  pst_updatedAt :: instant

text \<open>The state file, and the VPN configuration file if it is written.\<close>

definition writeState ::
  "crypto_service \<Rightarrow> instant \<Rightarrow> proxy_setting \<Rightarrow> active_mode option \<Rightarrow> (proxy_state \<times> string option) result" where
  "writeState C now v activeMode =
     (let useProxy = (activeMode = Some ProxyPath \<or> activeMode = None \<and> px_mode v = ALWAYS_ON);
          st = \<lparr>pst_applyToSystem = (px_applyToSystem v \<and> px_enabled v),
                pst_active = (px_applyToSystem v \<and> px_enabled v \<and> useProxy),
                pst_vpnConfigType = px_vpnConfigType v, pst_updatedAt = now\<rparr>
      in if truthy (px_vpnConfigCiphertext v) \<and> px_vpnConfigType v \<noteq> NONE
         then ebind (decrypt C (the (px_vpnConfigCiphertext v)) VPN_CONFIG_CONTEXT) (\<lambda>c. Inr (st, Some c))
         else Inr (st, None))"

definition proxy_update ::
  "services \<Rightarrow> instant \<Rightarrow> string \<Rightarrow> string \<Rightarrow> proxy_dto \<Rightarrow> uuid \<Rightarrow> store \<Rightarrow> store \<times> (proxy_setting \<times> bool \<times> bool) result" where
  "proxy_update V now iv1 iv2 dto actor s =
     (let before = proxy_get s in
      if pxd_applyToGateway dto \<and> trim (pxd_host dto) = []
      then (s, Inl (BadRequestException ''A proxy host is required when applying to the gateway''))
      else if pxd_applyToSystem dto \<and> pxd_vpnConfigType dto = NONE
      then (s, Inl (BadRequestException ''System-wide proxying requires an OpenVPN or WireGuard configuration''))
      else if pxd_applyToSystem dto \<and> pxd_vpnConfigType dto \<noteq> NONE \<and> trimmed_or_null (pxd_vpnConfig dto) = None \<and>
        (px_vpnConfigType before \<noteq> pxd_vpnConfigType dto \<or> \<not> truthy (px_vpnConfigCiphertext before))
      then (s, Inl (BadRequestException ''Upload a VPN configuration before enabling this mode''))
      else
        (let v = proxy_value (sv_crypto V) iv1 iv2 dto before;
             s1 = upsert_setting SETTING_KEY (ProxyValue v) s
         in andThen (audit V now \<lparr>au_actorId = Some actor, au_action = ''NETWORK_PROXY_UPDATED'',
               au_entityType = ''SystemSetting'', au_entityId = Some SETTING_KEY, au_ipAddress = None,
               au_before = Some (redact before), au_after = Some (redact v)\<rparr> s1)
             (\<lambda>_ s2. case writeState (sv_crypto V) now v None of Inl e \<Rightarrow> (s2, Inl e) | Inr _ \<Rightarrow> (s2, Inr (proxy_safe s2)))))"

definition decryptPassword :: "crypto_service \<Rightarrow> proxy_setting \<Rightarrow> string option result" where
  "decryptPassword C v =
     (if truthy (px_passwordCiphertext v)
      then ebind (decrypt C (the (px_passwordCiphertext v)) PASSWORD_CONTEXT) (\<lambda>p. Inr (Some p))
      else Inr None)"

section \<open>Health\<close>

record proxy_health =
  ph_directUp :: bool
  ph_consecutiveFailures :: int
  ph_lastCheckedAt :: "instant option"

definition health_start :: proxy_health where
  "health_start = \<lparr>ph_directUp = True, ph_consecutiveFailures = 0, ph_lastCheckedAt = None\<rparr>"

record gateway_proxy =
  gp_protocol :: ProxyProtocol
  gp_host :: string
  gp_port :: int
  gp_username :: "string option"
  gp_password :: "string option"

definition resolveGatewayProxy :: "crypto_service \<Rightarrow> proxy_setting \<Rightarrow> proxy_health \<Rightarrow> gateway_proxy option result" where
  "resolveGatewayProxy C v h =
     (if \<not> px_enabled v \<or> \<not> px_applyToGateway v \<or> px_host v = [] then Inr None
      else if px_mode v = FAILOVER \<and> ph_directUp h then Inr None
      else ebind (decryptPassword C v) (\<lambda>p.
        Inr (Some \<lparr>gp_protocol = px_protocol v, gp_host = px_host v, gp_port = px_port v,
                   gp_username = px_username v, gp_password = p\<rparr>)))"

text \<open>The probe's answer is looked at only when the check runs.\<close>

definition probed :: "proxy_setting \<Rightarrow> bool \<Rightarrow> proxy_health \<Rightarrow> proxy_health" where
  "probed v reachable h =
     (if reachable then h\<lparr>ph_directUp := True, ph_consecutiveFailures := 0\<rparr>
      else (let n = ph_consecutiveFailures h + 1
            in h\<lparr>ph_consecutiveFailures := n,
                 ph_directUp := (if ph_directUp h \<and> n \<ge> px_healthCheckFailureThreshold v then False else ph_directUp h)\<rparr>))"

definition tick :: "crypto_service \<Rightarrow> instant \<Rightarrow> bool \<Rightarrow> proxy_setting \<Rightarrow> proxy_health
    \<Rightarrow> proxy_health \<times> (proxy_state \<times> string option) result option" where
  "tick C now reachable v h =
     (if \<not> px_enabled v then (h\<lparr>ph_directUp := True, ph_consecutiveFailures := 0\<rparr>, None)
      else if px_mode v = ALWAYS_ON then (h, Some (writeState C now v (Some ProxyPath)))
      else if (case ph_lastCheckedAt h of None \<Rightarrow> False | Some t \<Rightarrow> now - t < px_healthCheckIntervalSeconds v * 1000)
      then (h, None)
      else (let h1 = probed v reachable (h\<lparr>ph_lastCheckedAt := Some now\<rparr>)
            in (h1, Some (writeState C now v (Some (if ph_directUp h1 then DirectPath else ProxyPath))))))"

section \<open>Histories of checks\<close>

text \<open>Ticks at given times with the answers a probe would get.\<close>

definition run_ticks :: "crypto_service \<Rightarrow> proxy_setting \<Rightarrow> (instant \<times> bool) list \<Rightarrow> proxy_health \<Rightarrow> proxy_health" where
  "run_ticks C v = fold (\<lambda>(now, reachable) h. fst (tick C now reachable v h))"

text \<open>A reference: the answers of the ticks that are at least an interval apart.\<close>

fun checks :: "int \<Rightarrow> instant option \<Rightarrow> (instant \<times> bool) list \<Rightarrow> bool list" where
  "checks d t0 [] = []"
| "checks d t0 ((now, b) # ts) =
     (if (case t0 of None \<Rightarrow> False | Some t \<Rightarrow> now - t < d) then checks d t0 ts else b # checks d (Some now) ts)"

definition failures :: "bool list \<Rightarrow> nat" where
  "failures bs = length (takeWhile Not (rev bs))"

lemma failures_simps [simp]:
  "failures [] = 0" "failures (bs @ [True]) = 0" "failures (bs @ [False]) = Suc (failures bs)"
  by (simp_all add: failures_def)

text \<open>What the health record says after a history of answers.\<close>

definition health_after :: "proxy_setting \<Rightarrow> bool list \<Rightarrow> proxy_health \<Rightarrow> bool" where
  "health_after v bs h \<longleftrightarrow> ph_consecutiveFailures h = int (failures bs) \<and>
     (ph_directUp h \<longleftrightarrow> int (failures bs) < px_healthCheckFailureThreshold v)"

lemma probed_after:
  "health_after v bs h \<Longrightarrow> 0 < px_healthCheckFailureThreshold v \<Longrightarrow> health_after v (bs @ [b]) (probed v b h)"
  by (cases b) (auto simp: health_after_def probed_def Let_def)

lemma run_ticks_after:
  assumes "px_enabled v" and "px_mode v = FAILOVER" and "0 < px_healthCheckFailureThreshold v" and "health_after v bs h"
  shows "health_after v (bs @ checks (px_healthCheckIntervalSeconds v * 1000) (ph_lastCheckedAt h) ts) (run_ticks C v ts h)"
  using assms(4)
proof (induction ts arbitrary: bs h)
  case Nil
  then show ?case by (simp add: run_ticks_def)
next
  case (Cons tk ts)
  obtain now b where tk: "tk = (now, b)" by fastforce
  let ?early = "case ph_lastCheckedAt h of None \<Rightarrow> False | Some t \<Rightarrow> now - t < px_healthCheckIntervalSeconds v * 1000"
  let ?h = "fst (tick C now b v h)"
  have step: "?h = (if ?early then h else probed v b (h\<lparr>ph_lastCheckedAt := Some now\<rparr>))"
    using assms(1,2) by (simp add: tick_def Let_def)
  have run: "run_ticks C v (tk # ts) h = run_ticks C v ts ?h" by (simp add: run_ticks_def tk)
  show ?case
  proof (cases ?early)
    case True
    with Cons step show ?thesis unfolding run by (simp add: tk)
  next
    case False
    have "health_after v bs (h\<lparr>ph_lastCheckedAt := Some now\<rparr>)" using Cons.prems by (simp add: health_after_def)
    from probed_after [OF this assms(3)] False have "health_after v (bs @ [b]) ?h" by (simp add: step)
    note IH = Cons.IH [OF this]
    have "ph_lastCheckedAt ?h = Some now" using False by (simp add: step probed_def Let_def)
    with IH False show ?thesis unfolding run by (simp add: tk)
  qed
qed

section \<open>Main properties\<close>

text \<open>When the gateway dials through the proxy.  In failover mode, after any history of ticks, the proxy is
  used exactly when the last checks, as many as the threshold says, have all failed, where a check
  is a tick at least an interval after the one before; one success leads back to the direct path.\<close>

theorem proxy_failover_rule:
  assumes "px_enabled v" and "px_mode v = FAILOVER" and "0 < px_healthCheckFailureThreshold v"
    and "px_applyToGateway v" and "px_host v \<noteq> []" and "decryptPassword C v = Inr p"
  shows "resolveGatewayProxy C v (run_ticks C v ts health_start) =
    Inr (if px_healthCheckFailureThreshold v \<le> int (failures (checks (px_healthCheckIntervalSeconds v * 1000) None ts))
         then Some \<lparr>gp_protocol = px_protocol v, gp_host = px_host v, gp_port = px_port v,
                    gp_username = px_username v, gp_password = p\<rparr>
         else None)"
proof -
  have "health_after v [] health_start" using assms(3) by (simp add: health_after_def health_start_def)
  from run_ticks_after [OF assms(1-3) this, of ts C] show ?thesis
    using assms by (simp add: resolveGatewayProxy_def health_after_def health_start_def)
qed

text \<open>An accepted proxy setting works.  After an update the setting read back has the values given, the
  password, if one was given, is the one that will be used, an empty one is removed and none
  keeps the old; and nothing that is shown or audited contains a ciphertext.\<close>

theorem proxy_update_effect:
  assumes "proxy_update V now iv1 iv2 dto actor s = (t, Inr view)" and "sealing (cr_lib (sv_crypto V))" and "iv1 \<noteq> []"
  shows "px_enabled (proxy_get t) = pxd_enabled dto \<and> px_mode (proxy_get t) = pxd_mode dto \<and>
    px_host (proxy_get t) = trim (pxd_host dto) \<and> (pxd_applyToGateway dto \<longrightarrow> px_host (proxy_get t) \<noteq> []) \<and>
    decryptPassword (sv_crypto V) (proxy_get t) =
      (case pxd_password dto of None \<Rightarrow> decryptPassword (sv_crypto V) (proxy_get s)
       | Some p \<Rightarrow> Inr (if p = [] then None else Some p)) \<and>
    px_passwordCiphertext (fst view) = None \<and> px_vpnConfigCiphertext (fst view) = None"
proof -
  let ?v = "proxy_value (sv_crypto V) iv1 iv2 dto (proxy_get s)"
  let ?in = "\<lparr>au_actorId = Some actor, au_action = ''NETWORK_PROXY_UPDATED'',
               au_entityType = ''SystemSetting'', au_entityId = Some SETTING_KEY, au_ipAddress = None,
               au_before = Some (redact (proxy_get s)), au_after = Some (redact ?v)\<rparr>"
  have g: "pxd_applyToGateway dto \<longrightarrow> trim (pxd_host dto) \<noteq> []" using assms(1) by (auto simp: proxy_update_def)
  from assms(1) have "andThen (audit V now ?in (upsert_setting SETTING_KEY (ProxyValue ?v) s))
      (\<lambda>_ s2. case writeState (sv_crypto V) now ?v None of Inl e \<Rightarrow> (s2, Inl e) | Inr _ \<Rightarrow> (s2, Inr (proxy_safe s2))) = (t, Inr view)"
    unfolding proxy_update_def Let_def by (simp split: if_split_asm)
  then obtain s2 u where a: "audit V now ?in (upsert_setting SETTING_KEY (ProxyValue ?v) s) = (s2, Inr u)"
    and w: "(case writeState (sv_crypto V) now ?v None of Inl e \<Rightarrow> (s2, Inl e) | Inr _ \<Rightarrow> (s2, Inr (proxy_safe s2))) = (t, Inr view)"
    unfolding andThen_eq_Inr by blast
  from w have t: "t = s2" and view: "view = proxy_safe s2" by (auto split: sum.splits)
  have "find_setting SETTING_KEY t = Some (ProxyValue ?v)"
    using find_logged [OF record_event_frame [OF a [unfolded audit_def]]] by (simp add: t)
  then have get: "proxy_get t = ?v" by (simp add: proxy_get_def)
  have enc: "truthy (Some (encrypt (sv_crypto V) iv1 p PASSWORD_CONTEXT))" "decrypt (sv_crypto V) (encrypt (sv_crypto V) iv1 p PASSWORD_CONTEXT) PASSWORD_CONTEXT = Inr p"
    if "p \<noteq> []" for p using decrypt_encrypt [OF assms(2,3) that] by simp_all
  have none: "\<not> truthy None" by (simp add: truthy_def)
  have "decryptPassword (sv_crypto V) ?v = (case pxd_password dto of None \<Rightarrow> decryptPassword (sv_crypto V) (proxy_get s)
       | Some p \<Rightarrow> Inr (if p = [] then None else Some p))"
    by (cases "pxd_password dto") (simp_all add: decryptPassword_def proxy_value_def none enc)
  then show ?thesis
    unfolding get using g view by (simp add: proxy_value_def proxy_safe_def Let_def)
qed

definition example_proxy_dto :: proxy_dto where
  "example_proxy_dto =
     \<lparr>pxd_enabled = True, pxd_mode = FAILOVER, pxd_applyToGateway = True, pxd_applyToSystem = False, pxd_protocol = SOCKS5,
      pxd_host = '' proxy.local '', pxd_port = 1080, pxd_username = None, pxd_password = Some ''pw'',
      pxd_healthCheckHost = ''1.1.1.1'', pxd_healthCheckPort = 443, pxd_healthCheckIntervalSeconds = 30,
      pxd_healthCheckFailureThreshold = 2, pxd_vpnConfigType = NONE, pxd_vpnConfig = None\<rparr>"

definition example_proxy :: proxy_setting where
  "example_proxy = proxy_value example_crypto ''iv'' ''iv'' (example_proxy_dto\<lparr>pxd_password := None\<rparr>) DEFAULT_SETTING"

theorem proxy_failover_rule_witness:
  "resolveGatewayProxy example_crypto example_proxy
     (run_ticks example_crypto example_proxy [(0, True), (30000, False), (40000, True), (60000, False)] health_start) =
   Inr (Some \<lparr>gp_protocol = SOCKS5, gp_host = ''proxy.local'', gp_port = 1080, gp_username = None, gp_password = None\<rparr>)"
proof -
  have f: "px_enabled example_proxy" "px_mode example_proxy = FAILOVER" "px_applyToGateway example_proxy"
    "px_healthCheckFailureThreshold example_proxy = 2" "px_healthCheckIntervalSeconds example_proxy = 30"
    "px_protocol example_proxy = SOCKS5" "px_port example_proxy = 1080" "px_username example_proxy = None"
    "decryptPassword example_crypto example_proxy = Inr None"
    by (simp_all add: example_proxy_def example_proxy_dto_def proxy_value_def DEFAULT_SETTING_def trimmed_or_null_def
        decryptPassword_def truthy_def)
  have h: "px_host example_proxy = ''proxy.local''" by code_simp
  show ?thesis
    using proxy_failover_rule [of example_proxy example_crypto None "[(0, True), (30000, False), (40000, True), (60000, False)]"]
    by (simp add: f h failures_def)
qed

theorem proxy_update_effect_witness:
  "\<exists>t view. proxy_update example_services 0 ''iv'' ''iv'' example_proxy_dto ''a1'' (empty_store show_nat) = (t, Inr view) \<and>
     decryptPassword example_crypto (proxy_get t) = Inr (Some ''pw'')"
proof -
  let ?s = "empty_store show_nat"
  have C: "sv_crypto example_services = example_crypto" by (simp add: example_services_def)
  have host: "trim (pxd_host example_proxy_dto) = ''proxy.local''" by code_simp
  have w: "writeState example_crypto 0 (proxy_value example_crypto ''iv'' ''iv'' example_proxy_dto (proxy_get ?s)) None \<noteq> Inl e" for e
    by (simp add: writeState_def proxy_value_def example_proxy_dto_def Let_def)
  have "isl (snd (proxy_update example_services 0 ''iv'' ''iv'' example_proxy_dto ''a1'' ?s)) = False"
  proof -
    let ?v = "proxy_value example_crypto ''iv'' ''iv'' example_proxy_dto (proxy_get ?s)"
    let ?in = "\<lparr>au_actorId = Some ''a1'', au_action = ''NETWORK_PROXY_UPDATED'',
               au_entityType = ''SystemSetting'', au_entityId = Some SETTING_KEY, au_ipAddress = None,
               au_before = Some (redact (proxy_get ?s)), au_after = Some (redact ?v)\<rparr>"
    have "audit_value ?in" by (simp add: audit_value_def redact_def redacted_def opt_text_def split: option.splits)
    then obtain t where t: "record_event (sv_crypto example_services) (sv_loc example_services) 0 ?in
        (upsert_setting SETTING_KEY (ProxyValue ?v) ?s) = (t, Inr ())" by (rule record_event_total)
    obtain y where "writeState example_crypto 0 ?v None = Inr y" using w by (cases "writeState example_crypto 0 ?v None") auto
    with t show ?thesis by (simp add: proxy_update_def C host audit_def Let_def) (simp add: example_proxy_dto_def)
  qed
  then obtain t view where u: "proxy_update example_services 0 ''iv'' ''iv'' example_proxy_dto ''a1'' ?s = (t, Inr view)"
    by (cases "proxy_update example_services 0 ''iv'' ''iv'' example_proxy_dto ''a1'' ?s"; cases "snd (proxy_update example_services 0 ''iv'' ''iv'' example_proxy_dto ''a1'' ?s)") auto
  have "pxd_password example_proxy_dto = Some ''pw''" by (simp add: example_proxy_dto_def)
  with proxy_update_effect [OF u] example_sealing have "decryptPassword example_crypto (proxy_get t) = Inr (Some ''pw'')" by (simp add: C)
  with u show ?thesis by blast
qed

end
