(* ===== verification/Upstreams.thy ===== *)
theory Upstreams
  imports Proxy
begin

text \<open>
  Mining pools: their administration and health test (\<open>upstreams/upstreams.service.ts\<close>) and the order in
  which the gateway tries them (\<open>gateway/upstream-runtime.service.ts\<close>).  Dialling a pool is a
  parameter, as are the answers of the pool to the requests of the health test.  The slugs that a
  user name template is filled with consist of letters, digits, dashes and underscores.
\<close>

section \<open>Passwords and user names\<close>

definition password_context :: "uuid \<Rightarrow> string" where
  "password_context i = ''upstream:'' @ i @ '':password''"

definition up_password :: "crypto_service \<Rightarrow> upstream \<Rightarrow> string result" where
  "up_password C u =
     (if truthy (up_passwordCiphertext u) then decrypt C (the (up_passwordCiphertext u)) (password_context (up_id u))
      else Inr ''x'')"

text \<open>\<open>replaceAll\<close> of a nonempty text.\<close>

function replace_all :: "string \<Rightarrow> string \<Rightarrow> string \<Rightarrow> string" where
  "replace_all pat new [] = []"
| "replace_all pat new (c # cs) =
     (if pat \<noteq> [] \<and> startsWith (c # cs) pat then new @ replace_all pat new (drop (length pat) (c # cs))
      else c # replace_all pat new cs)"
  by pat_completeness auto

termination replace_all
  by (relation "measure (length \<circ> snd \<circ> snd)") auto

definition renderUsername :: "upstream \<Rightarrow> string \<Rightarrow> string \<Rightarrow> string" where
  "renderUsername u customerSlug workerSlug =
     replace_all ''{username}'' (customerSlug @ ''.'' @ workerSlug)
       (replace_all ''{worker}'' workerSlug (replace_all ''{customer}'' customerSlug (up_usernameTemplate u)))"

definition protocol_text :: "PoolProtocol \<Rightarrow> string" where
  "protocol_text p = (case p of BITCOIN_STRATUM_V1 \<Rightarrow> ''BITCOIN_STRATUM_V1'' | MONERO_JSON_RPC \<Rightarrow> ''MONERO_JSON_RPC'')"

text \<open>What is shown of a pool: everything but the ciphertext.\<close>

definition up_safe :: "upstream \<Rightarrow> json" where
  "up_safe u =
     JObj [(''id'', JStr (up_id u)), (''accountKey'', JStr (up_accountKey u)), (''asset'', JStr (show_asset (up_asset u))),
       (''protocol'', JStr (protocol_text (up_protocol u))), (''name'', JStr (up_name u)), (''host'', JStr (up_host u)),
       (''port'', JNum (show_int (up_port u))), (''tls'', JBool (up_tls u)), (''priority'', JNum (show_int (up_priority u))),
       (''enabled'', JBool (up_enabled u)), (''usernameTemplate'', JStr (up_usernameTemplate u)),
       (''receiveAddress'', opt_text (up_receiveAddress u)),
       (''connectionTimeoutMs'', JNum (show_int (up_connectionTimeoutMs u))),
       (''failbackCooldownSeconds'', JNum (show_int (up_failbackCooldownSeconds u))),
       (''lastHealthAt'', (case up_lastHealthAt u of None \<Rightarrow> JNull | Some t \<Rightarrow> JDate t)),
       (''lastHealthOk'', (case up_lastHealthOk u of None \<Rightarrow> JNull | Some b \<Rightarrow> JBool b)),
       (''lastHealthMessage'', opt_text (up_lastHealthMessage u)),
       (''hasPassword'', JBool (truthy (up_passwordCiphertext u)))]"

section \<open>Creating a pool\<close>

record upstream_dto =
  ud_accountKey :: "string option"
  ud_asset :: AssetCode
  ud_protocol :: PoolProtocol
  ud_name :: string
  ud_host :: string
  ud_port :: int
  ud_tls :: bool
  ud_priority :: int
  ud_usernameTemplate :: string
  ud_password :: "string option"
  ud_receiveAddress :: "string option"

definition upstream_taken :: "upstream \<Rightarrow> upstream list \<Rightarrow> bool" where
  "upstream_taken u us \<longleftrightarrow>
     list_ex (\<lambda>v. up_id v \<noteq> up_id u \<and>
       ((up_asset v, up_name v) = (up_asset u, up_name u) \<or>
        (up_asset v, up_accountKey v, up_host v, up_port v, up_tls v) = (up_asset u, up_accountKey u, up_host u, up_port u, up_tls u))) us"

definition address_valid :: "services \<Rightarrow> AssetCode \<Rightarrow> string option \<Rightarrow> bool result" where
  "address_valid V asset a = (if truthy a then wa_validateAddress (forAsset (sv_wallets V) asset) (the a) else Inr True)"

definition peer_checks :: "crypto_service \<Rightarrow> upstream_dto \<Rightarrow> upstream \<Rightarrow> unit result" where
  "peer_checks C dto peer =
     (if up_protocol peer \<noteq> ud_protocol dto then Inl (BadRequestException ''Pool-account endpoints must use the same protocol'')
      else if up_receiveAddress peer \<noteq> ud_receiveAddress dto
      then Inl (BadRequestException ''Pool-account endpoints must use the same receive address'')
      else if up_usernameTemplate peer \<noteq> ud_usernameTemplate dto
      then Inl (BadRequestException ''Pool-account endpoints must use the same username template'')
      else ebind (up_password C peer) (\<lambda>p.
        if orElse (ud_password dto) ''x'' \<noteq> p
        then Inl (BadRequestException ''Pool-account endpoints must use the same password'') else Inr ()))"

definition created_ciphertext ::
  "crypto_service \<Rightarrow> string \<Rightarrow> upstream_dto \<Rightarrow> uuid \<Rightarrow> upstream option \<Rightarrow> string option result" where
  "created_ciphertext C iv dto i peer =
     (case peer of
        Some p \<Rightarrow>
          if truthy (up_passwordCiphertext p)
          then ebind (up_password C p) (\<lambda>t. Inr (Some (encrypt C iv t (password_context i)))) else Inr None
      | None \<Rightarrow> Inr (if truthy (ud_password dto) then Some (encrypt C iv (the (ud_password dto)) (password_context i)) else None))"

definition new_upstream :: "upstream_dto \<Rightarrow> uuid \<Rightarrow> string option \<Rightarrow> upstream" where
  "new_upstream dto i ciphertext =
     \<lparr>up_id = i, up_accountKey = orElse (ud_accountKey dto) i, up_asset = ud_asset dto, up_protocol = ud_protocol dto,
      up_name = ud_name dto, up_host = ud_host dto, up_port = ud_port dto, up_tls = ud_tls dto,
      up_priority = ud_priority dto, up_enabled = True, up_usernameTemplate = ud_usernameTemplate dto,
      up_passwordCiphertext = ciphertext, up_receiveAddress = ud_receiveAddress dto, up_connectionTimeoutMs = 10000,
      up_failbackCooldownSeconds = 300, up_lastHealthAt = None, up_lastHealthOk = None, up_lastHealthMessage = None\<rparr>"

definition find_peer :: "upstream_dto \<Rightarrow> store \<Rightarrow> upstream option" where
  "find_peer dto s =
     (case ud_accountKey dto of
        None \<Rightarrow> None
      | Some k \<Rightarrow> if k = [] then None else List.find (\<lambda>u. up_asset u = ud_asset dto \<and> up_accountKey u = k) (upstreams s))"

definition create_upstream_row :: "crypto_service \<Rightarrow> string \<Rightarrow> upstream_dto \<Rightarrow> store \<Rightarrow> (store \<times> upstream) result" where
  "create_upstream_row C iv dto s =
     (let peer = find_peer dto s; (i, s1) = new_id s in
      ebind (case peer of None \<Rightarrow> Inr () | Some p \<Rightarrow> peer_checks C dto p) (\<lambda>_.
      ebind (created_ciphertext C iv dto i peer) (\<lambda>ciphertext.
        let u = new_upstream dto i ciphertext in
        if upstream_taken u (upstreams s1) then Inl (UniqueConstraint ''Unique constraint failed'')
        else Inr (s1\<lparr>upstreams := upstreams s1 @ [u]\<rparr>, u))))"

definition create_upstream ::
  "services \<Rightarrow> instant \<Rightarrow> string \<Rightarrow> upstream_dto \<Rightarrow> uuid \<Rightarrow> store \<Rightarrow> store \<times> json result" where
  "create_upstream V now iv dto actor s =
     (if \<not> (ud_protocol dto = BITCOIN_STRATUM_V1 \<and> ud_asset dto = BTC) \<and> \<not> (ud_protocol dto = MONERO_JSON_RPC \<and> ud_asset dto = XMR)
      then (s, Inl (BadRequestException ''Protocol does not match asset''))
      else (case address_valid V (ud_asset dto) (ud_receiveAddress dto) of
              Inl e \<Rightarrow> (s, Inl e)
            | Inr False \<Rightarrow> (s, Inl (BadRequestException ''Invalid receive address for upstream asset''))
            | Inr True \<Rightarrow>
                andThen (transaction (create_upstream_row (sv_crypto V) iv dto) s) (\<lambda>u s1.
                  andThen (audit V now \<lparr>au_actorId = Some actor, au_action = ''UPSTREAM_CREATED'', au_entityType = ''Upstream'',
                      au_entityId = Some (up_id u), au_ipAddress = None, au_before = None, au_after = Some (up_safe u)\<rparr> s1)
                    (\<lambda>_ s2. (s2, Inr (up_safe u))))))"

section \<open>Changing a pool\<close>

record upstream_update =
  uu_accountKey :: "string option"
  uu_name :: "string option"
  uu_host :: "string option"
  uu_port :: "int option"
  uu_tls :: "bool option"
  uu_priority :: "int option"
  uu_enabled :: "bool option"
  uu_usernameTemplate :: "string option"
  uu_password :: "string option"
  uu_receiveAddress :: "string option"

definition updated_ciphertext :: "crypto_service \<Rightarrow> (uuid \<Rightarrow> string) \<Rightarrow> upstream_update \<Rightarrow> upstream \<Rightarrow> string option" where
  "updated_ciphertext C iv dto u =
     (case uu_password dto of
        None \<Rightarrow> up_passwordCiphertext u
      | Some p \<Rightarrow> if p = [] then None else Some (encrypt C (iv (up_id u)) p (password_context (up_id u))))"

definition updated_address :: "upstream_update \<Rightarrow> upstream \<Rightarrow> string option" where
  "updated_address dto u = (case uu_receiveAddress dto of None \<Rightarrow> up_receiveAddress u | Some a \<Rightarrow> Some a)"

definition shared_update :: "crypto_service \<Rightarrow> (uuid \<Rightarrow> string) \<Rightarrow> upstream_update \<Rightarrow> upstream \<Rightarrow> upstream" where
  "shared_update C iv dto u =
     u\<lparr>up_usernameTemplate := orElse (uu_usernameTemplate dto) (up_usernameTemplate u),
       up_receiveAddress := updated_address dto u, up_passwordCiphertext := updated_ciphertext C iv dto u\<rparr>"

definition own_update :: "crypto_service \<Rightarrow> (uuid \<Rightarrow> string) \<Rightarrow> upstream_update \<Rightarrow> upstream \<Rightarrow> upstream" where
  "own_update C iv dto u =
     (shared_update C iv dto u)\<lparr>up_accountKey := orElse (uu_accountKey dto) (up_accountKey u),
       up_name := orElse (uu_name dto) (up_name u), up_host := orElse (uu_host dto) (up_host u),
       up_port := orElse (uu_port dto) (up_port u), up_tls := orElse (uu_tls dto) (up_tls u),
       up_priority := orElse (uu_priority dto) (up_priority u), up_enabled := orElse (uu_enabled dto) (up_enabled u)\<rparr>"

definition is_peer :: "AssetCode \<Rightarrow> string \<Rightarrow> uuid \<Rightarrow> upstream \<Rightarrow> bool" where
  "is_peer asset key i u \<longleftrightarrow> up_asset u = asset \<and> up_accountKey u = key \<and> up_id u \<noteq> i"

definition joining_checks ::
  "crypto_service \<Rightarrow> upstream_update \<Rightarrow> upstream \<Rightarrow> upstream list \<Rightarrow> unit result" where
  "joining_checks C dto before peers =
     (let joining = (orElse (uu_accountKey dto) (up_accountKey before) \<noteq> up_accountKey before);
          nextAddress = updated_address dto before;
          nextTemplate = orElse (uu_usernameTemplate dto) (up_usernameTemplate before) in
      if joining \<and> list_ex (\<lambda>p. up_receiveAddress p \<noteq> nextAddress) peers
      then Inl (BadRequestException ''Pool-account endpoints must use the same receive address'')
      else if joining \<and> list_ex (\<lambda>p. up_usernameTemplate p \<noteq> nextTemplate) peers
      then Inl (BadRequestException ''Pool-account endpoints must use the same username template'')
      else ebind (case uu_password dto of None \<Rightarrow> up_password C before | Some p \<Rightarrow> Inr (if p = [] then ''x'' else p)) (\<lambda>nextPassword.
        if \<not> joining then Inr ()
        else ebind (map_result (up_password C) peers) (\<lambda>ps.
          if list_ex (\<lambda>p. p \<noteq> nextPassword) ps
          then Inl (BadRequestException ''Pool-account endpoints must use the same password'') else Inr ())))"

definition update_rows ::
  "crypto_service \<Rightarrow> (uuid \<Rightarrow> string) \<Rightarrow> upstream_update \<Rightarrow> upstream \<Rightarrow> store \<Rightarrow> (store \<times> upstream) result" where
  "update_rows C iv dto before s =
     (let joining = (orElse (uu_accountKey dto) (up_accountKey before) \<noteq> up_accountKey before);
          us = map (\<lambda>u. if up_id u = up_id before then own_update C iv dto u
                        else if \<not> joining \<and> is_peer (up_asset before) (up_accountKey before) (up_id before) u
                        then shared_update C iv dto u else u) (upstreams s);
          updated = own_update C iv dto before in
      if upstream_taken updated us then Inl (UniqueConstraint ''Unique constraint failed'')
      else Inr (s\<lparr>upstreams := us\<rparr>, updated))"

definition update_upstream ::
  "services \<Rightarrow> instant \<Rightarrow> (uuid \<Rightarrow> string) \<Rightarrow> uuid \<Rightarrow> upstream_update \<Rightarrow> uuid \<Rightarrow> store \<Rightarrow> store \<times> json result" where
  "update_upstream V now iv i dto actor s =
     (case List.find (\<lambda>u. up_id u = i) (upstreams s) of
        None \<Rightarrow> (s, Inl (NotFoundException ''Upstream not found''))
      | Some before \<Rightarrow>
          (let key = orElse (uu_accountKey dto) (up_accountKey before);
               peers = filter (is_peer (up_asset before) key i) (upstreams s) in
           case (if truthy (uu_receiveAddress dto) \<and> uu_receiveAddress dto \<noteq> up_receiveAddress before
                 then address_valid V (up_asset before) (uu_receiveAddress dto) else Inr True) of
             Inl e \<Rightarrow> (s, Inl e)
           | Inr False \<Rightarrow> (s, Inl (BadRequestException ''Invalid receive address for upstream asset''))
           | Inr True \<Rightarrow>
               (case joining_checks (sv_crypto V) dto before peers of
                  Inl e \<Rightarrow> (s, Inl e)
                | Inr _ \<Rightarrow>
                    andThen (transaction (update_rows (sv_crypto V) iv dto before) s) (\<lambda>u s1.
                      andThen (audit V now \<lparr>au_actorId = Some actor, au_action = ''UPSTREAM_UPDATED'', au_entityType = ''Upstream'',
                          au_entityId = Some i, au_ipAddress = None, au_before = Some (up_safe before), au_after = Some (up_safe u)\<rparr> s1)
                        (\<lambda>_ s2. (s2, Inr (up_safe u)))))))"

section \<open>The health test\<close>

definition set_health :: "instant \<Rightarrow> bool \<Rightarrow> string \<Rightarrow> uuid \<Rightarrow> store \<Rightarrow> store" where
  "set_health now ok message i s =
     s\<lparr>upstreams := update_where (\<lambda>u. up_id u = i)
         (\<lambda>u. u\<lparr>up_lastHealthAt := Some now, up_lastHealthOk := Some ok, up_lastHealthMessage := Some message\<rparr>) (upstreams s)\<rparr>"

definition member :: "string \<Rightarrow> json \<Rightarrow> json option" where
  "member k v = (case v of JObj kvs \<Rightarrow> map_of kvs k | _ \<Rightarrow> None)"

text \<open>Truthiness of a JSON value, with \<open>undefined\<close> for a missing member.\<close>

definition js_truthy :: "json option \<Rightarrow> bool" where
  "js_truthy v =
     (case v of
        None \<Rightarrow> False
      | Some JNull \<Rightarrow> False
      | Some (JBool b) \<Rightarrow> b
      | Some (JStr t) \<Rightarrow> t \<noteq> []
      | Some (JNum t) \<Rightarrow> list_ex (\<lambda>c. is_digit c \<and> c \<noteq> CHR ''0'') (takeWhile (\<lambda>c. c \<noteq> CHR ''e'' \<and> c \<noteq> CHR ''E'') t)
      | Some _ \<Rightarrow> True)"

definition is_array :: "json option \<Rightarrow> bool" where
  "is_array v = (case v of Some (JArr _) \<Rightarrow> True | _ \<Rightarrow> False)"

text \<open>\<open>ask\<close> is what the pool answers to a request, or the error that ends the probe.\<close>

definition protocolProbe ::
  "crypto_service \<Rightarrow> (upstream \<Rightarrow> gateway_proxy option \<Rightarrow> unit result) \<Rightarrow> (string \<Rightarrow> json \<Rightarrow> json result) \<Rightarrow>
   gateway_proxy option result \<Rightarrow> upstream \<Rightarrow> unit result" where
  "protocolProbe C dial ask proxy u =
     ebind proxy (\<lambda>p.
     ebind (dial u p) (\<lambda>_.
     ebind (up_password C u) (\<lambda>password.
       let username = renderUsername u ''health'' ''probe'' in
       if up_protocol u = BITCOIN_STRATUM_V1 then
         ebind (ask ''mining.subscribe'' (JArr [JStr ''mitm-health/1.0''])) (\<lambda>subscribed.
         ebind (guard_or (\<not> js_truthy (member ''error'' subscribed) \<and> is_array (member ''result'' subscribed))
                  (Error ''Bitcoin Stratum subscribe failed'')) (\<lambda>_.
         ebind (ask ''mining.authorize'' (JArr [JStr username, JStr password])) (\<lambda>authorized.
           guard_or (\<not> js_truthy (member ''error'' authorized) \<and> member ''result'' authorized = Some (JBool True))
             (Error ''Bitcoin Stratum authentication failed''))))
       else
         ebind (ask ''login'' (JObj [(''login'', JStr username), (''pass'', JStr password), (''agent'', JStr ''mitm-health/1.0'')])) (\<lambda>login.
           let r = orElse (member ''result'' login) JNull in
           guard_or (\<not> js_truthy (member ''error'' login) \<and> js_truthy (member ''id'' r) \<and> member ''status'' r = Some (JStr ''OK''))
             (Error ''Monero pool authentication failed'')))))"

definition test_upstream ::
  "crypto_service \<Rightarrow> (upstream \<Rightarrow> gateway_proxy option \<Rightarrow> unit result) \<Rightarrow> (string \<Rightarrow> json \<Rightarrow> json result) \<Rightarrow>
   gateway_proxy option result \<Rightarrow> instant \<Rightarrow> uuid \<Rightarrow> store \<Rightarrow> store \<times> (bool \<times> string) result" where
  "test_upstream C dial ask proxy now i s =
     (case List.find (\<lambda>u. up_id u = i) (upstreams s) of
        None \<Rightarrow> (s, Inl (NotFoundException ''Upstream not found''))
      | Some u \<Rightarrow>
          (let (ok, message) = (case protocolProbe C dial ask proxy u of
                 Inr _ \<Rightarrow> (True, ''Stratum protocol and authentication successful'')
               | Inl e \<Rightarrow> (False, error_message e))
           in (set_health now ok message i s, Inr (ok, message))))"

section \<open>Choosing a pool\<close>

text \<open>Descending order puts the pools without a health check first.\<close>

definition health_rank :: "bool option \<Rightarrow> nat" where
  "health_rank ok = (case ok of None \<Rightarrow> 0 | Some True \<Rightarrow> 1 | Some False \<Rightarrow> 2)"

definition up_candidates :: "AssetCode \<Rightarrow> uuid list \<Rightarrow> store \<Rightarrow> upstream list" where
  "up_candidates asset excludeIds s =
     sort_key (\<lambda>u. (up_priority u, health_rank (up_lastHealthOk u)))
       (filter (\<lambda>u. up_asset u = asset \<and> up_enabled u \<and> up_id u \<notin> set excludeIds) (upstreams s))"

type_synonym unhealthy = "uuid \<rightharpoonup> instant"

definition is_down :: "instant \<Rightarrow> unhealthy \<Rightarrow> upstream \<Rightarrow> bool" where
  "is_down now m u \<longleftrightarrow> (case m (up_id u) of None \<Rightarrow> 0 | Some t \<Rightarrow> t) > now"

definition candidates :: "instant \<Rightarrow> AssetCode \<Rightarrow> unhealthy \<Rightarrow> store \<Rightarrow> upstream list" where
  "candidates now asset m s = sort_key (\<lambda>u. (if is_down now m u then 1 else 0 :: nat, up_priority u)) (up_candidates asset [] s)"

definition pool_success :: "instant \<Rightarrow> upstream \<Rightarrow> unhealthy \<times> store \<Rightarrow> (unhealthy \<times> store) \<times> unit result" where
  "pool_success now u w =
     (let m = (fst w)(up_id u := None) in
      if \<not> list_ex (\<lambda>v. up_id v = up_id u) (upstreams (snd w)) then ((m, snd w), Inl (RecordNotFound ''Record to update not found''))
      else ((m, resolveByDedupe now (''upstream:'' @ up_id u)
               (set_health now True ''Gateway connection successful'' (up_id u) (snd w))), Inr ()))"

definition pool_failure :: "instant \<Rightarrow> upstream \<Rightarrow> error \<Rightarrow> unhealthy \<times> store \<Rightarrow> unhealthy \<times> store" where
  "pool_failure now u e w =
     ((fst w)(up_id u \<mapsto> now + up_failbackCooldownSeconds u * 1000),
      raise_alert now \<lparr>ai_dedupeKey = ''upstream:'' @ up_id u, ai_severity = WARNING,
          ai_title = show_asset (up_asset u) @ '' upstream unavailable'', ai_message = up_name u @ '': '' @ error_message e\<rparr>
        (set_health now False (take 500 (error_message e)) (up_id u) (snd w)))"

section \<open>Pool accounts\<close>

definition same_account :: "upstream \<Rightarrow> upstream \<Rightarrow> bool" where
  "same_account u v \<longleftrightarrow> up_asset u = up_asset v \<and> up_accountKey u = up_accountKey v"

definition agree :: "crypto_service \<Rightarrow> upstream \<Rightarrow> upstream \<Rightarrow> bool" where
  "agree C u v \<longleftrightarrow> up_receiveAddress u = up_receiveAddress v \<and> up_usernameTemplate u = up_usernameTemplate v \<and>
     (\<exists>p. p \<noteq> [] \<and> up_password C u = Inr p \<and> up_password C v = Inr p)"

definition uniform :: "crypto_service \<Rightarrow> upstream list \<Rightarrow> bool" where
  "uniform C us \<longleftrightarrow> (\<forall>u \<in> set us. \<forall>v \<in> set us. same_account u v \<longrightarrow> agree C u v)"

text \<open>No account key is an identifier that has not been drawn yet.\<close>

definition key_drawn :: "store \<Rightarrow> string \<Rightarrow> bool" where
  "key_drawn s k \<longleftrightarrow> (\<forall>n \<ge> minted s. k \<noteq> uuids s n)"

definition accounts_inv :: "crypto_service \<Rightarrow> store \<Rightarrow> bool" where
  "accounts_inv C s \<longleftrightarrow> inj (uuids s) \<and> unique_on up_id (upstreams s) \<and> up_id ` set (upstreams s) \<subseteq> minted_ids s \<and>
     list_all (key_drawn s \<circ> up_accountKey) (upstreams s) \<and> uniform C (upstreams s)"

lemma agree_sym: "agree C u v \<Longrightarrow> agree C v u"
  by (auto simp: agree_def)

lemma agree_trans: "agree C u v \<Longrightarrow> agree C v w \<Longrightarrow> agree C u w"
  by (auto simp: agree_def)

lemma same_account_trans: "same_account u v \<Longrightarrow> same_account v w \<Longrightarrow> same_account u w"
  by (simp add: same_account_def)

lemma same_account_sym: "same_account u v \<Longrightarrow> same_account v u"
  by (simp add: same_account_def)

text \<open>Adding an endpoint keeps the accounts uniform when it agrees with itself and its account.\<close>

lemma uniform_snoc:
  assumes "uniform C us" and "agree C u u" and "\<And>v. v \<in> set us \<Longrightarrow> same_account u v \<Longrightarrow> agree C u v"
  shows "uniform C (us @ [u])"
  using assms agree_sym same_account_sym unfolding uniform_def by (metis Un_iff empty_iff list.set(1) set_ConsD set_append)

lemma password_encrypted:
  assumes "sealing (cr_lib C)" and "iv \<noteq> []" and "p \<noteq> []" and "up_passwordCiphertext u = Some (encrypt C iv p (password_context (up_id u)))"
  shows "up_password C u = Inr p"
  using decrypt_encrypt [OF assms(1-3)] assms(4) by (simp add: up_password_def)

lemma not_truthy_none [simp]: "\<not> truthy None"
  by (simp add: truthy_def)

lemma password_none: "up_passwordCiphertext u = None \<Longrightarrow> up_password C u = Inr ''x''"
  by (simp add: up_password_def)

text \<open>The password of a row after an update depends only on its password before.\<close>

lemma password_shared:
  assumes "sealing (cr_lib C)" and "\<And>i. iv i \<noteq> []"
  shows "up_password C (shared_update C iv dto u) =
    (case uu_password dto of None \<Rightarrow> up_password C u | Some p \<Rightarrow> Inr (if p = [] then ''x'' else p))"
proof (cases "uu_password dto")
  case None
  then show ?thesis by (simp add: up_password_def shared_update_def updated_ciphertext_def)
next
  case (Some p)
  show ?thesis
  proof (cases "p = []")
    case True
    with Some show ?thesis by (simp add: password_none shared_update_def updated_ciphertext_def)
  next
    case False
    from password_encrypted [OF assms(1) assms(2) [of "up_id u"] False, of "shared_update C iv dto u"] Some False
    show ?thesis by (simp add: shared_update_def updated_ciphertext_def)
  qed
qed

lemma shared_agree:
  assumes "sealing (cr_lib C)" and "\<And>i. iv i \<noteq> []" and "agree C u v"
  shows "agree C (shared_update C iv dto u) (shared_update C iv dto v)"
proof -
  from assms(3) obtain p where p: "p \<noteq> []" "up_password C u = Inr p" "up_password C v = Inr p" by (auto simp: agree_def)
  have "\<exists>q. q \<noteq> [] \<and> up_password C (shared_update C iv dto u) = Inr q \<and> up_password C (shared_update C iv dto v) = Inr q"
    unfolding password_shared [OF assms(1,2)] using p by (auto split: option.splits)
  with assms(3) show ?thesis by (auto simp: agree_def shared_update_def updated_address_def orElse_def split: option.splits)
qed

lemma own_update_agree: "agree C (own_update C iv dto u) v = agree C (shared_update C iv dto u) v"
  "agree C v (own_update C iv dto u) = agree C v (shared_update C iv dto u)"
  by (simp_all add: agree_def own_update_def up_password_def)

lemma update_keys [simp]:
  "up_id (shared_update C iv dto u) = up_id u" "up_asset (shared_update C iv dto u) = up_asset u"
  "up_accountKey (shared_update C iv dto u) = up_accountKey u"
  "up_id (own_update C iv dto u) = up_id u" "up_asset (own_update C iv dto u) = up_asset u"
  "up_accountKey (own_update C iv dto u) = orElse (uu_accountKey dto) (up_accountKey u)"
  by (simp_all add: shared_update_def own_update_def)

subsection \<open>Creation\<close>

lemma find_peer_Some: "find_peer dto s = Some p \<Longrightarrow> p \<in> set (upstreams s) \<and> up_asset p = ud_asset dto \<and> ud_accountKey dto = Some (up_accountKey p)"
  by (auto simp: find_peer_def split: option.splits if_splits dest!: find_SomeD)

lemma find_peer_None:
  "find_peer dto s = None \<Longrightarrow> ud_accountKey dto = Some k \<Longrightarrow> k \<noteq> [] \<Longrightarrow> v \<in> set (upstreams s) \<Longrightarrow>
   up_asset v = ud_asset dto \<Longrightarrow> up_accountKey v \<noteq> k"
  by (auto simp: find_peer_def find_None_iff)

lemma peer_checks_Inr:
  assumes "peer_checks C dto p = Inr ()"
  shows "up_receiveAddress p = ud_receiveAddress dto" and "up_usernameTemplate p = ud_usernameTemplate dto"
    and "up_password C p = Inr (orElse (ud_password dto) ''x'')"
  using assms by (auto simp: peer_checks_def ebind_eq_Inr split: if_splits)

lemma created_agrees:
  assumes "sealing (cr_lib C)" and "iv \<noteq> []" and "peer_checks C dto p = Inr ()" and "agree C p p"
    and "created_ciphertext C iv dto i (Some p) = Inr ct"
  shows "agree C (new_upstream dto i ct) p"
proof -
  from assms(4) obtain t where t: "t \<noteq> []" "up_password C p = Inr t" by (auto simp: agree_def)
  have "up_password C (new_upstream dto i ct) = Inr t"
  proof (cases "truthy (up_passwordCiphertext p)")
    case True
    with assms(5) t have "ct = Some (encrypt C iv t (password_context i))" by (simp add: created_ciphertext_def)
    then show ?thesis by (intro password_encrypted [OF assms(1,2) t(1)]) (simp add: new_upstream_def)
  next
    case False
    with assms(5) have "ct = None" by (simp add: created_ciphertext_def)
    with False t show ?thesis by (simp add: password_none new_upstream_def) (simp add: up_password_def)
  qed
  with peer_checks_Inr [OF assms(3)] t show ?thesis by (simp add: agree_def new_upstream_def)
qed

lemma created_alone:
  assumes "sealing (cr_lib C)" and "iv \<noteq> []" and "created_ciphertext C iv dto i None = Inr ct"
  shows "agree C (new_upstream dto i ct) (new_upstream dto i ct)"
proof (cases "truthy (ud_password dto)")
  case True
  then have p: "the (ud_password dto) \<noteq> []" by (auto simp: truthy_def split: option.splits)
  have "up_password C (new_upstream dto i ct) = Inr (the (ud_password dto))"
    by (rule password_encrypted [OF assms(1,2) p]) (use assms(3) True in \<open>simp add: created_ciphertext_def new_upstream_def\<close>)
  with p show ?thesis by (simp add: agree_def)
next
  case False
  with assms(3) have "ct = None" by (simp add: created_ciphertext_def)
  then show ?thesis by (simp add: agree_def password_none new_upstream_def)
qed

lemma create_row_inv:
  assumes "accounts_inv C s" and "sealing (cr_lib C)" and "iv \<noteq> []"
    and "create_upstream_row C iv dto s = Inr (t, u)"
    and "ud_accountKey dto \<noteq> Some []" and "\<And>k. ud_accountKey dto = Some k \<Longrightarrow> key_drawn s k"
  shows "accounts_inv C t"
proof -
  let ?i = "uuids s (minted s)"
  from assms(4) obtain ct where ct: "created_ciphertext C iv dto ?i (find_peer dto s) = Inr ct"
    and pc: "\<And>p. find_peer dto s = Some p \<Longrightarrow> peer_checks C dto p = Inr ()"
    and u: "u = new_upstream dto ?i ct" and t: "t = s\<lparr>minted := Suc (minted s), upstreams := upstreams s @ [u]\<rparr>"
    by (auto simp: create_upstream_row_def Let_def new_id_def ebind_eq_Inr split: if_splits option.splits)
  have inv: "inj (uuids s)" "unique_on up_id (upstreams s)" "up_id ` set (upstreams s) \<subseteq> minted_ids s"
    "list_all (key_drawn s \<circ> up_accountKey) (upstreams s)" "uniform C (upstreams s)"
    using assms(1) by (simp_all add: accounts_inv_def)
  have self: "agree C u u \<and> (\<forall>v \<in> set (upstreams s). same_account u v \<longrightarrow> agree C u v)"
  proof (cases "find_peer dto s")
    case None
    have "\<not> same_account u v" if v: "v \<in> set (upstreams s)" for v
    proof (cases "ud_accountKey dto")
      case None
      have "up_accountKey v \<noteq> ?i" using inv(4) v by (auto simp: list_all_iff key_drawn_def)
      with None show ?thesis by (auto simp: same_account_def u new_upstream_def orElse_def)
    next
      case (Some k)
      with find_peer_None [OF None Some _ v] assms(5) show ?thesis
        by (auto simp: same_account_def u new_upstream_def orElse_def)
    qed
    with created_alone [OF assms(2,3) ct [unfolded None]] show ?thesis by (simp add: u)
  next
    case (Some p)
    note f = find_peer_Some [OF Some]
    have pp: "agree C p p" using inv(5) f by (auto simp: uniform_def same_account_def)
    have up: "agree C u p" unfolding u by (rule created_agrees [OF assms(2,3) pc [OF Some] pp ct [unfolded Some]])
    have sp: "same_account u p" using f by (simp add: same_account_def u new_upstream_def orElse_def)
    have "agree C u v" if "v \<in> set (upstreams s)" "same_account u v" for v
      using inv(5) f that agree_trans [OF up] same_account_trans [OF same_account_sym [OF sp]] by (auto simp: uniform_def)
    with agree_trans [OF up agree_sym [OF up]] show ?thesis by blast
  qed
  have uni: "uniform C (upstreams t)" using uniform_snoc [OF inv(5)] self by (simp add: t)
  have drawn: "key_drawn t k" if "key_drawn s k" for k using that by (simp add: key_drawn_def t)
  have "key_drawn t (up_accountKey u)"
    using assms(6) drawn inv(1) by (auto simp: u new_upstream_def orElse_def key_drawn_def t inj_eq split: option.splits)
  then have kd: "list_all (key_drawn t \<circ> up_accountKey) (upstreams t)" using inv(4) drawn by (auto simp: t list_all_iff)
  have "up_id u = ?i" by (simp add: u new_upstream_def)
  with inv(1-3) new_id_fresh [OF inv(1)] uni kd show ?thesis
    by (auto simp: accounts_inv_def t minted_ids_def lessThan_Suc)
qed

subsection \<open>Changes\<close>

lemma joining_agrees:
  assumes "sealing (cr_lib C)" and "\<And>i. iv i \<noteq> []" and "joining_checks C dto b peers = Inr ()"
    and "orElse (uu_accountKey dto) (up_accountKey b) \<noteq> up_accountKey b" and "v \<in> set peers" and "agree C b b"
  shows "agree C (shared_update C iv dto b) v"
proof -
  let ?next = "case uu_password dto of None \<Rightarrow> up_password C b | Some p \<Rightarrow> Inr (if p = [] then ''x'' else p)"
  from assms(3,4) obtain q ps where q: "?next = Inr q" and ps: "map_result (up_password C) peers = Inr ps" "\<not> list_ex (\<lambda>p. p \<noteq> q) ps"
    and a: "\<not> list_ex (\<lambda>p. up_receiveAddress p \<noteq> updated_address dto b) peers"
    and t: "\<not> list_ex (\<lambda>p. up_usernameTemplate p \<noteq> orElse (uu_usernameTemplate dto) (up_usernameTemplate b)) peers"
    by (auto simp: joining_checks_def Let_def ebind_eq_Inr split: if_splits)
  have "up_password C v = Inr q"
  proof -
    from assms(5) obtain n where n: "n < length peers" "peers ! n = v" by (auto simp: in_set_conv_nth)
    with map_result_Inr_nth [OF ps(1)] map_result_Inr_length [OF ps(1)] have "up_password C v = Inr (ps ! n)" "n < length ps" by auto
    with ps(2) show ?thesis by (auto simp: list_ex_iff)
  qed
  moreover have "q \<noteq> []" using q assms(6) by (auto simp: agree_def split: option.splits if_splits)
  ultimately show ?thesis
    using q a t assms(5) password_shared [OF assms(1,2), where dto = dto and u = b]
    by (auto simp: agree_def shared_update_def list_ex_iff)
qed

definition updated_row :: "crypto_service \<Rightarrow> (uuid \<Rightarrow> string) \<Rightarrow> upstream_update \<Rightarrow> upstream \<Rightarrow> upstream \<Rightarrow> upstream" where
  "updated_row C iv dto b u =
     (if up_id u = up_id b then own_update C iv dto u
      else if orElse (uu_accountKey dto) (up_accountKey b) = up_accountKey b \<and> is_peer (up_asset b) (up_accountKey b) (up_id b) u
      then shared_update C iv dto u else u)"

lemma updated_row_keys [simp]: "up_id (updated_row C iv dto b u) = up_id u" "up_asset (updated_row C iv dto b u) = up_asset u"
  by (simp_all add: updated_row_def)

lemma uniform_update_staying:
  assumes "sealing (cr_lib C)" and "\<And>i. iv i \<noteq> []" and "uniform C us" and "b \<in> set us" and "unique_on up_id us"
    and "orElse (uu_accountKey dto) (up_accountKey b) = up_accountKey b"
  shows "uniform C (map (updated_row C iv dto b) us)"
proof -
  have id: "u = b" if "u \<in> set us" "up_id u = up_id b" for u using assms(4,5) that by (auto simp: distinct_map inj_on_def)
  have key: "up_accountKey (updated_row C iv dto b u) = up_accountKey u" if "u \<in> set us" for u
    using id [OF that] assms(6) by (auto simp: updated_row_def)
  have row: "agree C (updated_row C iv dto b u) w = agree C (if same_account u b then shared_update C iv dto u else u) w"
    "agree C w (updated_row C iv dto b u) = agree C w (if same_account u b then shared_update C iv dto u else u)"
    if "u \<in> set us" for u w
    using id [OF that] assms(6) by (auto simp: updated_row_def own_update_agree same_account_def is_peer_def)
  have "agree C (updated_row C iv dto b u) (updated_row C iv dto b v)"
    if uv: "u \<in> set us" "v \<in> set us" "same_account (updated_row C iv dto b u) (updated_row C iv dto b v)" for u v
  proof -
    have s: "same_account u v" using uv key by (simp add: same_account_def)
    then have "agree C u v" using assms(3) uv by (simp add: uniform_def)
    moreover have "same_account v b \<longleftrightarrow> same_account u b" using s by (auto simp: same_account_def)
    ultimately show ?thesis using shared_agree [OF assms(1,2)] by (simp add: row uv)
  qed
  then show ?thesis by (auto simp: uniform_def)
qed

lemma uniform_update_joining:
  assumes "sealing (cr_lib C)" and "\<And>i. iv i \<noteq> []" and "uniform C us" and "b \<in> set us" and "unique_on up_id us"
    and "orElse (uu_accountKey dto) (up_accountKey b) \<noteq> up_accountKey b"
    and "joining_checks C dto b (filter (is_peer (up_asset b) (orElse (uu_accountKey dto) (up_accountKey b)) (up_id b)) us) = Inr ()"
  shows "uniform C (map (updated_row C iv dto b) us)"
proof -
  have id: "u = b" if "u \<in> set us" "up_id u = up_id b" for u using assms(4,5) that by (auto simp: distinct_map inj_on_def)
  have row: "updated_row C iv dto b u = (if u = b then own_update C iv dto b else u)" if "u \<in> set us" for u
    using id [OF that] assms(6) by (auto simp: updated_row_def)
  have bb: "agree C b b" using assms(3,4) by (auto simp: uniform_def same_account_def)
  have peer: "agree C (own_update C iv dto b) v" if "v \<in> set us" "v \<noteq> b" "same_account (own_update C iv dto b) v" for v
  proof -
    have "v \<in> set (filter (is_peer (up_asset b) (orElse (uu_accountKey dto) (up_accountKey b)) (up_id b)) us)"
      using that id [of v] by (auto simp: is_peer_def same_account_def)
    from joining_agrees [OF assms(1,2,7,6) this bb] show ?thesis by (simp add: own_update_agree)
  qed
  have own: "agree C (own_update C iv dto b) (own_update C iv dto b)"
    unfolding own_update_agree by (rule shared_agree [OF assms(1,2) bb])
  have "agree C (updated_row C iv dto b u) (updated_row C iv dto b v)"
    if uv: "u \<in> set us" "v \<in> set us" and s: "same_account (updated_row C iv dto b u) (updated_row C iv dto b v)" for u v
  proof (cases "u = b")
    case True
    with s own peer [OF uv(2)] show ?thesis by (cases "v = b") (simp_all add: row uv assms(4))
  next
    case False
    with s agree_sym [OF peer [OF uv(1) False]] same_account_sym assms(3) uv show ?thesis
      by (cases "v = b") (auto simp: row uniform_def)
  qed
  then show ?thesis by (auto simp: uniform_def)
qed

lemma update_rows_inv:
  assumes "accounts_inv C s" and "sealing (cr_lib C)" and "\<And>i. iv i \<noteq> []" and "b \<in> set (upstreams s)"
    and "joining_checks C dto b (filter (is_peer (up_asset b) (orElse (uu_accountKey dto) (up_accountKey b)) (up_id b)) (upstreams s)) = Inr ()"
    and "update_rows C iv dto b s = Inr (t, u)" and "\<And>k. uu_accountKey dto = Some k \<Longrightarrow> key_drawn s k"
  shows "accounts_inv C t"
proof -
  have t: "t = s\<lparr>upstreams := map (updated_row C iv dto b) (upstreams s)\<rparr>"
    using assms(6) by (auto simp: update_rows_def Let_def updated_row_def fun_eq_iff split: if_splits)
  have inv: "unique_on up_id (upstreams s)" "uniform C (upstreams s)" using assms(1) by (simp_all add: accounts_inv_def)
  have "uniform C (upstreams t)"
    using uniform_update_staying [OF assms(2,3) inv(2) assms(4) inv(1)] uniform_update_joining [OF assms(2,3) inv(2) assms(4) inv(1) _ assms(5)]
    by (cases "orElse (uu_accountKey dto) (up_accountKey b) = up_accountKey b") (simp_all add: t)
  moreover have "map up_id (upstreams t) = map up_id (upstreams s)" by (simp add: t)
  then have "unique_on up_id (upstreams t)" "up_id ` set (upstreams t) = up_id ` set (upstreams s)"
    using inv(1) by (metis, metis list.set_map)
  moreover have "key_drawn s (up_accountKey (updated_row C iv dto b v))" if "v \<in> set (upstreams s)" for v
    using assms(1,7) that by (auto simp: updated_row_def accounts_inv_def list_all_iff orElse_def split: option.splits)
  then have "list_all (key_drawn t \<circ> up_accountKey) (upstreams t)" by (auto simp: t list_all_iff key_drawn_def)
  moreover have "inj (uuids t)" "minted_ids t = minted_ids s" using assms(1) by (simp_all add: t accounts_inv_def minted_ids_def)
  ultimately show ?thesis using assms(1) unfolding accounts_inv_def by simp
qed

lemma accounts_inv_same:
  assumes "accounts_inv C s" and "upstreams t = upstreams s" and "uuids t = uuids s" and "minted s \<le> minted t"
  shows "accounts_inv C t"
proof -
  have "minted_ids s \<subseteq> minted_ids t" using assms(3,4) by (auto simp: minted_ids_def)
  moreover have "key_drawn t k" if "key_drawn s k" for k using that assms(3,4) by (simp add: key_drawn_def)
  ultimately show ?thesis using assms(1,2,3) by (auto simp: accounts_inv_def list_all_iff)
qed

lemma accounts_inv_logged: "accounts_inv C s \<Longrightarrow> logged_only s t \<Longrightarrow> accounts_inv C t"
  using accounts_inv_same [of C s t] logged_only_tables [of s t] by blast

lemma set_health_inv: "accounts_inv C s \<Longrightarrow> accounts_inv C (set_health now ok m i s)"
proof -
  assume inv: "accounts_inv C s"
  let ?h = "\<lambda>u. if up_id u = i then u\<lparr>up_lastHealthAt := Some now, up_lastHealthOk := Some ok, up_lastHealthMessage := Some m\<rparr> else u"
  have t: "set_health now ok m i s = s\<lparr>upstreams := map ?h (upstreams s)\<rparr>" by (simp add: set_health_def update_where_def)
  have same: "same_account (?h u) (?h v) = same_account u v \<and> agree C (?h u) (?h v) = agree C u v" for u v
    by (simp add: same_account_def agree_def up_password_def)
  have "agree C (?h u) (?h v)" if "u \<in> set (upstreams s)" "v \<in> set (upstreams s)" "same_account (?h u) (?h v)" for u v
    using inv that same [of u v] by (simp add: accounts_inv_def uniform_def del: if_split)
  then have "uniform C (map ?h (upstreams s))" unfolding uniform_def set_map by blast
  moreover have ids: "map up_id (map ?h (upstreams s)) = map up_id (upstreams s)" "map up_accountKey (map ?h (upstreams s)) = map up_accountKey (upstreams s)"
    by (simp_all add: if_distrib cong: if_cong)
  moreover have "unique_on up_id (map ?h (upstreams s))" "up_id ` set (map ?h (upstreams s)) = up_id ` set (upstreams s)"
    "list_all (key_drawn s \<circ> up_accountKey) (map ?h (upstreams s))"
  proof -
    show "unique_on up_id (map ?h (upstreams s))" using inv unfolding ids(1) by (simp add: accounts_inv_def)
    show "up_id ` set (map ?h (upstreams s)) = up_id ` set (upstreams s)" using arg_cong [OF ids(1), of set] by (simp only: set_map)
    have "list_all (key_drawn s) (map up_accountKey (map ?h (upstreams s)))"
      using inv unfolding ids(2) by (simp add: accounts_inv_def list.pred_map)
    then show "list_all (key_drawn s \<circ> up_accountKey) (map ?h (upstreams s))" by (simp only: list.pred_map)
  qed
  moreover have "key_drawn (s\<lparr>upstreams := us\<rparr>) = key_drawn s" for us by (simp add: key_drawn_def fun_eq_iff)
  moreover define us where "us = map ?h (upstreams s)"
  ultimately have "uniform C us" "unique_on up_id us" "up_id ` set us = up_id ` set (upstreams s)"
    "list_all (key_drawn s \<circ> up_accountKey) us" "key_drawn (s\<lparr>upstreams := us\<rparr>) = key_drawn s" by blast+
  then show ?thesis using inv unfolding t us_def [symmetric] accounts_inv_def by (simp add: minted_ids_def)
qed

lemma create_upstream_inv:
  assumes "accounts_inv (sv_crypto V) s" and "sealing (cr_lib (sv_crypto V))" and "iv \<noteq> []"
    and "ud_accountKey dto \<noteq> Some []" and "\<And>k. ud_accountKey dto = Some k \<Longrightarrow> key_drawn s k"
  shows "accounts_inv (sv_crypto V) (fst (create_upstream V now iv dto actor s))"
proof (cases "create_upstream_row (sv_crypto V) iv dto s")
  case (Inl e)
  with assms(1) show ?thesis by (simp add: create_upstream_def transaction_def split: sum.splits bool.splits)
next
  case (Inr tu)
  obtain t u where tu: "tu = (t, u)" by fastforce
  have t: "accounts_inv (sv_crypto V) t" by (rule create_row_inv [OF assms(1-3) Inr [unfolded tu] assms(4,5)])
  have "accounts_inv (sv_crypto V) (fst (andThen (audit V now input t) (\<lambda>_ s2. (s2, Inr x))))" for input and x :: json
    by (rule accounts_inv_logged [OF t andThen_audit_logged]) (rule logged_only_refl)
  with assms(1) Inr show ?thesis by (simp add: create_upstream_def transaction_def tu split: sum.splits bool.splits)
qed

lemma update_upstream_inv:
  assumes "accounts_inv (sv_crypto V) s" and "sealing (cr_lib (sv_crypto V))" and "\<And>i. iv i \<noteq> []"
    and "\<And>k. uu_accountKey dto = Some k \<Longrightarrow> key_drawn s k"
  shows "accounts_inv (sv_crypto V) (fst (update_upstream V now iv i dto actor s))"
proof (cases "List.find (\<lambda>u. up_id u = i) (upstreams s)")
  case None
  with assms(1) show ?thesis by (simp add: update_upstream_def)
next
  case (Some b)
  from find_SomeD [OF Some] have b: "b \<in> set (upstreams s)" "up_id b = i" by auto
  let ?peers = "filter (is_peer (up_asset b) (orElse (uu_accountKey dto) (up_accountKey b)) i) (upstreams s)"
  have "accounts_inv (sv_crypto V) (fst (andThen (transaction (update_rows (sv_crypto V) iv dto b) s) (\<lambda>u s1.
      andThen (audit V now (input u) s1) (\<lambda>_ s2. (s2, Inr (up_safe u))))))"
    if j: "joining_checks (sv_crypto V) dto b ?peers = Inr ()" for input
  proof (cases "update_rows (sv_crypto V) iv dto b s")
    case (Inl e)
    with assms(1) show ?thesis by (simp add: transaction_def)
  next
    case (Inr tu)
    obtain t u where tu: "tu = (t, u)" by fastforce
    have "accounts_inv (sv_crypto V) t"
      by (rule update_rows_inv [OF assms(1-3) b(1) _ Inr [unfolded tu] assms(4)]) (use j b in simp_all)
    then have "accounts_inv (sv_crypto V) (fst (andThen (audit V now (input u) t) (\<lambda>_ s2. (s2, Inr (up_safe u)))))"
      by (rule accounts_inv_logged [OF _ andThen_audit_logged]) (rule logged_only_refl)
    with Inr show ?thesis by (simp add: transaction_def tu)
  qed
  with assms(1) show ?thesis
    by (simp add: update_upstream_def Some Let_def split: sum.splits bool.splits)
qed

section \<open>Histories\<close>

inductive upstreams_reachable :: "services \<Rightarrow> store \<Rightarrow> bool" for V where
  start: "inj (uuids s) \<Longrightarrow> upstreams s = [] \<Longrightarrow> upstreams_reachable V s"
| create: "upstreams_reachable V s \<Longrightarrow> iv \<noteq> [] \<Longrightarrow> ud_accountKey dto \<noteq> Some [] \<Longrightarrow>
    (\<And>k. ud_accountKey dto = Some k \<Longrightarrow> key_drawn s k) \<Longrightarrow> upstreams_reachable V (fst (create_upstream V now iv dto actor s))"
| update: "upstreams_reachable V s \<Longrightarrow> (\<And>i. iv i \<noteq> []) \<Longrightarrow> (\<And>k. uu_accountKey dto = Some k \<Longrightarrow> key_drawn s k) \<Longrightarrow>
    upstreams_reachable V (fst (update_upstream V now iv i dto actor s))"
| test: "upstreams_reachable V s \<Longrightarrow> upstreams_reachable V (fst (test_upstream (sv_crypto V) dial ask proxy now i s))"
| success: "upstreams_reachable V s \<Longrightarrow> upstreams_reachable V (snd (fst (pool_success now u (m, s))))"
| failure: "upstreams_reachable V s \<Longrightarrow> upstreams_reachable V (snd (pool_failure now u e (m, s)))"
| other: "upstreams_reachable V s \<Longrightarrow> upstreams t = upstreams s \<Longrightarrow> uuids t = uuids s \<Longrightarrow> minted s \<le> minted t \<Longrightarrow> upstreams_reachable V t"

lemma upstreams_reachable_inv:
  assumes "upstreams_reachable V s" and "sealing (cr_lib (sv_crypto V))"
  shows "accounts_inv (sv_crypto V) s"
  using assms(1)
proof (induction rule: upstreams_reachable.induct)
  case (start s)
  then show ?case by (simp add: accounts_inv_def uniform_def)
next
  case (create s iv dto now actor)
  then show ?case by (intro create_upstream_inv assms(2)) auto
next
  case (update s iv dto now i actor)
  then show ?case by (intro update_upstream_inv assms(2)) auto
next
  case (test s dial ask proxy now i)
  then show ?case by (auto simp: test_upstream_def set_health_inv split: option.splits prod.splits)
next
  case (success s now u m)
  then show ?case
    by (auto simp: pool_success_def Let_def intro!: accounts_inv_logged [OF set_health_inv alerts_only_logged [OF resolveByDedupe_only]])
next
  case (failure s now u e m)
  then show ?case
    by (auto simp: pool_failure_def intro!: accounts_inv_logged [OF set_health_inv alerts_only_logged [OF raise_alert_only]])
next
  case (other s t)
  from accounts_inv_same [OF other.IH other.hyps(2-4)] show ?case .
qed

section \<open>Main properties\<close>


definition example_upstream_dto :: "string \<Rightarrow> upstream_dto" where
  "example_upstream_dto name =
     \<lparr>ud_accountKey = Some ''acct'', ud_asset = XMR, ud_protocol = MONERO_JSON_RPC, ud_name = name, ud_host = name,
      ud_port = 3333, ud_tls = False, ud_priority = 1, ud_usernameTemplate = ''{username}'', ud_password = None,
      ud_receiveAddress = None\<rparr>"

lemma create_upstream_adds:
  assumes "create_upstream_row (sv_crypto V) iv dto s = Inr (t, u)" and "ud_protocol dto = MONERO_JSON_RPC" and "ud_asset dto = XMR"
    and "ud_receiveAddress dto = None"
  shows "upstreams (fst (create_upstream V now iv dto actor s)) = upstreams t \<and>
    uuids (fst (create_upstream V now iv dto actor s)) = uuids t"
proof -
  have "logged_only t (fst (andThen (audit V now input t) (\<lambda>_ s2. (s2, Inr x))))" for input and x :: json
    by (rule andThen_audit_logged) (rule logged_only_refl)
  from logged_only_tables(3,8) [OF this] assms show ?thesis
    by (simp add: create_upstream_def address_valid_def transaction_def)
qed


end
