(* ===== verification/Shares.thy ===== *)
theory Shares
  imports GatewayAuth DepositAllocation
begin

text \<open>
  Shares: the work a share stands for (\<open>gateway/pool-adapters.ts\<close>), the journal that records shares and
  connections (\<open>gateway/share-journal.service.ts\<close>), and the maintenance of the share table
  (\<open>gateway/share-maintenance.service.ts\<close>).  Reading a decimal text is a parameter, like the rest of
  decimal.js; a value that does not fit its column is an exception of the database.
\<close>

section \<open>Pool adapters\<close>

record share_lib =
  sl_decimal :: decimal_lib
  sl_read :: "string \<Rightarrow> rat option"

definition new_Decimal :: "share_lib \<Rightarrow> string \<Rightarrow> rat result" where
  "new_Decimal P t = (case sl_read P t of None \<Rightarrow> Inl (Error (''[DecimalError] Invalid argument: '' @ t)) | Some x \<Rightarrow> Inr x)"

definition btc_normalizedWork :: "share_lib \<Rightarrow> string \<Rightarrow> rat result" where
  "btc_normalizedWork P difficulty =
     ebind (new_Decimal P difficulty) (\<lambda>d. Inr (dec_toFixed (sl_decimal P) 18 (dec_mul (sl_decimal P) d 4294967296)))"

definition xmr_normalizedWork :: "share_lib \<Rightarrow> string \<Rightarrow> rat result" where
  "xmr_normalizedWork P difficulty = ebind (new_Decimal P difficulty) (\<lambda>d. Inr (dec_toFixed (sl_decimal P) 18 d))"

definition strip_0x :: "string \<Rightarrow> string" where
  "strip_0x t = (if startsWith t ''0x'' then drop 2 t else t)"

fun hex_bytes :: "string \<Rightarrow> nat list" where
  "hex_bytes (a # b # cs) = (16 * the (hex_value a) + the (hex_value b)) # hex_bytes cs"
| "hex_bytes _ = []"

text \<open>The number whose hexadecimal text is the reversed bytes.\<close>

definition little_endian :: "nat list \<Rightarrow> nat" where
  "little_endian bs = foldr (\<lambda>b n. b + 256 * n) bs 0"

definition difficultyFromTarget :: "string \<Rightarrow> string" where
  "difficultyFromTarget target =
     (let clean = strip_0x target in
      if clean = [] \<or> \<not> list_all (\<lambda>c. hex_value c \<noteq> None) clean \<or> odd (length clean) then ''1''
      else (let bytes = hex_bytes clean;
                value = little_endian bytes
            in if value \<le> 0 then ''1''
               else (let difficulty = (2 ^ (length bytes * 8) - 1) div value
                     in show_nat (if difficulty > 0 then difficulty else 1))))"

section \<open>The journal\<close>

definition createConnection ::
  "instant \<Rightarrow> authorized_worker \<Rightarrow> uuid \<Rightarrow> string \<Rightarrow> string option \<Rightarrow> store \<Rightarrow> store \<times> connection_session result" where
  "createConnection now auth upstreamId remoteIp clientAgent s =
     (if (case clientAgent of None \<Rightarrow> False | Some a \<Rightarrow> length a > 255) then (s, Inl (Error ''The value is too long for the column''))
      else (let (i, s1) = new_id s;
                c = \<lparr>cn_id = i, cn_workerId = wk_id (aw_worker auth), cn_upstreamId = Some upstreamId,
                     cn_asset = wk_asset (aw_worker auth), cn_remoteIp = remoteIp, cn_clientAgent = clientAgent,
                     cn_acceptedCount = 0, cn_rejectedCount = 0, cn_connectedAt = now, cn_disconnectedAt = None,
                     cn_disconnectCode = None\<rparr>
            in (s1\<lparr>connectionSessions := connectionSessions s1 @ [c]\<rparr>, Inr c)))"

definition closeConnection :: "instant \<Rightarrow> uuid \<Rightarrow> string \<Rightarrow> store \<Rightarrow> store" where
  "closeConnection now i code s =
     s\<lparr>connectionSessions := update_where (\<lambda>c. cn_id c = i \<and> cn_disconnectedAt c = None)
         (\<lambda>c. c\<lparr>cn_disconnectedAt := Some now, cn_disconnectCode := Some (take 80 code)\<rparr>) (connectionSessions s)\<rparr>"

definition activePolicy :: "instant \<Rightarrow> uuid \<Rightarrow> AssetCode \<Rightarrow> store \<Rightarrow> split_policy result" where
  "activePolicy now customerId asset s =
     (case current_policy now customerId asset s of
        None \<Rightarrow> Inl (RecordNotFound ''No SplitPolicyVersion found'') | Some p \<Rightarrow> Inr p)"

definition fits_column :: "nat \<Rightarrow> nat \<Rightarrow> rat \<Rightarrow> bool" where
  "fits_column precision scale x \<longleftrightarrow> \<bar>x\<bar> < 10 ^ (precision - scale)"

type_synonym share_reference = "uuid \<times> instant"

record share_input =
  si_auth :: authorized_worker
  si_upstreamId :: uuid
  si_connectionId :: uuid
  si_requestKey :: string
  si_difficulty :: string

definition create_share :: "instant \<Rightarrow> share_input \<Rightarrow> uuid \<Rightarrow> rat \<Rightarrow> rat \<Rightarrow> store \<Rightarrow> store \<times> share_reference result" where
  "create_share now input policyId difficulty work s =
     (if length (si_requestKey input) > 160 \<or> \<not> fits_column 38 18 difficulty \<or> \<not> fits_column 65 18 work
      then (s, Inl (Error ''The value does not fit the column''))
      else if (si_connectionId input, si_requestKey input, now) \<in>
          (\<lambda>x. (sh_connectionId x, sh_requestKey x, sh_submittedAt x)) ` set (shareEvents s)
      then (s, Inl (UniqueConstraint ''Unique constraint failed''))
      else (let (i, s1) = new_id s
            in (s1\<lparr>shareEvents := shareEvents s1 @ [\<lparr>sh_id = i, sh_asset = wk_asset (aw_worker (si_auth input)),
                  sh_customerId = cust_id (aw_customer (si_auth input)), sh_workerId = wk_id (aw_worker (si_auth input)),
                  sh_upstreamId = si_upstreamId input, sh_connectionId = si_connectionId input, sh_splitPolicyId = policyId,
                  sh_requestKey = si_requestKey input, sh_status = ShareStatus.PENDING, sh_difficulty = difficulty,
                  sh_normalizedWork = work, sh_submittedAt = now, sh_resolvedAt = None, sh_upstreamLatencyMs = None,
                  sh_rejectReason = None, sh_allocationBatchId = None\<rparr>]\<rparr>, Inr (i, now))))"

definition pending_share :: "share_lib \<Rightarrow> instant \<Rightarrow> share_input \<Rightarrow> store \<Rightarrow> store \<times> share_reference result" where
  "pending_share P now input s =
     (let asset = wk_asset (aw_worker (si_auth input)) in
      case ebind (activePolicy now (cust_id (aw_customer (si_auth input))) asset s) (\<lambda>policy.
           ebind (if asset = BTC then btc_normalizedWork P (si_difficulty input)
                  else xmr_normalizedWork P (si_difficulty input)) (\<lambda>work.
           ebind (new_Decimal P (si_difficulty input)) (\<lambda>d. Inr (policy, work, dec_toFixed (sl_decimal P) 18 d)))) of
        Inl e \<Rightarrow> (s, Inl e)
      | Inr (policy, work, d) \<Rightarrow> create_share now input (sp_id policy) d work s)"

definition is_share :: "share_reference \<Rightarrow> share_event \<Rightarrow> bool" where
  "is_share r x \<longleftrightarrow> (sh_id x, sh_submittedAt x) = r"

definition resolved_share :: "instant \<Rightarrow> bool \<Rightarrow> int \<Rightarrow> string option \<Rightarrow> share_event \<Rightarrow> share_event" where
  "resolved_share now accepted latencyMs reason x =
     x\<lparr>sh_status := if accepted then ACCEPTED else REJECTED, sh_resolvedAt := Some now,
       sh_upstreamLatencyMs := Some latencyMs,
       sh_rejectReason := (case reason of None \<Rightarrow> sh_rejectReason x | Some t \<Rightarrow> Some (take 1000 t))\<rparr>"

definition count_share :: "bool \<Rightarrow> connection_session \<Rightarrow> connection_session" where
  "count_share accepted c =
     (if accepted then c\<lparr>cn_acceptedCount := cn_acceptedCount c + 1\<rparr> else c\<lparr>cn_rejectedCount := cn_rejectedCount c + 1\<rparr>)"

definition resolve_body ::
  "instant \<Rightarrow> share_reference \<Rightarrow> bool \<Rightarrow> int \<Rightarrow> string option \<Rightarrow> store \<Rightarrow> (store \<times> uuid) result" where
  "resolve_body now r accepted latencyMs reason s =
     (case List.find (is_share r) (shareEvents s) of
        None \<Rightarrow> Inl (RecordNotFound ''Record to update not found'')
      | Some x \<Rightarrow>
          if \<not> list_ex (\<lambda>c. cn_id c = sh_connectionId x) (connectionSessions s)
          then Inl (RecordNotFound ''Record to update not found'')
          else Inr (s\<lparr>shareEvents := update_where (is_share r) (resolved_share now accepted latencyMs reason) (shareEvents s),
                      connectionSessions := update_where (\<lambda>c. cn_id c = sh_connectionId x) (count_share accepted) (connectionSessions s)\<rparr>,
                    sh_id x))"

definition resolve_share ::
  "instant \<Rightarrow> share_reference \<Rightarrow> bool \<Rightarrow> int \<Rightarrow> string option \<Rightarrow> store \<Rightarrow> store \<times> unit result" where
  "resolve_share now r accepted latencyMs reason s =
     andThen (transaction (resolve_body now r accepted latencyMs reason) s)
       (\<lambda>i s1. (publish ''share.resolved'' i s1, Inr ()))"

definition to_unknown :: "instant \<Rightarrow> string \<Rightarrow> share_event \<Rightarrow> share_event" where
  "to_unknown now reason x = x\<lparr>sh_status := UNKNOWN, sh_resolvedAt := Some now, sh_rejectReason := Some (take 1000 reason)\<rparr>"

definition unknown_shares :: "instant \<Rightarrow> share_reference list \<Rightarrow> string \<Rightarrow> store \<Rightarrow> store" where
  "unknown_shares now rs reason s =
     (if rs = [] then s
      else raise_alert now
             \<lparr>ai_dedupeKey = ''unknown-shares'', ai_severity = WARNING, ai_title = ''Shares require reconciliation'',
              ai_message = show_nat (length rs) @ '' share responses became UNKNOWN: '' @ reason\<rparr>
             (fold (\<lambda>r s. s\<lparr>shareEvents := update_where (\<lambda>x. is_share r x \<and> sh_status x = ShareStatus.PENDING)
                     (to_unknown now reason) (shareEvents s)\<rparr>) rs s))"

section \<open>Maintenance\<close>

definition stale_share :: "instant \<Rightarrow> share_event \<Rightarrow> bool" where
  "stale_share now x \<longleftrightarrow> sh_status x = ShareStatus.PENDING \<and> sh_submittedAt x < now - 600000"

definition reconcilePending :: "instant \<Rightarrow> store \<Rightarrow> store" where
  "reconcilePending now s =
     (let count = length (filter (stale_share now) (shareEvents s));
          s1 = s\<lparr>shareEvents := update_where (stale_share now) (to_unknown now ''Gateway response was not recorded'') (shareEvents s)\<rparr>
      in if count > 0
         then raise_alert now \<lparr>ai_dedupeKey = ''stale-pending-shares'', ai_severity = WARNING,
                ai_title = ''Shares require reconciliation'',
                ai_message = show_nat count @ '' stale PENDING shares were moved to UNKNOWN''\<rparr> s1
         else s1)"

definition prunable :: "instant \<Rightarrow> share_event \<Rightarrow> bool" where
  "prunable cutoff x \<longleftrightarrow> sh_submittedAt x < cutoff \<and>
     (sh_status x = ACCEPTED \<and> sh_allocationBatchId x \<noteq> None \<or> sh_status x = REJECTED \<or> sh_status x = UNKNOWN)"

definition pruneRawShares :: "environment \<Rightarrow> instant \<Rightarrow> store \<Rightarrow> store" where
  "pruneRawShares e now s =
     s\<lparr>shareEvents := filter (\<lambda>x. \<not> prunable (now - RAW_SHARE_RETENTION_DAYS e * 86400000) x) (shareEvents s)\<rparr>"

subsection \<open>Aggregates\<close>

record share_aggregate =
  sa_bucketStart :: instant
  sa_bucketSeconds :: int
  sa_asset :: AssetCode
  sa_customerId :: uuid
  sa_workerId :: uuid
  sa_acceptedCount :: nat
  sa_rejectedCount :: nat
  sa_acceptedWork :: rat
  sa_rejectedWork :: rat
  sa_avgLatencyMs :: "int option"

definition date_bin :: "int \<Rightarrow> instant \<Rightarrow> instant" where
  "date_bin seconds t = t div (seconds * 1000) * (seconds * 1000)"

definition avg_latency :: "share_event list \<Rightarrow> int option" where
  "avg_latency xs =
     (case List.map_filter sh_upstreamLatencyMs xs of
        [] \<Rightarrow> None | ls \<Rightarrow> Some \<lfloor>rat_of_int (sum_list ls) / of_nat (length ls) + 1 / 2\<rfloor>)"

definition aggregated :: "instant \<Rightarrow> share_event \<Rightarrow> bool" where
  "aggregated cutoff x \<longleftrightarrow> sh_submittedAt x \<ge> cutoff \<and> (sh_status x = ACCEPTED \<or> sh_status x = REJECTED)"

definition group_key :: "int \<Rightarrow> share_event \<Rightarrow> instant \<times> AssetCode \<times> uuid \<times> uuid" where
  "group_key seconds x = (date_bin seconds (sh_submittedAt x), sh_asset x, sh_customerId x, sh_workerId x)"

definition aggregate_row :: "int \<Rightarrow> share_event list \<Rightarrow> instant \<times> AssetCode \<times> uuid \<times> uuid \<Rightarrow> share_aggregate" where
  "aggregate_row seconds xs k =
     (let ys = filter (\<lambda>x. group_key seconds x = k) xs; (b, a, c, w) = k
      in \<lparr>sa_bucketStart = b, sa_bucketSeconds = seconds, sa_asset = a, sa_customerId = c, sa_workerId = w,
          sa_acceptedCount = length (filter (\<lambda>x. sh_status x = ACCEPTED) ys),
          sa_rejectedCount = length (filter (\<lambda>x. sh_status x = REJECTED) ys),
          sa_acceptedWork = sum_where (\<lambda>x. sh_status x = ACCEPTED) sh_normalizedWork ys,
          sa_rejectedWork = sum_where (\<lambda>x. sh_status x = REJECTED) sh_normalizedWork ys,
          sa_avgLatencyMs = avg_latency ys\<rparr>)"

definition grouped_rows :: "int \<Rightarrow> instant \<Rightarrow> share_event list \<Rightarrow> share_aggregate list" where
  "grouped_rows seconds cutoff xs =
     (let ys = filter (aggregated cutoff) xs in map (aggregate_row seconds ys) (remdups (map (group_key seconds) ys)))"

definition conflict_key :: "share_aggregate \<Rightarrow> instant \<times> int \<times> uuid" where
  "conflict_key a = (sa_bucketStart a, sa_bucketSeconds a, sa_workerId a)"

text \<open>\<open>ON CONFLICT DO UPDATE\<close>: the counts of the row are replaced.\<close>

definition upsert_aggregate :: "share_aggregate \<Rightarrow> share_aggregate list \<Rightarrow> share_aggregate list" where
  "upsert_aggregate a as =
     (if conflict_key a \<in> conflict_key ` set as
      then update_where (\<lambda>b. conflict_key b = conflict_key a)
             (\<lambda>b. b\<lparr>sa_acceptedCount := sa_acceptedCount a, sa_rejectedCount := sa_rejectedCount a,
                    sa_acceptedWork := sa_acceptedWork a, sa_rejectedWork := sa_rejectedWork a,
                    sa_avgLatencyMs := sa_avgLatencyMs a\<rparr>) as
      else as @ [a])"

text \<open>One statement; it fails as a whole when it would affect a row twice.\<close>

definition upsertBuckets :: "int \<Rightarrow> instant \<Rightarrow> store \<Rightarrow> share_aggregate list \<Rightarrow> share_aggregate list result" where
  "upsertBuckets seconds cutoff s as =
     (let rows = grouped_rows seconds cutoff (shareEvents s) in
      if unique_on conflict_key rows then Inr (fold upsert_aggregate rows as)
      else Inl (Error ''ON CONFLICT DO UPDATE command cannot affect row a second time''))"

text \<open>The three widths in order; a failure ends the run and is only logged.\<close>

definition aggregate :: "instant \<Rightarrow> store \<Rightarrow> share_aggregate list \<Rightarrow> share_aggregate list" where
  "aggregate now s as =
     (case upsertBuckets 60 (now - 5 * 60000) s as of
        Inl _ \<Rightarrow> as
      | Inr as1 \<Rightarrow>
          (case upsertBuckets 3600 (now - 3 * 60 * 60000) s as1 of
             Inl _ \<Rightarrow> as1
           | Inr as2 \<Rightarrow>
               (case upsertBuckets 86400 (now - 3 * 24 * 60 * 60000) s as2 of
                  Inl _ \<Rightarrow> as2 | Inr as3 \<Rightarrow> as3)))"

section \<open>Targets\<close>

lemma little_endian_bound: "list_all (\<lambda>b. b < 256) bs \<Longrightarrow> little_endian bs < 256 ^ length bs"
proof (induction bs)
  case (Cons b bs)
  then have "b + 256 * little_endian bs < 256 * 256 ^ length bs" by (simp add: little_endian_def)
  then show ?case by (simp add: little_endian_def)
qed (simp add: little_endian_def)

lemma hex_value_less: "hex_value c = Some n \<Longrightarrow> n < 16"
  by (auto simp: hex_value_def Let_def split: if_splits)

lemma hex_bytes_facts:
  assumes "list_all (\<lambda>c. hex_value c \<noteq> None) cs" and "even (length cs)"
  shows "list_all (\<lambda>b. b < 256) (hex_bytes cs)" and "length (hex_bytes cs) * 8 = 4 * length cs"
  using assms
proof (induction cs rule: hex_bytes.induct)
  case (1 a b cs)
  {
    case 1
    from 1 obtain x y where "hex_value a = Some x" "hex_value b = Some y" by auto
    with hex_value_less [of a x] hex_value_less [of b y] "1.IH" 1 show ?case by simp
  next
    case 2
    with "1.IH" show ?case by simp
  }
qed simp_all

lemma difficulty_range:
  fixes k v :: nat
  assumes "0 < v" and "v < 2 ^ k"
  shows "0 < (2 ^ k - 1) div v" and "(2 ^ k - 1) div v * v < 2 ^ k" and "2 ^ k \<le> ((2 ^ k - 1) div v + 1) * v"
proof -
  have "v \<le> 2 ^ k - 1" using assms by simp
  then show "0 < (2 ^ k - 1) div v" using assms(1) by (simp add: div_greater_zero_iff)
  have "(2 ^ k - 1) div v * v \<le> 2 ^ k - 1" by (rule div_times_less_eq_dividend)
  also have "\<dots> < 2 ^ k" by simp
  finally show "(2 ^ k - 1) div v * v < 2 ^ k" .
  have "2 ^ k - 1 < ((2 ^ k - 1) div v + 1) * v" using assms(1) dividend_less_div_times [of v "2 ^ k - 1"] by (simp add: algebra_simps)
  then show "2 ^ k \<le> ((2 ^ k - 1) div v + 1) * v" by linarith
qed

section \<open>Aggregation\<close>

definition aggregate_counts :: "share_aggregate \<Rightarrow> nat \<times> nat \<times> rat \<times> rat \<times> int option" where
  "aggregate_counts a = (sa_acceptedCount a, sa_rejectedCount a, sa_acceptedWork a, sa_rejectedWork a, sa_avgLatencyMs a)"

lemma upsert_aggregate_member:
  assumes "a' \<in> set (upsert_aggregate a as)"
  shows "conflict_key a' = conflict_key a \<Longrightarrow> aggregate_counts a' = aggregate_counts a"
    and "conflict_key a' \<noteq> conflict_key a \<Longrightarrow> a' \<in> set as"
proof -
  have "a' = a \<or> a' \<in> set as \<and> conflict_key a' \<noteq> conflict_key a \<or>
      (conflict_key a' = conflict_key a \<and> aggregate_counts a' = aggregate_counts a)"
  proof (cases "conflict_key a \<in> conflict_key ` set as")
    case True
    with assms obtain b where "b \<in> set as" "a' = (if conflict_key b = conflict_key a
        then b\<lparr>sa_acceptedCount := sa_acceptedCount a, sa_rejectedCount := sa_rejectedCount a,
               sa_acceptedWork := sa_acceptedWork a, sa_rejectedWork := sa_rejectedWork a,
               sa_avgLatencyMs := sa_avgLatencyMs a\<rparr> else b)"
      by (auto simp: upsert_aggregate_def update_where_def)
    then show ?thesis by (auto simp: aggregate_counts_def conflict_key_def split: if_splits)
  next
    case False
    with assms have "a' = a \<or> a' \<in> set as" by (auto simp: upsert_aggregate_def)
    moreover from False have "conflict_key a' \<noteq> conflict_key a" if "a' \<in> set as" using that by (metis image_eqI)
    ultimately show ?thesis by blast
  qed
  then show "conflict_key a' = conflict_key a \<Longrightarrow> aggregate_counts a' = aggregate_counts a"
    "conflict_key a' \<noteq> conflict_key a \<Longrightarrow> a' \<in> set as" by auto
qed

lemma upsert_aggregate_keys: "conflict_key ` set (upsert_aggregate a as) = insert (conflict_key a) (conflict_key ` set as)"
proof -
  have "conflict_key ` set (update_where (\<lambda>b. conflict_key b = conflict_key a)
      (\<lambda>b. b\<lparr>sa_acceptedCount := w, sa_rejectedCount := x, sa_acceptedWork := y, sa_rejectedWork := z, sa_avgLatencyMs := l\<rparr>) as) =
    conflict_key ` set as" for w x y z l
    by (induction as) (auto simp: update_where_def conflict_key_def)
  then show ?thesis by (auto simp: upsert_aggregate_def)
qed

lemma fold_upsert_other:
  "a' \<in> set (fold upsert_aggregate rows as) \<Longrightarrow> conflict_key a' \<notin> conflict_key ` set rows \<Longrightarrow> a' \<in> set as"
proof (induction rows arbitrary: as)
  case (Cons r rows)
  then have "a' \<in> set (upsert_aggregate r as)" by simp
  with Cons.prems(2) show ?case by (auto dest: upsert_aggregate_member(2))
qed simp

lemma fold_upsert:
  assumes "unique_on conflict_key rows" and "r \<in> set rows"
  shows "conflict_key r \<in> conflict_key ` set (fold upsert_aggregate rows as)"
    and "a' \<in> set (fold upsert_aggregate rows as) \<Longrightarrow> conflict_key a' = conflict_key r \<Longrightarrow> aggregate_counts a' = aggregate_counts r"
proof -
  have keys: "conflict_key ` set (fold upsert_aggregate rs bs) = conflict_key ` set rs \<union> conflict_key ` set bs" for rs bs
    by (induction rs arbitrary: bs) (auto simp: upsert_aggregate_keys)
  show "conflict_key r \<in> conflict_key ` set (fold upsert_aggregate rows as)" using assms(2) by (simp add: keys)
  show "aggregate_counts a' = aggregate_counts r"
    if "a' \<in> set (fold upsert_aggregate rows as)" "conflict_key a' = conflict_key r"
    using assms that
  proof (induction rows arbitrary: as)
    case (Cons q rows)
    show ?case
    proof (cases "r = q")
      case True
      have "a' \<in> set (upsert_aggregate q as)"
      proof (rule fold_upsert_other [of a' rows])
        show "a' \<in> set (fold upsert_aggregate rows (upsert_aggregate q as))" using Cons.prems(3) by simp
        show "conflict_key a' \<notin> conflict_key ` set rows" using Cons.prems(1,4) True by simp
      qed
      from upsert_aggregate_member(1) [OF this] True Cons.prems(4) show ?thesis by simp
    next
      case False
      with Cons.prems have "unique_on conflict_key rows" "r \<in> set rows" by simp_all
      from Cons.IH [OF this, of "upsert_aggregate q as"] Cons.prems(3,4) show ?thesis by simp
    qed
  qed simp
qed

section \<open>Main properties\<close>

text \<open>The difficulty of a Monero job.  It is always a positive integer; for a well-formed target with a
  positive value it is the number of targets that fit into the range: difficulty times target
  stays below two to the number of bits, and one more would not.\<close>

theorem difficulty_from_target:
  "\<exists>d. difficultyFromTarget target = show_nat d \<and> 1 \<le> d \<and>
    (list_all (\<lambda>c. hex_value c \<noteq> None) (strip_0x target) \<and> even (length (strip_0x target)) \<and>
       0 < little_endian (hex_bytes (strip_0x target)) \<longrightarrow>
     d * little_endian (hex_bytes (strip_0x target)) < 2 ^ (4 * length (strip_0x target)) \<and>
     2 ^ (4 * length (strip_0x target)) \<le> (d + 1) * little_endian (hex_bytes (strip_0x target)))"
proof -
  let ?c = "strip_0x target" and ?v = "little_endian (hex_bytes (strip_0x target))"
  have one: "''1'' = show_nat 1" by code_simp
  show ?thesis
  proof (cases "list_all (\<lambda>c. hex_value c \<noteq> None) ?c \<and> even (length ?c) \<and> 0 < ?v")
    case True
    then have c: "list_all (\<lambda>c. hex_value c \<noteq> None) ?c" "even (length ?c)" "0 < ?v" by blast+
    note h = hex_bytes_facts [OF c(1,2)]
    have "(256 :: nat) ^ n = 2 ^ (n * 8)" for n using power_mult [of "2 :: nat" 8 n] by (simp add: mult.commute)
    with little_endian_bound [OF h(1)] have b: "?v < 2 ^ (4 * length ?c)" unfolding h(2) [symmetric] by simp
    have ne: "?c \<noteq> []" using c(3) by (auto simp: little_endian_def)
    have "difficultyFromTarget target = show_nat ((2 ^ (4 * length ?c) - 1) div ?v)"
      using c ne difficulty_range(1) [OF c(3) b] by (simp add: difficultyFromTarget_def Let_def h(2))
    with difficulty_range [OF c(3) b] show ?thesis by (intro exI [of _ "(2 ^ (4 * length ?c) - 1) div ?v"]) auto
  next
    case False
    then have "difficultyFromTarget target = show_nat 1"
      by (auto simp: difficultyFromTarget_def Let_def one little_endian_def)
    with False show ?thesis by (intro exI [of _ 1]) blast
  qed
qed

theorem difficulty_from_target_witness:
  "difficultyFromTarget ''b88d0600'' = show_nat 10000 \<and> 10000 * 429496 < (2 :: nat) ^ 32 \<and> 2 ^ 32 \<le> (10000 + 1) * (429496 :: nat)"
proof -
  have c: "strip_0x ''b88d0600'' = ''b88d0600''" "list_all (\<lambda>c. hex_value c \<noteq> None) ''b88d0600''"
    by (simp_all add: strip_0x_def startsWith_def hex_value_def)
  have v: "little_endian (hex_bytes ''b88d0600'') = 429496" by (simp add: little_endian_def hex_value_def)
  have l: "length (hex_bytes ''b88d0600'') = 4" "even (length ''b88d0600'')" by simp_all
  have d: "difficultyFromTarget ''b88d0600'' = show_nat 10000"
    using c l by (simp only: difficultyFromTarget_def Let_def v) simp
  from difficulty_from_target [of "''b88d0600''"] obtain e where
    "difficultyFromTarget ''b88d0600'' = show_nat e" "e * 429496 < 2 ^ 32" "2 ^ 32 \<le> (e + 1) * (429496 :: nat)"
    unfolding c(1) v using c(2) by auto
  with d show ?thesis by simp
qed

text \<open>Pruning never touches unpaid work.  It deletes only shares older than the retention that are
  rejected, unknown, or accepted and already allocated: the work groups of every pool account, and
  with them every later allocation, are as before, and so are pending and recent shares.\<close>

theorem prune_keeps_unpaid_work:
  "work_groups endpoints (pruneRawShares e now s) = work_groups endpoints s \<and>
   filter (\<lambda>x. sh_status x = ShareStatus.PENDING \<or> sh_submittedAt x \<ge> now - RAW_SHARE_RETENTION_DAYS e * 86400000)
     (shareEvents (pruneRawShares e now s)) =
   filter (\<lambda>x. sh_status x = ShareStatus.PENDING \<or> sh_submittedAt x \<ge> now - RAW_SHARE_RETENTION_DAYS e * 86400000) (shareEvents s)"
proof -
  have "filter (unallocated endpoints) (shareEvents (pruneRawShares e now s)) = filter (unallocated endpoints) (shareEvents s)"
    by (auto simp: pruneRawShares_def unallocated_def prunable_def intro!: filter_cong)
  moreover have "filter (\<lambda>x. sh_status x = ShareStatus.PENDING \<or> sh_submittedAt x \<ge> now - RAW_SHARE_RETENTION_DAYS e * 86400000)
     (shareEvents (pruneRawShares e now s)) =
   filter (\<lambda>x. sh_status x = ShareStatus.PENDING \<or> sh_submittedAt x \<ge> now - RAW_SHARE_RETENTION_DAYS e * 86400000) (shareEvents s)"
    by (auto simp: pruneRawShares_def prunable_def intro!: filter_cong)
  ultimately show ?thesis unfolding work_groups_def Let_def by simp
qed

text \<open>An aggregate forgets the beginning of its bucket.  The run replaces the counts of every bucket in
  which some share lies behind the cutoff by the counts of the shares behind the cutoff alone, although the
  cutoff is not the start of a bucket and older shares of the same bucket were counted before.
  (\<open>share-maintenance.service.ts\<close>, lines 31 to 33 and 96 to 113.)\<close>

theorem aggregate_forgets_early_shares:
  assumes "upsertBuckets seconds cutoff s as = Inr as'" and "x \<in> set (shareEvents s)" and "aggregated cutoff x"
  shows "(date_bin seconds (sh_submittedAt x), seconds, sh_workerId x) \<in> conflict_key ` set as' \<and>
    (\<forall>a \<in> set as'. conflict_key a = (date_bin seconds (sh_submittedAt x), seconds, sh_workerId x) \<longrightarrow>
       sa_acceptedCount a = length (filter (\<lambda>y. group_key seconds y = group_key seconds x \<and> sh_status y = ACCEPTED \<and>
         cutoff \<le> sh_submittedAt y) (shareEvents s)))"
proof -
  let ?ys = "filter (aggregated cutoff) (shareEvents s)" and ?rows = "grouped_rows seconds cutoff (shareEvents s)"
  let ?r = "aggregate_row seconds ?ys (group_key seconds x)"
  from assms(1) have u: "unique_on conflict_key ?rows" and as': "as' = fold upsert_aggregate ?rows as"
    by (auto simp: upsertBuckets_def Let_def split: if_splits)
  have r: "?r \<in> set ?rows" using assms(2,3) by (auto simp: grouped_rows_def Let_def)
  have k: "conflict_key ?r = (date_bin seconds (sh_submittedAt x), seconds, sh_workerId x)"
    by (simp add: aggregate_row_def conflict_key_def group_key_def Let_def)
  have n: "sa_acceptedCount ?r = length (filter (\<lambda>y. group_key seconds y = group_key seconds x \<and> sh_status y = ACCEPTED \<and>
         cutoff \<le> sh_submittedAt y) (shareEvents s))"
    by (auto simp: aggregate_row_def Let_def aggregated_def split: prod.splits intro!: arg_cong [of _ _ length] filter_cong)
  have "sa_acceptedCount a = sa_acceptedCount ?r" if "a \<in> set as'" "conflict_key a = conflict_key ?r" for a
    using fold_upsert(2) [OF u r that [unfolded as']] by (simp add: aggregate_counts_def)
  moreover have "conflict_key ?r \<in> conflict_key ` set as'" unfolding as' by (rule fold_upsert(1) [OF u r])
  ultimately show ?thesis unfolding k n by blast
qed

definition example_share :: "string \<Rightarrow> instant \<Rightarrow> share_event" where
  "example_share i t =
     \<lparr>sh_id = i, sh_asset = XMR, sh_customerId = ''c1'', sh_workerId = ''w1'', sh_upstreamId = ''u1'', sh_connectionId = ''n1'',
      sh_splitPolicyId = ''p1'', sh_requestKey = i, sh_status = ACCEPTED, sh_difficulty = 1, sh_normalizedWork = 1,
      sh_submittedAt = t, sh_resolvedAt = Some t, sh_upstreamLatencyMs = Some 20, sh_rejectReason = None,
      sh_allocationBatchId = None\<rparr>"

text \<open>Two shares of the hour that starts at 10:00, at 10:10 and at 10:59:40.\<close>

definition hour_store :: store where
  "hour_store = (empty_store show_nat)\<lparr>shareEvents := [example_share ''a'' 36600000, example_share ''b'' 39580000]\<rparr>"

definition hour_total :: "share_aggregate list result \<Rightarrow> nat list" where
  "hour_total r = (case r of Inl _ \<Rightarrow> [] | Inr as \<Rightarrow> map sa_acceptedCount as)"

theorem aggregate_forgets_early_shares_witness:
  "hour_total (upsertBuckets 3600 28820000 hour_store []) = [2] \<and>
   hour_total (ebind (upsertBuckets 3600 28820000 hour_store []) (upsertBuckets 3600 39560000 hour_store)) = [1]"
proof -
  have first: "hour_total (upsertBuckets 3600 28820000 hour_store []) = [2]" by code_simp
  then obtain as where a: "upsertBuckets 3600 28820000 hour_store [] = Inr as" "map sa_acceptedCount as = [2]"
    by (cases "upsertBuckets 3600 28820000 hour_store []") (auto simp: hour_total_def)
  have n: "map (\<lambda>r. case r of Inl _ \<Rightarrow> [] | Inr as \<Rightarrow> map conflict_key as)
      [ebind (upsertBuckets 3600 28820000 hour_store []) (upsertBuckets 3600 39560000 hour_store)] = [[(36000000, 3600, ''w1'')]]"
    by code_simp
  then obtain bs where b: "upsertBuckets 3600 39560000 hour_store as = Inr bs" "map conflict_key bs = [(36000000, 3600, ''w1'')]"
    using a(1) by (cases "upsertBuckets 3600 39560000 hour_store as") auto
  have x: "example_share ''b'' 39580000 \<in> set (shareEvents hour_store)" "aggregated 39560000 (example_share ''b'' 39580000)"
    by (simp_all add: hour_store_def aggregated_def example_share_def)
  have k: "(date_bin 3600 (sh_submittedAt (example_share ''b'' 39580000)), 3600, sh_workerId (example_share ''b'' 39580000)) = (36000000, 3600, ''w1'')"
    by (simp add: date_bin_def example_share_def)
  have c: "length (filter (\<lambda>y. group_key 3600 y = group_key 3600 (example_share ''b'' 39580000) \<and> sh_status y = ACCEPTED \<and>
      39560000 \<le> sh_submittedAt y) (shareEvents hour_store)) = 1"
    by (simp add: hour_store_def group_key_def example_share_def date_bin_def)
  from b(2) obtain r where r: "bs = [r]" "conflict_key r = (36000000, 3600, ''w1'')" by auto
  from aggregate_forgets_early_shares [OF b(1) x] have "sa_acceptedCount r = 1" unfolding k c using r by simp
  with first a b r show ?thesis by (simp add: hour_total_def)
qed

end
