(* ===== verification/LinePeer.thy ===== *)
theory LinePeer
  imports Json
begin

text \<open>
  The framing of both protocols of the gateway (\<open>gateway/line-json-peer.ts\<close>): one JSON object per
  line, received in chunks that the network cuts anywhere.  Bytes are characters, so a text is
  kept in its UTF-8 form and its \<open>length\<close> counts UTF-16 units.  The messages of the queue
  are the list a chunk releases, in order; what happens to them is the business of the sessions.
\<close>

section \<open>Receiving\<close>

abbreviation newline :: char where
  "newline \<equiv> CHR 0x0A"

definition utf16_units :: "char \<Rightarrow> nat" where
  "utf16_units c = (let n = of_char c :: nat in if n < 128 then 1 else if n < 192 then 0 else if n < 240 then 1 else 2)"

definition js_length :: "string \<Rightarrow> nat" where
  "js_length t = (\<Sum>c\<leftarrow>t. utf16_units c)"

definition line_too_long :: string where
  "line_too_long = ''JSON-RPC line exceeds configured limit''"

text \<open>\<open>JSON.parse\<close> throws a \<open>SyntaxError\<close>; its text is the engine's.\<close>

definition syntax_error :: string where
  "syntax_error = ''SyntaxError''"

definition is_object :: "json \<Rightarrow> bool" where
  "is_object v = (case v of JObj _ \<Rightarrow> True | _ \<Rightarrow> False)"

text \<open>What one line gives: nothing, a message, or a protocol error.\<close>

datatype line_result = Blank | Message json | Broken string

definition read_line :: "nat \<Rightarrow> string \<Rightarrow> line_result" where
  "read_line maxLineBytes raw =
     (let line = trim raw in
      if js_length line > maxLineBytes then Broken line_too_long
      else if line = [] then Blank
      else (case json_parse line of
              None \<Rightarrow> Broken syntax_error
            | Some v \<Rightarrow> if is_object v then Message v else Broken ''Message must be an object''))"

text \<open>The loop over the complete lines of the buffer; an error leaves the rest in it.\<close>

function consume_lines :: "nat \<Rightarrow> string \<Rightarrow> string \<times> json list \<times> string option" where
  "consume_lines maxLineBytes buffer =
     (case index_of newline buffer of
        None \<Rightarrow> (buffer, [], None)
      | Some n \<Rightarrow>
          (case read_line maxLineBytes (take n buffer) of
             Broken e \<Rightarrow> (drop (Suc n) buffer, [], Some e)
           | Blank \<Rightarrow> consume_lines maxLineBytes (drop (Suc n) buffer)
           | Message v \<Rightarrow>
               (let (b, ms, e) = consume_lines maxLineBytes (drop (Suc n) buffer) in (b, v # ms, e))))"
  by pat_completeness auto

termination consume_lines
  by (relation "measure (length \<circ> snd)") (auto dest: index_of_SomeD)

declare consume_lines.simps [simp del]

definition consume :: "nat \<Rightarrow> string \<Rightarrow> string \<Rightarrow> string \<times> json list \<times> string option" where
  "consume maxLineBytes buffer chunk =
     (let b = buffer @ chunk in
      if length b > maxLineBytes \<and> newline \<notin> set b then (b, [], Some line_too_long)
      else consume_lines maxLineBytes b)"

text \<open>The chunks of a connection up to the first protocol error, after which the session closes.\<close>

fun receive :: "nat \<Rightarrow> string \<Rightarrow> string list \<Rightarrow> string \<times> json list \<times> string option" where
  "receive maxLineBytes buffer [] = (buffer, [], None)"
| "receive maxLineBytes buffer (chunk # chunks) =
     (case consume maxLineBytes buffer chunk of
        (b, ms, Some e) \<Rightarrow> (b, ms, Some e)
      | (b, ms, None) \<Rightarrow> (let (b', ms', e) = receive maxLineBytes b chunks in (b', ms @ ms', e)))"

section \<open>Sending\<close>

definition send_line :: "json \<Rightarrow> string" where
  "send_line message = print_json message @ [newline]"

section \<open>A reference: cut the whole stream at the newlines\<close>

definition line_messages :: "nat \<Rightarrow> string list \<Rightarrow> json list" where
  "line_messages maxLineBytes ls = concat (map (\<lambda>l. case read_line maxLineBytes l of Message v \<Rightarrow> [v] | _ \<Rightarrow> []) ls)"

definition fine :: "nat \<Rightarrow> string \<Rightarrow> bool" where
  "fine maxLineBytes l \<longleftrightarrow> (case read_line maxLineBytes l of Broken _ \<Rightarrow> False | _ \<Rightarrow> True)"

lemma split_on_at:
  "split_on c (xs @ c # ys) = butlast (split_on c xs) @ last (split_on c xs) # split_on c ys"
proof (induction xs)
  case (Cons x xs)
  then show ?case by (cases "split_on c xs") (auto split: list.splits)
qed simp

lemma split_on_none: "c \<notin> set xs \<Longrightarrow> split_on c xs = [xs]"
  by (induction xs) auto

lemma split_on_first:
  assumes "index_of c xs = Some n"
  shows "split_on c xs = take n xs # split_on c (drop (Suc n) xs)"
proof -
  note i = index_of_SomeD [OF assms]
  then have "xs = take n xs @ c # drop (Suc n) xs" by (metis Cons_nth_drop_Suc append_take_drop_id)
  with split_on_at [of c "take n xs" "drop (Suc n) xs"] split_on_none [of c "take n xs"] i show ?thesis
    by (metis append_Nil butlast.simps(2) last_ConsL)
qed

lemma line_messages_simps [simp]:
  "line_messages m [] = []"
  "line_messages m (l # ls) = (case read_line m l of Message v \<Rightarrow> [v] | _ \<Rightarrow> []) @ line_messages m ls"
  "line_messages m (ls @ ks) = line_messages m ls @ line_messages m ks"
  by (simp_all add: line_messages_def)

text \<open>Without an error, exactly the complete lines are consumed.\<close>

lemma consume_lines_spec:
  "(snd (snd (consume_lines m buf)) = None \<longleftrightarrow> list_all (fine m) (butlast (split_on newline buf))) \<and>
   (snd (snd (consume_lines m buf)) = None \<longrightarrow>
     consume_lines m buf = (last (split_on newline buf), line_messages m (butlast (split_on newline buf)), None))"
proof (induction buf rule: length_induct)
  case (1 buf)
  show ?case
  proof (cases "index_of newline buf")
    case None
    then have "split_on newline buf = [buf]" by (intro split_on_none) simp
    then show ?thesis by (simp add: consume_lines.simps [of m buf] None)
  next
    case (Some n)
    let ?rest = "drop (Suc n) buf"
    have "length ?rest < length buf" using index_of_SomeD [OF Some] by auto
    with 1 have IH: "(snd (snd (consume_lines m ?rest)) = None \<longleftrightarrow> list_all (fine m) (butlast (split_on newline ?rest))) \<and>
       (snd (snd (consume_lines m ?rest)) = None \<longrightarrow>
         consume_lines m ?rest = (last (split_on newline ?rest), line_messages m (butlast (split_on newline ?rest)), None))"
      by blast
    obtain b ms e where c: "consume_lines m ?rest = (b, ms, e)" by (cases "consume_lines m ?rest") auto
    show ?thesis
    proof (cases "read_line m (take n buf)")
      case (Broken x)
      then show ?thesis by (simp add: consume_lines.simps [of m buf] split_on_first [OF Some] fine_def Some)
    next
      case Blank
      with IH show ?thesis by (simp add: consume_lines.simps [of m buf] split_on_first [OF Some] fine_def [of m "take n buf"] Some)
    next
      case (Message v)
      with IH show ?thesis by (simp add: consume_lines.simps [of m buf] split_on_first [OF Some] fine_def [of m "take n buf"] Some c)
    qed
  qed
qed

text \<open>However the stream is cut into chunks, what was received without an error is what the stream says.\<close>

lemma split_on_append:
  "split_on c (xs @ ys) = butlast (split_on c xs) @ split_on c (last (split_on c xs) @ ys)"
proof (induction xs)
  case (Cons x xs)
  then show ?case by (cases "split_on c xs"; cases "tl (split_on c xs)") (auto split: list.splits)
qed simp

lemma last_split_on: "c \<notin> set (last (split_on c xs))"
proof (induction xs)
  case (Cons x xs)
  then show ?case by (cases "split_on c xs") (auto split: list.splits if_splits)
qed simp

lemma receive_spec:
  assumes "receive m buf chunks = (b, ms, None)" and "newline \<notin> set buf"
  shows "list_all (fine m) (butlast (split_on newline (buf @ concat chunks))) \<and>
    b = last (split_on newline (buf @ concat chunks)) \<and>
    ms = line_messages m (butlast (split_on newline (buf @ concat chunks)))"
  using assms
proof (induction chunks arbitrary: buf ms)
  case Nil
  then show ?case by (simp add: split_on_none)
next
  case (Cons chunk chunks)
  let ?s = "split_on newline (buf @ chunk)"
  from Cons.prems(1) obtain b1 ms1 ms2 where c: "consume m buf chunk = (b1, ms1, None)"
    and r: "receive m b1 chunks = (b, ms2, None)" and ms: "ms = ms1 @ ms2"
    by (auto simp: Let_def split: prod.splits option.splits)
  from c have "consume_lines m (buf @ chunk) = (b1, ms1, None)"
    by (auto simp: consume_def Let_def split: if_splits)
  with consume_lines_spec [of m "buf @ chunk"] have
    l: "list_all (fine m) (butlast ?s)" "b1 = last ?s" "ms1 = line_messages m (butlast ?s)" by simp_all
  from Cons.IH [OF r] last_split_on [of newline "buf @ chunk"] l(2) have
    IH: "list_all (fine m) (butlast (split_on newline (b1 @ concat chunks)))"
    "b = last (split_on newline (b1 @ concat chunks))"
    "ms2 = line_messages m (butlast (split_on newline (b1 @ concat chunks)))" by simp_all
  have s: "split_on newline (buf @ concat (chunk # chunks)) = butlast ?s @ split_on newline (b1 @ concat chunks)"
    using split_on_append [of newline "buf @ chunk" "concat chunks"] by (simp add: l(2))
  show ?case unfolding s using l IH ms by (simp add: butlast_append)
qed

lemma hd_split_on: "hd (split_on c xs) = takeWhile (\<lambda>x. x \<noteq> c) xs"
  by (induction xs) (auto split: list.splits)

lemma receive_total:
  assumes "list_all (fine m) (butlast (split_on newline (buf @ concat chunks)))"
    and "list_all (\<lambda>l. length l \<le> m) (split_on newline (buf @ concat chunks))"
  shows "\<exists>b ms. receive m buf chunks = (b, ms, None)"
  using assms
proof (induction chunks arbitrary: buf)
  case Nil
  then show ?case by simp
next
  case (Cons chunk chunks)
  let ?s = "split_on newline (buf @ chunk)"
  have s: "split_on newline (buf @ concat (chunk # chunks)) = butlast ?s @ split_on newline (last ?s @ concat chunks)"
    using split_on_append [of newline "buf @ chunk" "concat chunks"] by simp
  note ok = Cons.prems [unfolded s butlast_append]
  have "length (buf @ chunk) \<le> m" if nl: "newline \<notin> set (buf @ chunk)"
  proof -
    have "length (buf @ chunk) \<le> length (hd (split_on newline (buf @ chunk @ concat chunks)))"
      using nl by (simp add: hd_split_on takeWhile_append2 flip: append_assoc) (simp add: takeWhile_append)
    also have "\<dots> \<le> m" using Cons.prems(2) by (cases "split_on newline (buf @ chunk @ concat chunks)") auto
    finally show ?thesis .
  qed
  moreover have "list_all (fine m) (butlast ?s)" using ok(1) by (simp split: if_splits)
  ultimately have c: "consume m buf chunk = (last ?s, line_messages m (butlast ?s), None)"
    using consume_lines_spec [of m "buf @ chunk"] by (auto simp: consume_def Let_def)
  have "\<exists>b ms. receive m (last ?s) chunks = (b, ms, None)"
    by (rule Cons.IH) (use ok in \<open>simp_all split: if_splits\<close>)
  with c show ?case by auto
qed

section \<open>A printed message is a line\<close>

lemma quote_char_line: "newline \<notin> set (quote_char c)"
proof -
  have "newline \<noteq> hex_char n" if "n < 16" for n
    using that by (auto simp: hex_char_def dest!: arg_cong [of _ _ "of_char :: char \<Rightarrow> nat"] simp: of_char_of)
  moreover have "(of_char c :: nat) div 16 < 16" by (simp add: less_mult_imp_div_less)
  ultimately show ?thesis by (auto simp: quote_char_def)
qed

lemma json_quote_line: "newline \<notin> set (json_quote t)"
  using quote_char_line by (auto simp: json_quote_def)

lemma join_line: "c \<notin> set sep \<Longrightarrow> (\<And>p. p \<in> set ps \<Longrightarrow> c \<notin> set p) \<Longrightarrow> c \<notin> set (join sep ps)"
  by (induction sep ps rule: join.induct) auto

lemma print_json_line: "json_ok v \<Longrightarrow> newline \<notin> set (print_json v)"
proof (induction v)
  case (JNum t)
  have "\<not> number_chars newline" by (simp add: number_chars_def is_digit_def)
  with JNum show ?case by (auto simp: list_all_iff)
next
  case (JArr xs)
  then have "newline \<notin> set (join '','' (map print_json xs))" by (intro join_line) (auto simp: list_all_iff)
  then show ?case by simp
next
  case (JObj kvs)
  have "newline \<notin> set (json_quote k @ '':'' @ print_json v)" if kv: "(k, v) \<in> set kvs" for k v
    using JObj.IH [OF kv, of v] JObj.prems kv json_quote_line [of k] by (auto simp: list_all_iff)
  then have "newline \<notin> set (join '','' (map member_text kvs))" by (intro join_line) auto
  then show ?case by simp
qed (auto simp: json_quote_line)

lemma trim_braces: "trim (CHR ''{'' # cs @ ''}'') = CHR ''{'' # cs @ ''}''"
  by (simp add: trim_def is_space_def)

lemma read_printed:
  assumes "json_ok v" and "is_object v" and "js_length (print_json v) \<le> m"
  shows "read_line m (print_json v) = Message v"
proof -
  from assms(2) obtain kvs where v: "v = JObj kvs" by (auto simp: is_object_def split: json.splits)
  then have "trim (print_json v) = print_json v" using trim_braces by simp
  moreover have "print_json v \<noteq> []" by (simp add: v)
  ultimately show ?thesis using assms parse_print [OF assms(1)] by (simp add: read_line_def Let_def)
qed

lemma split_sent:
  assumes "\<And>v. v \<in> set vs \<Longrightarrow> json_ok v"
  shows "split_on newline (concat (map send_line vs)) = map print_json vs @ [[]]"
  using assms
proof (induction vs)
  case (Cons v vs)
  then have "split_on newline (print_json v) = [print_json v]" by (intro split_on_none print_json_line) simp
  with Cons show ?case by (simp add: send_line_def split_on_at)
qed simp

section \<open>Main properties\<close>

text \<open>C24: The cutting of the stream does not matter.  As long as no protocol error is reported, the
  messages received are those of the complete lines of the whole stream, in order, wherever the
  network cut it into chunks, and what stays in the buffer is the incomplete last line.\<close>

theorem chunks_do_not_matter:
  assumes "receive m [] chunks = (b, ms, None)"
  shows "ms = line_messages m (butlast (split_on newline (concat chunks))) \<and> b = last (split_on newline (concat chunks)) \<and>
    list_all (fine m) (butlast (split_on newline (concat chunks)))"
  using receive_spec [OF assms] by simp

text \<open>What is sent is received.  Messages within the line limit that one peer sends with \<open>send\<close> arrive
  at the other as the same messages in the same order, without an error and with nothing left over,
  however the bytes are cut into chunks.\<close>

theorem sent_is_received:
  assumes "\<And>v. v \<in> set vs \<Longrightarrow> json_ok v \<and> is_object v \<and> length (print_json v) \<le> m \<and> js_length (print_json v) \<le> m"
    and "concat chunks = concat (map send_line vs)"
  shows "receive m [] chunks = ([], vs, None)"
proof -
  have s: "split_on newline (concat chunks) = map print_json vs @ [[]]"
    unfolding assms(2) by (rule split_sent) (use assms(1) in blast)
  have r: "read_line m (print_json v) = Message v" if "v \<in> set vs" for v
    using assms(1) [OF that] by (intro read_printed) auto
  have "\<exists>b ms. receive m [] chunks = (b, ms, None)"
  proof (rule receive_total)
    show "list_all (fine m) (butlast (split_on newline ([] @ concat chunks)))"
      using r by (simp add: s butlast_append list_all_iff fine_def)
    show "list_all (\<lambda>l. length l \<le> m) (split_on newline ([] @ concat chunks))"
      using assms(1) by (simp add: s list_all_iff)
  qed
  then obtain b ms where b: "receive m [] chunks = (b, ms, None)" by blast
  have "line_messages m (map print_json us) = us" if "set us \<subseteq> set vs" for us
    using that by (induction us) (simp_all add: r)
  with receive_spec [OF b] b show ?thesis by (simp add: s butlast_append)
qed

theorem chunks_do_not_matter_witness:
  "fst (receive 64 [] [''{\"id\":1}'' @ [newline] @ ''{\"i'', ''d\":2}'' @ [newline], ''{\"x'']) = ''{\"x'' \<and>
   length (fst (snd (receive 64 [] [''{\"id\":1}'' @ [newline] @ ''{\"i'', ''d\":2}'' @ [newline], ''{\"x'']))) = 2"
proof -
  let ?cs = "[''{\"id\":1}'' @ [newline] @ ''{\"i'', ''d\":2}'' @ [newline], ''{\"x'']"
  have "snd (snd (receive 64 [] ?cs)) = None" by code_simp
  then obtain b ms where r: "receive 64 [] ?cs = (b, ms, None)" by (metis prod.collapse)
  have "length (line_messages 64 (butlast (split_on newline (concat ?cs)))) = 2" "last (split_on newline (concat ?cs)) = ''{\"x''"
    by (code_simp)+
  with chunks_do_not_matter [OF r] r show ?thesis by simp
qed

theorem sent_is_received_witness:
  "receive 64 [] [''{\"id'', ''\":null}'', [newline]] = ([], [JObj [(''id'', JNull)]], None)"
proof (rule sent_is_received)
  show "concat [''{\"id'', ''\":null}'', [newline]] = concat (map send_line [JObj [(''id'', JNull)]])" by code_simp
  have "json_ok (JObj [(''id'', JNull)]) \<and> is_object (JObj [(''id'', JNull)]) \<and>
      length (print_json (JObj [(''id'', JNull)])) \<le> 64 \<and> js_length (print_json (JObj [(''id'', JNull)])) \<le> 64" by code_simp
  then show "json_ok v \<and> is_object v \<and> length (print_json v) \<le> 64 \<and> js_length (print_json v) \<le> 64"
    if "v \<in> set [JObj [(''id'', JNull)]]" for v using that by simp
qed

end
