(* ===== verification/Session.thy ===== *)
theory Session
  imports Upstreams Shares LinePeer
begin

text \<open>
  What the two gateway sessions (\<open>gateway/bitcoin-gateway.session.ts\<close>, \<open>gateway/monero-gateway.session.ts\<close>)
  have in common: the state of a session and of the services it uses, the table of pending requests,
  connecting a pool, and closing.

  A session lives on the event loop.  A handler is one step; where a handler waits for the authentication
  the step ends, because the socket may close in the meantime, and what follows is a step of
  its own.  What is written to the sockets is kept in two logs, and the rows a session opened in a third.  Messages are JSON objects as the peer
  received them; numbers keep their literal.
\<close>

section \<open>Messages\<close>

definition js_eq_str :: "json option \<Rightarrow> string \<Rightarrow> bool" where
  "js_eq_str v t \<longleftrightarrow> v = Some (JStr t)"

text \<open>\<open>value ?? null\<close>.\<close>

definition or_null :: "json option \<Rightarrow> json" where
  "or_null v = (case v of None \<Rightarrow> JNull | Some x \<Rightarrow> x)"

fun js_String :: "json \<Rightarrow> string" where
  "js_String JNull = ''null''"
| "js_String (JBool b) = (if b then ''true'' else ''false'')"
| "js_String (JNum t) = t"
| "js_String (JStr t) = t"
| "js_String (JBig n) = show_int n"
| "js_String (JDate d) = toISOString d"
| "js_String (JArr xs) = join '','' (map (\<lambda>x. if x = JNull then [] else js_String x) xs)"
| "js_String (JObj kvs) = ''[object Object]''"

text \<open>\<open>{...message, key: value}\<close>.\<close>

definition with_member :: "string \<Rightarrow> json \<Rightarrow> json \<Rightarrow> json" where
  "with_member k v m = (case m of JObj kvs \<Rightarrow> JObj (obj_put k v kvs) | _ \<Rightarrow> JObj [(k, v)])"

definition array_items :: "json option \<Rightarrow> json list" where
  "array_items v = (case v of Some (JArr xs) \<Rightarrow> xs | _ \<Rightarrow> [])"

definition nth_text :: "nat \<Rightarrow> json list \<Rightarrow> string" where
  "nth_text n xs = (if n < length xs then (case xs ! n of JStr t \<Rightarrow> t | _ \<Rightarrow> []) else [])"

text \<open>A string or a number as text, anything else as the empty text.\<close>

definition scalar_text :: "json option \<Rightarrow> string" where
  "scalar_text v = (case v of Some (JStr t) \<Rightarrow> t | Some (JNum t) \<Rightarrow> t | _ \<Rightarrow> [])"

definition reject_reason :: "json \<Rightarrow> string" where
  "reject_reason message =
     (case member ''error'' message of
        None \<Rightarrow> print_json (JStr ''Share rejected'') | Some JNull \<Rightarrow> print_json (JStr ''Share rejected'')
      | Some e \<Rightarrow> print_json e)"

section \<open>State\<close>

record pending_rpc =
  pr_downstreamId :: json
  pr_method :: string
  pr_shareEvent :: "share_reference option"
  pr_startedAt :: instant

record pool_binding =
  bd_upstream :: upstream
  bd_username :: string
  bd_password :: string

record session =
  ss_socketOpen :: bool
  ss_down :: "json list"
  ss_upstream :: bool
  ss_upstreamOpen :: bool
  ss_up :: "json list"
  ss_binding :: "pool_binding option"
  ss_authorized :: "authorized_worker option"
  ss_connectionId :: "uuid option"
  ss_connections :: "uuid list"
  ss_difficulty :: string
  ss_nextId :: nat
  ss_pending :: "(string \<times> pending_rpc) list"
  ss_closing :: bool
  ss_countedConnection :: bool
  ss_leaseTimer :: bool
  ss_clientAgent :: "string option"

definition session_start :: session where
  "session_start =
     \<lparr>ss_socketOpen = True, ss_down = [], ss_upstream = False, ss_upstreamOpen = False, ss_up = [], ss_binding = None,
      ss_authorized = None, ss_connectionId = None, ss_connections = [], ss_difficulty = ''1'', ss_nextId = 1, ss_pending = [],
      ss_closing = False, ss_countedConnection = False, ss_leaseTimer = False, ss_clientAgent = None\<rparr>"

record world =
  wo_store :: store
  wo_redis :: redis
  wo_unhealthy :: unhealthy
  wo_health :: proxy_health

text \<open>The services and what the network answers when a pool is dialled.\<close>

record gateway_deps =
  gd_services :: services
  gd_shares :: share_lib
  gd_dial :: "upstream \<Rightarrow> gateway_proxy option \<Rightarrow> unit result"
  gd_remoteIp :: string

definition send_down :: "json \<Rightarrow> session \<Rightarrow> session" where
  "send_down m s = (if ss_socketOpen s then s\<lparr>ss_down := ss_down s @ [m]\<rparr> else s)"

definition send_up :: "json \<Rightarrow> session \<Rightarrow> session" where
  "send_up m s = (if ss_upstream s \<and> ss_upstreamOpen s then s\<lparr>ss_up := ss_up s @ [m]\<rparr> else s)"

section \<open>Connecting a pool\<close>

definition connect_pool :: "gateway_deps \<Rightarrow> world \<Rightarrow> upstream \<Rightarrow> string result" where
  "connect_pool D w u =
     ebind (resolveGatewayProxy (sv_crypto (gd_services D)) (proxy_get (wo_store w)) (wo_health w)) (\<lambda>proxy.
     ebind (gd_dial D u proxy) (\<lambda>_. up_password (sv_crypto (gd_services D)) u))"

definition pool_failed :: "instant \<Rightarrow> upstream \<Rightarrow> error \<Rightarrow> world \<Rightarrow> world" where
  "pool_failed now u e w =
     (let (m, s) = pool_failure now u e (wo_unhealthy w, wo_store w) in w\<lparr>wo_unhealthy := m, wo_store := s\<rparr>)"

text \<open>The loop over the candidates; the last error is thrown when none is left.\<close>

fun try_pools :: "gateway_deps \<Rightarrow> instant \<Rightarrow> upstream list \<Rightarrow> error \<Rightarrow> session \<times> world \<Rightarrow> (session \<times> world) \<times> unit result" where
  "try_pools D now [] lastError sw = (sw, Inl lastError)"
| "try_pools D now (u # us) lastError (s, w) =
     (case connect_pool D w u of
        Inl e \<Rightarrow> try_pools D now us e (s, pool_failed now u e w)
      | Inr password \<Rightarrow>
          (let s1 = s\<lparr>ss_binding := Some \<lparr>bd_upstream = u, bd_username = [], bd_password = password\<rparr>,
                     ss_upstream := True, ss_upstreamOpen := True\<rparr>
           in case pool_success now u (wo_unhealthy w, wo_store w) of
                ((m, t), Inr _) \<Rightarrow> ((s1, w\<lparr>wo_unhealthy := m, wo_store := t\<rparr>), Inr ())
              | ((m, t), Inl e) \<Rightarrow> try_pools D now us e (s1, pool_failed now u e (w\<lparr>wo_unhealthy := m, wo_store := t\<rparr>))))"

definition connectPool :: "gateway_deps \<Rightarrow> instant \<Rightarrow> AssetCode \<Rightarrow> string \<Rightarrow> session \<times> world \<Rightarrow> (session \<times> world) \<times> unit result" where
  "connectPool D now asset none_text sw =
     try_pools D now (candidates now asset (wo_unhealthy (snd sw)) (wo_store (snd sw))) (Error none_text) sw"

section \<open>Pending requests\<close>

definition add_pending :: "instant \<Rightarrow> json \<Rightarrow> string \<Rightarrow> share_reference option \<Rightarrow> session \<Rightarrow> session" where
  "add_pending clock message method share s =
     s\<lparr>ss_nextId := ss_nextId s + 1,
       ss_pending := ss_pending s @ [(show_nat (ss_nextId s),
         \<lparr>pr_downstreamId = or_null (member ''id'' message), pr_method = method, pr_shareEvent = share, pr_startedAt = clock\<rparr>)]\<rparr>"

definition remove_pending :: "string \<Rightarrow> session \<Rightarrow> session" where
  "remove_pending k s = s\<lparr>ss_pending := filter (\<lambda>(j, p). j \<noteq> k) (ss_pending s)\<rparr>"

definition pending_shares :: "session \<Rightarrow> share_reference list" where
  "pending_shares s = List.map_filter (pr_shareEvent \<circ> snd) (ss_pending s)"

definition request_key :: "json \<Rightarrow> string \<Rightarrow> string \<Rightarrow> instant \<Rightarrow> string" where
  "request_key message jobId nonce now =
     js_String (or_null (member ''id'' message)) @ '':'' @ jobId @ '':'' @ nonce @ '':'' @ show_int now"

section \<open>Closing\<close>

definition close_session :: "gateway_deps \<Rightarrow> instant \<Rightarrow> string \<Rightarrow> session \<times> world \<Rightarrow> session \<times> world" where
  "close_session D now code sw =
     (let (s, w) = sw in
      if ss_closing s then sw
      else
        (let w1 = w\<lparr>wo_store := unknown_shares now (pending_shares s) code (wo_store w)\<rparr>;
             w2 = (case ss_binding s of
                     Some b \<Rightarrow> if startsWith code ''upstream-'' then pool_failed now (bd_upstream b) (Error code) w1 else w1
                   | None \<Rightarrow> w1);
             w3 = (case ss_connectionId s of
                     Some c \<Rightarrow> w2\<lparr>wo_store := closeConnection now c code (wo_store w2)\<rparr> | None \<Rightarrow> w2);
             w4 = (case ss_authorized s of
                     Some a \<Rightarrow>
                       if ss_countedConnection s
                       then (let r = connectionClosed now (wk_id (aw_worker a)) (aw_connectionLeaseId a) (wo_redis w3);
                                 t = (if ss_connectionId s \<noteq> None
                                      then publish ''worker.disconnected'' (wk_id (aw_worker a)) (wo_store w3) else wo_store w3)
                             in w3\<lparr>wo_redis := r, wo_store := t\<rparr>)
                       else w3
                   | None \<Rightarrow> w3)
         in (s\<lparr>ss_closing := True, ss_leaseTimer := False, ss_pending := [], ss_upstreamOpen := False, ss_socketOpen := False,
               ss_countedConnection := (if ss_authorized s \<noteq> None then False else ss_countedConnection s)\<rparr>, w4)))"

text \<open>The heartbeat of the lease.\<close>

definition lease_tick :: "gateway_deps \<Rightarrow> instant \<Rightarrow> session \<times> world \<Rightarrow> session \<times> world" where
  "lease_tick D now sw =
     (let (s, w) = sw in
      if \<not> ss_leaseTimer s then sw
      else (case ss_authorized s of
              None \<Rightarrow> sw
            | Some a \<Rightarrow>
                (let (r, renewed) = renewConnection now (wk_id (aw_worker a)) (aw_connectionLeaseId a) (wo_redis w)
                 in if renewed then (s, w\<lparr>wo_redis := r\<rparr>)
                    else close_session D now ''connection-lease-lost'' (s, w\<lparr>wo_redis := r\<rparr>))))"

text \<open>An exception of a message handler is a protocol error.\<close>

definition or_close :: "gateway_deps \<Rightarrow> instant \<Rightarrow> string \<Rightarrow> (session \<times> world) \<times> unit result \<Rightarrow> session \<times> world" where
  "or_close D now tag r = (case snd r of Inr _ \<Rightarrow> fst r | Inl e \<Rightarrow> close_session D now (tag @ error_message e) (fst r))"

section \<open>After an authentication\<close>

text \<open>
  What both sessions do with the worker they got before the pool is asked: the lease is counted and
  renewed from now on.
\<close>

definition accept_worker :: "authorized_worker \<Rightarrow> session \<Rightarrow> session" where
  "accept_worker a s = s\<lparr>ss_authorized := Some a, ss_countedConnection := True, ss_leaseTimer := True\<rparr>"

definition open_connection ::
  "gateway_deps \<Rightarrow> instant \<Rightarrow> string \<Rightarrow> authorized_worker \<Rightarrow> string option \<Rightarrow> session \<times> world \<Rightarrow> (session \<times> world) \<times> pool_binding result" where
  "open_connection D now missing a agent sw =
     (let (s, w) = sw in
      case ss_binding s of
        None \<Rightarrow> ((s, w), Inl (Error missing))
      | Some b0 \<Rightarrow>
          (let b = b0\<lparr>bd_username := renderUsername (bd_upstream b0) (cust_slug (aw_customer a)) (wk_slug (aw_worker a))\<rparr>;
               s1 = s\<lparr>ss_binding := Some b\<rparr>
           in case createConnection now a (up_id (bd_upstream b)) (gd_remoteIp D) agent (wo_store w) of
                (t, Inl e) \<Rightarrow> ((s1, w\<lparr>wo_store := t\<rparr>), Inl e)
              | (t, Inr c) \<Rightarrow>
                  (let s2 = s1\<lparr>ss_connectionId := Some (cn_id c), ss_connections := cn_id c # ss_connections s1\<rparr> in
                   if \<not> list_ex (\<lambda>x. wk_id x = wk_id (aw_worker a)) (workers t)
                   then ((s2, w\<lparr>wo_store := t\<rparr>), Inl (RecordNotFound ''Record to update not found''))
                   else ((s2, w\<lparr>wo_store := t\<lparr>workers := update_where (\<lambda>x. wk_id x = wk_id (aw_worker a))
                            (\<lambda>x. x\<lparr>wk_lastSeenAt := Some now\<rparr>) (workers t)\<rparr>\<rparr>), Inr b))))"

end
