(* ===== verification/SessionSafety.thy ===== *)
theory SessionSafety
  imports Session
begin

text \<open>
  The invariant of a gateway session: every share it recorded and that is still pending has its request
  pending in the session, and every pending request stands for a share that has not been answered.
  The lemmas say how the steps common to both sessions keep it; the locale at the end is what a session has
  to guarantee of its handlers so that the invariant holds in every history.
\<close>

section \<open>The invariant\<close>

definition unresolved :: "share_event \<Rightarrow> bool" where
  "unresolved x \<longleftrightarrow> sh_status x = ShareStatus.PENDING \<or> sh_status x = UNKNOWN"

definition share_ref :: "share_event \<Rightarrow> share_reference" where
  "share_ref x = (sh_id x, sh_submittedAt x)"

definition shares_ok :: "store \<Rightarrow> bool" where
  "shares_ok t \<longleftrightarrow> inj (uuids t) \<and> unique_on sh_id (shareEvents t) \<and> sh_id ` set (shareEvents t) \<subseteq> minted_ids t \<and>
     cn_id ` set (connectionSessions t) \<subseteq> minted_ids t \<and>
     sh_connectionId ` set (shareEvents t) \<subseteq> cn_id ` set (connectionSessions t)"

definition requests_ok :: "session \<Rightarrow> bool" where
  "requests_ok s \<longleftrightarrow> unique_on fst (ss_pending s) \<and> fst ` set (ss_pending s) \<subseteq> show_nat ` {..<ss_nextId s} \<and>
     distinct (pending_shares s) \<and> set_option (ss_connectionId s) \<subseteq> set (ss_connections s)"

definition linked :: "session \<Rightarrow> store \<Rightarrow> bool" where
  "linked s t \<longleftrightarrow> set (ss_connections s) \<subseteq> cn_id ` set (connectionSessions t) \<and>
     fst ` set (pending_shares s) \<subseteq> minted_ids t \<and>
     (\<forall>x \<in> set (shareEvents t). share_ref x \<in> set (pending_shares s) \<longrightarrow> unresolved x \<and> sh_connectionId x \<in> set (ss_connections s)) \<and>
     (\<forall>x \<in> set (shareEvents t). sh_connectionId x \<in> set (ss_connections s) \<and> sh_status x = ShareStatus.PENDING \<longrightarrow>
        share_ref x \<in> set (pending_shares s))"

definition session_inv :: "session \<times> world \<Rightarrow> bool" where
  "session_inv sw \<longleftrightarrow> shares_ok (wo_store (snd sw)) \<and> requests_ok (fst sw) \<and> linked (fst sw) (wo_store (snd sw))"

text \<open>Steps that leave shares, connections and requests alone.\<close>

definition quiet_store :: "store \<Rightarrow> store \<Rightarrow> bool" where
  "quiet_store t t' \<longleftrightarrow> shareEvents t' = shareEvents t \<and> cn_id ` set (connectionSessions t') = cn_id ` set (connectionSessions t) \<and>
     uuids t' = uuids t \<and> minted t \<le> minted t'"

definition calm :: "session \<times> world \<Rightarrow> session \<times> world \<Rightarrow> bool" where
  "calm sw sw' \<longleftrightarrow> ss_pending (fst sw') = ss_pending (fst sw) \<and> ss_nextId (fst sw') = ss_nextId (fst sw) \<and>
     ss_connections (fst sw') = ss_connections (fst sw) \<and> ss_connectionId (fst sw') = ss_connectionId (fst sw) \<and>
     quiet_store (wo_store (snd sw)) (wo_store (snd sw'))"

lemma quiet_store_refl [simp]: "quiet_store t t"
  by (simp add: quiet_store_def)

lemma quiet_store_trans: "quiet_store a b \<Longrightarrow> quiet_store b c \<Longrightarrow> quiet_store a c"
  by (auto simp: quiet_store_def)

lemma calm_refl [simp]: "calm sw sw"
  by (simp add: calm_def)

lemma calm_trans: "calm a b \<Longrightarrow> calm b c \<Longrightarrow> calm a c"
  by (auto simp: calm_def intro: quiet_store_trans)

lemma quiet_minted: "quiet_store t t' \<Longrightarrow> minted_ids t \<subseteq> minted_ids t'"
  by (auto simp: quiet_store_def minted_ids_def)

lemma quiet_shares_ok: "quiet_store t t' \<Longrightarrow> shares_ok t \<Longrightarrow> shares_ok t'"
  using quiet_minted [of t t'] unfolding shares_ok_def quiet_store_def by (metis (no_types, lifting) order_trans)

lemma quiet_linked:
  assumes "quiet_store t t'" and "linked s t" and "ss_connections s' = ss_connections s" and "pending_shares s' = pending_shares s"
  shows "linked s' t'"
proof -
  have "shareEvents t' = shareEvents t" "cn_id ` set (connectionSessions t') = cn_id ` set (connectionSessions t)"
    using assms(1) by (simp_all add: quiet_store_def)
  with assms(2-4) quiet_minted [OF assms(1)] show ?thesis by (auto simp: linked_def)
qed

lemma calm_inv: "calm sw sw' \<Longrightarrow> session_inv sw \<Longrightarrow> session_inv sw'"
proof -
  assume c: "calm sw sw'" and i: "session_inv sw"
  have p: "pending_shares (fst sw') = pending_shares (fst sw)" using c by (simp add: calm_def pending_shares_def)
  have "requests_ok (fst sw') = requests_ok (fst sw)" using c p unfolding requests_ok_def calm_def by metis
  moreover have q: "quiet_store (wo_store (snd sw)) (wo_store (snd sw'))" and "ss_connections (fst sw') = ss_connections (fst sw)"
    using c by (simp_all add: calm_def)
  ultimately show "session_inv sw'"
    using i p quiet_shares_ok [OF q] quiet_linked [OF q] unfolding session_inv_def by blast
qed

lemma logged_quiet_store: "logged_only t t' \<Longrightarrow> quiet_store t t'"
  by (simp add: quiet_store_def logged_only_tables)

lemma set_health_quiet [simp]: "quiet_store t (set_health now ok m i t)"
  by (simp add: quiet_store_def set_health_def)

lemma publish_quiet_store [simp]: "quiet_store t (publish n x t)"
  by (rule logged_quiet_store) simp

lemma send_calm [simp]:
  "calm (s, w) (send_down m s, w)" "calm (s, w) (send_up m s, w)" "calm (s, w) (accept_worker a s, w)"
  by (simp_all add: calm_def send_down_def send_up_def accept_worker_def)

lemma pool_failed_quiet: "quiet_store (wo_store w) (wo_store (pool_failed now u e w))"
  using quiet_store_trans [OF set_health_quiet logged_quiet_store [OF alerts_only_logged [OF raise_alert_only]]]
  by (simp add: pool_failed_def pool_failure_def)

lemma pool_success_quiet: "pool_success now u (m, t) = ((m', t'), r) \<Longrightarrow> quiet_store t t'"
  using quiet_store_trans [OF set_health_quiet logged_quiet_store [OF alerts_only_logged [OF resolveByDedupe_only]]]
  by (auto simp: pool_success_def Let_def split: if_splits)

lemma try_pools_calm: "calm sw (fst (try_pools D now us e sw))"
proof (induction D now us e sw rule: try_pools.induct)
  case (2 D now u us e s w)
  show ?case
  proof (cases "connect_pool D w u")
    case (Inl x)
    have "calm (s, w) (s, pool_failed now u x w)" by (simp add: calm_def pool_failed_quiet)
    from calm_trans [OF this "2.IH"(1) [OF Inl]] Inl show ?thesis by simp
  next
    case (Inr password)
    let ?s = "s\<lparr>ss_binding := Some \<lparr>bd_upstream = u, bd_username = [], bd_password = password\<rparr>,
                     ss_upstream := True, ss_upstreamOpen := True\<rparr>"
    obtain m t r where p: "pool_success now u (wo_unhealthy w, wo_store w) = ((m, t), r)" by (metis prod.collapse)
    have q: "quiet_store (wo_store w) t" by (rule pool_success_quiet [OF p])
    show ?thesis
    proof (cases r)
      case (Inl x)
      let ?w = "pool_failed now u x (w\<lparr>wo_unhealthy := m, wo_store := t\<rparr>)"
      have "calm (s, w) (?s, ?w)"
        using quiet_store_trans [OF q, of "wo_store ?w"] pool_failed_quiet [of "w\<lparr>wo_unhealthy := m, wo_store := t\<rparr>" now u x]
        by (simp add: calm_def)
      from calm_trans [OF this "2.IH"(2) [OF Inr refl p [symmetric] refl Inl]] show ?thesis by (simp add: Inr p Inl Let_def)
    next
      case (Inr y)
      have "calm (s, w) (?s, w\<lparr>wo_unhealthy := m, wo_store := t\<rparr>)" using q by (simp add: calm_def)
      with \<open>connect_pool D w u = Inr password\<close> p Inr show ?thesis by (simp add: Let_def)
    qed
  qed
qed simp

lemma session_inv_simps [simp]:
  "session_inv (send_down m s, w) = session_inv (s, w)" "session_inv (send_up m s, w) = session_inv (s, w)"
  "session_inv (accept_worker a s, w) = session_inv (s, w)"
  by (simp_all add: session_inv_def requests_ok_def linked_def pending_shares_def send_down_def send_up_def accept_worker_def)

lemma quiet_world_inv: "session_inv (s, w) \<Longrightarrow> quiet_store (wo_store w) t \<Longrightarrow> session_inv (s, w\<lparr>wo_store := t\<rparr>)"
  by (rule calm_inv [of "(s, w)"]) (simp_all add: calm_def)

lemma connectPool_calm: "calm sw (fst (connectPool D now asset t sw))"
  unfolding connectPool_def by (rule try_pools_calm)

section \<open>Answering and giving up shares\<close>

text \<open>
  The shares in \<open>R\<close> are answered or given up; of the others some of the pending ones may be given up.
\<close>

definition settled :: "share_reference set \<Rightarrow> store \<Rightarrow> store \<Rightarrow> bool" where
  "settled R t t' \<longleftrightarrow> uuids t' = uuids t \<and> minted t \<le> minted t' \<and>
     cn_id ` set (connectionSessions t') = cn_id ` set (connectionSessions t) \<and>
     (unique_on sh_id (shareEvents t) \<longrightarrow> unique_on sh_id (shareEvents t')) \<and>
     (\<forall>x' \<in> set (shareEvents t'). \<exists>x \<in> set (shareEvents t).
        share_ref x' = share_ref x \<and> sh_connectionId x' = sh_connectionId x \<and>
        (sh_status x' = sh_status x \<or> sh_status x' = UNKNOWN \<and> unresolved x \<or> share_ref x \<in> R) \<and>
        (share_ref x \<in> R \<longrightarrow> sh_status x' \<noteq> ShareStatus.PENDING))"

lemma settledE:
  assumes "settled R t t'" and "x' \<in> set (shareEvents t')"
  obtains x where "x \<in> set (shareEvents t)" "share_ref x' = share_ref x" "sh_connectionId x' = sh_connectionId x"
    "sh_status x' = sh_status x \<or> sh_status x' = UNKNOWN \<and> unresolved x \<or> share_ref x \<in> R"
    "share_ref x \<in> R \<longrightarrow> sh_status x' \<noteq> ShareStatus.PENDING"
  using assms unfolding settled_def by blast

lemma settled_quiet: "settled R t t' \<Longrightarrow> quiet_store t' t'' \<Longrightarrow> settled R t t''"
  unfolding settled_def quiet_store_def by (metis order_trans)

lemma settled_minted: "settled R t t' \<Longrightarrow> minted_ids t \<subseteq> minted_ids t'"
  by (auto simp: settled_def minted_ids_def)

lemma settled_shares_ok:
  assumes st: "settled R t t'" and ok: "shares_ok t"
  shows "shares_ok t'"
proof -
  have sub: "sh_id ` set (shareEvents t') \<subseteq> sh_id ` set (shareEvents t)"
       "sh_connectionId ` set (shareEvents t') \<subseteq> sh_connectionId ` set (shareEvents t)"
    by (auto elim!: settledE [OF st] simp: share_ref_def)
  have u: "uuids t' = uuids t" and c: "cn_id ` set (connectionSessions t') = cn_id ` set (connectionSessions t)"
    and "unique_on sh_id (shareEvents t')"
    using st ok by (simp_all add: settled_def shares_ok_def)
  moreover note m = settled_minted [OF st]
  moreover have "sh_id ` set (shareEvents t') \<subseteq> minted_ids t'" "cn_id ` set (connectionSessions t') \<subseteq> minted_ids t'"
    "sh_connectionId ` set (shareEvents t') \<subseteq> cn_id ` set (connectionSessions t')"
    using ok sub m unfolding shares_ok_def c by (meson order_trans)+
  ultimately show ?thesis using ok unfolding shares_ok_def u by blast
qed

lemma settled_linked:
  assumes st: "settled R t t'" and l: "linked s t" and "ss_connections s' = ss_connections s"
    and p: "set (pending_shares s') = set (pending_shares s) - R"
  shows "linked s' t'"
proof -
  have c: "set (ss_connections s) \<subseteq> cn_id ` set (connectionSessions t')"
    using st l by (simp add: settled_def linked_def)
  have "fst ` set (pending_shares s') \<subseteq> minted_ids t'"
    using settled_minted [OF st] l p by (auto simp: linked_def)
  moreover have "unresolved x' \<and> sh_connectionId x' \<in> set (ss_connections s)"
    if x': "x' \<in> set (shareEvents t')" "share_ref x' \<in> set (pending_shares s')" for x'
  proof -
    from st x'(1) obtain x where x: "x \<in> set (shareEvents t)" "share_ref x' = share_ref x" "sh_connectionId x' = sh_connectionId x"
      "sh_status x' = sh_status x \<or> sh_status x' = UNKNOWN \<and> unresolved x \<or> share_ref x \<in> R" by (rule settledE)
    with x'(2) p l have "unresolved x \<and> sh_connectionId x \<in> set (ss_connections s)" by (simp add: linked_def)
    with x x'(2) p show ?thesis by (auto simp: unresolved_def)
  qed
  moreover have "share_ref x' \<in> set (pending_shares s')"
    if x': "x' \<in> set (shareEvents t')" "sh_connectionId x' \<in> set (ss_connections s)" "sh_status x' = ShareStatus.PENDING" for x'
  proof -
    from st x'(1) obtain x where x: "x \<in> set (shareEvents t)" "share_ref x' = share_ref x" "sh_connectionId x' = sh_connectionId x"
      "sh_status x' = sh_status x \<or> sh_status x' = UNKNOWN \<and> unresolved x \<or> share_ref x \<in> R"
      "share_ref x \<in> R \<longrightarrow> sh_status x' \<noteq> ShareStatus.PENDING" by (rule settledE)
    then have "share_ref x \<notin> R" "sh_status x = ShareStatus.PENDING" using x'(3) by auto
    with x(1,2,3) x'(2) l p show ?thesis by (simp add: linked_def)
  qed
  ultimately show ?thesis using c assms(3) by (simp add: linked_def)
qed

lemma settled_update_where:
  assumes "\<And>x. Q x \<Longrightarrow> share_ref (f x) = share_ref x \<and> sh_connectionId (f x) = sh_connectionId x \<and> sh_status (f x) \<noteq> ShareStatus.PENDING"
    and "\<And>x. Q x \<Longrightarrow> share_ref x \<in> R \<or> unresolved x \<and> sh_status (f x) = UNKNOWN"
    and "\<And>x. share_ref x \<in> R \<Longrightarrow> sh_status x = ShareStatus.PENDING \<Longrightarrow> Q x"
    and "cn_id ` set cs = cn_id ` set (connectionSessions t)"
  shows "settled R t (t\<lparr>shareEvents := update_where Q f (shareEvents t), connectionSessions := cs\<rparr>)"
proof -
  have "sh_id (f x) = sh_id x" if "Q x" for x using assms(1) [OF that] by (simp add: share_ref_def)
  then have "map sh_id (update_where Q f (shareEvents t)) = map sh_id (shareEvents t)" by (rule map_update_where)
  moreover have "\<exists>x \<in> set (shareEvents t). share_ref x' = share_ref x \<and> sh_connectionId x' = sh_connectionId x \<and>
        (sh_status x' = sh_status x \<or> sh_status x' = UNKNOWN \<and> unresolved x \<or> share_ref x \<in> R) \<and>
        (share_ref x \<in> R \<longrightarrow> sh_status x' \<noteq> ShareStatus.PENDING)"
    if x': "x' \<in> set (update_where Q f (shareEvents t))" for x'
  proof -
    from x' obtain x where x: "x \<in> set (shareEvents t)" "x' = (if Q x then f x else x)" by (auto simp: update_where_def)
    then show ?thesis using assms(1) [of x] assms(2) [of x] assms(3) [of x] by (intro bexI [of _ x]) auto
  qed
  ultimately show ?thesis using assms(4) by (simp add: settled_def)
qed

lemma settled_map: 
  assumes "settled R t (t\<lparr>shareEvents := xs, connectionSessions := connectionSessions t\<rparr>)"
  shows "settled R t (t\<lparr>shareEvents := xs\<rparr>)"
  using assms by (simp add: settled_def)

lemma fold_unknown:
  "fold (\<lambda>r s. s\<lparr>shareEvents := update_where (\<lambda>x. is_share r x \<and> sh_status x = ShareStatus.PENDING)
                     (to_unknown now reason) (shareEvents s)\<rparr>) rs t =
   t\<lparr>shareEvents := update_where (\<lambda>x. share_ref x \<in> set rs \<and> sh_status x = ShareStatus.PENDING) (to_unknown now reason) (shareEvents t)\<rparr>"
proof (induction rs arbitrary: t)
  case (Cons r rs)
  have "update_where (\<lambda>x. share_ref x \<in> set rs \<and> sh_status x = ShareStatus.PENDING) (to_unknown now reason)
          (update_where (\<lambda>x. is_share r x \<and> sh_status x = ShareStatus.PENDING) (to_unknown now reason) xs) =
        update_where (\<lambda>x. share_ref x \<in> set (r # rs) \<and> sh_status x = ShareStatus.PENDING) (to_unknown now reason) xs" for xs
    by (auto simp: update_where_def is_share_def share_ref_def to_unknown_def)
  then show ?case by (simp add: Cons.IH)
qed (simp add: update_where_def)

lemma unknown_settled: "settled (set rs) t (unknown_shares now rs reason t)"
proof -
  have "settled (set rs) t (t\<lparr>shareEvents := update_where (\<lambda>x. share_ref x \<in> set rs \<and> sh_status x = ShareStatus.PENDING)
          (to_unknown now reason) (shareEvents t)\<rparr>)"
    by (rule settled_map, rule settled_update_where) (auto simp: to_unknown_def share_ref_def)
  from settled_quiet [OF this logged_quiet_store [OF raise_logged]] show ?thesis
    by (auto simp: unknown_shares_def fold_unknown settled_def)
qed

lemma reconcile_settled: "settled {} t (reconcilePending now t)"
proof -
  have "settled {} t (t\<lparr>shareEvents := update_where (stale_share now) (to_unknown now ''Gateway response was not recorded'') (shareEvents t)\<rparr>)"
    by (rule settled_map, rule settled_update_where) (auto simp: to_unknown_def share_ref_def stale_share_def unresolved_def)
  from this settled_quiet [OF this logged_quiet_store [OF raise_logged]] show ?thesis
    by (simp add: reconcilePending_def Let_def)
qed

lemma prune_settled: "settled {} t (pruneRawShares e now t)"
  by (auto simp: settled_def pruneRawShares_def distinct_map_filter)

lemma resolve_share_settled: "shares_ok t \<Longrightarrow> settled {r} t (fst (resolve_share now r accepted ms reason t))"
proof -
  assume ok: "shares_ok t"
  show ?thesis
  proof (cases "List.find (is_share r) (shareEvents t)")
    case None
    then have "\<forall>x \<in> set (shareEvents t). share_ref x \<noteq> r" by (auto simp: find_None_iff is_share_def share_ref_def)
    with None show ?thesis by (auto simp: resolve_share_def resolve_body_def transaction_def andThen_def settled_def)
  next
    case (Some x)
    then have "x \<in> set (shareEvents t)" by (auto dest: find_SomeD)
    with ok have "sh_connectionId x \<in> cn_id ` set (connectionSessions t)" unfolding shares_ok_def by blast
    then have c: "list_ex (\<lambda>c. cn_id c = sh_connectionId x) (connectionSessions t)" by (force simp: list_ex_iff)
    let ?cs = "update_where (\<lambda>c. cn_id c = sh_connectionId x) (count_share accepted) (connectionSessions t)"
    have "map cn_id ?cs = map cn_id (connectionSessions t)" by (rule map_update_where) (simp add: count_share_def)
    from arg_cong [where f = set, OF this]
    have "settled {r} t (t\<lparr>shareEvents := update_where (is_share r) (resolved_share now accepted ms reason) (shareEvents t),
            connectionSessions := ?cs\<rparr>)"
      by (intro settled_update_where) (auto simp: resolved_share_def share_ref_def is_share_def)
    from settled_quiet [OF this publish_quiet_store] Some c show ?thesis
      by (simp add: resolve_share_def resolve_body_def transaction_def andThen_def)
  qed
qed

section \<open>Requests\<close>

definition refs :: "(string \<times> pending_rpc) list \<Rightarrow> share_reference list" where
  "refs ps = List.map_filter (pr_shareEvent \<circ> snd) ps"

lemma refs_simps [simp]:
  "refs [] = []" "refs (kp # ps) = (case pr_shareEvent (snd kp) of None \<Rightarrow> [] | Some x \<Rightarrow> [x]) @ refs ps"
  "refs (ps @ qs) = refs ps @ refs qs"
  by (simp_all add: refs_def List.map_filter_def split: option.splits)

lemma refs_member: "r \<in> set (refs ps) \<longleftrightarrow> (\<exists>k p. (k, p) \<in> set ps \<and> pr_shareEvent p = Some r)"
proof (induction ps)
  case (Cons a ps)
  then show ?case by (cases a, cases "pr_shareEvent (snd a)") auto
qed simp

lemma pending_shares_refs: "pending_shares s = refs (ss_pending s)"
  by (simp add: pending_shares_def refs_def)

lemma pending_shares_simps [simp]:
  "pending_shares (add_pending now m k r s) = pending_shares s @ (case r of None \<Rightarrow> [] | Some x \<Rightarrow> [x])"
  "pending_shares (s\<lparr>ss_pending := []\<rparr>) = []"
  by (simp_all add: pending_shares_refs add_pending_def)

lemma refs_filter: "set (refs (filter P ps)) \<subseteq> set (refs ps)" "distinct (refs ps) \<Longrightarrow> distinct (refs (filter P ps))"
proof -
  show s: "set (refs (filter P ps)) \<subseteq> set (refs ps)" for ps unfolding subset_iff set_filter refs_member by blast
  show "distinct (refs ps) \<Longrightarrow> distinct (refs (filter P ps))"
  proof (induction ps)
    case (Cons a ps)
    then show ?case using s [of ps] by (auto split: option.splits)
  qed simp
qed

lemma refs_remove:
  assumes "unique_on fst ps" and "map_of ps k = Some p" and "distinct (refs ps)"
  shows "set (refs (filter (\<lambda>(j, p). j \<noteq> k) ps)) = set (refs ps) - set_option (pr_shareEvent p)"
  using assms
proof (induction ps)
  case (Cons a ps)
  show ?case
  proof (cases "fst a = k")
    case True
    with Cons.prems have "snd a = p" by (cases a) auto
    moreover have "filter (\<lambda>(j, p). j \<noteq> k) ps = ps"
      using Cons.prems(1) True by (intro filter_True) (auto simp: image_iff)
    ultimately show ?thesis using Cons.prems(3) True by (cases a) (auto split: option.splits)
  next
    case False
    then have m: "map_of ps k = Some p" using Cons.prems(2) by (cases a) auto
    moreover have "distinct (refs ps)" using Cons.prems(3) by (auto split: option.splits)
    ultimately have "set (refs (filter (\<lambda>(j, p). j \<noteq> k) ps)) = set (refs ps) - set_option (pr_shareEvent p)"
      using Cons by simp
    moreover have "r \<in> set (refs ps)" if "pr_shareEvent p = Some r" for r
      using map_of_SomeD [OF m] that by (force simp: refs_member)
    ultimately show ?thesis using False Cons.prems(3) by (cases a) (auto split: option.splits)
  qed
qed simp

lemma remove_pending_inv:
  assumes "session_inv (s, w)" and "map_of (ss_pending s) k = Some p"
    and st: "settled (set_option (pr_shareEvent p)) (wo_store w) t"
  shows "session_inv (remove_pending k s, w\<lparr>wo_store := t\<rparr>)"
proof -
  let ?f = "filter (\<lambda>(j, p). j \<noteq> k)"
  from assms(1) have ok: "shares_ok (wo_store w)" and r: "requests_ok s" and l: "linked s (wo_store w)"
    by (simp_all add: session_inv_def)
  then have u: "unique_on fst (ss_pending s)" "distinct (refs (ss_pending s))"
    by (simp_all add: requests_ok_def pending_shares_refs)
  have "unique_on fst (?f (ss_pending s))" using u(1) by (rule distinct_map_filter)
  moreover have "fst ` set (?f (ss_pending s)) \<subseteq> fst ` set (ss_pending s)" by auto
  ultimately have "requests_ok (remove_pending k s)"
    using r refs_filter(2) [OF u(2)] unfolding requests_ok_def pending_shares_refs remove_pending_def by auto
  moreover have "linked (remove_pending k s) t"
    using settled_linked [OF st l, of "remove_pending k s"] refs_remove [OF u(1) assms(2) u(2)]
    by (simp add: remove_pending_def pending_shares_refs)
  ultimately show ?thesis using settled_shares_ok [OF st ok] by (simp add: session_inv_def)
qed

text \<open>A request gets a fresh identifier.\<close>

lemma add_pending_requests:
  assumes r: "requests_ok s" and "set_option x \<inter> set (pending_shares s) = {}"
  shows "requests_ok (add_pending now m k x s)"
proof -
  have "show_nat (ss_nextId s) \<notin> show_nat ` {..<ss_nextId s}" by auto
  with r have "show_nat (ss_nextId s) \<notin> fst ` set (ss_pending s)" unfolding requests_ok_def by blast
  moreover have "distinct (pending_shares s @ (case x of None \<Rightarrow> [] | Some x \<Rightarrow> [x]))"
    using r assms(2) by (auto simp: requests_ok_def split: option.splits)
  moreover have "fst ` set (ss_pending s) \<subseteq> show_nat ` {..<Suc (ss_nextId s)}"
    using r by (auto simp: requests_ok_def)
  ultimately show ?thesis using r unfolding requests_ok_def pending_shares_simps by (simp add: add_pending_def)
qed

lemma add_pending_inv: "session_inv (s, w) \<Longrightarrow> session_inv (add_pending now m k None s, w)"
  using add_pending_requests [of s None now m k] by (simp add: session_inv_def linked_def) (simp add: add_pending_def)

lemma create_share_inv:
  assumes "create_share now input i d v (wo_store w) = (t, Inr r)" and inv: "session_inv (s, w)"
    and "ss_connectionId s = Some (si_connectionId input)"
  shows "session_inv (add_pending now m k (Some r) s, w\<lparr>wo_store := t\<rparr>)"
proof -
  let ?t = "wo_store w"
  define x where "x = last (shareEvents t)"
  from assms(1) have x: "sh_id x = uuids ?t (minted ?t)" "sh_connectionId x = si_connectionId input"
      "sh_status x = ShareStatus.PENDING" "r = share_ref x"
    and t: "t = ?t\<lparr>minted := Suc (minted ?t), shareEvents := shareEvents ?t @ [x]\<rparr>"
    by (auto simp: create_share_def new_id_def share_ref_def Let_def x_def split: if_splits)
  from inv have ok: "shares_ok ?t" and rq: "requests_ok s" and l: "linked s ?t" by (simp_all add: session_inv_def)
  have fresh: "sh_id x \<notin> minted_ids ?t" using ok x(1) new_id_fresh by (simp add: shares_ok_def)
  have c: "sh_connectionId x \<in> set (ss_connections s)" using rq assms(3) x(2) by (auto simp: requests_ok_def)
  then have c': "sh_connectionId x \<in> cn_id ` set (connectionSessions ?t)" using l by (auto simp: linked_def)
  have new: "r \<notin> set (pending_shares s)" using fresh l x(4) by (auto simp: linked_def share_ref_def)
  have m: "minted_ids t = insert (sh_id x) (minted_ids ?t)" by (simp add: t x(1) minted_ids_def lessThan_Suc)
  have "shares_ok t"
    using ok fresh c' unfolding shares_ok_def m by (auto simp: t)
  moreover have "linked (add_pending now m k (Some r) s) t"
  proof -
    have old: "share_ref y \<noteq> r" if "y \<in> set (shareEvents ?t)" for y
      using that ok fresh by (auto simp: x(4) share_ref_def shares_ok_def)
    have cs: "ss_connections (add_pending now m k (Some r) s) = ss_connections s" by (simp add: add_pending_def)
    have "unresolved x" using x(3) by (simp add: unresolved_def)
    with l old c x(4) show ?thesis unfolding linked_def m cs pending_shares_simps
      by (simp add: t share_ref_def) blast
  qed
  ultimately show ?thesis using add_pending_requests [OF rq, of "Some r"] new by (simp add: session_inv_def)
qed

lemma pending_share_cases:
  assumes "pending_share P now input t = (t', r)"
  shows "(\<exists>e. r = Inl e \<and> t' = t) \<or> (\<exists>x i d v. r = Inr x \<and> create_share now input i d v t = (t', Inr x))"
proof (cases "r")
  case (Inl e)
  have "fst (create_share now input i d v t) = t \<or> \<not> isl (snd (create_share now input i d v t))" for i d v
    by (simp add: create_share_def Let_def split: prod.splits)
  with assms Inl show ?thesis by (auto simp: pending_share_def Let_def split: sum.splits) (metis fst_conv snd_conv sum.disc(1))
next
  case (Inr x)
  with assms show ?thesis by (auto simp: pending_share_def Let_def split: sum.splits)
qed

lemma clientAgent_inv [simp]: "session_inv (s\<lparr>ss_clientAgent := x\<rparr>, w) = session_inv (s, w)"
  "session_inv (s\<lparr>ss_difficulty := y\<rparr>, w) = session_inv (s, w)"
  by (simp_all add: session_inv_def requests_ok_def linked_def pending_shares_def)

lemma response_settled:
  "shares_ok t \<Longrightarrow> (case r of None \<Rightarrow> (t, Inr ()) | Some ref \<Rightarrow> resolve_share now ref ok ms reason t) = (t', x) \<Longrightarrow>
   settled (set_option r) t t'"
  using resolve_share_settled [of t] by (cases r) (force simp: settled_def, metis fst_conv option.simps(5) option.set(2))

section \<open>Connections\<close>

lemma open_connection_inv:
  assumes inv: "session_inv (s, w)"
  shows "session_inv (fst (open_connection D now missing a agent (s, w)))"
proof (cases "ss_binding s")
  case None
  with inv show ?thesis by (simp add: open_connection_def)
next
  case (Some b0)
  let ?t = "wo_store w" and ?b = "b0\<lparr>bd_username := renderUsername (bd_upstream b0) (cust_slug (aw_customer a)) (wk_slug (aw_worker a))\<rparr>"
  obtain t r where c: "createConnection now a (up_id (bd_upstream b0)) (gd_remoteIp D) agent ?t = (t, r)" by fastforce
  show ?thesis
  proof (cases r)
    case (Inl e)
    with c have "t = ?t" by (auto simp: createConnection_def Let_def split: if_splits prod.splits)
    then have "calm (s, w) (s\<lparr>ss_binding := Some ?b\<rparr>, w\<lparr>wo_store := t\<rparr>)" by (simp add: calm_def)
    from calm_inv [OF this inv] c Inl Some show ?thesis by (simp add: open_connection_def)
  next
    case (Inr n)
    let ?s = "s\<lparr>ss_binding := Some ?b, ss_connectionId := Some (cn_id n), ss_connections := cn_id n # ss_connections s\<rparr>"
    from c Inr have n: "cn_id n = uuids ?t (minted ?t)"
      and t: "t = ?t\<lparr>minted := Suc (minted ?t), connectionSessions := connectionSessions ?t @ [n]\<rparr>"
      by (auto simp: createConnection_def new_id_def Let_def split: if_splits)
    from inv have ok: "shares_ok ?t" and rq: "requests_ok s" and l: "linked s ?t" by (simp_all add: session_inv_def)
    have m: "minted_ids t = insert (cn_id n) (minted_ids ?t)" by (simp add: t n minted_ids_def lessThan_Suc)
    have "cn_id n \<notin> minted_ids ?t" using ok n new_id_fresh by (simp add: shares_ok_def)
    with ok have "cn_id n \<notin> sh_connectionId ` set (shareEvents ?t)" unfolding shares_ok_def by blast
    then have fresh: "sh_connectionId x \<noteq> cn_id n" if "x \<in> set (shareEvents ?t)" for x using that by (metis imageI)
    have ps: "pending_shares ?s = pending_shares s" by (simp add: pending_shares_def)
    have "shares_ok t" using ok unfolding shares_ok_def m by (auto simp: t)
    moreover have "requests_ok ?s" using rq unfolding requests_ok_def ps by auto
    moreover have "linked ?s t" using l fresh unfolding linked_def ps m by (auto simp: t)
    ultimately have i: "session_inv (?s, w\<lparr>wo_store := t\<rparr>)" by (simp add: session_inv_def)
    moreover have "calm (?s, w\<lparr>wo_store := t\<rparr>) (?s, w\<lparr>wo_store := t\<lparr>workers := update_where (\<lambda>x. wk_id x = wk_id (aw_worker a))
                            (\<lambda>x. x\<lparr>wk_lastSeenAt := Some now\<rparr>) (workers t)\<rparr>\<rparr>)"
      by (simp add: calm_def quiet_store_def)
    moreover note calm_inv [OF this i]
    ultimately show ?thesis using c Inr Some by (simp add: open_connection_def Let_def)
  qed
qed

lemma closeConnection_quiet: "quiet_store t (closeConnection now i code t)"
proof -
  have "map cn_id (connectionSessions (closeConnection now i code t)) = map cn_id (connectionSessions t)"
    unfolding closeConnection_def by (simp, rule map_update_where) simp
  from arg_cong [where f = set, OF this] show ?thesis by (simp add: quiet_store_def closeConnection_def)
qed

lemma close_session_store:
  assumes "\<not> ss_closing s"
  shows "quiet_store (unknown_shares now (pending_shares s) code (wo_store w)) (wo_store (snd (close_session D now code (s, w))))"
proof -
  define w1 where "w1 = w\<lparr>wo_store := unknown_shares now (pending_shares s) code (wo_store w)\<rparr>"
  define w2 where "w2 = (case ss_binding s of
      Some b \<Rightarrow> if startsWith code ''upstream-'' then pool_failed now (bd_upstream b) (Error code) w1 else w1 | None \<Rightarrow> w1)"
  define w3 where "w3 = (case ss_connectionId s of
      Some c \<Rightarrow> w2\<lparr>wo_store := closeConnection now c code (wo_store w2)\<rparr> | None \<Rightarrow> w2)"
  have eq: "snd (close_session D now code (s, w)) = (case ss_authorized s of
      Some a \<Rightarrow> if ss_countedConnection s
        then w3\<lparr>wo_redis := connectionClosed now (wk_id (aw_worker a)) (aw_connectionLeaseId a) (wo_redis w3),
                wo_store := if ss_connectionId s \<noteq> None
                            then publish ''worker.disconnected'' (wk_id (aw_worker a)) (wo_store w3) else wo_store w3\<rparr>
        else w3
    | None \<Rightarrow> w3)"
    unfolding w3_def w2_def w1_def using assms
    by (cases "ss_authorized s"; cases "ss_connectionId s"; cases "ss_binding s") (simp_all add: close_session_def Let_def)
  have "quiet_store (wo_store w1) (wo_store w2)" by (simp add: w2_def pool_failed_quiet split: option.splits)
  moreover have "quiet_store (wo_store w2) (wo_store w3)" by (simp add: w3_def closeConnection_quiet split: option.splits)
  moreover have "quiet_store (wo_store w3) (wo_store (snd (close_session D now code (s, w))))"
    unfolding eq by (simp split: option.splits)
  ultimately have "quiet_store (wo_store w1) (wo_store (snd (close_session D now code (s, w))))" by (blast intro: quiet_store_trans)
  then show ?thesis by (simp add: w1_def)
qed

lemma close_session_fields:
  "\<not> ss_closing s \<Longrightarrow> ss_pending (fst (close_session D now code (s, w))) = []"
  "ss_connections (fst (close_session D now code (s, w))) = ss_connections s"
  "ss_connectionId (fst (close_session D now code (s, w))) = ss_connectionId s"
  by (simp_all add: close_session_def Let_def)

lemma close_session_inv: "session_inv sw \<Longrightarrow> session_inv (close_session D now code sw)"
proof -
  assume inv: "session_inv sw"
  obtain s w where sw: "sw = (s, w)" by fastforce
  show ?thesis
  proof (cases "ss_closing s")
    case True
    with inv show ?thesis by (simp add: sw close_session_def)
  next
    case False
    note f = close_session_fields(2,3) and f1 = close_session_fields(1) [OF False, of D now code w]
    have st: "settled (set (pending_shares s)) (wo_store w) (wo_store (snd (close_session D now code (s, w))))"
      by (rule settled_quiet [OF unknown_settled close_session_store [OF False]])
    have ps: "pending_shares (fst (close_session D now code (s, w))) = []" by (simp add: pending_shares_refs f1)
    have "requests_ok (fst (close_session D now code (s, w)))"
      using inv by (simp add: requests_ok_def ps f f1 sw session_inv_def)
    moreover have "linked (fst (close_session D now code (s, w))) (wo_store (snd (close_session D now code (s, w))))"
      using inv by (intro settled_linked [OF st, of s]) (simp_all add: ps f sw session_inv_def)
    ultimately show ?thesis using settled_shares_ok [OF st] inv by (simp add: sw session_inv_def)
  qed
qed

text \<open>A session that closes leaves no share pending.\<close>

lemma close_session_settles:
  assumes "session_inv (s, w)" and "\<not> ss_closing s" and "close_session D now code (s, w) = (s', w')"
    and "x \<in> set (shareEvents (wo_store w'))" and "sh_connectionId x \<in> set (ss_connections s)"
  shows "sh_status x \<noteq> ShareStatus.PENDING"
  using close_session_inv [OF assms(1), of D now code] close_session_fields(1) [OF assms(2), of D now code w]
    close_session_fields(2) [of D now code s w] assms(3-5)
  by (auto simp: session_inv_def linked_def pending_shares_refs)

lemma lease_tick_inv: "session_inv sw \<Longrightarrow> session_inv (lease_tick D now sw)"
proof -
  assume inv: "session_inv sw"
  obtain s w where sw: "sw = (s, w)" by fastforce
  have r: "session_inv (s, w\<lparr>wo_redis := r\<rparr>)" for r by (rule calm_inv [OF _ inv]) (simp add: sw calm_def)
  show ?thesis using inv r close_session_inv [OF r]
    by (auto simp: sw lease_tick_def Let_def split: option.splits prod.splits)
qed

lemma or_close_inv: "session_inv (fst r) \<Longrightarrow> session_inv (or_close D now tag r)"
  by (simp add: or_close_def close_session_inv split: sum.splits)

section \<open>Histories\<close>

text \<open>
  What the rest of the server may do while a session lives: shares of the session may be given up or pruned,
  others may come and go.
\<close>

definition elsewhere :: "session \<Rightarrow> store \<Rightarrow> store \<Rightarrow> bool" where
  "elsewhere s t t' \<longleftrightarrow> shares_ok t' \<and> uuids t' = uuids t \<and> minted t \<le> minted t' \<and>
     cn_id ` set (connectionSessions t) \<subseteq> cn_id ` set (connectionSessions t') \<and>
     (\<forall>x' \<in> set (shareEvents t').
        sh_connectionId x' \<notin> set (ss_connections s) \<and> sh_id x' \<notin> fst ` set (pending_shares s) \<or>
        (\<exists>x \<in> set (shareEvents t). share_ref x' = share_ref x \<and> sh_connectionId x' = sh_connectionId x \<and>
           (sh_status x' = sh_status x \<or> sh_status x' = UNKNOWN \<and> unresolved x)))"

lemma settled_elsewhere: "settled {} t t' \<Longrightarrow> shares_ok t \<Longrightarrow> elsewhere s t t'"
  using settled_shares_ok [of "{}" t t'] unfolding elsewhere_def settled_def by blast

lemma elsewhere_inv: "session_inv (s, w) \<Longrightarrow> elsewhere s (wo_store w) (wo_store w') \<Longrightarrow> session_inv (s, w')"
proof -
  assume inv: "session_inv (s, w)" and e: "elsewhere s (wo_store w) (wo_store w')"
  let ?t = "wo_store w" and ?t' = "wo_store w'"
  have l: "linked s ?t" using inv by (simp add: session_inv_def)
  have "minted_ids ?t \<subseteq> minted_ids ?t'" using e by (auto simp: elsewhere_def minted_ids_def)
  moreover have "unresolved x' \<and> sh_connectionId x' \<in> set (ss_connections s)"
    if x': "x' \<in> set (shareEvents ?t')" "share_ref x' \<in> set (pending_shares s)" for x'
  proof -
    have "sh_id x' \<in> fst ` set (pending_shares s)" using x'(2) by (force simp: share_ref_def)
    with e x'(1) obtain x where "x \<in> set (shareEvents ?t)" "share_ref x' = share_ref x" "sh_connectionId x' = sh_connectionId x"
      "sh_status x' = sh_status x \<or> sh_status x' = UNKNOWN \<and> unresolved x" unfolding elsewhere_def by blast
    with l x'(2) show ?thesis by (auto simp: linked_def unresolved_def)
  qed
  moreover have "share_ref x' \<in> set (pending_shares s)"
    if x': "x' \<in> set (shareEvents ?t')" "sh_connectionId x' \<in> set (ss_connections s)" "sh_status x' = ShareStatus.PENDING" for x'
  proof -
    from e x'(1,2) obtain x where "x \<in> set (shareEvents ?t)" "share_ref x' = share_ref x" "sh_connectionId x' = sh_connectionId x"
      "sh_status x' = sh_status x \<or> sh_status x' = UNKNOWN \<and> unresolved x" unfolding elsewhere_def by blast
    with l x'(2,3) show ?thesis by (auto simp: linked_def)
  qed
  ultimately have "linked s ?t'" using l e unfolding linked_def elsewhere_def by (meson order_trans)
  with inv e show ?thesis by (simp add: session_inv_def elsewhere_def)
qed

lemma maintenance_elsewhere:
  "shares_ok t \<Longrightarrow> elsewhere s t (reconcilePending now t)" "shares_ok t \<Longrightarrow> elsewhere s t (pruneRawShares e now t)"
  by (simp_all add: settled_elsewhere reconcile_settled prune_settled)

text \<open>
  The handlers of a session: a message of the miner, the answer to an authentication, a message of the pool.
\<close>

type_synonym handler = "gateway_deps \<Rightarrow> instant \<Rightarrow> json \<Rightarrow> session \<times> world \<Rightarrow> (session \<times> world) \<times> unit result"
type_synonym continuation =
  "gateway_deps \<Rightarrow> instant \<Rightarrow> json \<Rightarrow> authorized_worker option \<Rightarrow> session \<times> world \<Rightarrow> (session \<times> world) \<times> unit result"

text \<open>
  The life of a session.  Sockets, timers and services act in any order; a message that was queued before the
  socket closed is still handled.
\<close>

inductive session_run :: "string \<Rightarrow> handler \<Rightarrow> continuation \<Rightarrow> handler \<Rightarrow> gateway_deps \<Rightarrow> world \<Rightarrow> session \<times> world \<Rightarrow> bool"
  for loginMethod :: string and down :: handler and authorized :: continuation and up :: handler and D :: gateway_deps and w0 :: world where
  opened: "session_run loginMethod down authorized up D w0 (session_start, w0)"
| from_miner: "session_run loginMethod down authorized up D w0 sw \<Longrightarrow> \<not> js_eq_str (member ''method'' m) loginMethod \<Longrightarrow>
    session_run loginMethod down authorized up D w0 (or_close D now ''protocol:'' (down D now m sw))"
| authenticated: "session_run loginMethod down authorized up D w0 sw \<Longrightarrow> js_eq_str (member ''method'' m) loginMethod \<Longrightarrow>
    session_run loginMethod down authorized up D w0 (or_close D now ''protocol:'' (authorized D now m a sw))"
| from_pool: "session_run loginMethod down authorized up D w0 sw \<Longrightarrow>
    session_run loginMethod down authorized up D w0 (or_close D now ''upstream-protocol:'' (up D now m sw))"
| closed: "session_run loginMethod down authorized up D w0 sw \<Longrightarrow>
    session_run loginMethod down authorized up D w0 (close_session D now code sw)"
| tick: "session_run loginMethod down authorized up D w0 sw \<Longrightarrow> session_run loginMethod down authorized up D w0 (lease_tick D now sw)"
| other: "session_run loginMethod down authorized up D w0 (s, w) \<Longrightarrow> elsewhere s (wo_store w) (wo_store w') \<Longrightarrow>
    session_run loginMethod down authorized up D w0 (s, w')"

lemma session_start_inv: "shares_ok (wo_store w) \<Longrightarrow> session_inv (session_start, w)"
  by (simp add: session_inv_def requests_ok_def linked_def session_start_def pending_shares_refs)

locale gateway_session =
  fixes loginMethod :: string and down :: handler and authorized :: continuation and up :: handler
  assumes down_inv: "session_inv sw \<Longrightarrow> session_inv (fst (down D now m sw))"
    and authorized_inv: "session_inv sw \<Longrightarrow> session_inv (fst (authorized D now m a sw))"
    and up_inv: "session_inv sw \<Longrightarrow> session_inv (fst (up D now m sw))"
begin

lemma run_inv: "session_run loginMethod down authorized up D w0 sw \<Longrightarrow> shares_ok (wo_store w0) \<Longrightarrow> session_inv sw"
  by (induction rule: session_run.induct)
    (simp_all add: session_start_inv or_close_inv down_inv authorized_inv up_inv close_session_inv lease_tick_inv elsewhere_inv)

lemma run_accounts:
  assumes "session_run loginMethod down authorized up D w0 (s, w)" and "shares_ok (wo_store w0)"
    and "x \<in> set (shareEvents (wo_store w))"
  shows "sh_connectionId x \<in> set (ss_connections s) \<Longrightarrow> sh_status x = ShareStatus.PENDING \<Longrightarrow> share_ref x \<in> set (pending_shares s)"
    and "share_ref x \<in> set (pending_shares s) \<Longrightarrow> sh_status x = ShareStatus.PENDING \<or> sh_status x = UNKNOWN"
  using run_inv [OF assms(1,2)] assms(3) by (simp_all add: session_inv_def linked_def unresolved_def)

lemma run_close:
  assumes "session_run loginMethod down authorized up D w0 (s, w)" and "shares_ok (wo_store w0)" and "\<not> ss_closing s"
    and "close_session D now code (s, w) = (s', w')"
    and "x \<in> set (shareEvents (wo_store w'))" and "sh_connectionId x \<in> set (ss_connections s)"
  shows "sh_status x \<noteq> ShareStatus.PENDING"
  using close_session_settles [OF run_inv [OF assms(1,2)] assms(3-6)] .

end

section \<open>A gateway to try the sessions on\<close>

definition demo_customer :: customer where
  "demo_customer = \<lparr>cust_id = ''c1'', cust_slug = ''acme'', cust_displayName = ''Acme'', cust_status = EntityStatus.ACTIVE,
     cust_notes = None, cust_createdAt = 0\<rparr>"

definition demo_worker :: "AssetCode \<Rightarrow> worker" where
  "demo_worker asset = \<lparr>wk_id = ''w1'', wk_customerId = ''c1'', wk_slug = ''rig1'', wk_asset = asset, wk_status = EntityStatus.ACTIVE,
     wk_maxConnections = 2, wk_allowedIps = [], wk_lastSeenAt = None\<rparr>"

definition demo_policy :: "AssetCode \<Rightarrow> split_policy" where
  "demo_policy asset = \<lparr>sp_id = ''p1'', sp_customerId = ''c1'', sp_asset = asset, sp_customerBps = 8000, sp_operatorBps = 2000,
     sp_effectiveAt = 0, sp_createdById = None\<rparr>"

definition demo_upstream :: "AssetCode \<Rightarrow> upstream" where
  "demo_upstream asset = \<lparr>up_id = ''u1'', up_accountKey = ''acct'', up_asset = asset, up_protocol = BITCOIN_STRATUM_V1, up_name = ''pool'',
     up_host = ''pool.example'', up_port = 3333, up_tls = False, up_priority = 1, up_enabled = True,
     up_usernameTemplate = ''op.{worker}'', up_passwordCiphertext = None, up_receiveAddress = None,
     up_connectionTimeoutMs = 5000, up_failbackCooldownSeconds = 60, up_lastHealthAt = None, up_lastHealthOk = None,
     up_lastHealthMessage = None\<rparr>"

definition demo_auth :: "AssetCode \<Rightarrow> authorized_worker" where
  "demo_auth asset = \<lparr>aw_worker = demo_worker asset, aw_customer = demo_customer, aw_policy = demo_policy asset, aw_connectionLeaseId = ''lease''\<rparr>"

definition demo_deps :: gateway_deps where
  "demo_deps = \<lparr>gd_services = example_services, gd_shares = \<lparr>sl_decimal = decimal_js\<lparr>dec_mul := (*), dec_toFixed := (\<lambda>_ x. x)\<rparr>, sl_read = (\<lambda>_. Some 1)\<rparr>,
     gd_dial = (\<lambda>_ _. Inr ()), gd_remoteIp = ''10.0.0.1''\<rparr>"

definition demo_world :: "AssetCode \<Rightarrow> world" where
  "demo_world asset =
     \<lparr>wo_store = (empty_store show_nat)\<lparr>customers := [demo_customer], workers := [demo_worker asset], splitPolicies := [demo_policy asset],
        upstreams := [demo_upstream asset]\<rparr>,
      wo_redis = empty_redis\<lparr>rd_set := [connectionKey ''w1'' \<mapsto> ([(''lease'', 180000)], None)]\<rparr>, wo_unhealthy = Map.empty, wo_health = health_start\<rparr>"

lemma demo_world_ok: "shares_ok (wo_store (demo_world asset))"
  by (simp add: shares_ok_def demo_world_def empty_store_def inj_show_nat)

lemma demo_candidates: "candidates now asset m (wo_store (demo_world asset)) = [demo_upstream asset]"
  by (simp add: candidates_def up_candidates_def demo_world_def empty_store_def demo_upstream_def)

lemma demo_connect: "connect_pool demo_deps (demo_world asset) (demo_upstream asset) = Inr ''x''"
  by (simp add: connect_pool_def resolveGatewayProxy_def proxy_get_def find_setting_def demo_world_def empty_store_def
     DEFAULT_SETTING_def up_password_def truthy_def demo_upstream_def demo_deps_def)

lemma demo_success: "pool_success now (demo_upstream asset) (wo_unhealthy (demo_world asset), wo_store (demo_world asset)) =
   ((Map.empty, set_health now True ''Gateway connection successful'' ''u1'' (wo_store (demo_world asset))), Inr ())"
  by (simp add: pool_success_def demo_world_def empty_store_def demo_upstream_def Let_def resolveByDedupe_def find_open_def set_health_def)

lemma demo_pool: "connectPool demo_deps now asset t (accept_worker a session_start, demo_world asset) =
  (((accept_worker a session_start)\<lparr>ss_binding := Some \<lparr>bd_upstream = demo_upstream asset, bd_username = [], bd_password = ''x''\<rparr>,
                     ss_upstream := True, ss_upstreamOpen := True\<rparr>, (demo_world asset)\<lparr>wo_store := set_health now True ''Gateway connection successful'' ''u1'' (wo_store (demo_world asset))\<rparr>), Inr ())"
proof -
  have "(demo_world asset)\<lparr>wo_unhealthy := Map.empty\<rparr> = demo_world asset" by (simp add: demo_world_def)
  then show ?thesis by (simp add: connectPool_def demo_candidates demo_connect demo_success)
qed

definition demo_s :: "AssetCode \<Rightarrow> session" where
  "demo_s asset = (accept_worker (demo_auth asset) session_start)\<lparr>ss_binding := Some \<lparr>bd_upstream = demo_upstream asset, bd_username = ''op.rig1'', bd_password = ''x''\<rparr>,
                     ss_upstream := True, ss_upstreamOpen := True, ss_connectionId := Some (show_nat 0), ss_connections := [show_nat 0]\<rparr>"

definition demo_w :: "AssetCode \<Rightarrow> string option \<Rightarrow> world" where
  "demo_w asset agent = (let t = set_health 1000 True ''Gateway connection successful'' ''u1'' (wo_store (demo_world asset)) in 
    (demo_world asset)\<lparr>wo_store := t\<lparr>minted := 1, connectionSessions := [\<lparr>cn_id = show_nat 0, cn_workerId = ''w1'', cn_upstreamId = Some ''u1'',
                     cn_asset = asset, cn_remoteIp = ''10.0.0.1'', cn_clientAgent = agent,
                     cn_acceptedCount = 0, cn_rejectedCount = 0, cn_connectedAt = 1000, cn_disconnectedAt = None,
                     cn_disconnectCode = None\<rparr>], workers := [(demo_worker asset)\<lparr>wk_lastSeenAt := Some 1000\<rparr>]\<rparr>\<rparr>)"

lemma demo_render: "renderUsername (demo_upstream asset) ''acme'' ''rig1'' = ''op.rig1''"
  by (simp add: demo_upstream_def renderUsername_def startsWith_def)

lemma demo_connection: "(case agent of None \<Rightarrow> True | Some a \<Rightarrow> length a \<le> 255) \<Longrightarrow> open_connection demo_deps 1000 missing (demo_auth asset) agent
   ((accept_worker (demo_auth asset) session_start)\<lparr>ss_binding := Some \<lparr>bd_upstream = demo_upstream asset, bd_username = [], bd_password = ''x''\<rparr>,
                     ss_upstream := True, ss_upstreamOpen := True\<rparr>, (demo_world asset)\<lparr>wo_store := set_health 1000 True ''Gateway connection successful'' ''u1'' (wo_store (demo_world asset))\<rparr>)
   = ((demo_s asset, demo_w asset agent), Inr \<lparr>bd_upstream = demo_upstream asset, bd_username = ''op.rig1'', bd_password = ''x''\<rparr>)"
  by (simp add: open_connection_def Let_def demo_auth_def demo_customer_def demo_worker_def demo_render createConnection_def new_id_def demo_s_def demo_w_def
     accept_worker_def session_start_def demo_world_def empty_store_def set_health_def demo_deps_def split: option.splits)
    (simp_all add: demo_upstream_def)

end
