(* ===== verification/BitcoinSession.thy ===== *)
theory BitcoinSession
  imports SessionSafety
begin

text \<open>
  The Stratum session (\<open>gateway/bitcoin-gateway.session.ts\<close>).  \<open>authorize\<close> is split at the
  authentication: \<open>btc_credentials\<close> is what it asks with, \<open>btc_authorized\<close> what it does with the answer.
\<close>

section \<open>Handlers\<close>

definition ensureUpstream :: "gateway_deps \<Rightarrow> instant \<Rightarrow> session \<times> world \<Rightarrow> (session \<times> world) \<times> unit result" where
  "ensureUpstream D now sw =
     (if ss_upstream (fst sw) then (sw, Inr ()) else connectPool D now BTC ''No Bitcoin upstream is enabled'' sw)"

definition btc_forward ::
  "gateway_deps \<Rightarrow> instant \<Rightarrow> json \<Rightarrow> string \<Rightarrow> share_reference option \<Rightarrow> session \<times> world \<Rightarrow> (session \<times> world) \<times> unit result" where
  "btc_forward D now message method share sw =
     (case ensureUpstream D now sw of
        (sw1, Inl e) \<Rightarrow> (sw1, Inl e)
      | ((s1, w1), Inr _) \<Rightarrow>
          if \<not> ss_upstream s1 then ((s1, w1), Inl (Error ''Bitcoin upstream is unavailable''))
          else ((send_up (with_member ''id'' (JNum (show_nat (ss_nextId s1))) message) (add_pending now message method share s1), w1), Inr ()))"

definition stratum_error :: "json \<Rightarrow> json \<Rightarrow> int \<Rightarrow> string \<Rightarrow> json \<Rightarrow> json" where
  "stratum_error message result code t detail =
     JObj [(''id'', or_null (member ''id'' message)), (''result'', result),
           (''error'', JArr [JNum (show_int code), JStr t, detail])]"

definition btc_credentials :: "json \<Rightarrow> string \<times> string" where
  "btc_credentials message =
     (let params = array_items (member ''params'' message) in (nth_text 0 params, nth_text 1 params))"

definition btc_authorized ::
  "gateway_deps \<Rightarrow> instant \<Rightarrow> json \<Rightarrow> authorized_worker option \<Rightarrow> session \<times> world \<Rightarrow> (session \<times> world) \<times> unit result" where
  "btc_authorized D now message authorized sw =
     (case authorized of
        None \<Rightarrow>
          (close_session D now ''authorization-failed''
             (send_down (stratum_error message (JBool False) 24 ''Local authorization failed'' JNull) (fst sw), snd sw), Inr ())
      | Some a \<Rightarrow>
          (case ensureUpstream D now (accept_worker a (fst sw), snd sw) of
             (sw1, Inl e) \<Rightarrow> (sw1, Inl e)
           | (sw1, Inr _) \<Rightarrow>
               (case open_connection D now ''Bitcoin upstream is unavailable'' a (ss_clientAgent (fst sw1)) sw1 of
                  (sw2, Inl e) \<Rightarrow> (sw2, Inl e)
                | (sw2, Inr b) \<Rightarrow>
                    (case btc_forward D now (with_member ''params'' (JArr [JStr (bd_username b), JStr (bd_password b)]) message)
                            ''mining.authorize'' None sw2 of
                       (sw3, Inl e) \<Rightarrow> (sw3, Inl e)
                     | ((s3, w3), Inr _) \<Rightarrow>
                         ((s3, w3\<lparr>wo_store := publish ''worker.connected'' (wk_id (aw_worker a)) (wo_store w3)\<rparr>), Inr ())))))"

text \<open>\<open>params[0] = username\<close> on a copy of the parameters.\<close>

definition submit_params :: "string \<Rightarrow> json \<Rightarrow> json list" where
  "submit_params username message =
     (case array_items (member ''params'' message) of [] \<Rightarrow> [JStr username] | _ # ps \<Rightarrow> JStr username # ps)"

definition nth_scalar :: "nat \<Rightarrow> json list \<Rightarrow> string" where
  "nth_scalar n xs = (if n < length xs then scalar_text (Some (xs ! n)) else [])"

definition btc_submit :: "gateway_deps \<Rightarrow> instant \<Rightarrow> json \<Rightarrow> session \<times> world \<Rightarrow> (session \<times> world) \<times> unit result" where
  "btc_submit D now message sw =
     (let (s, w) = sw in
      case (ss_authorized s, ss_connectionId s, ss_binding s, ss_upstream s) of
        (Some a, Some c, Some b, True) \<Rightarrow>
          (let params = submit_params (bd_username b) message;
               requestKey = request_key message (nth_scalar 1 params) (nth_scalar 4 params) now
           in case pending_share (gd_shares D) now
                     \<lparr>si_auth = a, si_upstreamId = up_id (bd_upstream b), si_connectionId = c,
                      si_requestKey = requestKey, si_difficulty = ss_difficulty s\<rparr> (wo_store w) of
                (t, Inl e) \<Rightarrow> ((s, w\<lparr>wo_store := t\<rparr>), Inl e)
              | (t, Inr r) \<Rightarrow> btc_forward D now (with_member ''params'' (JArr params) message) ''mining.submit'' (Some r) (s, w\<lparr>wo_store := t\<rparr>))
      | _ \<Rightarrow> ((send_down (stratum_error message (JBool False) 24 ''Authorize first'' JNull) s, w), Inr ()))"

definition btc_allowed :: "string list" where
  "btc_allowed = [''mining.subscribe'', ''mining.configure'', ''mining.extranonce.subscribe'', ''mining.suggest_difficulty'']"

text \<open>Every message of the miner but \<open>mining.authorize\<close>.\<close>

definition btc_onDownstream :: "gateway_deps \<Rightarrow> instant \<Rightarrow> json \<Rightarrow> session \<times> world \<Rightarrow> (session \<times> world) \<times> unit result" where
  "btc_onDownstream D now message sw =
     (let (s, w) = sw; method = member ''method'' message in
      if \<not> js_truthy method then (sw, Inr ())
      else if js_eq_str method ''mining.submit'' then btc_submit D now message sw
      else
        (let s1 = (case (js_eq_str method ''mining.subscribe'', array_items (member ''params'' message)) of
                     (True, JStr t # _) \<Rightarrow> s\<lparr>ss_clientAgent := Some t\<rparr> | _ \<Rightarrow> s)
         in case method of
              Some (JStr m) \<Rightarrow>
                if m \<in> set btc_allowed then btc_forward D now message m None (s1, w)
                else ((send_down (stratum_error message JNull 20 ''Unsupported method'' (JStr m)) s1, w), Inr ())
            | _ \<Rightarrow> ((send_down (stratum_error message JNull 20 ''Unsupported method'' (or_null method)) s1, w), Inr ())))"

definition btc_share_accepted :: "json \<Rightarrow> bool" where
  "btc_share_accepted message \<longleftrightarrow>
     member ''result'' message = Some (JBool True) \<and> (member ''error'' message = None \<or> member ''error'' message = Some JNull)"

text \<open>The answer to a pending request.\<close>

definition btc_response :: "gateway_deps \<Rightarrow> instant \<Rightarrow> json \<Rightarrow> string \<Rightarrow> pending_rpc \<Rightarrow> session \<times> world \<Rightarrow> (session \<times> world) \<times> unit result" where
  "btc_response D now message k p sw =
     (let s1 = remove_pending k (fst sw); w = snd sw;
          accepted = btc_share_accepted message;
          (t, r) = (case pr_shareEvent p of
                      None \<Rightarrow> (wo_store w, Inr ())
                    | Some ref \<Rightarrow> resolve_share now ref accepted (now - pr_startedAt p)
                                    (if accepted then None else Some (reject_reason message)) (wo_store w));
          w1 = w\<lparr>wo_store := t\<rparr>
      in case r of
           Inl e \<Rightarrow> ((s1, w1), Inl e)
         | Inr _ \<Rightarrow>
             (let s2 = send_down (with_member ''id'' (pr_downstreamId p) message) s1 in
              if pr_method p = ''mining.authorize'' \<and> member ''result'' message \<noteq> Some (JBool True)
              then (close_session D now ''upstream-authorization-failed'' (s2, w1), Inr ())
              else ((s2, w1), Inr ())))"

definition btc_onUpstream :: "gateway_deps \<Rightarrow> instant \<Rightarrow> json \<Rightarrow> session \<times> world \<Rightarrow> (session \<times> world) \<times> unit result" where
  "btc_onUpstream D now message sw =
     (let (s, w) = sw; method = member ''method'' message in
      if js_truthy method then
        (if js_eq_str method ''client.reconnect'' then (close_session D now ''upstream-requested-reconnect'' sw, Inr ())
         else (let s1 = (case (js_eq_str method ''mining.set_difficulty'', array_items (member ''params'' message)) of
                           (True, JNum t # _) \<Rightarrow> s\<lparr>ss_difficulty := t\<rparr>
                         | (True, JStr t # _) \<Rightarrow> s\<lparr>ss_difficulty := t\<rparr>
                         | _ \<Rightarrow> s)
               in ((send_down message s1, w), Inr ())))
      else (case member ''id'' message of
              None \<Rightarrow> (sw, Inr ())
            | Some JNull \<Rightarrow> (sw, Inr ())
            | Some v \<Rightarrow>
                (case map_of (ss_pending s) (js_String v) of
                   None \<Rightarrow> (sw, Inr ())
                 | Some p \<Rightarrow> btc_response D now message (js_String v) p sw)))"

section \<open>Every handler keeps the invariant\<close>

lemma ensureUpstream_calm: "calm sw (fst (ensureUpstream D now sw))"
  by (simp add: ensureUpstream_def connectPool_calm)

lemma ensureUpstream_inv: "session_inv sw \<Longrightarrow> ensureUpstream D now sw = (sw', r) \<Longrightarrow> session_inv sw'"
  using calm_inv [OF ensureUpstream_calm [of sw D now]] by simp

lemma btc_forward_inv: "session_inv sw \<Longrightarrow> session_inv (fst (btc_forward D now m k None sw))"
  by (auto simp: btc_forward_def add_pending_inv dest: ensureUpstream_inv split: prod.splits sum.splits)

lemma btc_submit_inv: "session_inv sw \<Longrightarrow> session_inv (fst (btc_submit D now m sw))"
proof -
  assume inv: "session_inv sw"
  obtain s w where sw: "sw = (s, w)" by fastforce
  show ?thesis
  proof (cases "\<exists>a c b. ss_authorized s = Some a \<and> ss_connectionId s = Some c \<and> ss_binding s = Some b \<and> ss_upstream s")
    case False
    with inv show ?thesis by (auto simp: sw btc_submit_def split: option.splits bool.splits)
  next
    case True
    then obtain a c b where f: "ss_authorized s = Some a" "ss_connectionId s = Some c" "ss_binding s = Some b" "ss_upstream s" by blast
    define i where "i = \<lparr>si_auth = a, si_upstreamId = up_id (bd_upstream b), si_connectionId = c,
      si_requestKey = request_key m (nth_scalar 1 (submit_params (bd_username b) m)) (nth_scalar 4 (submit_params (bd_username b) m)) now,
      si_difficulty = ss_difficulty s\<rparr>"
    obtain t r where p: "pending_share (gd_shares D) now i (wo_store w) = (t, r)" by fastforce
    have i: "ss_connectionId s = Some (si_connectionId i)" by (simp add: i_def f)
    have *: "btc_submit D now m sw = (case r of
        Inl e \<Rightarrow> ((s, w\<lparr>wo_store := t\<rparr>), Inl e)
      | Inr x \<Rightarrow> btc_forward D now (with_member ''params'' (JArr (submit_params (bd_username b) m)) m) ''mining.submit'' (Some x) (s, w\<lparr>wo_store := t\<rparr>))"
      using f p [unfolded i_def] by (simp add: btc_submit_def sw Let_def split: sum.splits)
    from pending_share_cases [OF p] show ?thesis
    proof (elim disjE exE conjE)
      fix e assume "r = Inl e" "t = wo_store w"
      with inv show ?thesis unfolding * by (simp add: sw)
    next
      fix x j d v assume "r = Inr x" and cr: "create_share now i j d v (wo_store w) = (t, Inr x)"
      with create_share_inv [OF cr inv [unfolded sw] i] f(4) show ?thesis
        unfolding * by (simp add: btc_forward_def ensureUpstream_def)
    qed
  qed
qed

lemma btc_onDownstream_inv: "session_inv sw \<Longrightarrow> session_inv (fst (btc_onDownstream D now m sw))"
  by (cases sw) (auto simp: btc_onDownstream_def Let_def btc_submit_inv btc_forward_inv
      split: if_splits option.splits json.splits list.splits bool.splits)

lemma btc_authorized_inv: "session_inv sw \<Longrightarrow> session_inv (fst (btc_authorized D now m a sw))"
proof -
  assume inv: "session_inv sw"
  show ?thesis
  proof (cases a)
    case None
    with inv show ?thesis by (cases sw) (simp add: btc_authorized_def close_session_inv)
  next
    case (Some aw)
    obtain s1 w1 r1 where e: "ensureUpstream D now (accept_worker aw (fst sw), snd sw) = ((s1, w1), r1)" by (metis prod.collapse)
    have i1: "session_inv (s1, w1)" by (rule ensureUpstream_inv [OF _ e]) (use inv in \<open>cases sw, simp\<close>)
    obtain s2 w2 r2 where o2: "open_connection D now ''Bitcoin upstream is unavailable'' aw (ss_clientAgent s1) (s1, w1) = ((s2, w2), r2)"
      by (metis prod.collapse)
    have i2: "session_inv (s2, w2)" using open_connection_inv [OF i1, of D now _ aw "ss_clientAgent s1"] o2 by (metis fst_conv)
    have i3: "session_inv (s3, w3)" if "btc_forward D now m' k None (s2, w2) = ((s3, w3), r3)" for m' k s3 w3 r3
      using btc_forward_inv [OF i2, of D now m' k] that by simp
    show ?thesis using i1 i2 i3 quiet_world_inv [OF i3]
      by (auto simp: btc_authorized_def Some e o2 split: sum.splits prod.splits)
  qed
qed

lemma btc_response_inv:
  assumes inv: "session_inv (s, w)" and p: "map_of (ss_pending s) k = Some p"
  shows "session_inv (fst (btc_response D now m k p (s, w)))"
proof -
  define ok where "ok = btc_share_accepted m"
  obtain t r where tr: "(case pr_shareEvent p of None \<Rightarrow> (wo_store w, Inr ())
      | Some ref \<Rightarrow> resolve_share now ref ok (now - pr_startedAt p) (if ok then None else Some (reject_reason m)) (wo_store w)) = (t, r)"
    by fastforce
  have "shares_ok (wo_store w)" using inv by (simp add: session_inv_def)
  from remove_pending_inv [OF inv p response_settled [OF this tr]]
  have "session_inv (remove_pending k s, w\<lparr>wo_store := t\<rparr>)" .
  then show ?thesis using tr close_session_inv
    by (auto simp: btc_response_def Let_def ok_def [symmetric] split: sum.splits)
qed

lemma btc_onUpstream_inv: "session_inv sw \<Longrightarrow> session_inv (fst (btc_onUpstream D now m sw))"
  by (cases sw) (auto simp: btc_onUpstream_def Let_def close_session_inv btc_response_inv
      split: if_splits option.splits json.splits list.splits bool.splits)

interpretation btc: gateway_session "''mining.authorize''" btc_onDownstream btc_authorized btc_onUpstream
  by unfold_locales (rule btc_onDownstream_inv btc_authorized_inv btc_onUpstream_inv, assumption)+

end
