(* ===== verification/BitcoinSafety.thy ===== *)
theory BitcoinSafety
  imports BitcoinSession
begin

text \<open>
  What the Stratum session guarantees: a submitted share is recorded before it is forwarded, every recorded share is
  answered, given up or still waited for, and the pool never sees what a miner authorized with.
\<close>

section \<open>Messages for the pool\<close>

lemma map_of_obj_put: "map_of (obj_put k v kvs) j = (if j = k then Some v else map_of kvs j)"
  by (induction k v kvs rule: obj_put.induct) auto

lemma member_with_member:
  "member k (with_member j v m) = (if k = j then Some v else if is_object m then member k m else None)"
  by (cases m) (auto simp: with_member_def member_def is_object_def map_of_obj_put)

section \<open>Shares\<close>

definition submitted_row :: "authorized_worker \<Rightarrow> uuid \<Rightarrow> pool_binding \<Rightarrow> uuid \<Rightarrow> string \<Rightarrow> rat \<Rightarrow> rat \<Rightarrow> instant \<Rightarrow> uuid \<Rightarrow> share_event" where
  "submitted_row a c b policy key d work now i =
     \<lparr>sh_id = i, sh_asset = wk_asset (aw_worker a), sh_customerId = cust_id (aw_customer a), sh_workerId = wk_id (aw_worker a),
      sh_upstreamId = up_id (bd_upstream b), sh_connectionId = c, sh_splitPolicyId = policy, sh_requestKey = key,
      sh_status = ShareStatus.PENDING, sh_difficulty = d, sh_normalizedWork = work, sh_submittedAt = now, sh_resolvedAt = None,
      sh_upstreamLatencyMs = None, sh_rejectReason = None, sh_allocationBatchId = None\<rparr>"

lemma btc_submit_eq:
  assumes s: "ss_authorized s = Some a" "ss_connectionId s = Some c" "ss_binding s = Some b" "ss_upstream s" "ss_upstreamOpen s"
    and "wk_asset (aw_worker a) = BTC"
    and "current_policy now (cust_id (aw_customer a)) BTC (wo_store w) = Some policy"
    and "sl_read (gd_shares D) (ss_difficulty s) = Some d"
    and work: "work = dec_toFixed (sl_decimal (gd_shares D)) 18 (dec_mul (sl_decimal (gd_shares D)) d 4294967296)"
    and fits: "fits_column 38 18 (dec_toFixed (sl_decimal (gd_shares D)) 18 d)" "fits_column 65 18 work"
    and key: "key = request_key m (nth_scalar 1 (submit_params (bd_username b) m)) (nth_scalar 4 (submit_params (bd_username b) m)) now"
      "length key \<le> 160" "\<forall>x \<in> set (shareEvents (wo_store w)). sh_connectionId x = c \<longrightarrow> sh_requestKey x \<noteq> key \<or> sh_submittedAt x \<noteq> now"
  shows "btc_submit D now m (s, w) =
    (let t = wo_store w; i = uuids t (minted t); m' = with_member ''params'' (JArr (submit_params (bd_username b) m)) m in
     ((send_up (with_member ''id'' (JNum (show_nat (ss_nextId s))) m') (add_pending now m' ''mining.submit'' (Some (i, now)) s),
       w\<lparr>wo_store := t\<lparr>minted := Suc (minted t), shareEvents := shareEvents t @
         [submitted_row a c b (sp_id policy) key (dec_toFixed (sl_decimal (gd_shares D)) 18 d) work now i]\<rparr>\<rparr>), Inr ()))"
proof -
  let ?i = "\<lparr>si_auth = a, si_upstreamId = up_id (bd_upstream b), si_connectionId = c, si_requestKey = key, si_difficulty = ss_difficulty s\<rparr>"
  let ?d = "dec_toFixed (sl_decimal (gd_shares D)) 18 d"
  have p: "pending_share (gd_shares D) now ?i (wo_store w) = create_share now ?i (sp_id policy) ?d work (wo_store w)"
    using assms(6-8) by (simp add: pending_share_def activePolicy_def btc_normalizedWork_def new_Decimal_def work)
  have "(c, key, now) \<notin> (\<lambda>x. (sh_connectionId x, sh_requestKey x, sh_submittedAt x)) ` set (shareEvents (wo_store w))"
    using key(3) by auto
  then have cr: "create_share now ?i (sp_id policy) ?d work (wo_store w) =
     (let t = wo_store w; i = uuids t (minted t) in
      (t\<lparr>minted := Suc (minted t), shareEvents := shareEvents t @ [submitted_row a c b (sp_id policy) key ?d work now i]\<rparr>, Inr (i, now)))"
    using key(2) fits by (simp add: create_share_def new_id_def submitted_row_def Let_def)
  show ?thesis using s p [unfolded cr] unfolding key(1)
    by (simp add: btc_submit_def Let_def btc_forward_def ensureUpstream_def)
qed


text \<open>A session that authorizes and submits one share.\<close>

definition demo_login :: json where
  "demo_login = JObj [(''id'', JNum ''1''), (''method'', JStr ''mining.authorize''), (''params'', JArr [JStr ''acme.rig1'', JStr ''secret''])]"

definition demo_submit :: json where
  "demo_submit = JObj [(''id'', JNum ''2''), (''method'', JStr ''mining.submit''),
     (''params'', JArr [JStr ''acme.rig1'', JStr ''job'', JStr ''00'', JStr ''5f'', JStr ''nonce''])]"

definition demo_btc :: "session \<times> world" where
  "demo_btc = or_close demo_deps 2000 ''protocol:'' (btc_onDownstream demo_deps 2000 demo_submit
     (or_close demo_deps 1000 ''protocol:'' (btc_authorized demo_deps 1000 demo_login (Some (demo_auth BTC)) (session_start, demo_world BTC))))"

lemma demo_authorized: "fst (btc_authorized demo_deps 1000 demo_login (Some (demo_auth BTC)) (session_start, demo_world BTC)) =
  (send_up (JObj [(''id'', JNum ''1''), (''method'', JStr ''mining.authorize''), (''params'', JArr [JStr ''op.rig1'', JStr ''x''])])
     (add_pending 1000 demo_login ''mining.authorize'' None (demo_s BTC)), (demo_w BTC None)\<lparr>wo_store := publish ''worker.connected'' ''w1'' (wo_store (demo_w BTC None))\<rparr>)
   \<and> snd (btc_authorized demo_deps 1000 demo_login (Some (demo_auth BTC)) (session_start, demo_world BTC)) = Inr ()"
proof -
  have u: "ss_upstream (demo_s BTC)" "ss_nextId (demo_s BTC) = 1" "\<not> ss_upstream (accept_worker (demo_auth BTC) session_start)"
    "ss_clientAgent (accept_worker (demo_auth BTC) session_start) = None" by (simp_all add: demo_s_def accept_worker_def session_start_def)
  have n: "show_nat 1 = ''1''" by code_simp
  show ?thesis
   using u n by (simp add: btc_authorized_def ensureUpstream_def demo_pool demo_connection btc_forward_def demo_login_def with_member_def add_pending_def member_def)
     (simp add: demo_auth_def demo_worker_def)
qed

definition demo_btc1 :: "session \<times> world" where
  "demo_btc1 = fst (btc_authorized demo_deps 1000 demo_login (Some (demo_auth BTC)) (session_start, demo_world BTC))"

definition demo_key :: string where
  "demo_key = request_key demo_submit (nth_scalar 1 (submit_params ''op.rig1'' demo_submit)) (nth_scalar 4 (submit_params ''op.rig1'' demo_submit)) 2000"

definition demo_sent :: json where
  "demo_sent = JObj [(''id'', JNum ''1''), (''method'', JStr ''mining.authorize''), (''params'', JArr [JStr ''op.rig1'', JStr ''x''])]"

abbreviation demo_binding :: pool_binding where
  "demo_binding \<equiv> \<lparr>bd_upstream = demo_upstream BTC, bd_username = ''op.rig1'', bd_password = ''x''\<rparr>"

lemma demo_btc1_session:
  "ss_authorized (fst demo_btc1) = Some (demo_auth BTC)" "ss_connectionId (fst demo_btc1) = Some (show_nat 0)"
  "ss_binding (fst demo_btc1) = Some demo_binding" "ss_upstream (fst demo_btc1)" "ss_upstreamOpen (fst demo_btc1)"
  "ss_up (fst demo_btc1) = [demo_sent]"
  "ss_connections (fst demo_btc1) = [show_nat 0]" "\<not> ss_closing (fst demo_btc1)"
  using demo_authorized
  by (simp_all add: demo_btc1_def demo_s_def accept_worker_def session_start_def send_up_def add_pending_def demo_sent_def)

lemma demo_btc1_world:
  "shareEvents (wo_store (snd demo_btc1)) = []"
  "current_policy 2000 (cust_id (aw_customer (demo_auth BTC))) BTC (wo_store (snd demo_btc1)) = Some (demo_policy BTC)"
  using demo_authorized
  by (simp_all add: demo_btc1_def demo_w_def demo_world_def empty_store_def Let_def set_health_def current_policy_def publish_def
        newest_first_def demo_policy_def demo_auth_def demo_customer_def)

lemma demo_params: "submit_params ''op.rig1'' demo_submit = [JStr ''op.rig1'', JStr ''job'', JStr ''00'', JStr ''5f'', JStr ''nonce'']"
  by (simp add: submit_params_def demo_submit_def member_def array_items_def)

lemma demo_key_short: "length demo_key \<le> 160"
  unfolding demo_key_def demo_params by code_simp

lemma demo_lib:
  "sl_read (gd_shares demo_deps) t = Some 1" "fits_column 38 18 (dec_toFixed (sl_decimal (gd_shares demo_deps)) 18 1)"
  "4294967296 = dec_toFixed (sl_decimal (gd_shares demo_deps)) 18 (dec_mul (sl_decimal (gd_shares demo_deps)) 1 4294967296)"
  "fits_column 65 18 4294967296" "wk_asset (aw_worker (demo_auth BTC)) = BTC" "is_object demo_submit"
  by (simp_all add: demo_deps_def fits_column_def demo_auth_def demo_worker_def is_object_def demo_submit_def)

lemma demo_key_eq: "demo_key = request_key demo_submit (nth_scalar 1 (submit_params (bd_username demo_binding) demo_submit))
    (nth_scalar 4 (submit_params (bd_username demo_binding) demo_submit)) 2000"
  by (simp add: demo_key_def)

lemma demo_fresh: "\<forall>x \<in> set (shareEvents (wo_store (snd demo_btc1))). sh_connectionId x = show_nat 0 \<longrightarrow> sh_requestKey x \<noteq> demo_key \<or> sh_submittedAt x \<noteq> 2000"
  by (simp add: demo_btc1_world)

lemma demo_btc_state:
  obtains x where "sh_status x = ShareStatus.PENDING" "sh_connectionId x = show_nat 0" "shareEvents (wo_store (snd demo_btc)) = [x]"
    "ss_connections (fst demo_btc) = [show_nat 0]" "\<not> ss_closing (fst demo_btc)"
    "demo_sent \<in> set (ss_up (fst demo_btc))"
proof -
  obtain s w where sw: "demo_btc1 = (s, w)" by fastforce
  note f = demo_btc1_session [unfolded sw fst_conv] and e = demo_btc1_world [unfolded sw snd_conv]
  note sub = btc_submit_eq [OF f(1-5) demo_lib(5) e(2) demo_lib(1,3,2,4) demo_key_eq demo_key_short demo_fresh [unfolded sw snd_conv]]
  have down: "btc_onDownstream demo_deps 2000 demo_submit (s, w) = btc_submit demo_deps 2000 demo_submit (s, w)"
    by (simp add: btc_onDownstream_def demo_submit_def member_def js_eq_str_def js_truthy_def)
  have d: "demo_btc = fst (btc_submit demo_deps 2000 demo_submit (s, w))"
    using sw demo_authorized by (simp add: demo_btc_def demo_btc1_def or_close_def down sub Let_def)
  show ?thesis
  proof (rule that)
    show "shareEvents (wo_store (snd demo_btc)) = [submitted_row (demo_auth BTC) (show_nat 0) demo_binding
      (sp_id (demo_policy BTC)) demo_key 1 4294967296 2000 (uuids (wo_store w) (minted (wo_store w)))]"
      by (simp add: d sub Let_def e) (simp add: demo_deps_def)
    show "ss_connections (fst demo_btc) = [show_nat 0]" "\<not> ss_closing (fst demo_btc)"
      by (simp_all add: d sub Let_def f send_up_def add_pending_def)
    show "demo_sent \<in> set (ss_up (fst demo_btc))" by (simp add: d sub Let_def f send_up_def add_pending_def)
  qed (simp_all add: submitted_row_def)
qed


section \<open>Every share is accounted for\<close>


lemma demo_btc_run: "session_run ''mining.authorize'' btc_onDownstream btc_authorized btc_onUpstream demo_deps (demo_world BTC) demo_btc"
  unfolding demo_btc_def
  by (intro session_run.from_miner session_run.authenticated session_run.opened) (simp_all add: demo_login_def demo_submit_def js_eq_str_def member_def)


section \<open>An authorization that comes too late\<close>

text \<open>Connecting a pool changes the binding and the socket, and keeps the password the pool was configured with.\<close>

definition own_password :: "gateway_deps \<Rightarrow> pool_binding \<Rightarrow> bool" where
  "own_password D b \<longleftrightarrow> up_password (sv_crypto (gd_services D)) (bd_upstream b) = Inr (bd_password b)"

definition rebound :: "gateway_deps \<Rightarrow> session \<Rightarrow> session \<Rightarrow> bool" where
  "rebound D s s' \<longleftrightarrow> (\<exists>b u q. s' = s\<lparr>ss_binding := b, ss_upstream := u, ss_upstreamOpen := q\<rparr> \<and>
     (b = ss_binding s \<or> (\<exists>v. b = Some v \<and> own_password D v)))"

lemma rebound_trans: "rebound D s s' \<Longrightarrow> rebound D s' s'' \<Longrightarrow> rebound D s s''"
  by (force simp: rebound_def)

lemma rebound_refl [simp]: "rebound D s s"
  unfolding rebound_def by (intro exI [of _ "ss_binding s"] exI [of _ "ss_upstream s"] exI [of _ "ss_upstreamOpen s"]) simp

lemma rebound_fields:
  "rebound D s s' \<Longrightarrow> ss_closing s' = ss_closing s" "rebound D s s' \<Longrightarrow> ss_authorized s' = ss_authorized s"
  "rebound D s s' \<Longrightarrow> ss_leaseTimer s' = ss_leaseTimer s" "rebound D s s' \<Longrightarrow> ss_up s' = ss_up s"
  "rebound D s s' \<Longrightarrow> ss_connectionId s' = ss_connectionId s"
  by (auto simp: rebound_def)

lemma try_pools_rebound: "rebound D (fst sw) (fst (fst (try_pools D now us e sw)))"
proof (induction us arbitrary: e sw)
  case (Cons u us)
  obtain s w where sw: "sw = (s, w)" by fastforce
  show ?case
  proof (cases "connect_pool D w u")
    case (Inl x)
    with Cons.IH [where e = x and sw = "(s, pool_failed now u x w)"] show ?thesis by (simp add: sw)
  next
    case (Inr password)
    then have pw: "up_password (sv_crypto (gd_services D)) u = Inr password" by (auto simp: connect_pool_def ebind_eq_Inr)
    let ?s = "s\<lparr>ss_binding := Some \<lparr>bd_upstream = u, bd_username = [], bd_password = password\<rparr>, ss_upstream := True, ss_upstreamOpen := True\<rparr>"
    have r: "rebound D s ?s" unfolding rebound_def
      by (intro exI conjI disjI2) (rule refl, rule refl, simp add: own_password_def pw)
    obtain m t y where p: "pool_success now u (wo_unhealthy w, wo_store w) = ((m, t), y)" by (metis prod.collapse)
    show ?thesis
    proof (cases y)
      case (Inl x)
      note ih = Cons.IH [where sw = "(?s, pool_failed now u x (w\<lparr>wo_unhealthy := m, wo_store := t\<rparr>))" and e = x, unfolded fst_conv]
      from rebound_trans [OF r ih] Inl
      show ?thesis using \<open>connect_pool D w u = Inr password\<close> p by (simp add: sw Let_def)
    qed (use \<open>connect_pool D w u = Inr password\<close> p r in \<open>simp add: sw Let_def\<close>)
  qed
qed simp

lemma ensureUpstream_rebound: "rebound D (fst sw) (fst (fst (ensureUpstream D now sw)))"
  by (simp add: ensureUpstream_def connectPool_def try_pools_rebound)

lemma open_connection_fields:
  "ss_closing (fst (fst (open_connection D now t a g sw))) = ss_closing (fst sw)"
  "ss_authorized (fst (fst (open_connection D now t a g sw))) = ss_authorized (fst sw)"
  "ss_leaseTimer (fst (fst (open_connection D now t a g sw))) = ss_leaseTimer (fst sw)"
  "ss_up (fst (fst (open_connection D now t a g sw))) = ss_up (fst sw)"
  by (auto simp: open_connection_def Let_def split: option.splits sum.splits prod.splits)

lemma btc_forward_fields:
  "ss_closing (fst (fst (btc_forward D now m k x sw))) = ss_closing (fst sw)"
  "ss_authorized (fst (fst (btc_forward D now m k x sw))) = ss_authorized (fst sw)"
  "ss_leaseTimer (fst (fst (btc_forward D now m k x sw))) = ss_leaseTimer (fst sw)"
  using rebound_fields [OF ensureUpstream_rebound [of D sw now]]
  by (auto simp: btc_forward_def send_up_def add_pending_def split: sum.splits prod.splits)

lemma btc_authorized_path:
  obtains s1 w1 s2 w2 where
    "rebound D (accept_worker a (fst sw)) s1" "fst (fst (open_connection D now ''Bitcoin upstream is unavailable'' a (ss_clientAgent s1) (s1, w1))) = s2"
    "fst (fst (btc_authorized D now m (Some a) sw)) \<in> {s1, s2} \<union> range (\<lambda>ps. fst (fst (btc_forward D now (with_member ''params'' (JArr ps) m) ''mining.authorize'' None (s2, w2))))"
proof -
  obtain s1 w1 r1 where E: "ensureUpstream D now (accept_worker a (fst sw), snd sw) = ((s1, w1), r1)" by (metis prod.collapse)
  obtain s2 w2 r2 where O: "open_connection D now ''Bitcoin upstream is unavailable'' a (ss_clientAgent s1) (s1, w1) = ((s2, w2), r2)"
    by (metis prod.collapse)
  show thesis
  proof (rule that)
    show "rebound D (accept_worker a (fst sw)) s1" using ensureUpstream_rebound [of D "(accept_worker a (fst sw), snd sw)" now] E by simp
    show "fst (fst (open_connection D now ''Bitcoin upstream is unavailable'' a (ss_clientAgent s1) (s1, w1))) = s2" by (simp add: O)
    show "fst (fst (btc_authorized D now m (Some a) sw)) \<in> {s1, s2} \<union>
        range (\<lambda>ps. fst (fst (btc_forward D now (with_member ''params'' (JArr ps) m) ''mining.authorize'' None (s2, w2))))"
    proof (cases r1)
      case (Inr y)
      show ?thesis
      proof (cases r2)
        case (Inr b)
        let ?ps = "[JStr (bd_username b), JStr (bd_password b)]"
        obtain s3 w3 r3 where F: "btc_forward D now (with_member ''params'' (JArr ?ps) m) ''mining.authorize'' None (s2, w2) = ((s3, w3), r3)"
          by (metis prod.collapse)
        then have "s3 = fst (fst (btc_forward D now (with_member ''params'' (JArr ?ps) m) ''mining.authorize'' None (s2, w2)))" by simp
        moreover have "fst (fst (btc_authorized D now m (Some a) sw)) = s3"
          using E O F \<open>r1 = Inr y\<close> Inr by (cases r3) (simp_all add: btc_authorized_def)
        ultimately show ?thesis by blast
      qed (use E O Inr in \<open>simp add: btc_authorized_def\<close>)
    qed (use E in \<open>simp add: btc_authorized_def\<close>)
  qed
qed

lemma btc_authorized_fields:
  "ss_closing (fst (fst (btc_authorized D now m (Some a) sw))) = ss_closing (fst sw)"
  "ss_authorized (fst (fst (btc_authorized D now m (Some a) sw))) = Some a"
  "ss_leaseTimer (fst (fst (btc_authorized D now m (Some a) sw)))"
proof -
  obtain s1 w1 s2 w2 where r: "rebound D (accept_worker a (fst sw)) s1"
    and c: "fst (fst (open_connection D now ''Bitcoin upstream is unavailable'' a (ss_clientAgent s1) (s1, w1))) = s2"
    and p: "fst (fst (btc_authorized D now m (Some a) sw)) \<in> {s1, s2} \<union>
      range (\<lambda>ps. fst (fst (btc_forward D now (with_member ''params'' (JArr ps) m) ''mining.authorize'' None (s2, w2))))"
    by (rule btc_authorized_path)
  have 1: "ss_closing s1 = ss_closing (fst sw)" "ss_authorized s1 = Some a" "ss_leaseTimer s1"
    using rebound_fields [OF r] by (simp_all add: accept_worker_def)
  then have 2: "ss_closing s2 = ss_closing (fst sw)" "ss_authorized s2 = Some a" "ss_leaseTimer s2"
    using open_connection_fields [of D now _ a _ "(s1, w1)"] c by (metis fst_conv)+
  show "ss_closing (fst (fst (btc_authorized D now m (Some a) sw))) = ss_closing (fst sw)"
    "ss_authorized (fst (fst (btc_authorized D now m (Some a) sw))) = Some a"
    "ss_leaseTimer (fst (fst (btc_authorized D now m (Some a) sw)))"
    using p 1 2 btc_forward_fields by auto
qed

lemma late_lease_renewed:
  assumes "ss_leaseTimer s" and "ss_authorized s = Some a" and "aw_connectionLeaseId a \<in> fst ` set (live_set t (connectionKey (wk_id (aw_worker a))) (wo_redis w))"
    and "t' < t + leaseMs"
  shows "(aw_connectionLeaseId a, t + leaseMs) \<in> set (live_set t' (connectionKey (wk_id (aw_worker a))) (wo_redis (snd (lease_tick D t (s, w)))))"
  using assms by (auto simp: lease_tick_def renewConnection_def lease_renew_def live_set_def alive_def zadd_def leaseMs_def)

text \<open>C28: An authorization that is answered after the session closed is never released.  The miner has gone while the password was
  checked; the session counts the lease and starts renewing it all the same, every later close is ignored because the session is
  closing already, and each beat of the timer extends the lease, so that one of the worker's connections stays taken for
  as long as the process runs.\<close>

theorem btc_late_authorization_leaks:
  assumes "ss_closing s" and "or_close D now ''protocol:'' (btc_authorized D now m (Some a) (s, w)) = (s', w')"
  shows "ss_leaseTimer s' \<and> ss_authorized s' = Some a \<and>
    (\<forall>t code w''. close_session D t code (s', w'') = (s', w'')) \<and>
    (\<forall>t w''. aw_connectionLeaseId a \<in> fst ` set (live_set t (connectionKey (wk_id (aw_worker a))) (wo_redis w'')) \<longrightarrow>
       (\<forall>t' < t + leaseMs. (aw_connectionLeaseId a, t + leaseMs) \<in>
          set (live_set t' (connectionKey (wk_id (aw_worker a))) (wo_redis (snd (lease_tick D t (s', w'')))))))"
proof -
  let ?r = "btc_authorized D now m (Some a) (s, w)"
  have c: "ss_closing (fst (fst ?r))" using btc_authorized_fields(1) [of D now m a "(s, w)"] assms(1) by simp
  then have "or_close D now ''protocol:'' ?r = fst ?r"
    by (cases "fst ?r") (simp add: or_close_def close_session_def split: sum.splits)
  with assms(2) have s': "s' = fst (fst ?r)" by (metis fst_conv)
  have f: "ss_leaseTimer s'" "ss_authorized s' = Some a" "ss_closing s'"
    using btc_authorized_fields [of D now m a "(s, w)"] c by (simp_all add: s')
  with late_lease_renewed [OF f(1,2)] show ?thesis by (simp add: close_session_def)
qed

theorem btc_late_authorization_leaks_witness:
  "let s = fst (close_session demo_deps 500 ''downstream-closed'' (session_start, demo_world BTC));
       s' = fst (or_close demo_deps 1000 ''protocol:'' (btc_authorized demo_deps 1000 demo_login (Some (demo_auth BTC)) (s, demo_world BTC)));
       w' = snd (lease_tick demo_deps 60000 (s', demo_world BTC))
   in ss_closing s \<and> ss_leaseTimer s' \<and> (''lease'', 60000 + leaseMs) \<in> set (live_set 100000 (connectionKey ''w1'') (wo_redis w'))"
proof -
  define s where "s = fst (close_session demo_deps 500 ''downstream-closed'' (session_start, demo_world BTC))"
  obtain s' w' where r: "or_close demo_deps 1000 ''protocol:'' (btc_authorized demo_deps 1000 demo_login (Some (demo_auth BTC)) (s, demo_world BTC)) = (s', w')"
    by fastforce
  have c: "ss_closing s" by (simp add: s_def close_session_def session_start_def Let_def)
  have k: "aw_connectionLeaseId (demo_auth BTC) = ''lease''" "wk_id (aw_worker (demo_auth BTC)) = ''w1''"
    by (simp_all add: demo_auth_def demo_worker_def)
  have l: "''lease'' \<in> fst ` set (live_set 60000 (connectionKey ''w1'') (wo_redis (demo_world BTC)))"
    by (simp add: demo_world_def live_set_def alive_def)
  have t: "(100000 :: int) < 60000 + leaseMs" by (simp add: leaseMs_def)
  from btc_late_authorization_leaks [OF c r] l t show ?thesis unfolding k by (simp add: s_def [symmetric] r c)
qed

section \<open>What the pool sees\<close>

text \<open>A message the session may write to the pool it is bound to.\<close>

definition pool_message :: "session \<Rightarrow> json \<Rightarrow> bool" where
  "pool_message s m \<longleftrightarrow> (\<exists>k. member ''method'' m = Some (JStr k) \<and>
     (k \<in> set btc_allowed \<or>
      ss_connectionId s \<noteq> None \<and> (\<exists>b c r. ss_binding s = Some b \<and>
        (k = ''mining.submit'' \<and> (\<exists>ps. member ''params'' m = Some (JArr (JStr (renderUsername (bd_upstream b) c r) # ps))) \<or>
         k = ''mining.authorize'' \<and> member ''params'' m = Some (JArr [JStr (renderUsername (bd_upstream b) c r), JStr (bd_password b)])))))"

definition rendered :: "pool_binding \<Rightarrow> bool" where
  "rendered b \<longleftrightarrow> (\<exists>c r. bd_username b = renderUsername (bd_upstream b) c r)"

lemma rendered_update [simp]: "rendered (b\<lparr>bd_username := renderUsername (bd_upstream b) c r\<rparr>)"
  by (auto simp: rendered_def)

lemma own_password_update [simp]: "own_password D (b\<lparr>bd_username := x\<rparr>) = own_password D b"
  by (simp add: own_password_def)

definition bound :: "gateway_deps \<Rightarrow> session \<Rightarrow> bool" where
  "bound D s \<longleftrightarrow> (\<forall>b. ss_binding s = Some b \<longrightarrow> own_password D b) \<and>
     (ss_connectionId s \<noteq> None \<longrightarrow> ss_upstream s \<and> (\<forall>b. ss_binding s = Some b \<longrightarrow> rendered b))"

definition pool_view :: "gateway_deps \<Rightarrow> session \<Rightarrow> bool" where
  "pool_view D s \<longleftrightarrow> bound D s \<and> (\<forall>m \<in> set (ss_up s). pool_message s m)"

lemma pool_message_cong:
  "pool_message s m \<Longrightarrow> ss_binding s = Some b \<Longrightarrow> ss_binding s' = Some b' \<Longrightarrow> bd_upstream b' = bd_upstream b \<Longrightarrow>
   bd_password b' = bd_password b \<Longrightarrow> ss_connectionId s' \<noteq> None \<Longrightarrow> pool_message s' m"
  "pool_message s m \<Longrightarrow> ss_connectionId s = None \<Longrightarrow> pool_message s' m"
  unfolding pool_message_def by (metis option.inject) blast

lemma pool_view_simps [simp]:
  "pool_view D (send_down m s) = pool_view D s" "pool_view D (add_pending now m k x s) = pool_view D s"
  "pool_view D (remove_pending k s) = pool_view D s" "pool_view D (accept_worker a s) = pool_view D s"
  "pool_view D (s\<lparr>ss_clientAgent := g\<rparr>) = pool_view D s" "pool_view D (s\<lparr>ss_difficulty := d\<rparr>) = pool_view D s"
  by (simp_all add: pool_view_def bound_def send_down_def add_pending_def remove_pending_def accept_worker_def pool_message_def)

lemma send_up_view: "pool_view D s \<Longrightarrow> pool_message s m \<Longrightarrow> pool_view D (send_up m s)"
  by (auto simp: pool_view_def bound_def send_up_def pool_message_def)

lemma close_session_view: "pool_view D (fst (close_session D now code sw)) = pool_view D (fst sw)"
  by (cases sw) (simp add: close_session_def Let_def pool_view_def bound_def pool_message_def)

lemma or_close_view: "pool_view D (fst (fst r)) \<Longrightarrow> pool_view D (fst (or_close D now tag r))"
  by (simp add: or_close_def close_session_view split: sum.splits)

lemma lease_tick_view: "pool_view D (fst sw) \<Longrightarrow> pool_view D (fst (lease_tick D now sw))"
  by (cases sw) (simp add: lease_tick_def Let_def close_session_view split: option.splits prod.splits)

lemma ensureUpstream_view:
  assumes "pool_view D (fst sw)"
  shows "pool_view D (fst (fst (ensureUpstream D now sw)))"
proof (cases "ss_upstream (fst sw)")
  case True
  with assms show ?thesis by (simp add: ensureUpstream_def)
next
  case False
  with assms have "ss_connectionId (fst sw) = None" by (auto simp: pool_view_def bound_def)
  with assms ensureUpstream_rebound [of D sw now] show ?thesis
    by (auto simp: pool_view_def bound_def rebound_def intro: pool_message_cong(2))
qed

lemma method_with_member: "is_object m \<Longrightarrow> member ''method'' (with_member ''id'' v m) = member ''method'' m"
  "is_object m \<Longrightarrow> member ''method'' (with_member ''params'' v m) = member ''method'' m"
  by (simp_all add: member_with_member)

lemma btc_forward_view:
  assumes v: "pool_view D (fst sw)" and m: "\<And>v. pool_message (fst sw) (with_member ''id'' v m)"
  shows "pool_view D (fst (fst (btc_forward D now m k x sw)))"
proof -
  obtain s1 w1 r where E: "ensureUpstream D now sw = ((s1, w1), r)" by (metis prod.collapse)
  have v1: "pool_view D s1" using ensureUpstream_view [OF v, of now] E by simp
  have "pool_message s1 (with_member ''id'' v m)" for v
  proof (cases "ss_upstream (fst sw)")
    case True
    with E m [of v] show ?thesis by (auto simp: ensureUpstream_def)
  next
    case False
    with v have "ss_connectionId (fst sw) = None" by (auto simp: pool_view_def bound_def)
    from pool_message_cong(2) [OF m this] show ?thesis .
  qed
  then have "pool_message (add_pending now m k x s1) (with_member ''id'' v m)" for v by (simp add: add_pending_def pool_message_def)
  with v1 E show ?thesis by (cases r) (simp_all add: btc_forward_def send_up_view)
qed

lemma is_object_member: "member k m = Some v \<Longrightarrow> is_object m"
  by (cases m) (auto simp: member_def is_object_def)

lemma btc_onDownstream_view:
  assumes v: "pool_view D (fst sw)"
  shows "pool_view D (fst (fst (btc_onDownstream D now m sw)))"
proof -
  obtain s w where sw: "sw = (s, w)" by fastforce
  have allowed: "pool_message s1 (with_member ''id'' v m)" if "member ''method'' m = Some (JStr k)" "k \<in> set btc_allowed" for s1 k v
    using that is_object_member [OF that(1)] by (auto simp: pool_message_def method_with_member)
  have submit: "pool_message s (with_member ''id'' v (with_member ''params'' (JArr (submit_params (bd_username b) m)) m))"
    if m: "js_eq_str (member ''method'' m) ''mining.submit''" "ss_connectionId s = Some c" "ss_binding s = Some b" for v b c
  proof -
    have o: "is_object m" using m(1) is_object_member by (auto simp: js_eq_str_def)
    have "is_object (with_member ''params'' (JArr ps) m)" for ps by (simp add: with_member_def is_object_def split: json.splits)
    moreover obtain c' r where "bd_username b = renderUsername (bd_upstream b) c' r"
      using v m(2,3) by (auto simp: sw pool_view_def bound_def rendered_def)
    ultimately show ?thesis using m o
      by (simp add: pool_message_def member_with_member js_eq_str_def submit_params_def split: list.splits) metis
  qed
  have "pool_view D (fst (fst (btc_submit D now m sw)))" if "js_eq_str (member ''method'' m) ''mining.submit''"
    using v submit [OF that] by (auto simp: sw btc_submit_def Let_def intro!: btc_forward_view split: option.splits bool.splits prod.splits sum.splits)
  then show ?thesis using v allowed
    by (auto simp: sw btc_onDownstream_def Let_def intro!: btc_forward_view split: if_splits option.splits json.splits list.splits bool.splits)
qed

lemma open_connection_view:
  assumes v: "pool_view D (fst sw)" and u: "ss_upstream (fst sw)" and c: "open_connection D now t a g sw = (sw', r)"
  shows "pool_view D (fst sw')"
    and "r = Inr b \<Longrightarrow> ss_binding (fst sw') = Some b \<and> ss_connectionId (fst sw') \<noteq> None \<and> rendered b"
proof -
  obtain s w where sw: "sw = (s, w)" by fastforce
  show "r = Inr b \<Longrightarrow> ss_binding (fst sw') = Some b \<and> ss_connectionId (fst sw') \<noteq> None \<and> rendered b"
    using c by (auto simp: sw open_connection_def Let_def split: option.splits sum.splits prod.splits if_splits)
  show "pool_view D (fst sw')"
  proof (cases "ss_binding s")
    case None
    with c v show ?thesis by (auto simp: sw open_connection_def)
  next
    case (Some b0)
    let ?b = "b0\<lparr>bd_username := renderUsername (bd_upstream b0) (cust_slug (aw_customer a)) (wk_slug (aw_worker a))\<rparr>"
    have k: "ss_binding (fst sw') = Some ?b" "ss_up (fst sw') = ss_up s" "ss_upstream (fst sw') = ss_upstream s"
      "ss_connectionId (fst sw') = ss_connectionId s \<or> ss_connectionId (fst sw') \<noteq> None"
      using c Some by (auto simp: sw open_connection_def Let_def split: sum.splits prod.splits if_splits)
    have "pool_message (fst sw') m" if "m \<in> set (ss_up s)" for m
    proof (cases "ss_connectionId s")
      case None
      with v that show ?thesis by (auto simp: sw pool_view_def intro: pool_message_cong(2))
    next
      case (Some n)
      then have "ss_connectionId (fst sw') \<noteq> None" using k(4) by auto
      with v that \<open>ss_binding s = Some b0\<close> k(1) show ?thesis by (auto simp: sw pool_view_def intro: pool_message_cong(1))
    qed
    with v u k Some show ?thesis by (auto simp: sw pool_view_def bound_def)
  qed
qed

lemma ensureUpstream_connected: "ensureUpstream D now sw = (sw', Inr x) \<Longrightarrow> ss_upstream (fst sw')"
proof -
  have "try_pools D now us e sw = (sw', Inr x) \<Longrightarrow> ss_upstream (fst sw')" for us e
    by (induction us arbitrary: e sw) (auto simp: Let_def split: sum.splits prod.splits)
  then show "ensureUpstream D now sw = (sw', Inr x) \<Longrightarrow> ss_upstream (fst sw')"
    by (auto simp: ensureUpstream_def connectPool_def split: if_splits)
qed

lemma btc_authorized_view:
  assumes v: "pool_view D (fst sw)" and m: "js_eq_str (member ''method'' m) ''mining.authorize''"
  shows "pool_view D (fst (fst (btc_authorized D now m a sw)))"
proof (cases a)
  case None
  with v show ?thesis by (simp add: btc_authorized_def close_session_view)
next
  case (Some aw)
  obtain sw1 r1 where E: "ensureUpstream D now (accept_worker aw (fst sw), snd sw) = (sw1, r1)" by fastforce
  have v1: "pool_view D (fst sw1)" using ensureUpstream_view [of D "(accept_worker aw (fst sw), snd sw)" now] v E by simp
  obtain sw2 r2 where O: "open_connection D now ''Bitcoin upstream is unavailable'' aw (ss_clientAgent (fst sw1)) sw1 = (sw2, r2)" by fastforce
  show ?thesis
  proof (cases r1)
    case (Inr x)
    note u = ensureUpstream_connected [OF E [unfolded Inr]]
    note v2 = open_connection_view [OF v1 u O]
    show ?thesis
    proof (cases r2)
      case (Inr b)
      let ?m = "with_member ''params'' (JArr [JStr (bd_username b), JStr (bd_password b)]) m"
      have o: "is_object m" "is_object ?m" using m is_object_member
        by (auto simp: js_eq_str_def with_member_def is_object_def split: json.splits)
      have "pool_message (fst sw2) (with_member ''id'' v ?m)" for v
        using v2(2) [OF Inr] o m
        by (simp add: pool_message_def member_with_member js_eq_str_def rendered_def)
      with v2(1) have "pool_view D (fst (fst (btc_forward D now ?m ''mining.authorize'' None sw2)))" by (rule btc_forward_view)
      then show ?thesis using E O Some \<open>r1 = Inr x\<close> Inr by (auto simp: btc_authorized_def split: sum.splits prod.splits)
    qed (use E O Some Inr v2 in \<open>simp add: btc_authorized_def\<close>)
  qed (use E Some v1 in \<open>simp add: btc_authorized_def\<close>)
qed

lemma btc_response_view: "pool_view D s \<Longrightarrow> pool_view D (fst (fst (btc_response D now m k p (s, w))))"
  by (simp add: btc_response_def Let_def close_session_view split: sum.splits prod.splits)

lemma btc_onUpstream_view: "pool_view D (fst sw) \<Longrightarrow> pool_view D (fst (fst (btc_onUpstream D now m sw)))"
  by (cases sw) (auto simp: btc_onUpstream_def Let_def close_session_view btc_response_view
      split: if_splits option.splits json.splits list.splits bool.splits)

text \<open>C7: What a miner authorizes with never reaches the pool.  In every history, whatever the session wrote to the pool is
  one of the four negotiation messages, a share under a name rendered from the template of the pool the session is bound to, or an
  authorization that consists of such a name and the password configured for that pool.\<close>

theorem btc_pool_sees_own_credentials:
  assumes "session_run ''mining.authorize'' btc_onDownstream btc_authorized btc_onUpstream D w0 (s, w)" and "m \<in> set (ss_up s)"
  shows "\<exists>k. member ''method'' m = Some (JStr k) \<and>
     (k \<in> set btc_allowed \<or>
      (\<exists>b c r. ss_binding s = Some b \<and> up_password (sv_crypto (gd_services D)) (bd_upstream b) = Inr (bd_password b) \<and>
        (k = ''mining.submit'' \<and> (\<exists>ps. member ''params'' m = Some (JArr (JStr (renderUsername (bd_upstream b) c r) # ps))) \<or>
         k = ''mining.authorize'' \<and> member ''params'' m = Some (JArr [JStr (renderUsername (bd_upstream b) c r), JStr (bd_password b)]))))"
proof -
  have start: "pool_view D session_start" by (simp add: pool_view_def bound_def session_start_def)
  have "pool_view D (fst sw)" if "session_run ''mining.authorize'' btc_onDownstream btc_authorized btc_onUpstream D w0 sw" for sw
    using that
    by (induction rule: session_run.induct)
      (simp_all add: start or_close_view close_session_view lease_tick_view btc_onDownstream_view btc_authorized_view btc_onUpstream_view)
  from this [OF assms(1)] have b: "\<forall>b. ss_binding s = Some b \<longrightarrow> own_password D b" and "pool_message s m"
    using assms(2) by (simp_all add: pool_view_def bound_def)
  from this(2) b show ?thesis unfolding pool_message_def own_password_def by blast
qed

theorem btc_pool_sees_own_credentials_witness:
  "demo_sent \<in> set (ss_up (fst demo_btc)) \<and> (\<exists>b c r. ss_binding (fst demo_btc) = Some b \<and>
     member ''params'' demo_sent = Some (JArr [JStr (renderUsername (bd_upstream b) c r), JStr (bd_password b)]))"
proof -
  obtain s w where sw: "demo_btc = (s, w)" by fastforce
  have m: "demo_sent \<in> set (ss_up s)" using demo_btc_state unfolding sw by auto
  from btc_pool_sees_own_credentials [OF demo_btc_run [unfolded sw] m] m show ?thesis
    by (simp add: sw) (auto simp: demo_sent_def member_def btc_allowed_def)
qed

end
