(* ===== verification/MoneroSession.thy ===== *)
theory MoneroSession
  imports SessionSafety
begin

text \<open>
  The Monero session (\<open>gateway/monero-gateway.session.ts\<close>).  As in the Stratum session, \<open>login\<close> is split
  at the authentication.
\<close>

section \<open>Handlers\<close>

definition xmr_forward :: "instant \<Rightarrow> json \<Rightarrow> string \<Rightarrow> share_reference option \<Rightarrow> session \<Rightarrow> session \<times> unit result" where
  "xmr_forward now message method share s =
     (if \<not> ss_upstream s then (s, Inl (Error ''Monero upstream unavailable''))
      else
        (let version = (case member ''jsonrpc'' message of None \<Rightarrow> JStr ''2.0'' | Some JNull \<Rightarrow> JStr ''2.0'' | Some v \<Rightarrow> v)
         in (send_up (with_member ''jsonrpc'' version (with_member ''id'' (JNum (show_nat (ss_nextId s))) message))
               (add_pending now message method share s), Inr ())))"

definition rpc_error :: "json \<Rightarrow> int \<Rightarrow> string \<Rightarrow> json" where
  "rpc_error message code t =
     JObj [(''id'', or_null (member ''id'' message)), (''jsonrpc'', JStr ''2.0''),
           (''error'', JObj [(''code'', JNum (show_int code)), (''message'', JStr t)])]"

definition object_params :: "json \<Rightarrow> json" where
  "object_params message = (case member ''params'' message of Some (JObj kvs) \<Rightarrow> JObj kvs | _ \<Rightarrow> JObj [])"

definition text_member :: "string \<Rightarrow> json \<Rightarrow> string option" where
  "text_member k v = (case member k v of Some (JStr t) \<Rightarrow> Some t | _ \<Rightarrow> None)"

definition xmr_credentials :: "json \<Rightarrow> string \<times> string" where
  "xmr_credentials message =
     (let params = object_params message in (orElse (text_member ''login'' params) [], orElse (text_member ''pass'' params) []))"

definition xmr_authorized ::
  "gateway_deps \<Rightarrow> instant \<Rightarrow> json \<Rightarrow> authorized_worker option \<Rightarrow> session \<times> world \<Rightarrow> (session \<times> world) \<times> unit result" where
  "xmr_authorized D now message authorized sw =
     (case authorized of
        None \<Rightarrow>
          (close_session D now ''authorization-failed''
             (send_down (rpc_error message (- 1) ''Local authorization failed'') (fst sw), snd sw), Inr ())
      | Some a \<Rightarrow>
          (let params = object_params message in
           case connectPool D now XMR ''No Monero upstream is enabled'' (accept_worker a (fst sw), snd sw) of
             (sw1, Inl e) \<Rightarrow> (sw1, Inl e)
           | (sw1, Inr _) \<Rightarrow>
               (case open_connection D now ''Monero upstream unavailable'' a (text_member ''agent'' params) sw1 of
                  (sw2, Inl e) \<Rightarrow> (sw2, Inl e)
                | ((s2, w2), Inr b) \<Rightarrow>
                    (case xmr_forward now
                            (with_member ''params'' (with_member ''pass'' (JStr (bd_password b))
                               (with_member ''login'' (JStr (bd_username b)) params)) message) ''login'' None s2 of
                       (s3, Inl e) \<Rightarrow> ((s3, w2), Inl e)
                     | (s3, Inr _) \<Rightarrow>
                         ((s3, w2\<lparr>wo_store := publish ''worker.connected'' (wk_id (aw_worker a)) (wo_store w2)\<rparr>), Inr ())))))"

definition xmr_submit :: "gateway_deps \<Rightarrow> instant \<Rightarrow> json \<Rightarrow> session \<times> world \<Rightarrow> (session \<times> world) \<times> unit result" where
  "xmr_submit D now message sw =
     (let (s, w) = sw in
      case (ss_authorized s, ss_connectionId s, ss_binding s, ss_upstream s) of
        (Some a, Some c, Some b, True) \<Rightarrow>
          (let params = object_params message;
               requestKey = request_key message (scalar_text (member ''job_id'' params)) (scalar_text (member ''nonce'' params)) now
           in case pending_share (gd_shares D) now
                     \<lparr>si_auth = a, si_upstreamId = up_id (bd_upstream b), si_connectionId = c,
                      si_requestKey = requestKey, si_difficulty = ss_difficulty s\<rparr> (wo_store w) of
                (t, Inl e) \<Rightarrow> ((s, w\<lparr>wo_store := t\<rparr>), Inl e)
              | (t, Inr r) \<Rightarrow> (let (s1, x) = xmr_forward now message ''submit'' (Some r) s in ((s1, w\<lparr>wo_store := t\<rparr>), x)))
      | _ \<Rightarrow> ((send_down (rpc_error message (- 1) ''Login first'') s, w), Inr ()))"

text \<open>Every message of the miner but \<open>login\<close>.\<close>

definition xmr_onDownstream :: "gateway_deps \<Rightarrow> instant \<Rightarrow> json \<Rightarrow> session \<times> world \<Rightarrow> (session \<times> world) \<times> unit result" where
  "xmr_onDownstream D now message sw =
     (let (s, w) = sw; method = member ''method'' message in
      if js_eq_str method ''submit'' then xmr_submit D now message sw
      else if js_eq_str method ''keepalived'' \<and> ss_upstream s
      then (let (s1, x) = xmr_forward now message ''keepalived'' None s in ((s1, w), x))
      else ((send_down (rpc_error message (- 32601) ''Unsupported method'') s, w), Inr ()))"

subsection \<open>Difficulty\<close>

lemma size_member: "map_of kvs k = Some v \<Longrightarrow> size v < size (JObj kvs)"
proof -
  assume "map_of kvs k = Some v"
  then have "(k, v) \<in> set kvs" by (rule map_of_SomeD)
  then have "size_prod (\<lambda>_. 0) size (k, v) \<le> size_list (size_prod (\<lambda>_. 0) size) kvs" by (rule size_list_estimation') simp
  then show ?thesis by simp
qed

function inspect_job :: "json \<Rightarrow> string \<Rightarrow> string" where
  "inspect_job v d =
     (case v of
        JObj kvs \<Rightarrow>
          (let d1 = (case map_of kvs ''target'' of Some (JStr t) \<Rightarrow> difficultyFromTarget t | _ \<Rightarrow> d)
           in case map_of kvs ''job'' of None \<Rightarrow> d1 | Some j \<Rightarrow> inspect_job j d1)
      | _ \<Rightarrow> d)"
  by pat_completeness auto

termination inspect_job
  by (relation "measure (size \<circ> fst)") (auto dest: size_member)

declare inspect_job.simps [simp del]

definition updateDifficulty :: "json \<Rightarrow> session \<Rightarrow> session" where
  "updateDifficulty message s =
     s\<lparr>ss_difficulty := inspect_job (or_null (member ''result'' message))
         (inspect_job (or_null (member ''params'' message)) (ss_difficulty s))\<rparr>"

subsection \<open>Messages of the pool\<close>

definition xmr_share_accepted :: "json \<Rightarrow> bool" where
  "xmr_share_accepted message \<longleftrightarrow>
     \<not> js_truthy (member ''error'' message) \<and> member ''result'' message \<noteq> Some JNull \<and> member ''result'' message \<noteq> Some (JBool False)"

definition xmr_response :: "gateway_deps \<Rightarrow> instant \<Rightarrow> json \<Rightarrow> string \<Rightarrow> pending_rpc \<Rightarrow> session \<times> world \<Rightarrow> (session \<times> world) \<times> unit result" where
  "xmr_response D now message k p sw =
     (let s1 = remove_pending k (fst sw); w = snd sw;
          accepted = xmr_share_accepted message;
          (t, r) = (case pr_shareEvent p of
                      None \<Rightarrow> (wo_store w, Inr ())
                    | Some ref \<Rightarrow> resolve_share now ref accepted (now - pr_startedAt p)
                                    (if accepted then None else Some (reject_reason message)) (wo_store w));
          w1 = w\<lparr>wo_store := t\<rparr>
      in case r of
           Inl e \<Rightarrow> ((s1, w1), Inl e)
         | Inr _ \<Rightarrow>
             (let s2 = send_down (with_member ''id'' (pr_downstreamId p) message) s1 in
              if pr_method p = ''login'' \<and> js_truthy (member ''error'' message)
              then (close_session D now ''upstream-authorization-failed'' (s2, w1), Inr ())
              else ((s2, w1), Inr ())))"

definition xmr_onUpstream :: "gateway_deps \<Rightarrow> instant \<Rightarrow> json \<Rightarrow> session \<times> world \<Rightarrow> (session \<times> world) \<times> unit result" where
  "xmr_onUpstream D now message sw =
     (let s = updateDifficulty message (fst sw); w = snd sw in
      if js_truthy (member ''method'' message) then ((send_down message s, w), Inr ())
      else (case member ''id'' message of
              None \<Rightarrow> ((s, w), Inr ())
            | Some JNull \<Rightarrow> ((s, w), Inr ())
            | Some v \<Rightarrow>
                (case map_of (ss_pending s) (js_String v) of
                   None \<Rightarrow> ((s, w), Inr ())
                 | Some p \<Rightarrow> xmr_response D now message (js_String v) p (s, w))))"

section \<open>Every handler keeps the invariant\<close>

lemma xmr_forward_inv:
  "session_inv (s, w) \<Longrightarrow> session_inv (fst (xmr_forward now m k None s), w)"
  by (simp add: xmr_forward_def Let_def add_pending_inv)

lemma xmr_submit_inv: "session_inv sw \<Longrightarrow> session_inv (fst (xmr_submit D now m sw))"
proof -
  assume inv: "session_inv sw"
  obtain s w where sw: "sw = (s, w)" by fastforce
  show ?thesis
  proof (cases "\<exists>a c b. ss_authorized s = Some a \<and> ss_connectionId s = Some c \<and> ss_binding s = Some b \<and> ss_upstream s")
    case False
    with inv show ?thesis by (auto simp: sw xmr_submit_def split: option.splits bool.splits)
  next
    case True
    then obtain a c b where f: "ss_authorized s = Some a" "ss_connectionId s = Some c" "ss_binding s = Some b" "ss_upstream s" by blast
    define i where "i = \<lparr>si_auth = a, si_upstreamId = up_id (bd_upstream b), si_connectionId = c,
      si_requestKey = request_key m (scalar_text (member ''job_id'' (object_params m))) (scalar_text (member ''nonce'' (object_params m))) now,
      si_difficulty = ss_difficulty s\<rparr>"
    obtain t r where p: "pending_share (gd_shares D) now i (wo_store w) = (t, r)" by fastforce
    have i: "ss_connectionId s = Some (si_connectionId i)" by (simp add: i_def f)
    have *: "xmr_submit D now m sw = (case r of
        Inl e \<Rightarrow> ((s, w\<lparr>wo_store := t\<rparr>), Inl e)
      | Inr x \<Rightarrow> (let (s1, y) = xmr_forward now m ''submit'' (Some x) s in ((s1, w\<lparr>wo_store := t\<rparr>), y)))"
      using f p [unfolded i_def] by (simp add: xmr_submit_def sw Let_def split: sum.splits)
    from pending_share_cases [OF p] show ?thesis
    proof (elim disjE exE conjE)
      fix e assume "r = Inl e" "t = wo_store w"
      with inv show ?thesis unfolding * by (simp add: sw)
    next
      fix x j d v assume "r = Inr x" and cr: "create_share now i j d v (wo_store w) = (t, Inr x)"
      with create_share_inv [OF cr inv [unfolded sw] i] f(4) show ?thesis
        unfolding * by (simp add: xmr_forward_def Let_def)
    qed
  qed
qed

lemma xmr_onDownstream_inv: "session_inv sw \<Longrightarrow> session_inv (fst (xmr_onDownstream D now m sw))"
  by (cases sw) (auto simp: xmr_onDownstream_def Let_def xmr_submit_inv dest: xmr_forward_inv [of _ _ now m "''keepalived''"]
      split: if_splits prod.splits)

lemma xmr_authorized_inv: "session_inv sw \<Longrightarrow> session_inv (fst (xmr_authorized D now m a sw))"
proof -
  assume inv: "session_inv sw"
  show ?thesis
  proof (cases a)
    case None
    with inv show ?thesis by (cases sw) (simp add: xmr_authorized_def close_session_inv)
  next
    case (Some aw)
    obtain s1 w1 r1 where e: "connectPool D now XMR ''No Monero upstream is enabled'' (accept_worker aw (fst sw), snd sw) = ((s1, w1), r1)"
      by (metis prod.collapse)
    have "session_inv (accept_worker aw (fst sw), snd sw)" using inv by (cases sw) simp
    from calm_inv [OF connectPool_calm this] e have i1: "session_inv (s1, w1)" by (metis fst_conv)
    obtain s2 w2 r2 where o2: "open_connection D now ''Monero upstream unavailable'' aw (text_member ''agent'' (object_params m)) (s1, w1) = ((s2, w2), r2)"
      by (metis prod.collapse)
    have i2: "session_inv (s2, w2)"
      using open_connection_inv [OF i1, of D now _ aw "text_member ''agent'' (object_params m)"] o2 by (metis fst_conv)
    have i3: "session_inv (s3, w2)" if "xmr_forward now m' k None s2 = (s3, r3)" for m' k s3 r3
      using xmr_forward_inv [OF i2, of now m' k] that by simp
    show ?thesis using i1 i2 i3 quiet_world_inv [OF i3]
      by (auto simp: xmr_authorized_def Some e o2 Let_def split: sum.splits prod.splits)
  qed
qed

lemma xmr_response_inv:
  assumes inv: "session_inv (s, w)" and p: "map_of (ss_pending s) k = Some p"
  shows "session_inv (fst (xmr_response D now m k p (s, w)))"
proof -
  define ok where "ok = xmr_share_accepted m"
  obtain t r where tr: "(case pr_shareEvent p of None \<Rightarrow> (wo_store w, Inr ())
      | Some ref \<Rightarrow> resolve_share now ref ok (now - pr_startedAt p) (if ok then None else Some (reject_reason m)) (wo_store w)) = (t, r)"
    by fastforce
  have "shares_ok (wo_store w)" using inv by (simp add: session_inv_def)
  from remove_pending_inv [OF inv p response_settled [OF this tr]]
  have "session_inv (remove_pending k s, w\<lparr>wo_store := t\<rparr>)" .
  then show ?thesis using tr close_session_inv
    by (auto simp: xmr_response_def Let_def ok_def [symmetric] split: sum.splits)
qed

lemma xmr_onUpstream_inv: "session_inv sw \<Longrightarrow> session_inv (fst (xmr_onUpstream D now m sw))"
proof -
  assume "session_inv sw"
  then have "session_inv (updateDifficulty m (fst sw), snd sw)" by (cases sw) (simp add: updateDifficulty_def)
  then show ?thesis
    by (auto simp: xmr_onUpstream_def Let_def xmr_response_inv split: option.splits json.splits)
qed

interpretation xmr: gateway_session "''login''" xmr_onDownstream xmr_authorized xmr_onUpstream
  by unfold_locales (rule xmr_onDownstream_inv xmr_authorized_inv xmr_onUpstream_inv, assumption)+

text \<open>No share of a Monero session is lost either.\<close>

lemma xmr_shares_accounted:
  assumes "session_run ''login'' xmr_onDownstream xmr_authorized xmr_onUpstream D w0 (s, w)" and "shares_ok (wo_store w0)"
    and "x \<in> set (shareEvents (wo_store w))"
  shows "sh_connectionId x \<in> set (ss_connections s) \<Longrightarrow> sh_status x = ShareStatus.PENDING \<Longrightarrow> share_ref x \<in> set (pending_shares s)"
    and "share_ref x \<in> set (pending_shares s) \<Longrightarrow> sh_status x = ShareStatus.PENDING \<or> sh_status x = UNKNOWN"
  by (rule xmr.run_accounts [OF assms], assumption+)+

end
