(* ===== verification/Portal.thy ===== *)
theory Portal
  imports PayoutHistory
begin

text \<open>
  The customers' own view (\<open>public-portal/public-portal.service.ts\<close>): signing in with an access code under a limit on
  attempts, the summary, and the request of a new payout address.  Amounts and rates are numbers here where
  the service returns their texts; a rate is the exact quotient.  \<open>collate\<close> is the database's order of texts.
\<close>

section \<open>Requests\<close>

record portal_access =
  pa_customerSlug :: string
  pa_accessCode :: string

record portal_destination_dto = portal_access +
  pq_asset :: AssetCode
  pq_address :: string
  pq_minPayoutAtomic :: "string option"

definition RESERVED_PAYOUT_STATES :: "PayoutState list" where
  "RESERVED_PAYOUT_STATES = [PLANNED, APPROVAL_REQUIRED, AUTO_APPROVED, SIGNED, BROADCAST, PayoutState.FAILED]"

section \<open>Signing in\<close>

definition checkRateLimit :: "services \<Rightarrow> instant \<Rightarrow> string \<Rightarrow> redis \<Rightarrow> redis \<times> unit result" where
  "checkRateLimit V now ipAddress r =
     (let key = ''portal:attempt:'' @ sha256 (sv_crypto V) ipAddress;
          (r1, attempts) = redis_incr now key r;
          r2 = (if attempts = 1 then redis_expire now key 60000 r1 else r1)
      in (r2, if attempts > 10 then Inl (TooManyRequests ''Too many portal requests'') else Inr ()))"

definition portal_valid :: "services \<Rightarrow> string \<Rightarrow> customer \<Rightarrow> store \<Rightarrow> bool" where
  "portal_valid V accessCode c s \<longleftrightarrow> cust_status c = EntityStatus.ACTIVE \<and>
     (case List.find (\<lambda>p. pc_customerId p = cust_id c) (portalCredentials s) of
        None \<Rightarrow> False
      | Some p \<Rightarrow> pc_revokedAt p = None \<and> verifySecret (sv_crypto V) (pc_tokenHash p) accessCode)"

definition portal_authenticate ::
  "services \<Rightarrow> instant \<Rightarrow> 'm portal_access_scheme \<Rightarrow> string \<Rightarrow> store \<times> redis \<Rightarrow> redis \<times> customer result" where
  "portal_authenticate V now credentials ipAddress st =
     (case checkRateLimit V now ipAddress (snd st) of
        (r, Inl e) \<Rightarrow> (r, Inl e)
      | (r, Inr _) \<Rightarrow>
          (case List.find (\<lambda>c. cust_slug c = pa_customerSlug credentials) (customers (fst st)) of
             None \<Rightarrow> (r, Inl (UnauthorizedException ''Invalid portal credentials''))
           | Some c \<Rightarrow>
               (r, if portal_valid V (pa_accessCode credentials) c (fst st) then Inr c
                   else Inl (UnauthorizedException ''Invalid portal credentials''))))"

section \<open>Balances and earnings\<close>

record portal_balance =
  pl_asset :: AssetCode
  pl_confirmedAtomic :: atomic
  pl_reservedAtomic :: atomic
  pl_payableAtomic :: atomic
  pl_pendingAcceptedShares :: nat
  pl_pendingAcceptedWork :: rat

definition portal_reserved :: "uuid \<Rightarrow> AssetCode \<Rightarrow> store \<Rightarrow> atomic" where
  "portal_reserved customerId asset s =
     sum_where (\<lambda>x. pi_customerId x = Some customerId) pi_grossAtomic
       (concat (map pb_items (filter (\<lambda>b. pb_asset b = asset \<and> pb_state b \<in> set RESERVED_PAYOUT_STATES) (payoutBatches s))))"

definition pending_accepted :: "uuid \<Rightarrow> AssetCode \<Rightarrow> share_event \<Rightarrow> bool" where
  "pending_accepted customerId asset x \<longleftrightarrow> sh_customerId x = customerId \<and> sh_asset x = asset \<and> sh_status x = ACCEPTED \<and>
     sh_allocationBatchId x = None"

definition portalBalance :: "uuid \<Rightarrow> AssetCode \<Rightarrow> store \<Rightarrow> portal_balance" where
  "portalBalance customerId asset s =
     (let confirmed = customerBalance customerId asset s;
          reserved = portal_reserved customerId asset s;
          payable = confirmed - reserved
      in \<lparr>pl_asset = asset, pl_confirmedAtomic = confirmed, pl_reservedAtomic = reserved,
          pl_payableAtomic = (if payable > 0 then payable else 0),
          pl_pendingAcceptedShares = length (filter (pending_accepted customerId asset) (shareEvents s)),
          pl_pendingAcceptedWork = sum_where (pending_accepted customerId asset) sh_normalizedWork (shareEvents s)\<rparr>)"

record portal_earnings =
  pe_asset :: AssetCode
  pe_earnedTrailing24hAtomic :: atomic
  pe_earnedTrailing7dAtomic :: atomic
  pe_projectedNext24hAtomic :: atomic

definition earned_since :: "instant \<Rightarrow> uuid \<Rightarrow> AssetCode \<Rightarrow> store \<Rightarrow> atomic" where
  "earned_since start customerId asset s =
     sum_where (\<lambda>x. al_customerId x = customerId) al_customerAtomic
       (concat (map ab_items (filter (\<lambda>b. ab_asset b = asset \<and> ab_createdAt b \<ge> start) (allocationBatches s))))"

definition earnings :: "instant \<Rightarrow> uuid \<Rightarrow> AssetCode \<Rightarrow> store \<Rightarrow> portal_earnings" where
  "earnings now customerId asset s =
     (let earned24h = earned_since (now - 86400000) customerId asset s;
          earned7d = earned_since (now - 7 * 86400000) customerId asset s
      in \<lparr>pe_asset = asset, pe_earnedTrailing24hAtomic = earned24h, pe_earnedTrailing7dAtomic = earned7d,
          pe_projectedNext24hAtomic = earned24h\<rparr>)"

section \<open>Workers\<close>

record worker_stats =
  ws_worker :: worker
  ws_connected :: bool
  ws_activeConnections :: nat
  ws_hashrate1m :: rat
  ws_hashrate5m :: rat
  ws_hashrate15m :: rat
  ws_accepted24h :: nat
  ws_rejected24h :: nat

definition window_work :: "instant \<Rightarrow> int \<Rightarrow> uuid \<Rightarrow> uuid \<Rightarrow> store \<Rightarrow> rat" where
  "window_work now minutes customerId workerId s =
     sum_where (\<lambda>x. sh_customerId x = customerId \<and> sh_workerId x = workerId \<and> sh_status x = ACCEPTED \<and>
        sh_submittedAt x \<ge> now - minutes * 60000) sh_normalizedWork (shareEvents s)"

definition day_count :: "instant \<Rightarrow> ShareStatus \<Rightarrow> uuid \<Rightarrow> uuid \<Rightarrow> store \<Rightarrow> nat" where
  "day_count now status customerId workerId s =
     length (filter (\<lambda>x. sh_customerId x = customerId \<and> sh_workerId x = workerId \<and> sh_status x = status \<and>
        sh_submittedAt x \<ge> now - 86400000) (shareEvents s))"

definition asset_rank :: "AssetCode \<Rightarrow> rat" where
  "asset_rank asset = (case asset of BTC \<Rightarrow> 0 | XMR \<Rightarrow> 1)"

definition workerStats :: "(string \<Rightarrow> rat) \<Rightarrow> instant \<Rightarrow> uuid \<Rightarrow> store \<Rightarrow> worker_stats list" where
  "workerStats collate now customerId s =
     map (\<lambda>w. (let open_connections = length (filter (\<lambda>c. cn_workerId c = wk_id w \<and> cn_disconnectedAt c = None) (connectionSessions s))
               in \<lparr>ws_worker = w, ws_connected = (open_connections > 0), ws_activeConnections = open_connections,
                   ws_hashrate1m = window_work now 1 customerId (wk_id w) s / 60,
                   ws_hashrate5m = window_work now 5 customerId (wk_id w) s / 300,
                   ws_hashrate15m = window_work now 15 customerId (wk_id w) s / 900,
                   ws_accepted24h = day_count now ACCEPTED customerId (wk_id w) s,
                   ws_rejected24h = day_count now REJECTED customerId (wk_id w) s\<rparr>))
       (sort_key (\<lambda>w. (asset_rank (wk_asset w), collate (wk_slug w))) (filter (\<lambda>w. wk_customerId w = customerId) (workers s)))"

section \<open>Addresses are shown masked\<close>

text \<open>The ellipsis is one character of three bytes.\<close>

definition ellipsis :: string where
  "ellipsis = [CHR 0xE2, CHR 0x80, CHR 0xA6]"

definition slice_last :: "nat \<Rightarrow> 'a list \<Rightarrow> 'a list" where
  "slice_last n xs = drop (length xs - n) xs"

definition maskAddress :: "string \<Rightarrow> string" where
  "maskAddress address =
     (if length address \<le> 16 then take 4 address @ ellipsis @ slice_last 4 address
      else take 8 address @ ellipsis @ slice_last 8 address)"

record safe_destination =
  sd_id :: uuid
  sd_asset :: AssetCode
  sd_address :: string
  sd_status :: DestinationStatus
  sd_effectiveAt :: instant
  sd_minPayoutAtomic :: atomic

definition safeDestination :: "payout_destination \<Rightarrow> safe_destination" where
  "safeDestination d =
     \<lparr>sd_id = pd_id d, sd_asset = pd_asset d, sd_address = maskAddress (pd_address d), sd_status = pd_status d,
      sd_effectiveAt = pd_effectiveAt d, sd_minPayoutAtomic = pd_minPayoutAtomic d\<rparr>"

section \<open>The summary\<close>

record balance_view =
  bv_balance :: portal_balance
  bv_minimumAtomic :: atomic
  bv_eligibleAtNextRun :: bool
  bv_autoApprovalConfigured :: bool
  bv_activeDestination :: "safe_destination option"
  bv_pendingDestination :: "safe_destination option"

definition summary_balance :: "payout_policy_setting \<Rightarrow> payout_destination list \<Rightarrow> portal_balance \<Rightarrow> balance_view" where
  "summary_balance policy destinations b =
     (let assetDestinations = filter (\<lambda>d. pd_asset d = pl_asset b) destinations;
          active = List.find (\<lambda>d. pd_status d = DestinationStatus.ACTIVE) assetDestinations;
          pending = List.find (\<lambda>d. pd_status d = DestinationStatus.PENDING) assetDestinations;
          policyMinimum = pp_minimumAtomic policy (pl_asset b);
          effectiveMinimum = (case active of Some a \<Rightarrow> if pd_minPayoutAtomic a > policyMinimum then pd_minPayoutAtomic a else policyMinimum
                              | None \<Rightarrow> policyMinimum)
      in \<lparr>bv_balance = b, bv_minimumAtomic = effectiveMinimum,
          bv_eligibleAtNextRun = (active \<noteq> None \<and> pl_payableAtomic b \<ge> effectiveMinimum),
          bv_autoApprovalConfigured = (pp_dailyAutoLimitAtomic policy (pl_asset b) > 0),
          bv_activeDestination = map_option safeDestination active,
          bv_pendingDestination = map_option safeDestination pending\<rparr>)"

definition shown_destinations :: "uuid \<Rightarrow> store \<Rightarrow> payout_destination list" where
  "shown_destinations customerId s =
     newest_first pd_createdAt (filter (\<lambda>d. pd_customerId d = customerId \<and> pd_status d \<noteq> REVOKED) (payoutDestinations s))"

definition shown_payouts :: "uuid \<Rightarrow> store \<Rightarrow> (payout_item \<times> payout_batch) list" where
  "shown_payouts customerId s =
     map (\<lambda>(x, b). (x\<lparr>pi_destination := maskAddress (pi_destination x)\<rparr>, b))
       (take 20 (concat (map (\<lambda>b. map (\<lambda>x. (x, b)) (filter (\<lambda>x. pi_customerId x = Some customerId) (pb_items b)))
          (newest_first pb_createdAt (payoutBatches s)))))"

record portal_summary =
  pm_customer :: customer
  pm_schedule :: next_payout
  pm_workers :: "worker_stats list"
  pm_balances :: "balance_view list"
  pm_earnings :: "portal_earnings list"
  pm_payouts :: "(payout_item \<times> payout_batch) list"

definition summary ::
  "services \<Rightarrow> (string \<Rightarrow> rat) \<Rightarrow> instant \<Rightarrow> 'm portal_access_scheme \<Rightarrow> string \<Rightarrow> store \<times> redis \<Rightarrow> redis \<times> portal_summary result" where
  "summary V collate now credentials ipAddress st =
     (case portal_authenticate V now credentials ipAddress st of
        (r, Inl e) \<Rightarrow> (r, Inl e)
      | (r, Inr c) \<Rightarrow>
          (let s = fst st; schedule = nextCustomerPayoutAt V now s in
           (r, Inr \<lparr>pm_customer = c, pm_schedule = schedule, pm_workers = workerStats collate now (cust_id c) s,
                    pm_balances = map (\<lambda>A. summary_balance (np_policy schedule) (shown_destinations (cust_id c) s) (portalBalance (cust_id c) A s)) [BTC, XMR],
                    pm_earnings = map (\<lambda>A. earnings now (cust_id c) A s) [BTC, XMR],
                    pm_payouts = shown_payouts (cust_id c) s\<rparr>)))"

section \<open>A new payout address\<close>

definition requested_minimum :: "payout_policy_setting \<Rightarrow> portal_destination_dto \<Rightarrow> atomic" where
  "requested_minimum policy input =
     (if truthy (pq_minPayoutAtomic input) then bigint_of (the (pq_minPayoutAtomic input)) else pp_minimumAtomic policy (pq_asset input))"

definition requested_destination ::
  "instant \<Rightarrow> payout_policy_setting \<Rightarrow> customer \<Rightarrow> portal_destination_dto \<Rightarrow> uuid \<Rightarrow> payout_destination" where
  "requested_destination now policy c input i =
     \<lparr>pd_id = i, pd_customerId = cust_id c, pd_asset = pq_asset input, pd_address = trim (pq_address input),
      pd_status = DestinationStatus.PENDING, pd_effectiveAt = now + 24 * 60 * 60000,
      pd_minPayoutAtomic = (let g = pp_minimumAtomic policy (pq_asset input); m = requested_minimum policy input in if m > g then m else g),
      pd_createdAt = now, pd_revokedAt = None\<rparr>"

definition revoke_pending :: "instant \<Rightarrow> uuid \<Rightarrow> AssetCode \<Rightarrow> payout_destination list \<Rightarrow> payout_destination list" where
  "revoke_pending now customerId asset =
     update_where (\<lambda>d. pd_customerId d = customerId \<and> pd_asset d = asset \<and> pd_status d = DestinationStatus.PENDING)
       (\<lambda>d. d\<lparr>pd_status := REVOKED, pd_revokedAt := Some now\<rparr>)"

definition request_audit :: "string \<Rightarrow> payout_destination \<Rightarrow> audit_input" where
  "request_audit ipAddress d =
     \<lparr>au_actorId = None, au_action = ''CUSTOMER_PORTAL_PAYOUT_DESTINATION_REQUESTED'', au_entityType = ''PayoutDestination'',
      au_entityId = Some (pd_id d), au_ipAddress = Some ipAddress, au_before = None,
      au_after = Some (JObj [(''customerId'', JStr (pd_customerId d)), (''asset'', JStr (show_asset (pd_asset d))),
        (''address'', JStr (maskAddress (pd_address d))), (''effectiveAt'', JDate (pd_effectiveAt d)),
        (''minPayoutAtomic'', JStr (show_int (pd_minPayoutAtomic d)))])\<rparr>"

definition requestDestination ::
  "services \<Rightarrow> instant \<Rightarrow> portal_destination_dto \<Rightarrow> string \<Rightarrow> store \<times> redis \<Rightarrow> (store \<times> redis) \<times> safe_destination result" where
  "requestDestination V now input ipAddress st =
     (let s = fst st in
      case portal_authenticate V now input ipAddress st of
        (r, Inl e) \<Rightarrow> ((s, r), Inl e)
      | (r, Inr c) \<Rightarrow>
          (case wa_validateAddress (forAsset (sv_wallets V) (pq_asset input)) (trim (pq_address input)) of
             Inl e \<Rightarrow> ((s, r), Inl e)
           | Inr False \<Rightarrow> ((s, r), Inl (BadRequestException ''Invalid payout address for selected asset''))
           | Inr True \<Rightarrow>
               (let policy = payoutPolicy (sv_env V) s in
                if requested_minimum policy input \<le> 0 then ((s, r), Inl (BadRequestException ''Payout minimum must be positive''))
                else
                  (let (i, s1) = new_id s;
                       d = requested_destination now policy c input i;
                       s2 = s1\<lparr>payoutDestinations := revoke_pending now (cust_id c) (pq_asset input) (payoutDestinations s1) @ [d]\<rparr>;
                       (s3, x) = andThen (audit V now (request_audit ipAddress d) s2)
                         (\<lambda>_ t. (raise_alert now
                            \<lparr>ai_dedupeKey = destination_alert (cust_id c) (pq_asset input), ai_severity = WARNING,
                             ai_title = show_asset (pq_asset input) @ '' payout destination requested from customer portal'',
                             ai_message = ''The address change is cooling until '' @ toISOString (pd_effectiveAt d)\<rparr> t,
                             Inr (safeDestination d)))
                   in ((s3, r), x)))))"

section \<open>What a request changes\<close>

lemma portal_authenticate_Inr:
  assumes "portal_authenticate V now credentials ip st = (r, Inr c)"
  shows "checkRateLimit V now ip (snd st) = (r, Inr ())" "c \<in> set (customers (fst st))" "cust_slug c = pa_customerSlug credentials"
    "portal_valid V (pa_accessCode credentials) c (fst st)"
  using assms by (auto simp: portal_authenticate_def dest: find_SomeD split: sum.splits option.splits prod.splits if_splits)

lemma requestDestination_Inr:
  assumes "requestDestination V now input ip (s, r) = ((s', r'), Inr v)"
  obtains c d where "portal_authenticate V now input ip (s, r) = (r', Inr c)"
    "wa_validateAddress (forAsset (sv_wallets V) (pq_asset input)) (trim (pq_address input)) = Inr True"
    "0 < requested_minimum (payoutPolicy (sv_env V) s) input"
    "d = requested_destination now (payoutPolicy (sv_env V) s) c input (uuids s (minted s))" "v = safeDestination d"
    "logged_only (s\<lparr>minted := Suc (minted s), payoutDestinations := revoke_pending now (cust_id c) (pq_asset input) (payoutDestinations s) @ [d]\<rparr>) s'"
proof -
  from assms obtain c where a: "portal_authenticate V now input ip (s, r) = (r', Inr c)"
    and w: "wa_validateAddress (forAsset (sv_wallets V) (pq_asset input)) (trim (pq_address input)) = Inr True"
    and m: "0 < requested_minimum (payoutPolicy (sv_env V) s) input"
    by (auto simp: requestDestination_def Let_def split: sum.splits prod.splits bool.splits if_splits)
  define d where "d = requested_destination now (payoutPolicy (sv_env V) s) c input (uuids s (minted s))"
  define s2 where "s2 = s\<lparr>minted := Suc (minted s), payoutDestinations := revoke_pending now (cust_id c) (pq_asset input) (payoutDestinations s) @ [d]\<rparr>"
  let ?a = "\<lparr>ai_dedupeKey = destination_alert (cust_id c) (pq_asset input), ai_severity = WARNING,
      ai_title = show_asset (pq_asset input) @ '' payout destination requested from customer portal'',
      ai_message = ''The address change is cooling until '' @ toISOString (pd_effectiveAt d)\<rparr>"
  have x: "andThen (audit V now (request_audit ip d) s2) (\<lambda>_ t. (raise_alert now ?a t, Inr (safeDestination d))) = (s', Inr v)"
    using assms a w m by (simp add: requestDestination_def Let_def new_id_def d_def [symmetric] s2_def [symmetric] split: prod.splits)
  have "logged_only s2 s'"
    using andThen_audit_logged [of "\<lambda>t. raise_alert now ?a t" s2 V now "request_audit ip d" "\<lambda>_. Inr (safeDestination d)"] x by simp
  moreover have "v = safeDestination d" using x by (auto simp: andThen_def split: sum.splits prod.splits)
  ultimately show thesis using that a w m d_def s2_def by metis
qed

lemma revoke_pending_facts:
  "map pd_id (revoke_pending now c A ds) = map pd_id ds"
  "filter (\<lambda>d. pd_status d = DestinationStatus.ACTIVE) (revoke_pending now c A ds) = filter (\<lambda>d. pd_status d = DestinationStatus.ACTIVE) ds"
  "filter (\<lambda>d. pd_customerId d = c \<and> pd_asset d = A \<and> pd_status d = DestinationStatus.PENDING) (revoke_pending now c A ds) = []"
  "filter (\<lambda>d. pd_customerId d = c \<longrightarrow> pd_asset d \<noteq> A) (revoke_pending now c A ds) = filter (\<lambda>d. pd_customerId d = c \<longrightarrow> pd_asset d \<noteq> A) ds"
  by (induction ds) (auto simp: revoke_pending_def)

lemma revoke_pending_inv:
  assumes "dest_inv V now s"
  shows "dest_inv V now (s\<lparr>payoutDestinations := revoke_pending now c A (payoutDestinations s)\<rparr>)"
proof -
  let ?ds = "revoke_pending now c A (payoutDestinations s)"
  note i = revoke_pending_facts(1) [of now c A "payoutDestinations s"]
  have "list_all (dest_ok V now) ?ds" using assms
    by (auto simp: dest_inv_def list_all_iff revoke_pending_def update_where_def dest_ok_def)
  moreover have "x \<in> set (payoutDestinations s)" if "x \<in> set ?ds" "pd_status x = DestinationStatus.ACTIVE" for x
    using that by (auto simp: revoke_pending_def update_where_def split: if_splits)
  then have "single_active ?ds" using assms unfolding dest_inv_def single_active_def by blast
  moreover have "pd_id ` set ?ds = pd_id ` set (payoutDestinations s)" using arg_cong [where f = set, OF i] by simp
  ultimately show ?thesis using assms i by (simp add: dest_inv_def minted_ids_def)
qed

text \<open>C20: A new payout address needs the customer's own access code, unrevoked and within ten attempts a minute from the
  address it comes from.  It was validated, waits for 24 hours and has at least the policy's minimum; it replaces a waiting
  request and touches neither the address in use nor any other customer, so the invariant of the addresses is kept.\<close>

theorem portal_request_effect:
  assumes "requestDestination V now input ip (s, r) = ((s', r'), Inr v)" and "dest_inv V now s"
  shows "\<exists>c d. c \<in> set (customers s) \<and> cust_slug c = pa_customerSlug input \<and> portal_valid V (pa_accessCode input) c s \<and>
    checkRateLimit V now ip r = (r', Inr ()) \<and> v = safeDestination d \<and>
    pd_customerId d = cust_id c \<and> pd_asset d = pq_asset input \<and> pd_effectiveAt d = now + 86400000 \<and>
    pp_minimumAtomic (payoutPolicy (sv_env V) s) (pq_asset input) \<le> pd_minPayoutAtomic d \<and> 0 < pd_minPayoutAtomic d \<and>
    filter (\<lambda>x. pd_customerId x = cust_id c \<and> pd_asset x = pq_asset input \<and> pd_status x = DestinationStatus.PENDING) (payoutDestinations s') = [d] \<and>
    filter (\<lambda>x. pd_status x = DestinationStatus.ACTIVE) (payoutDestinations s') = filter (\<lambda>x. pd_status x = DestinationStatus.ACTIVE) (payoutDestinations s) \<and>
    filter (\<lambda>x. \<not> (pd_customerId x = cust_id c \<and> pd_asset x = pq_asset input)) (payoutDestinations s') =
      filter (\<lambda>x. \<not> (pd_customerId x = cust_id c \<and> pd_asset x = pq_asset input)) (payoutDestinations s) \<and>
    dest_inv V now s'"
proof -
  from assms(1) obtain c d where a: "portal_authenticate V now input ip (s, r) = (r', Inr c)"
    and w: "wa_validateAddress (forAsset (sv_wallets V) (pq_asset input)) (trim (pq_address input)) = Inr True"
    and m: "0 < requested_minimum (payoutPolicy (sv_env V) s) input"
    and d: "d = requested_destination now (payoutPolicy (sv_env V) s) c input (uuids s (minted s))" and v: "v = safeDestination d"
    and l: "logged_only (s\<lparr>minted := Suc (minted s), payoutDestinations := revoke_pending now (cust_id c) (pq_asset input) (payoutDestinations s) @ [d]\<rparr>) s'"
    by (rule requestDestination_Inr)
  let ?s1 = "s\<lparr>payoutDestinations := revoke_pending now (cust_id c) (pq_asset input) (payoutDestinations s)\<rparr>"
  have "dest_inv V now (?s1\<lparr>minted := Suc (minted ?s1), payoutDestinations := payoutDestinations ?s1 @ [d]\<rparr>)"
    using w by (intro dest_inv_add [OF revoke_pending_inv [OF assms(2)]]) (simp_all add: d requested_destination_def dest_ok_def)
  then have inv: "dest_inv V now s'" by (rule dest_inv_logged) (use l in simp)
  have ds: "payoutDestinations s' = revoke_pending now (cust_id c) (pq_asset input) (payoutDestinations s) @ [d]"
    by (simp add: logged_only_tables(9) [OF l])
  have f: "pd_customerId d = cust_id c" "pd_asset d = pq_asset input" "pd_status d = DestinationStatus.PENDING" "pd_effectiveAt d = now + 86400000"
    "pp_minimumAtomic (payoutPolicy (sv_env V) s) (pq_asset input) \<le> pd_minPayoutAtomic d" "0 < pd_minPayoutAtomic d"
    using m by (simp_all add: d requested_destination_def Let_def)
  show ?thesis using portal_authenticate_Inr [OF a] v f inv
    by (intro exI [of _ c] exI [of _ d]) (simp add: ds revoke_pending_facts)
qed

section \<open>What the portal promises is what the planner does\<close>

lemma portal_reserved_eq: "portal_reserved c A s = customer_reserved A c s"
  by (simp add: portal_reserved_def customer_reserved_def open_items_def RESERVED_PAYOUT_STATES_def OPEN_PAYOUT_STATES_def)

lemma find_only:
  assumes "x \<in> set xs" and "P x" and "\<And>y. y \<in> set xs \<Longrightarrow> P y \<Longrightarrow> y = x"
  shows "List.find P xs = Some x"
proof (cases "List.find P xs")
  case None
  with assms(1,2) show ?thesis by (auto simp: find_None_iff)
next
  case (Some y)
  with assms(3) [of y] find_SomeD [OF Some] show ?thesis by simp
qed


section \<open>Witnesses\<close>

lemma requestDestination_succeeds:
  assumes "portal_authenticate V now input ip (s, r) = (r', Inr c)"
    and "wa_validateAddress (forAsset (sv_wallets V) (pq_asset input)) (trim (pq_address input)) = Inr True"
    and "0 < requested_minimum (payoutPolicy (sv_env V) s) input"
  shows "\<exists>s' v. requestDestination V now input ip (s, r) = ((s', r'), Inr v)"
proof -
  define d where "d = requested_destination now (payoutPolicy (sv_env V) s) c input (uuids s (minted s))"
  define s2 where "s2 = s\<lparr>minted := Suc (minted s), payoutDestinations := revoke_pending now (cust_id c) (pq_asset input) (payoutDestinations s) @ [d]\<rparr>"
  have "audit_value (request_audit ip d)" by (simp add: audit_value_def request_audit_def)
  then obtain t where t: "audit V now (request_audit ip d) s2 = (t, Inr ())" unfolding audit_def by (rule record_event_total)
  show ?thesis using assms t
    by (simp add: requestDestination_def Let_def new_id_def d_def [symmetric] s2_def [symmetric] andThen_def)
qed

definition portal_store :: store where
  "portal_store = (empty_store show_nat)\<lparr>customers := [example_customer],
     portalCredentials := [\<lparr>pc_customerId = ''c1'', pc_tokenHash = ''salt$code'', pc_tokenPrefix = ''code'', pc_createdAt = 0, pc_revokedAt = None\<rparr>]\<rparr>"

definition portal_input :: portal_destination_dto where
  "portal_input = \<lparr>pa_customerSlug = ''acme'', pa_accessCode = ''code'', pq_asset = XMR, pq_address = ''addr123456'', pq_minPayoutAtomic = Some ''5000''\<rparr>"

lemma portal_input_signs_in:
  "\<exists>r'. portal_authenticate example_services 5 portal_input ''10.0.0.1'' (portal_store, empty_redis) = (r', Inr example_customer)"
proof -
  have "portal_valid example_services ''code'' example_customer portal_store"
    by (simp add: portal_valid_def example_customer_def portal_store_def verifySecret_def example_services_def example_crypto_def
        crypto_init_def example_crypto_lib_def)
  then show ?thesis
    by (simp add: portal_authenticate_def checkRateLimit_def redis_incr_def empty_redis_def alive_def Let_def portal_input_def portal_store_def)
      (simp add: example_customer_def)
qed

theorem portal_request_effect_witness:
  "\<exists>s' r' v d. requestDestination example_services 5 portal_input ''10.0.0.1'' (portal_store, empty_redis) = ((s', r'), Inr v) \<and>
     pd_customerId d = ''c1'' \<and> pd_effectiveAt d = 86400005 \<and>
     filter (\<lambda>x. pd_customerId x = ''c1'' \<and> pd_asset x = XMR \<and> pd_status x = DestinationStatus.PENDING) (payoutDestinations s') = [d]"
proof -
  obtain r' where a: "portal_authenticate example_services 5 portal_input ''10.0.0.1'' (portal_store, empty_redis) = (r', Inr example_customer)"
    using portal_input_signs_in by blast
  have w: "wa_validateAddress (forAsset (sv_wallets example_services) (pq_asset portal_input)) (trim (pq_address portal_input)) = Inr True"
    by (simp add: example_services_def monero_adapter_def example_monero_def portal_input_def)
  have "bigint_of ''5000'' = 5000" by code_simp
  then have "0 < requested_minimum (payoutPolicy (sv_env example_services) portal_store) portal_input"
    by (simp add: requested_minimum_def portal_input_def truthy_def)
  from requestDestination_succeeds [OF a w this] obtain s' v
    where q: "requestDestination example_services 5 portal_input ''10.0.0.1'' (portal_store, empty_redis) = ((s', r'), Inr v)" by blast
  have "dest_inv example_services 5 portal_store"
    by (simp add: dest_inv_def portal_store_def empty_store_def single_active_def inj_show_nat)
  from portal_request_effect [OF q this] obtain c d where "c \<in> set (customers portal_store)" "pd_customerId d = cust_id c"
    "pd_effectiveAt d = 5 + 86400000"
    "filter (\<lambda>x. pd_customerId x = cust_id c \<and> pd_asset x = pq_asset portal_input \<and> pd_status x = DestinationStatus.PENDING) (payoutDestinations s') = [d]"
    by (elim exE conjE)
  moreover from this(1) have "cust_id c = ''c1''" by (simp add: portal_store_def example_customer_def)
  ultimately show ?thesis using q by (intro exI conjI) (assumption, simp_all add: portal_input_def)
qed


end
