(* ===== verification/Reports.thy ===== *)
theory Reports
  imports Portal Admission
begin

text \<open>
  The reports for the administrator: the dashboard and the list of workers (\<open>stats/stats.service.ts\<close>), the balances
  of all customers and the journal (\<open>ledger/ledger.service.ts\<close>), and the probes of the process
  (\<open>health/health.controller.ts\<close>, \<open>health/metrics.controller.ts\<close>).  Amounts and rates are numbers where the
  services return texts.  The rows of a table are in the order of their creation, which is the order of the
  columns \<open>observedAt\<close> and \<open>occurredAt\<close>, defaulted to the time of insertion and never updated.
\<close>

section \<open>The gateway's state\<close>

record gateway_status =
  gt_enabled :: bool
  gt_activeSockets :: int
  gt_listeners :: "string list"

definition gateway_status_of :: "bool \<Rightarrow> string list \<Rightarrow> gateway_state \<Rightarrow> gateway_status" where
  "gateway_status_of enabled bound g =
     \<lparr>gt_enabled = enabled, gt_activeSockets = gs_activeSockets g, gt_listeners = bound\<rparr>"

section \<open>The dashboard\<close>

record shares24h =
  s24_accepted :: nat
  s24_rejected :: nat
  s24_acceptanceRate :: rat

record dashboard =
  db_customers :: nat
  db_workers :: nat
  db_activeConnections :: nat
  db_gateway :: gateway_status
  db_shares24h :: shares24h
  db_openAlerts :: nat
  db_pendingPayouts :: nat
  db_recentDeposits :: "(deposit \<times> string option) list"

definition count_where :: "('a \<Rightarrow> bool) \<Rightarrow> 'a list \<Rightarrow> nat" where
  "count_where P xs = length (filter P xs)"

definition upstream_name :: "uuid \<Rightarrow> store \<Rightarrow> string option" where
  "upstream_name i s = map_option up_name (List.find (\<lambda>u. up_id u = i) (upstreams s))"

definition acceptance_rate :: "nat \<Rightarrow> nat \<Rightarrow> rat" where
  "acceptance_rate accepted rejected =
     (if accepted + rejected > 0 then of_nat accepted / (of_nat accepted + of_nat rejected) else 1)"

definition dashboard_of :: "instant \<Rightarrow> gateway_status \<Rightarrow> store \<Rightarrow> dashboard" where
  "dashboard_of now gateway s =
     (let since = now - 24 * 60 * 60000;
          accepted = count_where (\<lambda>x. sh_status x = ACCEPTED \<and> sh_submittedAt x \<ge> since) (shareEvents s);
          rejected = count_where (\<lambda>x. sh_status x = REJECTED \<and> sh_submittedAt x \<ge> since) (shareEvents s)
      in \<lparr>db_customers = count_where (\<lambda>c. cust_status c = EntityStatus.ACTIVE) (customers s),
          db_workers = count_where (\<lambda>w. wk_status w = EntityStatus.ACTIVE) (workers s),
          db_activeConnections = count_where (\<lambda>c. cn_disconnectedAt c = None) (connectionSessions s),
          db_gateway = gateway,
          db_shares24h = \<lparr>s24_accepted = accepted, s24_rejected = rejected,
            s24_acceptanceRate = acceptance_rate accepted rejected\<rparr>,
          db_openAlerts = count_where (\<lambda>a. at_status a = OPEN) (alerts s),
          db_pendingPayouts = count_where (\<lambda>b. pb_state b \<in> {PLANNED, APPROVAL_REQUIRED, AUTO_APPROVED, SIGNED, BROADCAST}) (payoutBatches s),
          db_recentDeposits = map (\<lambda>d. (d, upstream_name (dp_upstreamId d) s)) (take 10 (rev (deposits s)))\<rparr>)"

section \<open>Workers with their rates\<close>

record share_group =
  gr_workerId :: uuid
  gr_status :: ShareStatus
  gr_work :: rat
  gr_count :: nat

record window_counts =
  wi_work :: rat
  wi_accepted :: nat
  wi_rejected :: nat

definition in_window :: "instant \<Rightarrow> int \<Rightarrow> AssetCode option \<Rightarrow> share_event \<Rightarrow> bool" where
  "in_window now minutes asset x \<longleftrightarrow> sh_submittedAt x \<ge> now - minutes * 60000 \<and> sh_status x \<in> {ACCEPTED, REJECTED} \<and>
     (case asset of None \<Rightarrow> True | Some a \<Rightarrow> sh_asset x = a)"

definition group_shares :: "share_event list \<Rightarrow> share_group list" where
  "group_shares xs =
     map (\<lambda>(w, st). \<lparr>gr_workerId = w, gr_status = st,
            gr_work = sum_where (\<lambda>x. sh_workerId x = w \<and> sh_status x = st) sh_normalizedWork xs,
            gr_count = count_where (\<lambda>x. sh_workerId x = w \<and> sh_status x = st) xs\<rparr>)
       (remdups (map (\<lambda>x. (sh_workerId x, sh_status x)) xs))"

definition add_group :: "share_group \<Rightarrow> (uuid \<rightharpoonup> window_counts) \<Rightarrow> (uuid \<rightharpoonup> window_counts)" where
  "add_group g m =
     (let current = (case m (gr_workerId g) of None \<Rightarrow> \<lparr>wi_work = 0, wi_accepted = 0, wi_rejected = 0\<rparr> | Some c \<Rightarrow> c);
          updated = (if gr_status g = ACCEPTED
                     then current\<lparr>wi_work := wi_work current + gr_work g, wi_accepted := wi_accepted current + gr_count g\<rparr>
                     else current\<lparr>wi_rejected := wi_rejected current + gr_count g\<rparr>)
      in m(gr_workerId g \<mapsto> updated))"

definition window_aggregate :: "instant \<Rightarrow> int \<Rightarrow> AssetCode option \<Rightarrow> store \<Rightarrow> (uuid \<rightharpoonup> window_counts)" where
  "window_aggregate now minutes asset s =
     fold add_group (group_shares (filter (in_window now minutes asset) (shareEvents s))) Map.empty"

record worker_report =
  wr_worker :: worker
  wr_customer :: "customer option"
  wr_connected :: bool
  wr_activeConnections :: nat
  wr_upstreamName :: "string option"
  wr_hashrate1m :: rat
  wr_hashrate5m :: rat
  wr_hashrate15m :: rat
  wr_accepted15m :: nat
  wr_rejected15m :: nat

definition work_or_zero :: "window_counts option \<Rightarrow> rat" where
  "work_or_zero w = (case w of None \<Rightarrow> 0 | Some c \<Rightarrow> wi_work c)"

definition worker_report_of ::
  "(uuid \<rightharpoonup> window_counts) \<Rightarrow> (uuid \<rightharpoonup> window_counts) \<Rightarrow> (uuid \<rightharpoonup> window_counts) \<Rightarrow> store \<Rightarrow> worker \<Rightarrow> worker_report" where
  "worker_report_of m1 m5 m15 s w =
     (let connections = filter (\<lambda>c. cn_workerId c = wk_id w \<and> cn_disconnectedAt c = None) (connectionSessions s);
          fifteen = m15 (wk_id w)
      in \<lparr>wr_worker = w, wr_customer = List.find (\<lambda>c. cust_id c = wk_customerId w) (customers s),
          wr_connected = (length connections > 0), wr_activeConnections = length connections,
          wr_upstreamName = (case connections of [] \<Rightarrow> None
             | c # _ \<Rightarrow> (case cn_upstreamId c of None \<Rightarrow> None | Some u \<Rightarrow> upstream_name u s)),
          wr_hashrate1m = work_or_zero (m1 (wk_id w)) / 60,
          wr_hashrate5m = work_or_zero (m5 (wk_id w)) / 300,
          wr_hashrate15m = work_or_zero fifteen / 900,
          wr_accepted15m = (case fifteen of None \<Rightarrow> 0 | Some c \<Rightarrow> wi_accepted c),
          wr_rejected15m = (case fifteen of None \<Rightarrow> 0 | Some c \<Rightarrow> wi_rejected c)\<rparr>)"

text \<open>Workers that were never seen come first: the database puts missing values first in descending order.\<close>

definition seen_key :: "worker \<Rightarrow> int \<times> int" where
  "seen_key w = (case wk_lastSeenAt w of None \<Rightarrow> (0, 0) | Some t \<Rightarrow> (1, - t))"

definition workers_report :: "instant \<Rightarrow> AssetCode option \<Rightarrow> store \<Rightarrow> worker_report list" where
  "workers_report now asset s =
     map (worker_report_of (window_aggregate now 1 asset s) (window_aggregate now 5 asset s) (window_aggregate now 15 asset s) s)
       (sort_key seen_key (filter (\<lambda>w. case asset of None \<Rightarrow> True | Some a \<Rightarrow> wk_asset w = a) (workers s)))"

section \<open>Balances of all customers, and the journal\<close>

record customer_balance =
  cb_customer :: customer
  cb_balance :: portal_balance

definition balance_row :: "AssetCode \<Rightarrow> store \<Rightarrow> customer \<Rightarrow> customer_balance" where
  "balance_row asset s c =
     (let confirmed = customerBalance (cust_id c) asset s;
          reservedAtomic = sum_where (\<lambda>x. pi_customerId x = Some (cust_id c)) pi_grossAtomic (open_items (\<lambda>b. pb_asset b = asset) s);
          pending = filter (pending_accepted (cust_id c) asset) (shareEvents s)
      in \<lparr>cb_customer = c, cb_balance =
            \<lparr>pl_asset = asset, pl_confirmedAtomic = confirmed, pl_reservedAtomic = reservedAtomic,
             pl_payableAtomic = confirmed - reservedAtomic, pl_pendingAcceptedShares = length pending,
             pl_pendingAcceptedWork = sum_list (map sh_normalizedWork pending)\<rparr>\<rparr>)"

definition customerBalances :: "(string \<Rightarrow> rat) \<Rightarrow> AssetCode option \<Rightarrow> store \<Rightarrow> customer_balance list" where
  "customerBalances collate asset s =
     (let assets = (case asset of Some a \<Rightarrow> [a] | None \<Rightarrow> [BTC, XMR]);
          active = sort_key (\<lambda>c. collate (cust_displayName c)) (filter (\<lambda>c. cust_status c = EntityStatus.ACTIVE) (customers s))
      in concat (map (\<lambda>a. map (balance_row a s) active) assets))"

definition listTransactions :: "AssetCode option \<Rightarrow> int \<Rightarrow> store \<Rightarrow> journal_transaction list" where
  "listTransactions asset rows s =
     take (nat (min (max rows 1) 500))
       (rev (filter (\<lambda>j. case asset of None \<Rightarrow> True | Some a \<Rightarrow> jt_asset j = a) (journalTransactions s)))"

section \<open>Probes\<close>

record readiness =
  rd_status :: string
  rd_checks :: "(string \<times> string) list"
  rd_gateway :: gateway_status
  rd_at :: instant

definition ready :: "instant \<Rightarrow> bool \<Rightarrow> string option \<Rightarrow> gateway_status \<Rightarrow> readiness" where
  "ready now postgres pong gateway =
     (let checks =
        [(''postgres'', if postgres then ''ok'' else ''failed''),
         (''redis'', if pong = Some ''PONG'' then ''ok'' else ''failed''),
         (''gateway'', if \<not> gt_enabled gateway then ''disabled'' else if length (gt_listeners gateway) > 0 then ''ok'' else ''failed'')]
      in \<lparr>rd_status = (if list_all (\<lambda>(_, v). v = ''ok'' \<or> v = ''disabled'') checks then ''ok'' else ''degraded''),
          rd_checks = checks, rd_gateway = gateway, rd_at = now\<rparr>)"

definition metrics_gauges :: "store \<Rightarrow> (string \<times> nat) list" where
  "metrics_gauges s =
     [(''mining_gateway_active_worker_connections'', count_where (\<lambda>c. cn_disconnectedAt c = None) (connectionSessions s)),
      (''mining_gateway_open_alerts'', count_where (\<lambda>a. at_status a = OPEN) (alerts s))]"

section \<open>What the groups add up to\<close>

definition counts_read :: "window_counts option \<Rightarrow> rat \<times> nat \<times> nat" where
  "counts_read w = (case w of None \<Rightarrow> (0, 0, 0) | Some c \<Rightarrow> (wi_work c, wi_accepted c, wi_rejected c))"

lemma fold_groups:
  "counts_read (fold add_group gs m w) =
     (fst (counts_read (m w)) + sum_where (\<lambda>g. gr_workerId g = w \<and> gr_status g = ACCEPTED) gr_work gs,
      fst (snd (counts_read (m w))) + sum_where (\<lambda>g. gr_workerId g = w \<and> gr_status g = ACCEPTED) gr_count gs,
      snd (snd (counts_read (m w))) + sum_where (\<lambda>g. gr_workerId g = w \<and> gr_status g \<noteq> ACCEPTED) gr_count gs)"
proof (induction gs arbitrary: m)
  case (Cons g gs)
  show ?case unfolding fold_simps Cons.IH
    by (auto simp: add_group_def counts_read_def Let_def split: option.splits)
qed (simp add: counts_read_def split: option.splits)

lemma sum_where_key:
  assumes "distinct ks" and "\<And>k. k \<in> set ks \<Longrightarrow> P (h k) \<longleftrightarrow> k = k0"
  shows "sum_where P f (map h ks) = (if k0 \<in> set ks then f (h k0) else (0 :: 'b :: comm_monoid_add))"
  using assms by (induction ks) auto

lemma count_where_none: "(\<And>x. x \<in> set xs \<Longrightarrow> \<not> P x) \<Longrightarrow> count_where P xs = 0"
  by (simp add: count_where_def)

lemma group_shares_sum:
  assumes "\<And>w st. (w, st) \<in> set (map (\<lambda>x. (sh_workerId x, sh_status x)) xs) \<Longrightarrow> Q w st \<longleftrightarrow> w = w0 \<and> st = st0"
  shows "sum_where (\<lambda>g. Q (gr_workerId g) (gr_status g)) gr_work (group_shares xs) =
      sum_where (\<lambda>x. sh_workerId x = w0 \<and> sh_status x = st0) sh_normalizedWork xs" (is ?work)
    and "sum_where (\<lambda>g. Q (gr_workerId g) (gr_status g)) gr_count (group_shares xs) =
      count_where (\<lambda>x. sh_workerId x = w0 \<and> sh_status x = st0) xs" (is ?count)
proof -
  have key: "(case k of (w, st) \<Rightarrow> Q w st) \<longleftrightarrow> k = (w0, st0)"
    if "k \<in> set (remdups (map (\<lambda>x. (sh_workerId x, sh_status x)) xs))" for k using assms that by (cases k) simp
  have none: "\<not> (sh_workerId x = w0 \<and> sh_status x = st0)"
    if "(w0, st0) \<notin> set (remdups (map (\<lambda>x. (sh_workerId x, sh_status x)) xs))" "x \<in> set xs" for x using that by force
  show ?work unfolding group_shares_def
    by (subst sum_where_key [where ?k0.0 = "(w0, st0)"]) (use key none in \<open>auto split: prod.splits\<close>)
  show ?count unfolding group_shares_def
    by (subst sum_where_key [where ?k0.0 = "(w0, st0)"]) (use key none in \<open>auto simp: count_where_none split: prod.splits\<close>)
qed

lemma window_aggregate_sums:
  "counts_read (window_aggregate now m a s w) =
     (sum_where (\<lambda>x. sh_workerId x = w \<and> sh_status x = ACCEPTED) sh_normalizedWork (filter (in_window now m a) (shareEvents s)),
      count_where (\<lambda>x. sh_workerId x = w \<and> sh_status x = ACCEPTED) (filter (in_window now m a) (shareEvents s)),
      count_where (\<lambda>x. sh_workerId x = w \<and> sh_status x = REJECTED) (filter (in_window now m a) (shareEvents s)))"
proof -
  have "sum_where (\<lambda>g. gr_workerId g = w \<and> gr_status g \<noteq> ACCEPTED) gr_count (group_shares (filter (in_window now m a) (shareEvents s))) =
    count_where (\<lambda>x. sh_workerId x = w \<and> sh_status x = REJECTED) (filter (in_window now m a) (shareEvents s))"
    by (rule group_shares_sum(2)) (auto simp: in_window_def)
  then show ?thesis unfolding window_aggregate_def fold_groups
    by (simp add: counts_read_def group_shares_sum [where Q = "\<lambda>v st. v = w \<and> st = ACCEPTED"])
qed

lemma report_counts:
  "work_or_zero w = fst (counts_read w)"
  "(case w of None \<Rightarrow> 0 | Some c \<Rightarrow> wi_accepted c) = fst (snd (counts_read w))"
  "(case w of None \<Rightarrow> 0 | Some c \<Rightarrow> wi_rejected c) = snd (snd (counts_read w))"
  by (simp_all add: work_or_zero_def counts_read_def split: option.splits)

lemma sum_where_filter: "sum_where P f (filter Q xs) = sum_where (\<lambda>x. Q x \<and> P x) f xs"
  by (simp add: sum_where_def conj_commute)

lemma window_work_eq:
  assumes "\<forall>x \<in> set (shareEvents s). sh_workerId x = w \<longrightarrow> sh_customerId x = c \<and> (a = None \<or> a = Some (sh_asset x))"
  shows "sum_where (\<lambda>x. sh_workerId x = w \<and> sh_status x = ACCEPTED) sh_normalizedWork (filter (in_window now m a) (shareEvents s)) =
    window_work now m c w s"
  unfolding sum_where_filter window_work_def
  by (rule sum_where_cong) (use assms in \<open>auto simp: in_window_def split: option.splits\<close>)

section \<open>Administrator and customer see the same rates\<close>

text \<open>The list of workers groups the shares of a window by worker and status and adds the groups up in a table; what it shows
  is the exact work of the worker's accepted shares over the length of the window, the same rates as the customer sees in the
  portal, and the number of accepted and rejected shares of fifteen minutes.  Every worker asked for is listed once.\<close>

theorem workers_report_exact:
  assumes own: "\<forall>x \<in> set (shareEvents s). \<forall>w \<in> set (workers s). sh_workerId x = wk_id w \<longrightarrow>
      sh_customerId x = wk_customerId w \<and> sh_asset x = wk_asset w"
  shows "mset (map wr_worker (workers_report now a s)) = mset (filter (\<lambda>w. a = None \<or> a = Some (wk_asset w)) (workers s)) \<and>
    (\<forall>r \<in> set (workers_report now a s). \<exists>v \<in> set (workerStats collate now (wk_customerId (wr_worker r)) s).
      ws_worker v = wr_worker r \<and> wr_connected r = ws_connected v \<and> wr_activeConnections r = ws_activeConnections v \<and>
      wr_hashrate1m r = ws_hashrate1m v \<and> wr_hashrate5m r = ws_hashrate5m v \<and> wr_hashrate15m r = ws_hashrate15m v \<and>
      wr_accepted15m r = count_where (\<lambda>x. sh_workerId x = wk_id (wr_worker r) \<and> sh_status x = ACCEPTED \<and>
        sh_submittedAt x \<ge> now - 900000) (shareEvents s) \<and>
      wr_rejected15m r = count_where (\<lambda>x. sh_workerId x = wk_id (wr_worker r) \<and> sh_status x = REJECTED \<and>
        sh_submittedAt x \<ge> now - 900000) (shareEvents s))"
proof (intro conjI ballI)
  have "wr_worker (worker_report_of m1 m5 m15 s w) = w" for m1 m5 m15 w by (simp add: worker_report_of_def Let_def)
  then have "map wr_worker (workers_report now a s) =
      sort_key seen_key (filter (\<lambda>w. case a of None \<Rightarrow> True | Some b \<Rightarrow> wk_asset w = b) (workers s))"
    by (simp add: workers_report_def comp_def)
  moreover have "filter (\<lambda>w. case a of None \<Rightarrow> True | Some b \<Rightarrow> wk_asset w = b) (workers s) =
      filter (\<lambda>w. a = None \<or> a = Some (wk_asset w)) (workers s)" by (rule filter_cong) (auto split: option.splits)
  ultimately show "mset (map wr_worker (workers_report now a s)) = mset (filter (\<lambda>w. a = None \<or> a = Some (wk_asset w)) (workers s))"
    by simp
next
  fix r assume "r \<in> set (workers_report now a s)"
  then obtain w where w: "w \<in> set (workers s)" "a = None \<or> a = Some (wk_asset w)"
    and r: "r = worker_report_of (window_aggregate now 1 a s) (window_aggregate now 5 a s) (window_aggregate now 15 a s) s w"
    by (cases a) (auto simp: workers_report_def)
  have mine: "\<forall>x \<in> set (shareEvents s). sh_workerId x = wk_id w \<longrightarrow> sh_customerId x = wk_customerId w \<and> (a = None \<or> a = Some (sh_asset x))"
    using own w by auto
  have count: "count_where (\<lambda>x. sh_workerId x = wk_id w \<and> sh_status x = st) (filter (in_window now 15 a) (shareEvents s)) =
      count_where (\<lambda>x. sh_workerId x = wk_id w \<and> sh_status x = st \<and> sh_submittedAt x \<ge> now - 900000) (shareEvents s)"
    if "st \<in> {ACCEPTED, REJECTED}" for st
    unfolding count_where_def filter_filter
    by (rule arg_cong [where f = length], rule filter_cong) (use mine that in \<open>auto simp: in_window_def split: option.splits\<close>)
  show "\<exists>v \<in> set (workerStats collate now (wk_customerId (wr_worker r)) s).
      ws_worker v = wr_worker r \<and> wr_connected r = ws_connected v \<and> wr_activeConnections r = ws_activeConnections v \<and>
      wr_hashrate1m r = ws_hashrate1m v \<and> wr_hashrate5m r = ws_hashrate5m v \<and> wr_hashrate15m r = ws_hashrate15m v \<and>
      wr_accepted15m r = count_where (\<lambda>x. sh_workerId x = wk_id (wr_worker r) \<and> sh_status x = ACCEPTED \<and>
        sh_submittedAt x \<ge> now - 900000) (shareEvents s) \<and>
      wr_rejected15m r = count_where (\<lambda>x. sh_workerId x = wk_id (wr_worker r) \<and> sh_status x = REJECTED \<and>
        sh_submittedAt x \<ge> now - 900000) (shareEvents s)"
    unfolding workerStats_def using w(1)
    by (auto simp: r worker_report_of_def report_counts window_aggregate_sums window_work_eq [OF mine] count Let_def intro!: bexI [of _ w])
qed

section \<open>What is broadcast is subtracted twice\<close>

definition broadcast_to :: "uuid \<Rightarrow> AssetCode \<Rightarrow> payout_batch list \<Rightarrow> atomic" where
  "broadcast_to c A bs = sum_where (\<lambda>x. pi_customerId x = Some c) pi_grossAtomic
     (concat (map pb_items (filter (\<lambda>b. pb_asset b = A \<and> pb_state b = BROADCAST) bs)))"

lemma pending_items:
  "sum_where (\<lambda>(B, x). B = A \<and> pi_customerId x = c \<and> pi_journalTransactionId x = None) (\<lambda>(B, x). pi_grossAtomic x) (map (Pair B0) xs) =
     (if B0 = A then sum_where (\<lambda>x. pi_customerId x = c \<and> pi_journalTransactionId x = None) pi_grossAtomic xs else 0)"
  by (induction xs) auto

lemma reserved_split:
  assumes "list_all batch_ok bs"
  shows "sum_where (\<lambda>x. pi_customerId x = Some c) pi_grossAtomic
      (concat (map pb_items (filter (\<lambda>b. pb_asset b = A \<and> pb_state b \<in> set OPEN_PAYOUT_STATES) bs))) =
    pending_to (Some c) A bs + broadcast_to c A bs"
  using assms
proof (induction bs)
  case Nil
  then show ?case by (simp add: pending_to_def broadcast_to_def)
next
  case (Cons b bs)
  have head: "(if pb_asset b = A \<and> pb_state b \<in> set OPEN_PAYOUT_STATES
      then sum_where (\<lambda>x. pi_customerId x = Some c) pi_grossAtomic (pb_items b) else 0) =
    pending_to (Some c) A [b] + broadcast_to c A [b]"
  proof (cases "booked b")
    case True
    then have "sum_where (\<lambda>x. pi_customerId x = Some c \<and> pi_journalTransactionId x = None) pi_grossAtomic (pb_items b) = 0"
      using Cons.prems by (intro sum_where_none) (auto simp: batch_ok_def)
    with True show ?thesis
      by (auto simp: pending_to_def broadcast_to_def pending_items booked_def OPEN_PAYOUT_STATES_def)
  next
    case False
    then have "sum_where (\<lambda>x. pi_customerId x = Some c \<and> pi_journalTransactionId x = None) pi_grossAtomic (pb_items b) =
        sum_where (\<lambda>x. pi_customerId x = Some c) pi_grossAtomic (pb_items b)"
      using Cons.prems by (intro sum_where_cong) (auto simp: batch_ok_def)
    with False Cons.prems show ?thesis
      by (cases "pb_state b") (auto simp: pending_to_def broadcast_to_def pending_items booked_def OPEN_PAYOUT_STATES_def batch_ok_def)
  qed
  have tail: "pending_to (Some c) A (b # bs) = pending_to (Some c) A [b] + pending_to (Some c) A bs"
    "broadcast_to c A (b # bs) = broadcast_to c A [b] + broadcast_to c A bs"
    using pending_to_simps(2) [of "Some c" A "[b]" bs] by (simp_all add: broadcast_to_def)
  from Cons.IH Cons.prems head show ?case unfolding tail by (auto split: if_splits)
qed

text \<open>C19: In every history of the payouts the amount shown as payable to an active customer is what the customer is owed, less what
  is planned, less once more what has been broadcast and already taken from the balance: while a payout waits for its
  confirmation the customer's other earnings are shown, and planned, short by its amount, possibly below zero.\<close>

theorem broadcast_subtracted_twice:
  assumes "payout_reachable C s wire" and "r \<in> set (customerBalances collate a s)"
  shows "let b = cb_balance r; c = cust_id (cb_customer r); A = pl_asset b; free = owed_to (Some c) A s - pending_to (Some c) A (payoutBatches s)
    in 0 \<le> free \<and> pl_payableAtomic b = free - broadcast_to c A (payoutBatches s) \<and>
       pl_reservedAtomic b = customer_reserved A c s \<and>
       pl_payableAtomic (portalBalance c A s) = max 0 (pl_payableAtomic b)"
proof -
  from assms(2) obtain c A where r: "r = balance_row A s c" by (auto simp: customerBalances_def Let_def)
  have inv: "covered s" "list_all batch_ok (payoutBatches s)"
    using payout_reachable_inv [OF assms(1)] by (simp_all add: payout_inv_def batches_ok_def)
  have "customer_reserved A (cust_id c) s = pending_to (Some (cust_id c)) A (payoutBatches s) + broadcast_to (cust_id c) A (payoutBatches s)"
    unfolding customer_reserved_def open_items_def by (rule reserved_split [OF inv(2)])
  moreover have "pending_to (Some (cust_id c)) A (payoutBatches s) \<le> owed_to (Some (cust_id c)) A s"
    using inv(1) by (simp add: covered_def)
  ultimately show ?thesis
    by (simp add: r balance_row_def Let_def owed_to_def portalBalance_def portal_reserved_eq customer_reserved_def)
qed

section \<open>Witnesses\<close>

definition report_worker :: worker where
  "report_worker = \<lparr>wk_id = ''w1'', wk_customerId = ''c1'', wk_slug = ''rig'', wk_asset = XMR, wk_status = EntityStatus.ACTIVE,
     wk_maxConnections = 1, wk_allowedIps = [], wk_lastSeenAt = Some 7\<rparr>"

definition report_share :: "string \<Rightarrow> ShareStatus \<Rightarrow> instant \<Rightarrow> share_event" where
  "report_share i st t = \<lparr>sh_id = i, sh_asset = XMR, sh_customerId = ''c1'', sh_workerId = ''w1'', sh_upstreamId = ''u1'',
     sh_connectionId = ''k1'', sh_splitPolicyId = ''p1'', sh_requestKey = i, sh_status = st, sh_difficulty = 60, sh_normalizedWork = 60,
     sh_submittedAt = t, sh_resolvedAt = None, sh_upstreamLatencyMs = None, sh_rejectReason = None, sh_allocationBatchId = None\<rparr>"

definition report_store :: store where
  "report_store = (empty_store show_nat)\<lparr>customers := [example_customer], workers := [report_worker],
     shareEvents := [report_share ''a'' ACCEPTED 600000, report_share ''b'' ACCEPTED 950000, report_share ''c'' REJECTED 960000,
       report_share ''d'' ACCEPTED 970000, report_share ''e'' ShareStatus.PENDING 980000]\<rparr>"

lemma report_store_rows: "map (\<lambda>r. (wr_hashrate1m r, wr_accepted15m r, wr_rejected15m r)) (workers_report 1000000 (Some XMR) report_store) = [(2, 3, 1)]"
  by code_simp

theorem workers_report_exact_witness:
  "\<exists>v \<in> set (workerStats (\<lambda>_. 0) 1000000 ''c1'' report_store). ws_worker v = report_worker \<and> ws_hashrate1m v = 2"
proof -
  from report_store_rows obtain r where r: "workers_report 1000000 (Some XMR) report_store = [r]" and h: "wr_hashrate1m r = 2"
    by (auto simp: map_eq_Cons_conv)
  have "\<forall>x \<in> set (shareEvents report_store). \<forall>w \<in> set (workers report_store). sh_workerId x = wk_id w \<longrightarrow>
      sh_customerId x = wk_customerId w \<and> sh_asset x = wk_asset w"
    by (simp add: report_store_def report_share_def report_worker_def)
  note e = workers_report_exact [OF this, of 1000000 "Some XMR" "\<lambda>_. 0"]
  have "workers report_store = [report_worker]" "wk_asset report_worker = XMR" "wk_customerId report_worker = ''c1''"
    by (simp_all add: report_store_def report_worker_def)
  with conjunct1 [OF e] have "mset (map wr_worker (workers_report 1000000 (Some XMR) report_store)) = {#report_worker#}" by simp
  then have w: "wr_worker r = report_worker" unfolding r by simp
  from conjunct2 [OF e, unfolded r] obtain v where "v \<in> set (workerStats (\<lambda>_. 0) 1000000 (wk_customerId (wr_worker r)) report_store)"
    "ws_worker v = wr_worker r" "wr_hashrate1m r = ws_hashrate1m v" by auto
  with h w \<open>wk_customerId report_worker = ''c1''\<close> show ?thesis by auto
qed

definition broadcast_store :: store where
  "broadcast_store = fst (executeUnderLock example_services 6 (replicate 12 CHR ''i'') (\<lambda>_. False) ''4'' planned_store)"

lemma broadcast_store_rows:
  "map (\<lambda>r. (cust_id (cb_customer r), pl_asset (cb_balance r), pl_confirmedAtomic (cb_balance r), pl_payableAtomic (cb_balance r)))
     (customerBalances (\<lambda>_. 0) (Some XMR) broadcast_store) = [(''c1'', XMR, 0, - 1000)]"
  by code_simp

theorem broadcast_subtracted_twice_witness:
  "0 \<le> owed_to (Some ''c1'') XMR broadcast_store - pending_to (Some ''c1'') XMR (payoutBatches broadcast_store) \<and>
   owed_to (Some ''c1'') XMR broadcast_store - pending_to (Some ''c1'') XMR (payoutBatches broadcast_store) -
     broadcast_to ''c1'' XMR (payoutBatches broadcast_store) = - 1000"
proof -
  obtain sent res where e: "executeUnderLock example_services 6 (replicate 12 CHR ''i'') (\<lambda>_. False) ''4'' planned_store = (broadcast_store, sent, res)"
    unfolding broadcast_store_def by (metis prod.collapse)
  have reach: "payout_reachable (sv_crypto example_services) broadcast_store ([] @ map (Pair ''4'') sent)"
    by (rule payout_reachable.step [OF planned_store_reachable payout_step.execute [OF refl e]])
  from broadcast_store_rows obtain r where r: "customerBalances (\<lambda>_. 0) (Some XMR) broadcast_store = [r]"
    and f: "cust_id (cb_customer r) = ''c1''" "pl_asset (cb_balance r) = XMR" "pl_payableAtomic (cb_balance r) = - 1000"
    by (auto simp: map_eq_Cons_conv)
  have "r \<in> set (customerBalances (\<lambda>_. 0) (Some XMR) broadcast_store)" by (simp add: r)
  from broadcast_subtracted_twice [OF reach this] show ?thesis by (simp add: Let_def f)
qed

end
