(* ===== verification/HttpText.thy ===== *)
theory HttpText
  imports Crypto Totp
begin

text \<open>
  The text operations the HTTP clients use: base64, upper case, searching a text in a text.  The texts of
  HTTP headers are sequences of bytes, one character each.
\<close>

definition base64 :: "string \<Rightarrow> string" where
  "base64 cs =
     (let t = map (\<lambda>c. if c = CHR ''-'' then CHR ''+'' else if c = CHR ''_'' then CHR ''/'' else c) (base64url cs)
      in t @ replicate ((4 - length t mod 4) mod 4) (CHR ''=''))"

definition toUpperCase :: "string \<Rightarrow> string" where
  "toUpperCase = map upper_char"

definition is_letter :: "char \<Rightarrow> bool" where
  "is_letter c \<longleftrightarrow> (let n = (of_char (lower_char c) :: nat) in 97 \<le> n \<and> n \<le> 122)"

definition crlf :: string where
  "crlf = [CHR 0x0D, CHR 0x0A]"

text \<open>\<open>indexOf\<close> of a text, with \<open>None\<close> for \<open>-1\<close>.\<close>

fun find_text :: "string \<Rightarrow> string \<Rightarrow> nat option" where
  "find_text p [] = (if p = [] then Some 0 else None)"
| "find_text p (c # cs) = (if startsWith (c # cs) p then Some 0 else map_option Suc (find_text p cs))"

lemma startsWith_iff: "startsWith t p \<longleftrightarrow> (\<exists>r. t = p @ r)"
  unfolding startsWith_def by (metis append_eq_conv_conj append_take_drop_id)

lemma find_text_SomeD: "find_text p t = Some i \<Longrightarrow> \<exists>x y. t = x @ p @ y \<and> length x = i"
proof (induction t arbitrary: i)
  case (Cons c cs)
  show ?case
  proof (cases "startsWith (c # cs) p")
    case True
    with Cons.prems show ?thesis by (auto simp: startsWith_iff)
  next
    case False
    with Cons.prems obtain j where "find_text p cs = Some j" "i = Suc j" by auto
    with Cons.IH obtain x y where "cs = x @ p @ y" "length x = j" by blast
    with \<open>i = Suc j\<close> show ?thesis by (intro exI [of _ "c # x"] exI [of _ y]) simp
  qed
qed (auto split: if_splits)

text \<open>What is found stays found where it was.\<close>

lemma find_text_append: "find_text p t = Some i \<Longrightarrow> find_text p (t @ u) = Some i"
proof (induction t arbitrary: i)
  case Nil
  then show ?case by (cases u) (auto simp: startsWith_def split: if_splits)
next
  case (Cons c cs)
  show ?case
  proof (cases "startsWith (c # cs) p")
    case True
    then have "startsWith ((c # cs) @ u) p" by (metis append.assoc startsWith_iff)
    with True Cons.prems show ?thesis by simp
  next
    case False
    with Cons.prems obtain j where j: "find_text p cs = Some j" "i = Suc j" by auto
    then obtain x y where "cs = x @ p @ y" using find_text_SomeD by blast
    then have "length p < length (c # cs)" by simp
    then have "take (length p) ((c # cs) @ u) = take (length p) (c # cs)" by (simp del: append_Cons)
    with False have "\<not> startsWith ((c # cs) @ u) p" unfolding startsWith_def by metis
    with j Cons.IH [OF j(1)] show ?thesis by simp
  qed
qed

lemma letter_facts: "is_letter c \<Longrightarrow> c \<noteq> CHR '','' \<and> c \<noteq> CHR ''='' \<and> \<not> is_space c"
  by (auto simp: is_letter_def is_space_def lower_char_def Let_def)

lemma trim_id: "x \<noteq> [] \<Longrightarrow> \<not> is_space (hd x) \<Longrightarrow> \<not> is_space (last x) \<Longrightarrow> trim x = x"
proof -
  assume x: "x \<noteq> []" "\<not> is_space (hd x)" "\<not> is_space (last x)"
  have keep: "dropWhile is_space y = y" if "y \<noteq> []" "\<not> is_space (hd y)" for y using that by (cases y) auto
  show ?thesis using x keep [of x] keep [of "rev x"] by (simp add: trim_def hd_rev)
qed

lemma trim_ends: "trim x \<noteq> [] \<Longrightarrow> \<not> is_space (hd (trim x)) \<and> \<not> is_space (last (trim x))"
proof -
  assume ne: "trim x \<noteq> []"
  let ?y = "dropWhile is_space x"
  have t: "trim x = rev (dropWhile is_space (rev ?y))" by (simp add: trim_def)
  then have "\<not> is_space (last (trim x))" using ne hd_dropWhile [of is_space "rev ?y"] by (simp add: last_rev)
  moreover obtain n where "trim x = take n ?y" unfolding t by (metis dropWhile_eq_drop rev_drop rev_rev_ident)
  then have "hd (trim x) = hd ?y" "?y \<noteq> []" using ne by auto
  then have "\<not> is_space (hd (trim x))" using hd_dropWhile [of is_space x] by simp
  ultimately show ?thesis by simp
qed

lemma clean_again: "toLowerCase (trim (toLowerCase (trim x))) = toLowerCase (trim x)"
proof (cases "trim x = []")
  case True
  have "trim [] = []" by (simp add: trim_def)
  then show ?thesis unfolding True by (simp add: toLowerCase_def)
next
  case False
  have small: "is_space c \<Longrightarrow> (of_char c :: nat) \<le> 32" for c by (auto simp: is_space_def)
  have "is_space (lower_char c) = is_space c" for c
  proof (cases "65 \<le> (of_char c :: nat) \<and> (of_char c :: nat) \<le> 90")
    case True
    then have "(of_char (lower_char c) :: nat) = of_char c + 32" by (simp add: lower_char_def of_char_of)
    with True small [of c] small [of "lower_char c"] show ?thesis by auto
  qed (auto simp: lower_char_def)
  then have "trim (toLowerCase (trim x)) = toLowerCase (trim x)"
    using False trim_ends [OF False] by (intro trim_id) (simp_all add: toLowerCase_def hd_map last_map)
  then show ?thesis by simp
qed

end
