(* ===== verification/RpcClient.thy ===== *)
theory RpcClient
  imports HttpText Upstreams
begin

text \<open>
  The JSON-RPC client of the wallet daemons (\<open>wallets/rpc-client.ts\<close>): numbering the requests, basic
  authentication, answering a digest challenge, and the errors of HTTP and of the daemon.  The network is a
  parameter with a state of its own: it takes a body and an authorization and gives a response or fails.
  MD5 is a parameter; the random bytes of a client nonce are an argument.  Digest calls wait for each other
  (\<open>digestTail\<close>), so calls are a sequence.  Headers are ASCII; a number in a daemon's error is the text it was
  written with.
\<close>

section \<open>The digest challenge\<close>

text \<open>The expression \<open>^Digest\s+\<close>, and the part of the header before a second challenge.\<close>

definition strip_scheme :: "string \<Rightarrow> string option" where
  "strip_scheme h =
     (case drop 6 h of
        [] \<Rightarrow> None
      | c # cs \<Rightarrow> if toLowerCase (take 6 h) = ''digest'' \<and> is_space c then Some (dropWhile is_space cs) else None)"

fun first_challenge :: "string \<Rightarrow> string" where
  "first_challenge [] = []"
| "first_challenge (c # cs) =
     (if c = CHR '','' \<and> strip_scheme (dropWhile is_space cs) \<noteq> None then [] else c # first_challenge cs)"

definition name_char :: "char \<Rightarrow> bool" where
  "name_char c \<longleftrightarrow> is_letter c \<or> is_digit c \<or> c = CHR ''_'' \<or> c = CHR ''-''"

text \<open>One attempt of the matcher at the head of the text: the groups and what follows the match.\<close>

definition match_value :: "string \<Rightarrow> string \<Rightarrow> ((string \<times> string) \<times> string) option" where
  "match_value name v =
     (case v of
        [] \<Rightarrow> None
      | c # q \<Rightarrow>
          if c = CHR 0x22 \<and> CHR 0x22 \<in> set q
          then Some ((name, takeWhile (\<lambda>x. x \<noteq> CHR 0x22) q), tl (dropWhile (\<lambda>x. x \<noteq> CHR 0x22) q))
          else (let token = takeWhile (\<lambda>x. x \<noteq> CHR '','' \<and> \<not> is_space x) v
                in if token = [] then None else Some ((name, token), drop (length token) v)))"

definition match_at :: "string \<Rightarrow> ((string \<times> string) \<times> string) option" where
  "match_at s =
     (case s of
        [] \<Rightarrow> None
      | c # cs \<Rightarrow>
          if \<not> is_letter c then None
          else (case dropWhile name_char cs of
                  e # v \<Rightarrow> if e = CHR ''='' then match_value (c # takeWhile name_char cs) v else None
                | [] \<Rightarrow> None))"

text \<open>\<open>matchAll\<close>: every match from left to right, with fuel for the steps.\<close>

fun match_run :: "nat \<Rightarrow> string \<Rightarrow> (string \<times> string) list option" where
  "match_run 0 s = None"
| "match_run (Suc n) [] = Some []"
| "match_run (Suc n) (c # cs) =
     (case match_at (c # cs) of
        None \<Rightarrow> match_run n cs
      | Some (a, r) \<Rightarrow> map_option (\<lambda>as. a # as) (match_run n r))"

definition parseDigestChallenge :: "string \<Rightarrow> (string \<rightharpoonup> string) option" where
  "parseDigestChallenge header =
     (case strip_scheme header of
        None \<Rightarrow> None
      | Some _ \<Rightarrow>
          (let attributes = (case strip_scheme (first_challenge header) of None \<Rightarrow> first_challenge header | Some r \<Rightarrow> r)
           in case match_run (Suc (length attributes)) attributes of
                None \<Rightarrow> None
              | Some matches \<Rightarrow>
                  (let result = map_of (rev (map (\<lambda>(k, v). (toLowerCase k, v)) matches))
                   in if truthy (result ''realm'') \<and> truthy (result ''nonce'') then Some result else None)))"

section \<open>The answer\<close>

definition quoteDigest :: "string \<Rightarrow> string" where
  "quoteDigest v = [CHR 0x22] @ concat (map (\<lambda>c. if c = CHR 0x22 \<or> c = CHR 0x5C then [CHR 0x5C, c] else [c]) v) @ [CHR 0x22]"

datatype rpc_failure =
    RpcFailure string "json option" "json option"
  | OtherFailure string

datatype authentication_mode = BASIC | DIGEST

record rpc_client =
  rc_uri :: string
  rc_username :: "string option"
  rc_password :: "string option"
  rc_mode :: authentication_mode
  rc_nextId :: int

definition colons :: "string list \<Rightarrow> string" where
  "colons parts = join '':'' parts"

definition digestAuthorization ::
  "(string \<Rightarrow> string) \<Rightarrow> string \<Rightarrow> rpc_client \<Rightarrow> (string \<rightharpoonup> string) \<Rightarrow> rpc_failure + string" where
  "digestAuthorization md5 random cl challenge =
     (if \<not> truthy (rc_username cl) \<or> rc_password cl = None then Inl (OtherFailure ''Digest credentials are unavailable'')
      else
        (let username = the (rc_username cl); password = the (rc_password cl); uri = rc_uri cl;
             realm = the (challenge ''realm''); nonce = the (challenge ''nonce'');
             algorithm = toUpperCase (case challenge ''algorithm'' of None \<Rightarrow> ''MD5'' | Some a \<Rightarrow> a)
         in if algorithm \<noteq> ''MD5'' \<and> algorithm \<noteq> ''MD5-SESS''
            then Inl (RpcFailure (''Unsupported RPC digest algorithm '' @ algorithm) None None)
            else
              (let qop = (case challenge ''qop'' of None \<Rightarrow> None
                          | Some q \<Rightarrow> List.find (\<lambda>v. v = ''auth'') (map (\<lambda>v. toLowerCase (trim v)) (split_on (CHR '','') q)))
               in if truthy (challenge ''qop'') \<and> qop = None
                  then Inl (RpcFailure ''RPC digest challenge does not support auth qop'' None None)
                  else
                    (let cnonce = to_hex random;
                         nc = ''00000001'';
                         initialHa1 = md5 (colons [username, realm, password]);
                         ha1 = (if algorithm = ''MD5-SESS'' then md5 (colons [initialHa1, nonce, cnonce]) else initialHa1);
                         ha2 = md5 (''POST:'' @ uri);
                         response = (case qop of Some q \<Rightarrow> md5 (colons [ha1, nonce, nc, cnonce, q, ha2])
                                     | None \<Rightarrow> md5 (colons [ha1, nonce, ha2]))
                     in Inr (join '',''
                          ([''Digest username='' @ quoteDigest username,
                            ''realm='' @ quoteDigest realm,
                            ''nonce='' @ quoteDigest nonce,
                            ''uri='' @ quoteDigest uri] @
                           (if qop \<noteq> None then [''cnonce='' @ quoteDigest cnonce, ''nc='' @ nc] else []) @
                           [''algorithm='' @ algorithm,
                            ''response='' @ quoteDigest response] @
                           (if truthy (challenge ''opaque'') then [''opaque='' @ quoteDigest (the (challenge ''opaque''))] else []) @
                           (case qop of Some q \<Rightarrow> [''qop='' @ quoteDigest q] | None \<Rightarrow> [])))))))"

section \<open>Calls\<close>

record rpc_response =
  rs_status :: int
  rs_statusText :: string
  rs_headers :: "(string \<times> string) list"
  rs_body :: string

text \<open>\<open>Headers.get\<close>: the values of a name, whatever its case, joined.\<close>

definition headers_get :: "string \<Rightarrow> rpc_response \<Rightarrow> string option" where
  "headers_get name r =
     (case filter (\<lambda>(k, _). toLowerCase k = name) (rs_headers r) of
        [] \<Rightarrow> None
      | hs \<Rightarrow> Some (join '', '' (map (\<lambda>(_, v). trim v) hs)))"

fun js_string :: "json \<Rightarrow> string" where
  "js_string JNull = ''null''"
| "js_string (JBool b) = (if b then ''true'' else ''false'')"
| "js_string (JNum t) = t"
| "js_string (JStr t) = t"
| "js_string (JBig n) = show_int n"
| "js_string (JDate t) = toISOString t"
| "js_string (JArr vs) = join '','' (map (\<lambda>v. if v = JNull then [] else js_string v) vs)"
| "js_string (JObj kvs) = ''[object Object]''"

definition rpc_error_text :: "string \<Rightarrow> json option \<Rightarrow> string" where
  "rpc_error_text name message =
     (case message of None \<Rightarrow> ''RPC '' @ name @ '' failed'' | Some JNull \<Rightarrow> ''RPC '' @ name @ '' failed'' | Some m \<Rightarrow> js_string m)"

definition read_response :: "string \<Rightarrow> rpc_response \<Rightarrow> rpc_failure + json option" where
  "read_response name r =
     (if \<not> (200 \<le> rs_status r \<and> rs_status r \<le> 299)
      then Inl (RpcFailure (''RPC HTTP '' @ show_int (rs_status r) @ '' '' @ rs_statusText r) None None)
      else
        (case json_parse (rs_body r) of
           None \<Rightarrow> Inl (OtherFailure ''SyntaxError'')
         | Some JNull \<Rightarrow> Inl (OtherFailure ''TypeError'')
         | Some payload \<Rightarrow>
             (if js_truthy (member ''error'' payload)
              then (let e = the (member ''error'' payload)
                    in Inl (RpcFailure (rpc_error_text name (member ''message'' e)) (member ''code'' e) (member ''data'' e)))
              else Inr (member ''result'' payload))))"

definition basic_authorization :: "rpc_client \<Rightarrow> string option" where
  "basic_authorization cl =
     (if rc_mode cl = BASIC \<and> truthy (rc_username cl) \<and> rc_password cl \<noteq> None
      then Some (''Basic '' @ base64 (the (rc_username cl) @ '':'' @ the (rc_password cl))) else None)"

definition request_body :: "rpc_client \<Rightarrow> string \<Rightarrow> json \<Rightarrow> string option" where
  "request_body cl name params =
     stringify (JObj [(''jsonrpc'', JStr ''2.0''), (''id'', JNum (show_int (rc_nextId cl))), (''method'', JStr name), (''params'', params)])"

definition answer_challenge ::
  "(string \<Rightarrow> string) \<Rightarrow> ('n \<Rightarrow> string \<Rightarrow> string option \<Rightarrow> 'n \<times> (rpc_failure + rpc_response)) \<Rightarrow> string \<Rightarrow> rpc_client \<Rightarrow>
   string \<Rightarrow> rpc_response \<Rightarrow> 'n \<Rightarrow> 'n \<times> (rpc_failure + rpc_response)" where
  "answer_challenge md5 post_to random cl body response net =
     (if rs_status response = 401 \<and> rc_mode cl = DIGEST \<and> truthy (rc_username cl) \<and> rc_password cl \<noteq> None
      then
        (case parseDigestChallenge (case headers_get ''www-authenticate'' response of None \<Rightarrow> [] | Some h \<Rightarrow> h) of
           None \<Rightarrow> (net, Inr response)
         | Some challenge \<Rightarrow>
             (case digestAuthorization md5 random cl challenge of
                Inl e \<Rightarrow> (net, Inl e)
              | Inr a \<Rightarrow> post_to net body (Some a)))
      else (net, Inr response))"

definition callOnce ::
  "(string \<Rightarrow> string) \<Rightarrow> ('n \<Rightarrow> string \<Rightarrow> string option \<Rightarrow> 'n \<times> (rpc_failure + rpc_response)) \<Rightarrow> string \<Rightarrow> string \<Rightarrow> json \<Rightarrow>
   rpc_client \<times> 'n \<Rightarrow> (rpc_client \<times> 'n) \<times> (rpc_failure + json option)" where
  "callOnce md5 post_to random name params st =
     (let cl = fst st; cl1 = cl\<lparr>rc_nextId := rc_nextId cl + 1\<rparr> in
      case request_body cl name params of
        None \<Rightarrow> ((cl1, snd st), Inl (OtherFailure ''TypeError''))
      | Some body \<Rightarrow>
          (case post_to (snd st) body (basic_authorization cl) of
             (n1, Inl e) \<Rightarrow> ((cl1, n1), Inl e)
           | (n1, Inr response) \<Rightarrow>
               (case answer_challenge md5 post_to random cl body response n1 of
                  (n2, Inl e) \<Rightarrow> ((cl1, n2), Inl e)
                | (n2, Inr final) \<Rightarrow> ((cl1, n2), read_response name final))))"

section \<open>The matcher makes progress\<close>

lemma match_at_shorter: "match_at s = Some (a, r) \<Longrightarrow> length r < length s"
proof -
  assume m: "match_at s = Some (a, r)"
  then obtain c cs v where s: "s = c # cs" "dropWhile name_char cs = CHR ''='' # v" and v: "match_value (c # takeWhile name_char cs) v = Some (a, r)"
    by (auto simp: match_at_def split: list.splits if_splits)
  have "length r \<le> length v"
    using v by (auto simp: match_value_def Let_def split: list.splits if_splits)
      (metis Suc_leI diff_le_self le_SucI length_dropWhile_le less_or_eq_imp_le order_trans)+
  moreover have "length v < length cs" using s(2) by (metis Suc_le_eq length_Cons length_dropWhile_le)
  ultimately show ?thesis using s(1) by simp
qed

lemma match_run_enough: "length s < n \<Longrightarrow> \<exists>as. \<forall>m > length s. match_run m s = Some as"
proof (induction n arbitrary: s)
  case (Suc n)
  show ?case
  proof (cases s)
    case Nil
    then show ?thesis by (intro exI [of _ "[]"]) (metis gr0_conv_Suc list.size(3) match_run.simps(2))
  next
    case (Cons c cs)
    show ?thesis
    proof (cases "match_at (c # cs)")
      case None
      obtain as where "\<forall>m > length cs. match_run m cs = Some as" using Suc.IH [of cs] Suc.prems Cons by auto
      with None Cons show ?thesis by (intro exI [of _ as]) (auto dest!: less_imp_Suc_add)
    next
      case (Some p)
      obtain a r where p: "p = (a, r)" by (cases p)
      have "length r < length s" using match_at_shorter Some p Cons by metis
      then obtain as where "\<forall>m > length r. match_run m r = Some as" using Suc.IH [of r] Suc.prems by auto
      with Some p Cons \<open>length r < length s\<close> show ?thesis by (intro exI [of _ "a # as"]) (auto dest!: less_imp_Suc_add)
    qed
  qed
qed simp

definition match_all :: "string \<Rightarrow> (string \<times> string) list" where
  "match_all s = the (match_run (Suc (length s)) s)"

lemma match_run_all: "length s < n \<Longrightarrow> match_run n s = Some (match_all s)"
  unfolding match_all_def using match_run_enough [of s n] by (metis lessI option.sel)

lemma match_all_skip: "match_at (c # cs) = None \<Longrightarrow> match_all (c # cs) = match_all cs"
  unfolding match_all_def by simp

lemma match_all_match: "match_at s = Some (a, r) \<Longrightarrow> match_all s = a # match_all r"
proof -
  assume m: "match_at s = Some (a, r)"
  then obtain c cs where s: "s = c # cs" by (cases s) (auto simp: match_at_def)
  have "match_run (length s) r = Some (match_all r)" using match_at_shorter [OF m] by (rule match_run_all)
  then show ?thesis using m by (simp add: match_all_def s)
qed

lemma match_all_Nil [simp]: "match_all [] = []"
  by (simp add: match_all_def)

section \<open>Attributes as they are written\<close>

text \<open>An attribute of a header: its name, whether its value is quoted, and the value.\<close>

type_synonym attribute = "string \<times> bool \<times> string"

definition name_ok :: "string \<Rightarrow> bool" where
  "name_ok n \<longleftrightarrow> n \<noteq> [] \<and> is_letter (hd n) \<and> list_all name_char n"

definition attribute_text :: "attribute \<Rightarrow> string" where
  "attribute_text = (\<lambda>(n, quoted, v). n @ ''='' @ (if quoted then [CHR 0x22] @ v @ [CHR 0x22] else v))"

definition plain :: "string \<Rightarrow> bool" where
  "plain v \<longleftrightarrow> v \<noteq> [] \<and> list_all (\<lambda>c. c \<noteq> CHR 0x22 \<and> c \<noteq> CHR 0x5C \<and> c \<noteq> CHR '','') v"

definition attribute_ok :: "attribute \<Rightarrow> bool" where
  "attribute_ok = (\<lambda>(n, quoted, v). name_ok n \<and> lower_char (hd n) \<noteq> CHR ''d'' \<and> plain v \<and> (quoted \<or> list_all (\<lambda>c. \<not> is_space c) v))"

lemma name_char_not: "name_char c \<Longrightarrow> c \<noteq> CHR ''='' \<and> c \<noteq> CHR '',''"
  by (auto simp: name_char_def is_digit_def dest: letter_facts)

lemma match_at_attribute:
  assumes "attribute_ok (n, quoted, v)" and "rest = [] \<or> hd rest = CHR '',''"
  shows "match_at (attribute_text (n, quoted, v) @ rest) = Some ((n, v), rest)"
proof -
  from assms(1) obtain c cs where n: "n = c # cs" "is_letter c" "list_all name_char cs"
    by (cases n) (auto simp: attribute_ok_def name_ok_def)
  have v: "v \<noteq> []" "CHR 0x22 \<notin> set v" "CHR '','' \<notin> set v" "quoted \<or> list_all (\<lambda>c. \<not> is_space c) v"
    using assms(1) by (auto simp: attribute_ok_def plain_def list_all_iff)
  have walk: "takeWhile name_char (cs @ CHR ''='' # w) = cs" "dropWhile name_char (cs @ CHR ''='' # w) = CHR ''='' # w" for w
    using n(3) name_char_not by (induction cs) auto
  have quote: "takeWhile (\<lambda>x. x \<noteq> CHR 0x22) (v @ CHR 0x22 # w) = v" "dropWhile (\<lambda>x. x \<noteq> CHR 0x22) (v @ CHR 0x22 # w) = CHR 0x22 # w" for w
    using v(2) by (induction v) auto
  have token: "takeWhile (\<lambda>x. x \<noteq> CHR '','' \<and> \<not> is_space x) (v @ rest) = v" if "list_all (\<lambda>c. \<not> is_space c) v"
    using that v(3) assms(2) by (induction v) (cases rest, auto)
  show ?thesis
  proof (cases quoted)
    case True
    then show ?thesis by (simp add: attribute_text_def match_at_def n(1,2) walk match_value_def quote)
  next
    case False
    with v(4) token have "takeWhile (\<lambda>x. x \<noteq> CHR '','' \<and> \<not> is_space x) (v @ rest) = v" by simp
    moreover obtain d ds where "v = d # ds" "d \<noteq> CHR 0x22" using v(1,2) by (cases v) auto
    ultimately show ?thesis using False by (simp add: attribute_text_def match_at_def n(1,2) walk match_value_def Let_def)
  qed
qed

lemma match_all_attributes:
  "list_all attribute_ok as \<Longrightarrow> match_all (join '', '' (map attribute_text as)) = map (\<lambda>(n, _, v). (n, v)) as"
proof (induction "'', ''" "map attribute_text as" arbitrary: as rule: join.induct)
  case (2 x)
  then obtain n q v where "as = [(n, q, v)]" by (cases as) auto
  with 2 show ?case using match_all_match [OF match_at_attribute [of n q v "[]"]] by simp
next
  case (3 x y xs)
  then obtain n q v as' where as: "as = (n, q, v) # as'" "map attribute_text as' = y # xs" by (cases as) auto
  have skip: "match_all (CHR '','' # CHR '' '' # t) = match_all t" for t
    by (simp add: match_all_skip match_at_def is_letter_def lower_char_def Let_def)
  have "match_all (join '', '' (map attribute_text as)) = (n, v) # match_all ('', '' @ join '', '' (map attribute_text as'))"
    using 3(3) match_all_match [OF match_at_attribute [of n q v "'', '' @ join '', '' (y # xs)"]] by (simp add: as)
  with 3(1) [OF as(2) [symmetric]] 3(3) show ?case by (simp add: as(1) skip)
qed simp

lemma first_challenge_append: "CHR '','' \<notin> set x \<Longrightarrow> first_challenge (x @ y) = x @ first_challenge y"
  by (induction x) auto

lemma attribute_text_facts:
  assumes "attribute_ok a"
  shows "CHR '','' \<notin> set (attribute_text a)" and "\<exists>c cs. attribute_text a = c # cs \<and> \<not> is_space c \<and> lower_char c \<noteq> CHR ''d''"
proof -
  obtain n q v where a: "a = (n, q, v)" by (cases a)
  have "\<not> name_char (CHR '','')" using name_char_not by blast
  moreover from assms have "\<forall>c \<in> set n. name_char c" "\<forall>c \<in> set v. c \<noteq> CHR '',''"
    by (simp_all add: a attribute_ok_def name_ok_def plain_def list_all_iff)
  ultimately have "CHR '','' \<notin> set n" "CHR '','' \<notin> set v" by blast+
  then show "CHR '','' \<notin> set (attribute_text a)" by (simp add: a attribute_text_def)
  show "\<exists>c cs. attribute_text a = c # cs \<and> \<not> is_space c \<and> lower_char c \<noteq> CHR ''d''" using assms
    by (cases n) (auto simp: a attribute_ok_def attribute_text_def name_ok_def dest: letter_facts)
qed

lemma first_challenge_attributes:
  "list_all attribute_ok as \<Longrightarrow> first_challenge (join '', '' (map attribute_text as)) = join '', '' (map attribute_text as)"
proof (induction "'', ''" "map attribute_text as" arbitrary: as rule: join.induct)
  case (2 x)
  then obtain a where "as = [a]" by (cases as) auto
  with 2 first_challenge_append [of "attribute_text a" "[]"] show ?case by (simp add: attribute_text_facts)
next
  case (3 x y xs)
  then obtain a b as' where as: "as = a # b # as'" "map attribute_text (b # as') = y # xs" by (cases as; cases "tl as") auto
  from 3(3) as attribute_text_facts(2) [of b] obtain c cs where b: "attribute_text b = c # cs" "\<not> is_space c" "lower_char c \<noteq> CHR ''d''" by auto
  have "strip_scheme (c # t) = None" for t using b(3) by (auto simp: strip_scheme_def toLowerCase_def split: list.splits)
  then have sep: "first_challenge ('', '' @ c # t) = '', '' @ first_challenge (c # t)" for t
    using b(2) by (simp add: is_space_def)
  obtain t where t: "join '', '' (map attribute_text (b # as')) = c # t" using b(1) by (cases as') auto
  have "first_challenge (join '', '' (map attribute_text as)) = attribute_text a @ first_challenge ('', '' @ join '', '' (map attribute_text (b # as')))"
    using 3(3) first_challenge_append [OF attribute_text_facts(1), of a] by (simp add: as(1))
  also have "\<dots> = attribute_text a @ '', '' @ join '', '' (map attribute_text (b # as'))"
    using 3(1) [OF as(2) [symmetric]] 3(3) unfolding t sep by (simp add: as(1))
  finally show ?case by (simp add: as(1))
qed simp

lemma parse_attributes:
  assumes "list_all attribute_ok as"
  shows "parseDigestChallenge (''Digest '' @ join '', '' (map attribute_text as)) =
    (let m = map_of (rev (map (\<lambda>(n, _, v). (toLowerCase n, v)) as))
     in if truthy (m ''realm'') \<and> truthy (m ''nonce'') then Some m else None)"
proof -
  let ?j = "join '', '' (map attribute_text as)"
  have low: "toLowerCase ''Digest'' = ''digest''" by code_simp
  have nospace: "dropWhile is_space ?j = ?j"
  proof (cases as)
    case (Cons a as')
    then obtain c cs where "attribute_text a = c # cs" "\<not> is_space c" using assms attribute_text_facts(2) [of a] by auto
    then show ?thesis by (cases as') (auto simp: Cons)
  qed simp
  have strip: "strip_scheme (''Digest '' @ ?j) = Some ?j"
    using low nospace by (simp add: strip_scheme_def is_space_def)
  have first: "first_challenge (''Digest '' @ ?j) = ''Digest '' @ ?j"
    using first_challenge_append [of "''Digest ''"] first_challenge_attributes [OF assms] by simp
  have "map (\<lambda>(k, v). (toLowerCase k, v)) (map (\<lambda>(n, _, v). (n, v)) as) = map (\<lambda>(n, _, v). (toLowerCase n, v)) as" by auto
  then show ?thesis unfolding parseDigestChallenge_def first strip
    using match_run_all [of ?j "Suc (length ?j)"] by (simp add: match_all_attributes [OF assms] Let_def del: map_map)
qed

section \<open>A daemon after RFC 2617\<close>

text \<open>The specification the client is measured with: a daemon that challenges, reads the parameters of the answer with
  their escapes, and computes the response of RFC 2617, section 3.2.2, itself.  Its state is the list of the bodies it has executed.\<close>

fun read_quoted :: "string \<Rightarrow> (string \<times> string) option" where
  "read_quoted [] = None"
| "read_quoted (c # cs) =
     (if c = CHR 0x22 then Some ([], cs)
      else if c = CHR 0x5C then
        (case cs of [] \<Rightarrow> None | d # ds \<Rightarrow> map_option (\<lambda>(v, r). (d # v, r)) (read_quoted ds))
      else map_option (\<lambda>(v, r). (c # v, r)) (read_quoted cs))"

fun read_params :: "nat \<Rightarrow> string \<Rightarrow> (string \<times> string) list" where
  "read_params 0 s = []"
| "read_params (Suc n) s =
     (if s = [] then []
      else
        (let name = takeWhile (\<lambda>c. c \<noteq> CHR ''='') s; r = drop (Suc (length name)) s in
         if r \<noteq> [] \<and> hd r = CHR 0x22 then
           (case read_quoted (tl r) of None \<Rightarrow> [] | Some (v, rest) \<Rightarrow> (name, v) # read_params n (drop 1 rest))
         else (let v = takeWhile (\<lambda>c. c \<noteq> CHR '','') r in (name, v) # read_params n (drop (Suc (length v)) r))))"

record digest_server =
  ds_username :: string
  ds_password :: string
  ds_realm :: string
  ds_nonce :: string
  ds_uri :: string
  ds_qop :: bool
  ds_opaque :: "string option"
  ds_algorithm :: "string option"
  ds_answer :: "string \<Rightarrow> string"

definition server_attributes :: "digest_server \<Rightarrow> attribute list" where
  "server_attributes sv =
     [(''realm'', True, ds_realm sv), (''nonce'', True, ds_nonce sv)] @
     (if ds_qop sv then [(''qop'', True, ''auth'')] else []) @
     (case ds_opaque sv of None \<Rightarrow> [] | Some p \<Rightarrow> [(''opaque'', True, p)]) @
     (case ds_algorithm sv of None \<Rightarrow> [] | Some a \<Rightarrow> [(''algorithm'', False, a)])"

definition session_keyed :: "digest_server \<Rightarrow> bool" where
  "session_keyed sv \<longleftrightarrow> ds_algorithm sv = Some ''MD5-sess''"

definition rfc_response :: "(string \<Rightarrow> string) \<Rightarrow> digest_server \<Rightarrow> (string \<rightharpoonup> string) \<Rightarrow> string" where
  "rfc_response md5 sv m =
     (let param = (\<lambda>k. case m k of None \<Rightarrow> [] | Some v \<Rightarrow> v);
          user = md5 (colons [ds_username sv, ds_realm sv, ds_password sv]);
          ha1 = (if session_keyed sv then md5 (colons [user, ds_nonce sv, param ''cnonce'']) else user);
          ha2 = md5 (''POST:'' @ ds_uri sv)
      in if ds_qop sv then md5 (colons [ha1, ds_nonce sv, param ''nc'', param ''cnonce'', param ''qop'', ha2])
         else md5 (colons [ha1, ds_nonce sv, ha2]))"

definition server_accepts :: "(string \<Rightarrow> string) \<Rightarrow> digest_server \<Rightarrow> string \<Rightarrow> bool" where
  "server_accepts md5 sv a \<longleftrightarrow> startsWith a ''Digest '' \<and>
     (let m = map_of (read_params (length a) (drop 7 a))
      in m ''username'' = Some (ds_username sv) \<and> m ''realm'' = Some (ds_realm sv) \<and> m ''nonce'' = Some (ds_nonce sv) \<and>
         m ''uri'' = Some (ds_uri sv) \<and> m ''opaque'' = ds_opaque sv \<and>
         m ''qop'' = (if ds_qop sv then Some ''auth'' else None) \<and> m ''response'' = Some (rfc_response md5 sv m))"

definition server_challenge :: "digest_server \<Rightarrow> string" where
  "server_challenge sv = ''Digest '' @ join '', '' (map attribute_text (server_attributes sv))"

definition unauthorized :: "digest_server \<Rightarrow> rpc_response" where
  "unauthorized sv = \<lparr>rs_status = 401, rs_statusText = ''Unauthorized'',
     rs_headers = [(''WWW-Authenticate'', server_challenge sv)], rs_body = []\<rparr>"

definition executed :: "digest_server \<Rightarrow> string \<Rightarrow> rpc_response" where
  "executed sv body = \<lparr>rs_status = 200, rs_statusText = ''OK'', rs_headers = [], rs_body = ds_answer sv body\<rparr>"

definition server_post ::
  "(string \<Rightarrow> string) \<Rightarrow> digest_server \<Rightarrow> string list \<Rightarrow> string \<Rightarrow> string option \<Rightarrow> string list \<times> (rpc_failure + rpc_response)" where
  "server_post md5 sv bodies body a =
     (if \<exists>x. a = Some x \<and> server_accepts md5 sv x then (bodies @ [body], Inr (executed sv body)) else (bodies, Inr (unauthorized sv)))"

definition server_ok :: "digest_server \<Rightarrow> bool" where
  "server_ok sv \<longleftrightarrow> plain (ds_realm sv) \<and> plain (ds_nonce sv) \<and> (\<forall>p. ds_opaque sv = Some p \<longrightarrow> plain p) \<and>
     (ds_algorithm sv \<in> {None, Some ''MD5''} \<or> session_keyed sv \<and> ds_qop sv)"

section \<open>The answer is read back\<close>

lemma read_quoted_quote: "read_quoted (tl (quoteDigest v) @ r) = Some (v, r)"
  by (induction v) (auto simp: quoteDigest_def)

definition field_text :: "attribute \<Rightarrow> string" where
  "field_text = (\<lambda>(n, quoted, v). n @ ''='' @ (if quoted then quoteDigest v else v))"

definition field_ok :: "attribute \<Rightarrow> bool" where
  "field_ok = (\<lambda>(n, quoted, v). list_all (\<lambda>c. c \<noteq> CHR ''='') n \<and>
     (quoted \<or> v \<noteq> [] \<and> hd v \<noteq> CHR 0x22 \<and> list_all (\<lambda>c. c \<noteq> CHR '','') v))"

lemma read_params_field:
  assumes "field_ok (n, quoted, v)" and "rest = [] \<or> hd rest = CHR '',''"
  shows "read_params (Suc k) (field_text (n, quoted, v) @ rest) = (n, v) # read_params k (drop 1 rest)"
proof -
  have n: "takeWhile (\<lambda>c. c \<noteq> CHR ''='') (n @ CHR ''='' # w) = n" for w
    using assms(1) by (induction n) (auto simp: field_ok_def)
  show ?thesis
  proof (cases quoted)
    case True
    obtain q where q: "quoteDigest v = CHR 0x22 # q" by (simp add: quoteDigest_def)
    with read_quoted_quote [of v rest] have "read_quoted (q @ rest) = Some (v, rest)" by simp
    with q True show ?thesis by (simp add: field_text_def n Let_def)
  next
    case False
    then have v: "v \<noteq> []" "hd v \<noteq> CHR 0x22" "list_all (\<lambda>c. c \<noteq> CHR '','') v" using assms(1) by (auto simp: field_ok_def)
    from v(3) have "takeWhile (\<lambda>c. c \<noteq> CHR '','') (v @ rest) = v" using assms(2) by (induction v) (cases rest, auto)
    with False v show ?thesis by (simp add: field_text_def n Let_def drop_Suc drop_tl)
  qed
qed

lemma read_params_fields:
  "list_all field_ok fs \<Longrightarrow> length fs \<le> k \<Longrightarrow> read_params k (join '','' (map field_text fs)) = map (\<lambda>(n, _, v). (n, v)) fs"
proof (induction "'',''" "map field_text fs" arbitrary: fs k rule: join.induct)
  case 1
  then show ?case by (cases k) auto
next
  case (2 x)
  then obtain n q v where fs: "fs = [(n, q, v)]" by (cases fs) auto
  with 2 obtain j where "k = Suc j" by (cases k) auto
  moreover have "read_params j [] = []" by (cases j) auto
  ultimately show ?case using 2 fs read_params_field [of n q v "[]" j] by simp
next
  case (3 x y xs)
  then obtain n q v fs' where fs: "fs = (n, q, v) # fs'" "map field_text fs' = y # xs" by (cases fs) auto
  with 3 obtain j where k: "k = Suc j" by (cases k) auto
  have "read_params k (join '','' (map field_text fs)) = (n, v) # read_params j (join '','' (map field_text fs'))"
    using 3(3) read_params_field [of n q v "CHR '','' # join '','' (y # xs)" j] by (simp add: fs k)
  with 3(1) [OF fs(2) [symmetric]] 3(3,4) show ?case by (simp add: fs(1) k)
qed

lemma join_lead: "join sep ((p @ x) # xs) = p @ join sep (x # xs)"
  by (cases xs) auto

section \<open>The exchange\<close>

definition client_fields :: "(string \<Rightarrow> string) \<Rightarrow> string \<Rightarrow> digest_server \<Rightarrow> attribute list" where
  "client_fields md5 random sv =
     [(''username'', True, ds_username sv), (''realm'', True, ds_realm sv), (''nonce'', True, ds_nonce sv), (''uri'', True, ds_uri sv)] @
     (if ds_qop sv then [(''cnonce'', True, to_hex random), (''nc'', False, ''00000001'')] else []) @
     [(''algorithm'', False, if session_keyed sv then ''MD5-SESS'' else ''MD5''),
      (''response'', True, rfc_response md5 sv [''cnonce'' \<mapsto> to_hex random, ''nc'' \<mapsto> ''00000001'', ''qop'' \<mapsto> ''auth''])] @
     (case ds_opaque sv of None \<Rightarrow> [] | Some p \<Rightarrow> [(''opaque'', True, p)]) @
     (if ds_qop sv then [(''qop'', True, ''auth'')] else [])"

lemma server_attributes_ok: "server_ok sv \<Longrightarrow> list_all attribute_ok (server_attributes sv)"
proof -
  assume ok: "server_ok sv"
  have names: "name_ok ''realm'' \<and> name_ok ''nonce'' \<and> name_ok ''qop'' \<and> name_ok ''opaque'' \<and> name_ok ''algorithm''" by code_simp
  have heads: "lower_char (CHR ''r'') = CHR ''r'' \<and> lower_char (CHR ''n'') = CHR ''n'' \<and> lower_char (CHR ''q'') = CHR ''q'' \<and>
      lower_char (CHR ''o'') = CHR ''o'' \<and> lower_char (CHR ''a'') = CHR ''a''" by code_simp
  have vals: "plain ''auth'' \<and> attribute_ok (''algorithm'', False, ''MD5'') \<and> attribute_ok (''algorithm'', False, ''MD5-sess'')" by code_simp
  show ?thesis using ok names heads vals
    by (auto simp: server_attributes_def server_ok_def session_keyed_def attribute_ok_def split: option.splits)
qed

definition challenge_of :: "digest_server \<Rightarrow> (string \<rightharpoonup> string)" where
  "challenge_of sv = map_of (rev (map (\<lambda>(n, _, v). (toLowerCase n, v)) (server_attributes sv)))"

lemma challenge_lookup:
  "challenge_of sv ''realm'' = Some (ds_realm sv)" "challenge_of sv ''nonce'' = Some (ds_nonce sv)"
  "challenge_of sv ''qop'' = (if ds_qop sv then Some ''auth'' else None)" "challenge_of sv ''opaque'' = ds_opaque sv"
  "challenge_of sv ''algorithm'' = ds_algorithm sv"
proof -
  have l: "toLowerCase ''realm'' = ''realm''" "toLowerCase ''nonce'' = ''nonce''" "toLowerCase ''qop'' = ''qop''"
    "toLowerCase ''opaque'' = ''opaque''" "toLowerCase ''algorithm'' = ''algorithm''" by code_simp+
  show "challenge_of sv ''realm'' = Some (ds_realm sv)" "challenge_of sv ''nonce'' = Some (ds_nonce sv)"
    "challenge_of sv ''qop'' = (if ds_qop sv then Some ''auth'' else None)" "challenge_of sv ''opaque'' = ds_opaque sv"
    "challenge_of sv ''algorithm'' = ds_algorithm sv"
    by (cases "ds_opaque sv"; cases "ds_algorithm sv"; simp add: challenge_of_def server_attributes_def l)+
qed

lemma parse_challenge: "server_ok sv \<Longrightarrow> parseDigestChallenge (server_challenge sv) = Some (challenge_of sv)"
  unfolding server_challenge_def parse_attributes [OF server_attributes_ok] challenge_of_def [symmetric]
  by (simp add: challenge_lookup server_ok_def plain_def truthy_def)

lemma digest_answer:
  assumes "server_ok sv" and "rc_username cl = Some (ds_username sv)" and "ds_username sv \<noteq> []"
    and "rc_password cl = Some (ds_password sv)" and "rc_uri cl = ds_uri sv"
  shows "digestAuthorization md5 random cl (challenge_of sv) = Inr (''Digest '' @ join '','' (map field_text (client_fields md5 random sv)))"
proof -
  have up: "toUpperCase ''MD5'' = ''MD5''" "toUpperCase ''MD5-sess'' = ''MD5-SESS''" "toLowerCase (trim ''auth'') = ''auth''" by code_simp+
  have alg: "toUpperCase (case ds_algorithm sv of None \<Rightarrow> ''MD5'' | Some a \<Rightarrow> a) = (if session_keyed sv then ''MD5-SESS'' else ''MD5'')"
    using assms(1) up by (auto simp: server_ok_def session_keyed_def)
  have op: "truthy (ds_opaque sv) \<longleftrightarrow> ds_opaque sv \<noteq> None" using assms(1) by (auto simp: server_ok_def truthy_def plain_def split: option.splits)
  show ?thesis
    by (cases "ds_opaque sv"; cases "ds_qop sv")
      (use op assms(2-5) up in \<open>simp_all add: digestAuthorization_def challenge_lookup alg truthy_def Let_def client_fields_def field_text_def rfc_response_def
        join_lead [of "'',''" "''Digest ''", simplified]\<close>)
qed

lemma join_length: "[] \<notin> set xs \<Longrightarrow> length xs \<le> length (join sep xs)"
proof (induction sep xs rule: join.induct)
  case (3 sep x y xs)
  then have "Suc 0 \<le> length x" "length (y # xs) \<le> length (join sep (y # xs))" by (auto simp: Suc_le_eq)
  then show ?case unfolding join.simps length_append list.size by linarith
qed (auto simp: Suc_le_eq)

lemma client_fields_ok: "list_all field_ok (client_fields md5 random sv)"
proof -
  have "field_ok (n, True, v) = list_all (\<lambda>c. c \<noteq> CHR ''='') n" for n v by (simp add: field_ok_def)
  moreover have "field_ok (''nc'', False, ''00000001'') \<and> field_ok (''algorithm'', False, ''MD5'') \<and> field_ok (''algorithm'', False, ''MD5-SESS'')" by code_simp
  ultimately show ?thesis by (simp add: client_fields_def split: option.splits)
qed

lemma client_fields_read:
  "read_params (length (''Digest '' @ join '','' (map field_text (client_fields md5 random sv)))) (join '','' (map field_text (client_fields md5 random sv))) =
     map (\<lambda>(n, _, v). (n, v)) (client_fields md5 random sv)"
proof (rule read_params_fields [OF client_fields_ok])
  have "[] \<notin> set (map field_text fs)" for fs by (auto simp: field_text_def)
  from join_length [OF this, of "client_fields md5 random sv" "'',''"]
  show "length (client_fields md5 random sv) \<le> length (''Digest '' @ join '','' (map field_text (client_fields md5 random sv)))" by simp
qed

lemma rfc_response_password:
  assumes "inj md5"
  shows "rfc_response md5 (sv\<lparr>ds_password := p\<rparr>) m = rfc_response md5 sv m \<longleftrightarrow> p = ds_password sv"
  using assms by (simp add: rfc_response_def Let_def session_keyed_def colons_def inj_eq)

lemma rfc_response_params:
  assumes "server_ok sv" and "ds_qop sv \<Longrightarrow> m ''cnonce'' = Some c \<and> m ''nc'' = Some n \<and> m ''qop'' = Some q"
  shows "rfc_response md5 sv m = rfc_response md5 sv [''cnonce'' \<mapsto> c, ''nc'' \<mapsto> n, ''qop'' \<mapsto> q]"
  using assms by (auto simp: rfc_response_def server_ok_def session_keyed_def Let_def)

lemma server_accepts_iff:
  fixes md5 random sv u p
  defines "w \<equiv> sv\<lparr>ds_username := u, ds_password := p\<rparr>"
  assumes "server_ok sv" and "inj md5"
  shows "server_accepts md5 sv (''Digest '' @ join '','' (map field_text (client_fields md5 random w))) \<longleftrightarrow> u = ds_username sv \<and> p = ds_password sv"
proof -
  define m where "m = map_of (map (\<lambda>(n, _, v). (n, v)) (client_fields md5 random w))"
  have f: "m ''username'' = Some u" "m ''realm'' = Some (ds_realm sv)" "m ''nonce'' = Some (ds_nonce sv)" "m ''uri'' = Some (ds_uri sv)"
    "m ''opaque'' = ds_opaque sv" "m ''qop'' = (if ds_qop sv then Some ''auth'' else None)"
    "m ''response'' = Some (rfc_response md5 w [''cnonce'' \<mapsto> to_hex random, ''nc'' \<mapsto> ''00000001'', ''qop'' \<mapsto> ''auth''])"
    by (simp_all add: m_def client_fields_def w_def split: option.splits)
  have "ds_qop sv \<Longrightarrow> m ''cnonce'' = Some (to_hex random) \<and> m ''nc'' = Some ''00000001'' \<and> m ''qop'' = Some ''auth''"
    by (simp add: m_def client_fields_def w_def split: option.splits)
  from rfc_response_params [OF assms(2) this] have r: "rfc_response md5 sv m = rfc_response md5 sv [''cnonce'' \<mapsto> to_hex random, ''nc'' \<mapsto> ''00000001'', ''qop'' \<mapsto> ''auth'']"
    by simp
  define h where "h = ''Digest '' @ join '','' (map field_text (client_fields md5 random w))"
  have "startsWith h ''Digest ''" unfolding h_def by (rule startsWith_append)
  moreover have "drop 7 h = join '','' (map field_text (client_fields md5 random w))" by (simp add: h_def)
  then have "map_of (read_params (length h) (drop 7 h)) = m" unfolding m_def h_def using client_fields_read [of md5 random w] by presburger
  ultimately show ?thesis unfolding h_def [symmetric] server_accepts_def
    by (auto simp: Let_def f r w_def rfc_response_password [OF assms(3)])
qed

lemma last_join: "xs \<noteq> [] \<Longrightarrow> last xs \<noteq> [] \<Longrightarrow> join sep xs \<noteq> [] \<and> last (join sep xs) = last (last xs)"
  by (induction sep xs rule: join.induct) auto

lemma trim_challenge: "server_ok sv \<Longrightarrow> trim (server_challenge sv) = server_challenge sv"
proof -
  assume "server_ok sv"
  then have ok: "list_all attribute_ok (server_attributes sv)" by (rule server_attributes_ok)
  have ne: "server_attributes sv \<noteq> []" by (simp add: server_attributes_def)
  then obtain n q v where l: "last (server_attributes sv) = (n, q, v)" by (cases "last (server_attributes sv)")
  with ok ne have "attribute_ok (n, q, v)" by (metis last_in_set list_all_iff)
  then have v: "v \<noteq> []" "q \<or> (\<forall>c \<in> set v. \<not> is_space c)" by (simp_all add: attribute_ok_def plain_def list_all_iff)
  have "\<not> is_space (CHR 0x22)" by code_simp
  with v have "\<not> is_space (last (attribute_text (n, q, v))) \<and> attribute_text (n, q, v) \<noteq> []" by (cases q) (simp_all add: attribute_text_def)
  then have "\<not> is_space (last (join '', '' (map attribute_text (server_attributes sv)))) \<and> join '', '' (map attribute_text (server_attributes sv)) \<noteq> []"
    using last_join [of "map attribute_text (server_attributes sv)" "'', ''"] ne l by (simp add: last_map)
  then show ?thesis unfolding server_challenge_def by (intro trim_id) (auto simp: is_space_def)
qed



definition daemon :: digest_server where
  "daemon = \<lparr>ds_username = ''rpc-user'', ds_password = ''rpc-pass'', ds_realm = ''monero-rpc'', ds_nonce = ''abc123'', ds_uri = ''/json_rpc'',
     ds_qop = True, ds_opaque = Some ''token'', ds_algorithm = Some ''MD5-sess'',
     ds_answer = (\<lambda>_. [CHR 0x7B, CHR 0x22] @ ''result'' @ [CHR 0x22] @ '':42'' @ [CHR 0x7D])\<rparr>"

definition daemon_client :: "string \<Rightarrow> rpc_client" where
  "daemon_client p = \<lparr>rc_uri = ''/json_rpc'', rc_username = Some ''rpc-user'', rc_password = Some p, rc_mode = DIGEST, rc_nextId = 1\<rparr>"


end
