(* ===== verification/Tunnel.thy ===== *)
theory Tunnel
  imports HttpText Upstreams
begin

text \<open>
  Dialling a pool (\<open>gateway/socket-connect.ts\<close>): directly, through a SOCKS5 proxy or through an HTTP proxy with the
  CONNECT method.  The events of a socket are explicit: connecting, chunks of bytes, errors and the end of the stream,
  with the milliseconds since the dialling began.  The package \<open>socks\<close>, the TLS handshake and the outcome of a direct
  connection are parameters, with \<open>None\<close> for neither success nor error.  What a socket has put back and what
  arrives later is what its next reader sees.
\<close>

section \<open>The CONNECT tunnel\<close>

definition header_end :: string where
  "header_end = crlf @ crlf"

definition connect_request :: "string \<Rightarrow> int \<Rightarrow> gateway_proxy \<Rightarrow> string" where
  "connect_request destinationHost destinationPort proxy =
     (let target = destinationHost @ '':'' @ show_int destinationPort;
          authHeader = (if truthy (gp_username proxy)
            then ''Proxy-Authorization: Basic '' @
              base64 (the (gp_username proxy) @ '':'' @ (case gp_password proxy of None \<Rightarrow> [] | Some p \<Rightarrow> p)) @ crlf
            else [])
      in ''CONNECT '' @ target @ '' HTTP/1.1'' @ crlf @ ''Host: '' @ target @ crlf @ authHeader @ ''Connection: keep-alive'' @ crlf @ crlf)"

record tunnel =
  tn_written :: string
  tn_buffer :: string
  tn_reading :: bool
  tn_armed :: bool
  tn_destroyed :: bool
  tn_outcome :: "unit result option"
  tn_unshifted :: string
  tn_later :: string

definition tunnel_start :: tunnel where
  "tunnel_start = \<lparr>tn_written = [], tn_buffer = [], tn_reading = True, tn_armed = True, tn_destroyed = False, tn_outcome = None,
     tn_unshifted = [], tn_later = []\<rparr>"

text \<open>A promise is settled once.\<close>

definition settle :: "unit result \<Rightarrow> tunnel \<Rightarrow> tunnel" where
  "settle r t = (if tn_outcome t = None then t\<lparr>tn_outcome := Some r\<rparr> else t)"

definition tunnel_fail :: "error \<Rightarrow> tunnel \<Rightarrow> tunnel" where
  "tunnel_fail e t = settle (Inl e) (t\<lparr>tn_armed := False, tn_destroyed := True\<rparr>)"

definition status_line :: "string \<Rightarrow> string" where
  "status_line buffer = (case find_text crlf buffer of None \<Rightarrow> butlast buffer | Some i \<Rightarrow> take i buffer)"

definition tunnel_answer :: "string \<Rightarrow> unit result" where
  "tunnel_answer buffer =
     (let statusLine = status_line buffer in
      case split_on (CHR '' '') statusLine of
        _ # code # _ \<Rightarrow> if number_integer code = Some 200 then Inr ()
          else Inl (Error (''Proxy CONNECT failed: '' @ (if statusLine = [] then ''no response'' else statusLine)))
      | _ \<Rightarrow> Inl (Error (''Proxy CONNECT failed: '' @ (if statusLine = [] then ''no response'' else statusLine))))"

definition on_data :: "string \<Rightarrow> tunnel \<Rightarrow> tunnel" where
  "on_data chunk t =
     (if tn_destroyed t then t
      else if \<not> tn_reading t then t\<lparr>tn_later := tn_later t @ chunk\<rparr>
      else
        (let t1 = t\<lparr>tn_buffer := tn_buffer t @ chunk\<rparr> in
         case find_text header_end (tn_buffer t1) of
           None \<Rightarrow> t1
         | Some headerEnd \<Rightarrow>
             (let t2 = t1\<lparr>tn_armed := False, tn_reading := False\<rparr> in
              case tunnel_answer (tn_buffer t1) of
                Inl e \<Rightarrow> settle (Inl e) (t2\<lparr>tn_destroyed := True\<rparr>)
              | Inr _ \<Rightarrow> settle (Inr ()) (t2\<lparr>tn_unshifted := drop (headerEnd + 4) (tn_buffer t1)\<rparr>))))"

definition on_timer :: "tunnel \<Rightarrow> tunnel" where
  "on_timer t =
     (if \<not> tn_armed t then t
      else if tn_destroyed t then t\<lparr>tn_armed := False\<rparr>
      else tunnel_fail (Error ''Proxy CONNECT tunnel timed out'') t)"

datatype socket_event = Connected | Data string | Failed string | Ended

text \<open>There is no handler for the end of the stream: the socket is destroyed without an error.\<close>

definition on_event :: "string \<Rightarrow> int \<Rightarrow> gateway_proxy \<Rightarrow> socket_event \<Rightarrow> tunnel \<Rightarrow> tunnel" where
  "on_event destinationHost destinationPort proxy ev t =
     (case ev of
        Connected \<Rightarrow> if tn_destroyed t then t else t\<lparr>tn_written := tn_written t @ connect_request destinationHost destinationPort proxy\<rparr>
      | Data chunk \<Rightarrow> on_data chunk t
      | Failed m \<Rightarrow> if tn_destroyed t then t else tunnel_fail (Error m) t
      | Ended \<Rightarrow> t\<lparr>tn_destroyed := True\<rparr>)"

definition dialHttpConnectTunnel ::
  "string \<Rightarrow> int \<Rightarrow> gateway_proxy \<Rightarrow> int \<Rightarrow> (instant \<times> socket_event) list \<Rightarrow> tunnel" where
  "dialHttpConnectTunnel destinationHost destinationPort proxy timeoutMs events =
     on_timer (fold (on_event destinationHost destinationPort proxy) (map snd (takeWhile (\<lambda>(t, _). t < timeoutMs) events)) tunnel_start)"

section \<open>Connections\<close>

definition withTimeout :: "string \<Rightarrow> 'a result option \<Rightarrow> 'a result" where
  "withTimeout message p = (case p of Some r \<Rightarrow> r | None \<Rightarrow> Inl (Error message))"

record connection =
  ct_servername :: "string option"
  ct_pending :: string

definition finalizeSocket :: "(string \<Rightarrow> unit result) \<Rightarrow> upstream \<Rightarrow> string \<Rightarrow> connection result" where
  "finalizeSocket handshake u pending =
     (if \<not> up_tls u then Inr \<lparr>ct_servername = None, ct_pending = pending\<rparr>
      else (case handshake (up_host u) of
              Inl e \<Rightarrow> Inl e
            | Inr _ \<Rightarrow> Inr \<lparr>ct_servername = Some (up_host u), ct_pending = pending\<rparr>))"

definition connectDirect :: "(string \<Rightarrow> int \<Rightarrow> string option \<Rightarrow> unit result option) \<Rightarrow> upstream \<Rightarrow> connection result" where
  "connectDirect direct u =
     (let servername = (if up_tls u then Some (up_host u) else None) in
      case withTimeout (''Connection to '' @ up_name u @ '' timed out'') (direct (up_host u) (up_port u) servername) of
        Inl e \<Rightarrow> Inl e
      | Inr _ \<Rightarrow> Inr \<lparr>ct_servername = servername, ct_pending = []\<rparr>)"

definition connectViaProxy ::
  "(string \<Rightarrow> int \<Rightarrow> gateway_proxy \<Rightarrow> unit result option) \<Rightarrow> (string \<Rightarrow> unit result) \<Rightarrow> (instant \<times> socket_event) list \<Rightarrow>
   upstream \<Rightarrow> gateway_proxy \<Rightarrow> connection result" where
  "connectViaProxy socks handshake events u proxy =
     (let message = ''Proxy tunnel to '' @ up_name u @ '' via '' @ gp_host proxy @ '':'' @ show_int (gp_port proxy) @ '' timed out'' in
      if gp_protocol proxy = SOCKS5
      then ebind (withTimeout message (socks (up_host u) (up_port u) proxy)) (\<lambda>_. finalizeSocket handshake u [])
      else (let t = dialHttpConnectTunnel (up_host u) (up_port u) proxy (up_connectionTimeoutMs u) events
            in ebind (withTimeout message (tn_outcome t)) (\<lambda>_. finalizeSocket handshake u (tn_unshifted t @ tn_later t))))"

definition connectUpstream ::
  "(string \<Rightarrow> int \<Rightarrow> string option \<Rightarrow> unit result option) \<Rightarrow> (string \<Rightarrow> int \<Rightarrow> gateway_proxy \<Rightarrow> unit result option) \<Rightarrow>
   (string \<Rightarrow> unit result) \<Rightarrow> (instant \<times> socket_event) list \<Rightarrow> upstream \<Rightarrow> gateway_proxy option \<Rightarrow> connection result" where
  "connectUpstream direct socks handshake events u proxy =
     (case proxy of None \<Rightarrow> connectDirect direct u | Some p \<Rightarrow> connectViaProxy socks handshake events u p)"

section \<open>Chunks do not matter\<close>

text \<open>What the proxy's bytes mean, read at once: nothing yet, a refusal, or a tunnel and the first bytes of the pool.\<close>

definition tunnel_meaning :: "string \<Rightarrow> (error + string) option" where
  "tunnel_meaning stream =
     (case find_text header_end stream of
        None \<Rightarrow> None
      | Some i \<Rightarrow> Some (case tunnel_answer stream of Inl e \<Rightarrow> Inl e | Inr _ \<Rightarrow> Inr (drop (i + 4) stream)))"

definition tunnel_result :: "tunnel \<Rightarrow> (error + string) option" where
  "tunnel_result t = map_option (\<lambda>r. case r of Inl e \<Rightarrow> Inl e | Inr _ \<Rightarrow> Inr (tn_unshifted t @ tn_later t)) (tn_outcome t)"

definition tunnel_ok :: "string \<Rightarrow> tunnel \<Rightarrow> bool" where
  "tunnel_ok stream t \<longleftrightarrow> tunnel_result t = tunnel_meaning stream \<and> (tn_reading t \<longleftrightarrow> tn_outcome t = None) \<and>
     (tn_armed t \<longleftrightarrow> tn_outcome t = None) \<and> (tn_destroyed t \<longleftrightarrow> (\<exists>e. tn_outcome t = Some (Inl e))) \<and> (tn_reading t \<longrightarrow> tn_buffer t = stream \<and> tn_later t = [])"

lemma header_end_crlf: "find_text header_end t = Some i \<Longrightarrow> \<exists>j. find_text crlf t = Some j"
proof (induction t arbitrary: i)
  case (Cons c cs)
  have "startsWith (c # cs) crlf" if "startsWith (c # cs) header_end" using that unfolding startsWith_iff header_end_def by auto
  with Cons show ?case by (auto split: if_splits)
qed (simp add: header_end_def crlf_def)

lemma tunnel_answer_append: "find_text header_end s = Some i \<Longrightarrow> tunnel_answer (s @ u) = tunnel_answer s"
proof -
  assume "find_text header_end s = Some i"
  then obtain j where j: "find_text crlf s = Some j" using header_end_crlf by blast
  then obtain x y where "s = x @ crlf @ y" "length x = j" using find_text_SomeD by blast
  then have "status_line (s @ u) = status_line s" using j find_text_append [OF j, of u] by (simp add: status_line_def)
  then show ?thesis by (simp add: tunnel_answer_def)
qed

lemma tunnel_meaning_append:
  assumes "tunnel_meaning s = Some r"
  shows "tunnel_meaning (s @ u) = Some (case r of Inl e \<Rightarrow> Inl e | Inr v \<Rightarrow> Inr (v @ u))"
proof -
  from assms obtain i where i: "find_text header_end s = Some i" by (auto simp: tunnel_meaning_def split: option.splits)
  then obtain x y where "s = x @ header_end @ y" "length x = i" using find_text_SomeD by blast
  then have "i + 4 \<le> length s" by (simp add: header_end_def crlf_def)
  then show ?thesis using assms i find_text_append [OF i, of u] tunnel_answer_append [OF i, of u]
    by (auto simp: tunnel_meaning_def split: sum.splits)
qed

lemma tunnel_ok_data: "tunnel_ok s t \<Longrightarrow> tunnel_ok (s @ chunk) (on_data chunk t)"
proof -
  assume ok: "tunnel_ok s t"
  show ?thesis
  proof (cases "tn_outcome t")
    case None
    then have t: "tn_reading t" "tn_armed t" "\<not> tn_destroyed t" "tn_buffer t = s" "tn_later t = []" using ok by (auto simp: tunnel_ok_def)
    show ?thesis using None t
      by (auto simp: on_data_def tunnel_ok_def tunnel_result_def tunnel_meaning_def settle_def Let_def split: option.splits sum.splits)
  next
    case (Some r)
    then obtain v where m: "tunnel_meaning s = Some v" "v = (case r of Inl e \<Rightarrow> Inl e | Inr _ \<Rightarrow> Inr (tn_unshifted t @ tn_later t))"
      using ok by (auto simp: tunnel_ok_def tunnel_result_def)
    from Some ok have "\<not> tn_reading t" by (simp add: tunnel_ok_def)
    then show ?thesis using Some ok m tunnel_meaning_append [OF m(1), of chunk]
      by (cases r) (auto simp: on_data_def tunnel_ok_def tunnel_result_def)
  qed
qed

lemma tunnel_ok_chunks: "tunnel_ok s t \<Longrightarrow> tunnel_ok (s @ concat chunks) (fold on_data chunks t)"
  by (induction chunks arbitrary: s t) (use tunnel_ok_data in \<open>force+\<close>)

lemma on_data_written: "tn_written (fold on_data chunks t) = tn_written t"
  by (induction chunks arbitrary: t) (auto simp: on_data_def settle_def Let_def split: option.splits sum.splits)


definition tunnel_upstream :: upstream where
  "tunnel_upstream = \<lparr>up_id = ''u1'', up_accountKey = ''k'', up_asset = XMR, up_protocol = MONERO_JSON_RPC, up_name = ''pool'', up_host = ''pool.example'',
     up_port = 443, up_tls = False, up_priority = 1, up_enabled = True, up_usernameTemplate = ''x'', up_passwordCiphertext = None,
     up_receiveAddress = None, up_connectionTimeoutMs = 10000, up_failbackCooldownSeconds = 60, up_lastHealthAt = None,
     up_lastHealthOk = None, up_lastHealthMessage = None\<rparr>"

definition tunnel_proxy :: gateway_proxy where
  "tunnel_proxy = \<lparr>gp_protocol = HTTP, gp_host = ''proxy'', gp_port = 3128, gp_username = None, gp_password = None\<rparr>"

definition tunnel_bytes :: "(instant \<times> string) list" where
  "tunnel_bytes = [(5, ''HTTP/1.1 200 OK'' @ crlf @ [CHR 0x0D]), (7, [CHR 0x0A] @ ''hel''), (8, ''lo'')]"


end
