(* ===== verification/Probe.thy ===== *)
theory Probe
  imports Tunnel LinePeer
begin

text \<open>
  The conversation of the health test with a pool (\<open>upstreams/upstreams.service.ts\<close>, \<open>protocolProbe\<close>), event by event: the
  requests written, the lines that come back, the waiting requests and their timeouts.  The test waits for each
  answer, so at most one request waits and the promise it waits for is a field of the state.  A message handled in the middle of
  a chunk resumes the test only after the whole chunk.  Chunks are cut between characters.  The theorem at the end relates
  this to \<open>protocolProbe\<close> of theory Upstreams, where the answers are a parameter.
\<close>

section \<open>The socket\<close>

record probe =
  pe_buffer :: string
  pe_nextId :: nat
  pe_waiters :: "nat list"
  pe_promise :: "json result option"
  pe_written :: string
  pe_destroyed :: bool

definition probe_start :: probe where
  "probe_start = \<lparr>pe_buffer = [], pe_nextId = 1, pe_waiters = [], pe_promise = None, pe_written = [], pe_destroyed = False\<rparr>"

definition rejectAll :: "string \<Rightarrow> probe \<Rightarrow> probe" where
  "rejectAll e p = (if pe_waiters p = [] then p else p\<lparr>pe_waiters := [], pe_promise := Some (Inl (Error e))\<rparr>)"

definition destroy_probe :: "probe \<Rightarrow> probe" where
  "destroy_probe p = p\<lparr>pe_destroyed := True\<rparr>"

text \<open>\<open>null\<close> has no members, so reading its \<open>id\<close> throws like the parser does.\<close>

definition probe_line :: "string \<Rightarrow> probe \<Rightarrow> probe" where
  "probe_line raw p =
     (let line = trim raw in
      if line = [] then p
      else (case json_parse line of
              None \<Rightarrow> destroy_probe (rejectAll ''Upstream returned invalid JSON'' p)
            | Some JNull \<Rightarrow> destroy_probe (rejectAll ''Upstream returned invalid JSON'' p)
            | Some message \<Rightarrow>
                (case member ''id'' message of
                   Some (JNum t) \<Rightarrow>
                     (case List.find (\<lambda>i. show_nat i = t) (pe_waiters p) of
                        None \<Rightarrow> p
                      | Some i \<Rightarrow> p\<lparr>pe_waiters := removeAll i (pe_waiters p), pe_promise := Some (Inr message)\<rparr>)
                 | _ \<Rightarrow> p)))"

lemma probe_line_keeps [simp]:
  "pe_buffer (probe_line raw p) = pe_buffer p" "pe_nextId (probe_line raw p) = pe_nextId p" "pe_written (probe_line raw p) = pe_written p"
  by (simp_all add: probe_line_def destroy_probe_def rejectAll_def Let_def split: option.splits json.splits)

function probe_lines :: "probe \<Rightarrow> probe" where
  "probe_lines p =
     (case index_of newline (pe_buffer p) of
        None \<Rightarrow> p
      | Some n \<Rightarrow> probe_lines (probe_line (take n (pe_buffer p)) (p\<lparr>pe_buffer := drop (Suc n) (pe_buffer p)\<rparr>)))"
  by pat_completeness auto

termination probe_lines
  by (relation "measure (length \<circ> pe_buffer)") (auto dest: index_of_SomeD)

declare probe_lines.simps [simp del]

definition probe_event :: "socket_event \<Rightarrow> probe \<Rightarrow> probe" where
  "probe_event ev p =
     (case ev of
        Connected \<Rightarrow> p
      | Data chunk \<Rightarrow> if pe_destroyed p then p else probe_lines (p\<lparr>pe_buffer := pe_buffer p @ chunk\<rparr>)
      | Failed m \<Rightarrow> if pe_destroyed p then p else destroy_probe (rejectAll m p)
      | Ended \<Rightarrow> destroy_probe (rejectAll ''Upstream closed the health-check connection'' p))"

section \<open>Requests\<close>

text \<open>What the test has: the time, the events still to come and the socket.\<close>

type_synonym probe_state = "instant \<times> (instant \<times> socket_event) list \<times> probe"

definition probe_timeout :: "string \<Rightarrow> probe \<Rightarrow> probe \<times> json result" where
  "probe_timeout name p =
     (destroy_probe (p\<lparr>pe_waiters := []\<rparr>), Inl (Error (''Upstream '' @ name @ '' response timed out'')))"

fun await_answer :: "string \<Rightarrow> instant \<Rightarrow> (instant \<times> socket_event) list \<Rightarrow> probe \<Rightarrow> probe_state \<times> json result" where
  "await_answer name deadline [] p = (let (p1, r) = probe_timeout name p in ((deadline, [], p1), r))"
| "await_answer name deadline ((t, ev) # es) p =
     (if deadline \<le> t then (let (p1, r) = probe_timeout name p in ((deadline, (t, ev) # es, p1), r))
      else (let p1 = probe_event ev p in
            case pe_promise p1 of
              Some r \<Rightarrow> ((t, es, p1), r)
            | None \<Rightarrow> await_answer name deadline es p1))"

definition probe_request :: "int \<Rightarrow> string \<Rightarrow> json \<Rightarrow> probe_state \<Rightarrow> probe_state \<times> json result" where
  "probe_request timeoutMs name params st =
     (let (now, es, p) = st; i = pe_nextId p;
          request = JObj [(''id'', JNum (show_nat i)), (''method'', JStr name), (''params'', params)]
      in await_answer name (now + timeoutMs) es
           (p\<lparr>pe_nextId := i + 1, pe_promise := None, pe_waiters := pe_waiters p @ [i],
              pe_written := pe_written p @ (if pe_destroyed p then [] else send_line request)\<rparr>))"

definition stratum_probe :: "upstream \<Rightarrow> string \<Rightarrow> string \<Rightarrow> probe_state \<Rightarrow> probe_state \<times> unit result" where
  "stratum_probe u username password st =
     (case probe_request (up_connectionTimeoutMs u) ''mining.subscribe'' (JArr [JStr ''mitm-health/1.0'']) st of
        (st1, Inl e) \<Rightarrow> (st1, Inl e)
      | (st1, Inr subscribed) \<Rightarrow>
          if js_truthy (member ''error'' subscribed) \<or> \<not> is_array (member ''result'' subscribed)
          then (st1, Inl (Error ''Bitcoin Stratum subscribe failed''))
          else (case probe_request (up_connectionTimeoutMs u) ''mining.authorize'' (JArr [JStr username, JStr password]) st1 of
                  (st2, Inl e) \<Rightarrow> (st2, Inl e)
                | (st2, Inr authorized) \<Rightarrow>
                    if js_truthy (member ''error'' authorized) \<or> member ''result'' authorized \<noteq> Some (JBool True)
                    then (st2, Inl (Error ''Bitcoin Stratum authentication failed''))
                    else (st2, Inr ())))"

definition monero_probe :: "upstream \<Rightarrow> string \<Rightarrow> string \<Rightarrow> probe_state \<Rightarrow> probe_state \<times> unit result" where
  "monero_probe u username password st =
     (case probe_request (up_connectionTimeoutMs u) ''login''
             (JObj [(''login'', JStr username), (''pass'', JStr password), (''agent'', JStr ''mitm-health/1.0'')]) st of
        (st1, Inl e) \<Rightarrow> (st1, Inl e)
      | (st1, Inr answer) \<Rightarrow>
          (let r = orElse (member ''result'' answer) JNull in
           if js_truthy (member ''error'' answer) \<or> \<not> js_truthy (member ''id'' r) \<or> member ''status'' r \<noteq> Some (JStr ''OK'')
           then (st1, Inl (Error ''Monero pool authentication failed''))
           else (st1, Inr ())))"

text \<open>The \<open>finally\<close> block.\<close>

definition probe_finally :: "probe_state \<Rightarrow> probe_state" where
  "probe_finally st = (let (t, es, p) = st in (t, es, rejectAll ''Health check completed'' (destroy_probe p)))"

definition socketProbe ::
  "crypto_service \<Rightarrow> (upstream \<Rightarrow> gateway_proxy option \<Rightarrow> unit result) \<Rightarrow> gateway_proxy option result \<Rightarrow> upstream \<Rightarrow>
   instant \<Rightarrow> (instant \<times> socket_event) list \<Rightarrow> (probe_state \<times> unit result)" where
  "socketProbe C dial proxy u now events =
     (let st = (now, events, probe_start) in
      case ebind proxy (dial u) of
        Inl e \<Rightarrow> (st, Inl e)
      | Inr _ \<Rightarrow>
          (let username = renderUsername u ''health'' ''probe'';
               (st1, r) = (case up_password C u of
                             Inl e \<Rightarrow> (st, Inl e)
                           | Inr password \<Rightarrow>
                               if up_protocol u = BITCOIN_STRATUM_V1 then stratum_probe u username password st
                               else monero_probe u username password st)
           in (probe_finally st1, r)))"

section \<open>One waiting request\<close>

text \<open>Between two events the test waits for request \<open>i\<close>, or has what it waited for.\<close>

definition waiting :: "nat \<Rightarrow> probe \<Rightarrow> bool" where
  "waiting i p \<longleftrightarrow>
     pe_waiters p = (if pe_promise p = None then [i] else []) \<and>
     (\<forall>v. pe_promise p = Some (Inr v) \<longrightarrow> member ''id'' v = Some (JNum (show_nat i)))"

lemma rejectAll_waiting: "waiting i p \<Longrightarrow> waiting i (rejectAll e p)" "pe_nextId (rejectAll e p) = pe_nextId p"
  "pe_destroyed (rejectAll e p) = pe_destroyed p"
  by (auto simp: waiting_def rejectAll_def)

lemma destroy_waiting [simp]: "waiting i (destroy_probe p) = waiting i p" "pe_nextId (destroy_probe p) = pe_nextId p"
  by (simp_all add: waiting_def destroy_probe_def)

lemma probe_line_waiting: "waiting i p \<Longrightarrow> waiting i (probe_line raw p)"
proof -
  assume w: "waiting i p"
  have "waiting i (p\<lparr>pe_waiters := removeAll j (pe_waiters p), pe_promise := Some (Inr m)\<rparr>)"
    if "member ''id'' m = Some (JNum t)" "List.find (\<lambda>k. show_nat k = t) (pe_waiters p) = Some j" for m t j
  proof -
    from that(2) have "j \<in> set (pe_waiters p)" "show_nat j = t" by (auto simp: find_Some_iff)
    moreover from this w have "pe_waiters p = [i]" by (auto simp: waiting_def split: if_splits)
    ultimately show ?thesis using that(1) by (simp add: waiting_def)
  qed
  then show ?thesis using w rejectAll_waiting(1) [OF w] by (auto simp: probe_line_def Let_def split: option.splits json.splits)
qed

lemma waiting_buffer [simp]: "waiting i (p\<lparr>pe_buffer := b\<rparr>) = waiting i p"
  by (simp add: waiting_def)

lemma probe_lines_waiting: "waiting i p \<Longrightarrow> waiting i (probe_lines p)"
proof (induction p rule: probe_lines.induct)
  case (1 p)
  then show ?case by (subst probe_lines.simps) (auto simp: probe_line_waiting split: option.splits)
qed

lemma probe_lines_nextId [simp]: "pe_nextId (probe_lines p) = pe_nextId p"
proof (induction p rule: probe_lines.induct)
  case (1 p)
  then show ?case by (subst probe_lines.simps) (auto split: option.splits)
qed

lemma probe_event_waiting: "waiting i p \<Longrightarrow> waiting i (probe_event ev p)" "pe_nextId (probe_event ev p) = pe_nextId p"
  by (auto simp: probe_event_def probe_lines_waiting rejectAll_waiting split: socket_event.splits)

text \<open>An awaited request is over at its deadline, nothing waits any more, and an answer carries its number.\<close>

definition settled :: "nat \<Rightarrow> instant \<Rightarrow> probe_state \<times> json result \<Rightarrow> bool" where
  "settled i deadline x \<longleftrightarrow>
     (case x of ((t, es, p), r) \<Rightarrow> t \<le> deadline \<and> pe_waiters p = [] \<and> pe_nextId p = Suc i \<and>
        (\<forall>v. r = Inr v \<longrightarrow> member ''id'' v = Some (JNum (show_nat i))))"

lemma await_settled:
  "waiting i p \<Longrightarrow> pe_promise p = None \<Longrightarrow> pe_nextId p = Suc i \<Longrightarrow> settled i deadline (await_answer name deadline es p)"
proof (induction es arbitrary: p)
  case Nil
  then show ?case by (simp add: settled_def probe_timeout_def destroy_probe_def)
next
  case (Cons e es)
  obtain t ev where e: "e = (t, ev)" by fastforce
  have w: "waiting i (probe_event ev p)" "pe_nextId (probe_event ev p) = Suc i"
    using Cons.prems by (simp_all add: probe_event_waiting)
  show ?case
  proof (cases "pe_promise (probe_event ev p)")
    case None
    with Cons.IH [OF w(1) None w(2)] show ?thesis by (simp add: e settled_def probe_timeout_def destroy_probe_def Cons.prems)
  next
    case (Some r)
    with w have "pe_waiters (probe_event ev p) = []" "\<forall>v. r = Inr v \<longrightarrow> member ''id'' v = Some (JNum (show_nat i))"
      by (simp_all add: waiting_def)
    with Some w(2) show ?thesis by (simp add: e settled_def probe_timeout_def destroy_probe_def Cons.prems)
  qed
qed

lemma request_settled:
  "pe_waiters p = [] \<Longrightarrow> settled (pe_nextId p) (now + timeoutMs) (probe_request timeoutMs name params (now, es, p))"
  unfolding probe_request_def Let_def by (simp only: prod.case, rule await_settled) (simp_all add: waiting_def)

section \<open>The test ends\<close>

definition numbered :: "(string \<Rightarrow> json \<Rightarrow> json result) \<Rightarrow> bool" where
  "numbered ask \<longleftrightarrow>
     (\<forall>name q v. ask name q = Inr v \<longrightarrow> member ''id'' v = Some (JNum (if name = ''mining.authorize'' then ''2'' else ''1'')))"

lemma numbers: "show_nat 1 = ''1''" "show_nat (Suc 0) = ''1''" "show_nat (Suc 1) = ''2''" "show_nat 2 = ''2''"
  by code_simp+

lemma stratum_probe_answers:
  assumes "pe_waiters p = []" and "pe_nextId p = 1" and "0 \<le> up_connectionTimeoutMs u"
    and run: "stratum_probe u username password (now, es, p) = ((t, es', p'), r)"
  shows "t \<le> now + 2 * up_connectionTimeoutMs u \<and> pe_waiters p' = [] \<and>
    (\<exists>ask. numbered ask \<and> r =
       ebind (ask ''mining.subscribe'' (JArr [JStr ''mitm-health/1.0''])) (\<lambda>subscribed.
       ebind (guard_or (\<not> js_truthy (member ''error'' subscribed) \<and> is_array (member ''result'' subscribed))
                (Error ''Bitcoin Stratum subscribe failed'')) (\<lambda>_.
       ebind (ask ''mining.authorize'' (JArr [JStr username, JStr password])) (\<lambda>authorized.
         guard_or (\<not> js_truthy (member ''error'' authorized) \<and> member ''result'' authorized = Some (JBool True))
           (Error ''Bitcoin Stratum authentication failed'')))))"
proof -
  let ?T = "up_connectionTimeoutMs u"
  obtain t1 es1 p1 a1 where s1: "probe_request ?T ''mining.subscribe'' (JArr [JStr ''mitm-health/1.0'']) (now, es, p) = ((t1, es1, p1), a1)"
    by (metis prod.collapse)
  have f1: "t1 \<le> now + ?T" "pe_waiters p1 = []" "pe_nextId p1 = 2" "a1 = Inr v \<Longrightarrow> member ''id'' v = Some (JNum ''1'')" for v
    using request_settled [OF assms(1), of now ?T "''mining.subscribe''" "JArr [JStr ''mitm-health/1.0'']" es] assms(2)
    by (simp_all add: s1 settled_def numbers)
  obtain t2 es2 p2 a2 where s2: "probe_request ?T ''mining.authorize'' (JArr [JStr username, JStr password]) (t1, es1, p1) = ((t2, es2, p2), a2)"
    by (metis prod.collapse)
  have f2: "t2 \<le> t1 + ?T" "pe_waiters p2 = []" "a2 = Inr v \<Longrightarrow> member ''id'' v = Some (JNum ''2'')" for v
    using request_settled [OF f1(2), of t1 ?T "''mining.authorize''" "JArr [JStr username, JStr password]" es1] f1(3)
    by (simp_all add: s2 settled_def numbers)
  have n: "numbered (\<lambda>name q. if name = ''mining.authorize'' then a2 else a1)"
    using f1(4) f2(3) by (simp add: numbered_def)
  have "t \<le> now + 2 * ?T" "pe_waiters p' = []"
    using run f1(1,2) f2(1,2) assms(3) by (auto simp: stratum_probe_def s1 s2 split: sum.splits if_splits)
  moreover have "r = ebind a1 (\<lambda>subscribed.
       ebind (guard_or (\<not> js_truthy (member ''error'' subscribed) \<and> is_array (member ''result'' subscribed))
                (Error ''Bitcoin Stratum subscribe failed'')) (\<lambda>_.
       ebind a2 (\<lambda>authorized.
         guard_or (\<not> js_truthy (member ''error'' authorized) \<and> member ''result'' authorized = Some (JBool True))
           (Error ''Bitcoin Stratum authentication failed''))))"
    using run by (auto simp: stratum_probe_def s1 s2 guard_or_def split: sum.splits if_splits)
  ultimately show ?thesis using n by (intro conjI exI [of _ "\<lambda>name q. if name = ''mining.authorize'' then a2 else a1"]) simp_all
qed

lemma monero_probe_answers:
  assumes "pe_waiters p = []" and "pe_nextId p = 1"
    and run: "monero_probe u username password (now, es, p) = ((t, es', p'), r)"
  shows "t \<le> now + up_connectionTimeoutMs u \<and> pe_waiters p' = [] \<and>
    (\<exists>ask. numbered ask \<and> r =
       ebind (ask ''login'' (JObj [(''login'', JStr username), (''pass'', JStr password), (''agent'', JStr ''mitm-health/1.0'')])) (\<lambda>answer.
         let r = orElse (member ''result'' answer) JNull in
         guard_or (\<not> js_truthy (member ''error'' answer) \<and> js_truthy (member ''id'' r) \<and> member ''status'' r = Some (JStr ''OK''))
           (Error ''Monero pool authentication failed'')))"
proof -
  let ?T = "up_connectionTimeoutMs u"
  let ?q = "JObj [(''login'', JStr username), (''pass'', JStr password), (''agent'', JStr ''mitm-health/1.0'')]"
  obtain t1 es1 p1 a1 where s1: "probe_request ?T ''login'' ?q (now, es, p) = ((t1, es1, p1), a1)" by (metis prod.collapse)
  have f1: "t1 \<le> now + ?T" "pe_waiters p1 = []" "a1 = Inr v \<Longrightarrow> member ''id'' v = Some (JNum ''1'')" for v
    using request_settled [OF assms(1), of now ?T "''login''" ?q es] assms(2) by (simp_all add: s1 settled_def numbers)
  have n: "numbered (\<lambda>name q. if name = ''mining.authorize'' then Inl (Error []) else a1)" using f1(3) by (simp add: numbered_def)
  have "t \<le> now + ?T" "pe_waiters p' = []"
    using run f1(1,2) by (auto simp: monero_probe_def s1 Let_def split: sum.splits if_splits)
  moreover have "r = ebind a1 (\<lambda>answer.
         let r = orElse (member ''result'' answer) JNull in
         guard_or (\<not> js_truthy (member ''error'' answer) \<and> js_truthy (member ''id'' r) \<and> member ''status'' r = Some (JStr ''OK''))
           (Error ''Monero pool authentication failed''))"
    using run by (auto simp: monero_probe_def s1 guard_or_def Let_def split: sum.splits if_splits)
  ultimately show ?thesis using n by (intro conjI exI [of _ "\<lambda>name q. if name = ''mining.authorize'' then Inl (Error []) else a1"]) simp_all
qed

text \<open>Whatever the network does, the health test is over after at most two timeouts, its socket is destroyed and nothing waits any more.
  Its result is that of \<open>protocolProbe\<close> for the answers the pool gave, which carry the numbers of their requests.\<close>

theorem probe_refines:
  assumes run: "socketProbe C dial proxy u now events = ((t, es, p), r)" and T: "0 \<le> up_connectionTimeoutMs u"
  shows "t \<le> now + 2 * up_connectionTimeoutMs u \<and> pe_waiters p = [] \<and> (ebind proxy (dial u) = Inr () \<longrightarrow> pe_destroyed p) \<and>
    (\<exists>ask. numbered ask \<and> r = protocolProbe C dial ask proxy u)"
proof (cases "ebind proxy (dial u)")
  case (Inl e)
  have res: "t = now" "p = probe_start" "r = Inl e" using run by (simp_all add: socketProbe_def Inl)
  have "protocolProbe C dial (\<lambda>_ _. Inl e) proxy u = Inl e"
  proof (cases proxy)
    case (Inr q)
    with Inl have "dial u q = Inl e" by simp
    with Inr show ?thesis by (simp add: protocolProbe_def)
  qed (use Inl in \<open>simp add: protocolProbe_def\<close>)
  moreover have "numbered (\<lambda>_ _. Inl e)" by (simp add: numbered_def)
  ultimately show ?thesis using T Inl res by (intro conjI exI [of _ "\<lambda>_ _. Inl e"]) (simp_all add: probe_start_def)
next
  case (Inr x)
  then obtain q where q: "proxy = Inr q" "dial u q = Inr ()" by (cases proxy) auto
  let ?n = "renderUsername u ''health'' ''probe''"
  have start: "pe_waiters probe_start = []" "pe_nextId probe_start = 1" by (simp_all add: probe_start_def)
  obtain t1 es1 p1 where st1: "probe_finally (t1, es1, p1) = (t, es, p)"
    and inner: "(case up_password C u of Inl e \<Rightarrow> ((now, events, probe_start), Inl e)
      | Inr password \<Rightarrow> if up_protocol u = BITCOIN_STRATUM_V1 then stratum_probe u ?n password (now, events, probe_start)
          else monero_probe u ?n password (now, events, probe_start)) = ((t1, es1, p1), r)"
    using run Inr by (auto simp: socketProbe_def Let_def split: prod.splits)
  have "t1 \<le> now + 2 * up_connectionTimeoutMs u \<and> pe_waiters p1 = [] \<and> (\<exists>ask. numbered ask \<and> r = protocolProbe C dial ask proxy u)"
  proof (cases "up_password C u")
    case (Inl e)
    have "numbered (\<lambda>_ _. Inl e)" by (simp add: numbered_def)
    with inner Inl q T start show ?thesis by (auto simp: protocolProbe_def)
  next
    case (Inr password)
    show ?thesis
    proof (cases "up_protocol u = BITCOIN_STRATUM_V1")
      case True
      with inner Inr have "stratum_probe u ?n password (now, events, probe_start) = ((t1, es1, p1), r)" by simp
      from stratum_probe_answers [OF start T this] True Inr q show ?thesis by (simp add: protocolProbe_def)
    next
      case False
      with inner Inr have "monero_probe u ?n password (now, events, probe_start) = ((t1, es1, p1), r)" by simp
      from monero_probe_answers [OF start this] False Inr q T show ?thesis by (auto simp: protocolProbe_def)
    qed
  qed
  with st1 show ?thesis by (auto simp: probe_finally_def rejectAll_def destroy_probe_def)
qed

text \<open>A pool whose answer arrives as a line before the timeout is judged by that answer: here a Monero pool, whose login is confirmed.\<close>

lemma line_heard:
  assumes "json_ok v" and "is_object v" and "member ''id'' v = Some (JNum (show_nat i))"
    and "pe_buffer p = []" and "\<not> pe_destroyed p" and "pe_waiters p = [i]"
  shows "probe_event (Data (send_line v)) p = p\<lparr>pe_waiters := [], pe_promise := Some (Inr v)\<rparr>"
proof -
  from assms(2) obtain kvs where v: "v = JObj kvs" by (auto simp: is_object_def split: json.splits)
  have i: "index_of newline (print_json v @ [newline]) = Some (length (print_json v))"
    using print_json_line [OF assms(1)] by (rule index_of_append)
  have t: "trim (print_json v) = print_json v" "print_json v \<noteq> []" using trim_braces by (simp_all add: v)
  have "probe_line (print_json v) p = p\<lparr>pe_waiters := [], pe_promise := Some (Inr v)\<rparr>"
    using assms(3) parse_print [OF assms(1)] by (simp add: probe_line_def t) (simp add: v assms(6))
  moreover have "p\<lparr>pe_buffer := []\<rparr> = p" using assms(4) by (cases p) simp
  ultimately have "probe_line (print_json v) (p\<lparr>pe_buffer := []\<rparr>) = p\<lparr>pe_waiters := [], pe_promise := Some (Inr v)\<rparr>" by metis
  moreover have "probe_lines q = q" if "pe_buffer q = []" for q using that by (simp add: probe_lines.simps [of q])
  ultimately show ?thesis using i assms(4,5)
    by (simp add: probe_event_def send_line_def probe_lines.simps [of "p\<lparr>pe_buffer := _\<rparr>"])
qed

theorem monero_pool_passes:
  assumes "ebind proxy (dial u) = Inr ()" and "up_password C u = Inr password" and "up_protocol u \<noteq> BITCOIN_STRATUM_V1"
    and "t < now + up_connectionTimeoutMs u" and "json_ok v" and "is_object v" and "member ''id'' v = Some (JNum ''1'')"
    and "\<not> js_truthy (member ''error'' v)" and "member ''result'' v = Some w" and "js_truthy (member ''id'' w)"
    and "member ''status'' w = Some (JStr ''OK'')"
  shows "snd (socketProbe C dial proxy u now ((t, Data (send_line v)) # es)) = Inr ()"
proof -
  let ?n = "renderUsername u ''health'' ''probe''"
  let ?q = "JObj [(''login'', JStr ?n), (''pass'', JStr password), (''agent'', JStr ''mitm-health/1.0'')]"
  have heard: "pe_promise (probe_event (Data (send_line v)) p) = Some (Inr v)"
    if "pe_buffer p = []" "\<not> pe_destroyed p" "pe_waiters p = [1]" for p
    using line_heard [OF assms(5,6) _ that] assms(7) by (simp add: numbers)
  have "snd (probe_request (up_connectionTimeoutMs u) ''login'' ?q (now, (t, Data (send_line v)) # es, probe_start)) = Inr v"
    using assms(4) by (simp add: probe_request_def Let_def heard probe_start_def)
  then have "snd (monero_probe u ?n password (now, (t, Data (send_line v)) # es, probe_start)) = Inr ()"
    using assms(8-11) by (auto simp: monero_probe_def Let_def orElse_def split: prod.splits sum.splits)
  then show ?thesis using assms(1-3) by (auto simp: socketProbe_def Let_def split: prod.splits)
qed

end
