(* ===== verification/HttpApi.thy ===== *)
theory HttpApi
  imports HttpText Upstreams Portal Deposits
begin

text \<open>
  The HTTP interface: which request may do what.  Every controller is a datatype of its actions, with the method, the
  roles its decorators require (those of the handler override those of the class) and the service operation it calls; the
  guards run first, in the order of \<open>UseGuards\<close>.  The bodies are values that have passed validation; what a handler
  returns is left out, its errors are kept.  The last sections are the exception filter and the files of the
  administration UI (\<open>main.ts\<close>).
\<close>

section \<open>What a request meets\<close>

text \<open>Services, the time, random bytes, and the outside world of the handlers that need one.\<close>

record api =
  ap_services :: services
  ap_decimal :: decimal_lib
  ap_now :: instant
  ap_random :: random_source
  ap_bytes :: string
  ap_byteList :: "string list"
  ap_salt :: string
  ap_iv :: string
  ap_iv2 :: string
  ap_ivs :: "uuid \<Rightarrow> string"
  ap_run :: run_env
  ap_scanning :: bool
  ap_dial :: "upstream \<Rightarrow> gateway_proxy option \<Rightarrow> unit result"
  ap_ask :: "string \<Rightarrow> json \<Rightarrow> json result"
  ap_proxy :: "gateway_proxy option result"
  ap_ip :: string

definition void :: "'a result \<Rightarrow> unit result" where
  "void r = (case r of Inl e \<Rightarrow> Inl e | Inr _ \<Rightarrow> Inr ())"

definition on_store :: "(store \<Rightarrow> store \<times> 'a result) \<Rightarrow> auth_state \<Rightarrow> auth_state \<times> unit result" where
  "on_store f st = (case f (fst st) of (s, r) \<Rightarrow> ((s, snd st), void r))"

definition reads :: "auth_state \<Rightarrow> auth_state \<times> unit result" where
  "reads st = (st, Inr ())"

abbreviation everyone :: "AdminRole list" where
  "everyone \<equiv> [OWNER, AdminRole.OPERATOR, VIEWER]"

abbreviation operators :: "AdminRole list" where
  "operators \<equiv> [OWNER, AdminRole.OPERATOR]"

section \<open>The controllers\<close>

datatype auth_action = Login login_dto | Logout | Me | SetupTotp | EnableTotp string

fun auth_method :: "auth_action \<Rightarrow> string" where
  "auth_method Me = ''GET''"
| "auth_method _ = ''POST''"

fun auth_perform :: "api \<Rightarrow> request \<Rightarrow> uuid \<Rightarrow> auth_action \<Rightarrow> auth_state \<Rightarrow> auth_state \<times> unit result" where
  "auth_perform E rq admin (Login dto) st =
     (case login (ap_services E) (ap_now E) (ap_random E) dto (ap_ip E) st of (st1, r) \<Rightarrow> (st1, void r))"
| "auth_perform E rq admin Logout st = (logout (ap_services E) (rq_cookie rq) st, Inr ())"
| "auth_perform E rq admin Me st = reads st"
| "auth_perform E rq admin SetupTotp st = on_store (beginTotp (ap_services E) (ap_now E) (ap_bytes E) (ap_iv E) admin) st"
| "auth_perform E rq admin (EnableTotp code) st =
     on_store (enableTotp (ap_services E) (ap_now E) (ap_byteList E) (ap_salt E) admin code) st"

datatype customers_action =
    CustomersList | CustomersGet uuid | CustomersCreate customer_dto | CustomersUpdate uuid customer_update_dto
  | CustomersDisable uuid | CustomersEnable uuid | CreateWorker uuid worker_dto | RotateCredential uuid "int option"
  | RevokeCredential uuid | RotatePortalAccess uuid | CreatePolicy uuid policy_dto | CreateDestination uuid destination_dto

fun customers_method :: "customers_action \<Rightarrow> string" where
  "customers_method CustomersList = ''GET''"
| "customers_method (CustomersGet i) = ''GET''"
| "customers_method (CustomersUpdate i dto) = ''PATCH''"
| "customers_method _ = ''POST''"

fun customers_roles :: "customers_action \<Rightarrow> AdminRole list" where
  "customers_roles CustomersList = everyone"
| "customers_roles (CustomersGet i) = everyone"
| "customers_roles _ = operators"

fun customers_perform :: "api \<Rightarrow> uuid \<Rightarrow> customers_action \<Rightarrow> auth_state \<Rightarrow> auth_state \<times> unit result" where
  "customers_perform E admin CustomersList st = reads st"
| "customers_perform E admin (CustomersGet i) st = (st, void (get_customer i (fst st)))"
| "customers_perform E admin (CustomersCreate dto) st = on_store (createCustomer (ap_services E) (ap_now E) dto admin) st"
| "customers_perform E admin (CustomersUpdate i dto) st = on_store (updateCustomer (ap_services E) (ap_now E) i dto admin) st"
| "customers_perform E admin (CustomersDisable i) st = on_store (setStatus (ap_services E) (ap_now E) i EntityStatus.DISABLED admin) st"
| "customers_perform E admin (CustomersEnable i) st = on_store (setStatus (ap_services E) (ap_now E) i EntityStatus.ACTIVE admin) st"
| "customers_perform E admin (CreateWorker i dto) st =
     on_store (createWorker (ap_services E) (ap_now E) (ap_bytes E) (ap_salt E) i dto admin) st"
| "customers_perform E admin (RotateCredential i grace) st =
     on_store (rotateCredential (ap_services E) (ap_now E) (ap_bytes E) (ap_salt E) i grace admin) st"
| "customers_perform E admin (RevokeCredential i) st = on_store (revokeCredential (ap_services E) (ap_now E) i admin) st"
| "customers_perform E admin (RotatePortalAccess i) st =
     on_store (rotatePortalAccess (ap_services E) (ap_now E) (ap_bytes E) (ap_salt E) i admin) st"
| "customers_perform E admin (CreatePolicy i dto) st = on_store (createPolicy (ap_services E) (ap_now E) i dto admin) st"
| "customers_perform E admin (CreateDestination i dto) st = on_store (createDestination (ap_services E) (ap_now E) i dto admin) st"

datatype payouts_action = PayoutsList | Plan AssetCode | PlanOperator AssetCode | Approve uuid string | Execute uuid | Reconcile

fun payouts_method :: "payouts_action \<Rightarrow> string" where
  "payouts_method PayoutsList = ''GET''"
| "payouts_method _ = ''POST''"

fun payouts_roles :: "payouts_action \<Rightarrow> AdminRole list" where
  "payouts_roles PayoutsList = everyone"
| "payouts_roles (Plan asset) = operators"
| "payouts_roles (PlanOperator asset) = [OWNER]"
| "payouts_roles (Approve i code) = [OWNER]"
| "payouts_roles (Execute i) = [OWNER]"
| "payouts_roles Reconcile = operators"

fun payouts_perform :: "api \<Rightarrow> uuid \<Rightarrow> payouts_action \<Rightarrow> auth_state \<Rightarrow> auth_state \<times> unit result" where
  "payouts_perform E admin PayoutsList st = reads st"
| "payouts_perform E admin (Plan asset) st = on_store (plan (ap_services E) (ap_now E) asset) st"
| "payouts_perform E admin (PlanOperator asset) st = on_store (planOperator (ap_services E) (ap_now E) asset) st"
| "payouts_perform E admin (Approve i code) st = on_store (approve (ap_services E) (ap_now E) i admin code) st"
| "payouts_perform E admin (Execute i) st = (case execute (ap_services E) (ap_now E) (ap_run E) i st of (st1, _, r) \<Rightarrow> (st1, void r))"
| "payouts_perform E admin Reconcile st = on_store (reconcile (ap_services E) (ap_now E)) st"

datatype settings_action = SettingsList | UpdateSchedule schedule_dto | UpdateOperatorPayout operator_dto

fun settings_method :: "settings_action \<Rightarrow> string" where
  "settings_method SettingsList = ''GET''"
| "settings_method _ = ''PUT''"

fun settings_roles :: "settings_action \<Rightarrow> AdminRole list" where
  "settings_roles SettingsList = everyone"
| "settings_roles _ = [OWNER]"

text \<open>Listing the settings reads both operator payouts, and reading one puts a pending change that is due into effect.\<close>

fun settings_perform :: "api \<Rightarrow> uuid \<Rightarrow> settings_action \<Rightarrow> auth_state \<Rightarrow> auth_state \<times> unit result" where
  "settings_perform E admin SettingsList st =
     ((fst (operatorPayout (sv_env (ap_services E)) (ap_now E) XMR
         (fst (operatorPayout (sv_env (ap_services E)) (ap_now E) BTC (fst st)))), snd st), Inr ())"
| "settings_perform E admin (UpdateSchedule dto) st = on_store (updatePayoutSchedule (ap_services E) (ap_now E) dto admin) st"
| "settings_perform E admin (UpdateOperatorPayout dto) st = on_store (updateOperatorPayout (ap_services E) (ap_now E) dto admin) st"

datatype upstreams_action = UpstreamsList "AssetCode option" | UpstreamCreate upstream_dto | UpstreamUpdate uuid upstream_update | UpstreamTest uuid

fun upstreams_method :: "upstreams_action \<Rightarrow> string" where
  "upstreams_method (UpstreamsList asset) = ''GET''"
| "upstreams_method (UpstreamUpdate i dto) = ''PATCH''"
| "upstreams_method _ = ''POST''"

fun upstreams_roles :: "upstreams_action \<Rightarrow> AdminRole list" where
  "upstreams_roles (UpstreamsList asset) = everyone"
| "upstreams_roles _ = operators"

fun upstreams_perform :: "api \<Rightarrow> uuid \<Rightarrow> upstreams_action \<Rightarrow> auth_state \<Rightarrow> auth_state \<times> unit result" where
  "upstreams_perform E admin (UpstreamsList asset) st = reads st"
| "upstreams_perform E admin (UpstreamCreate dto) st = on_store (create_upstream (ap_services E) (ap_now E) (ap_iv E) dto admin) st"
| "upstreams_perform E admin (UpstreamUpdate i dto) st = on_store (update_upstream (ap_services E) (ap_now E) (ap_ivs E) i dto admin) st"
| "upstreams_perform E admin (UpstreamTest i) st =
     on_store (test_upstream (sv_crypto (ap_services E)) (ap_dial E) (ap_ask E) (ap_proxy E) (ap_now E) i) st"

datatype wallets_action = WalletStatus | ValidateAddress AssetCode string | CreateReceiveAddress AssetCode string | Scan | DepositsList

fun wallets_method :: "wallets_action \<Rightarrow> string" where
  "wallets_method WalletStatus = ''GET''"
| "wallets_method DepositsList = ''GET''"
| "wallets_method _ = ''POST''"

fun wallets_roles :: "wallets_action \<Rightarrow> AdminRole list" where
  "wallets_roles (CreateReceiveAddress asset label) = operators"
| "wallets_roles Scan = operators"
| "wallets_roles _ = everyone"

fun wallets_perform :: "api \<Rightarrow> uuid \<Rightarrow> wallets_action \<Rightarrow> auth_state \<Rightarrow> auth_state \<times> unit result" where
  "wallets_perform E admin WalletStatus st = reads st"
| "wallets_perform E admin (ValidateAddress asset address) st =
     (st, void (wa_validateAddress (forAsset (sv_wallets (ap_services E)) asset) address))"
| "wallets_perform E admin (CreateReceiveAddress asset label) st =
     (st, void (wa_createReceiveAddress (forAsset (sv_wallets (ap_services E)) asset) label))"
| "wallets_perform E admin Scan st =
     ((scanAll (ap_decimal E) (sv_wallets (ap_services E)) (ap_now E) (ap_scanning E) (fst st), snd st), Inr ())"
| "wallets_perform E admin DepositsList st = reads st"

datatype ledger_action = Transactions | CustomerBalances | TrialBalance AssetCode | Allocate uuid

fun ledger_method :: "ledger_action \<Rightarrow> string" where
  "ledger_method (Allocate i) = ''POST''"
| "ledger_method _ = ''GET''"

fun ledger_roles :: "ledger_action \<Rightarrow> AdminRole list" where
  "ledger_roles (Allocate i) = operators"
| "ledger_roles _ = everyone"

fun ledger_perform :: "api \<Rightarrow> uuid \<Rightarrow> ledger_action \<Rightarrow> auth_state \<Rightarrow> auth_state \<times> unit result" where
  "ledger_perform E admin (Allocate i) st = on_store (allocateDeposit (ap_decimal E) (ap_now E) i) st"
| "ledger_perform E admin _ st = reads st"

datatype alerts_action = AlertsList | Resolve uuid

fun alerts_method :: "alerts_action \<Rightarrow> string" where
  "alerts_method AlertsList = ''GET''"
| "alerts_method (Resolve i) = ''POST''"

fun alerts_roles :: "alerts_action \<Rightarrow> AdminRole list" where
  "alerts_roles AlertsList = everyone"
| "alerts_roles (Resolve i) = operators"

fun alerts_perform :: "api \<Rightarrow> uuid \<Rightarrow> alerts_action \<Rightarrow> auth_state \<Rightarrow> auth_state \<times> unit result" where
  "alerts_perform E admin AlertsList st = reads st"
| "alerts_perform E admin (Resolve i) st =
     (case resolve_alert (ap_now E) i (fst st) of Inl e \<Rightarrow> (st, Inl e) | Inr s \<Rightarrow> ((s, snd st), Inr ()))"

datatype audit_action = AuditVerify | AuditList

definition audit_roles :: "audit_action \<Rightarrow> AdminRole list" where
  "audit_roles a = (case a of AuditVerify \<Rightarrow> [OWNER] | AuditList \<Rightarrow> everyone)"

datatype proxy_action = ProxyGet | ProxyUpdate proxy_dto

fun proxy_method :: "proxy_action \<Rightarrow> string" where
  "proxy_method ProxyGet = ''GET''"
| "proxy_method (ProxyUpdate dto) = ''PUT''"

fun proxy_roles :: "proxy_action \<Rightarrow> AdminRole list" where
  "proxy_roles ProxyGet = everyone"
| "proxy_roles (ProxyUpdate dto) = [OWNER]"

fun proxy_perform :: "api \<Rightarrow> uuid \<Rightarrow> proxy_action \<Rightarrow> auth_state \<Rightarrow> auth_state \<times> unit result" where
  "proxy_perform E admin ProxyGet st = reads st"
| "proxy_perform E admin (ProxyUpdate dto) st = on_store (proxy_update (ap_services E) (ap_now E) (ap_iv E) (ap_iv2 E) dto admin) st"

datatype stats_action = Dashboard | WorkersReport "AssetCode option"

datatype portal_action = PortalSummary portal_access | PortalDestination portal_destination_dto

fun portal_perform :: "api \<Rightarrow> portal_action \<Rightarrow> auth_state \<Rightarrow> auth_state \<times> unit result" where
  "portal_perform E (PortalSummary dto) st =
     (case summary (ap_services E) (sv_loc (ap_services E)) (ap_now E) dto (ap_ip E) st of (r, v) \<Rightarrow> ((fst st, r), void v))"
| "portal_perform E (PortalDestination dto) st =
     (case requestDestination (ap_services E) (ap_now E) dto (ap_ip E) st of (st1, r) \<Rightarrow> (st1, void r))"

datatype probe_action = Live | Ready | Metrics

section \<open>Guards, then the handler\<close>

datatype action =
    AuthA auth_action | CustomersA customers_action | PayoutsA payouts_action | SettingsA settings_action | UpstreamsA upstreams_action
  | WalletsA wallets_action | LedgerA ledger_action | AlertsA alerts_action | AuditA audit_action | ProxyA proxy_action
  | StatsA stats_action | EventsA | PortalA portal_action | ProbeA probe_action

fun api_method :: "action \<Rightarrow> string" where
  "api_method (AuthA a) = auth_method a"
| "api_method (CustomersA a) = customers_method a"
| "api_method (PayoutsA a) = payouts_method a"
| "api_method (SettingsA a) = settings_method a"
| "api_method (UpstreamsA a) = upstreams_method a"
| "api_method (WalletsA a) = wallets_method a"
| "api_method (LedgerA a) = ledger_method a"
| "api_method (AlertsA a) = alerts_method a"
| "api_method (ProxyA a) = proxy_method a"
| "api_method (PortalA a) = ''POST''"
| "api_method _ = ''GET''"

text \<open>No roles where the controller has no roles guard.\<close>

fun api_roles :: "action \<Rightarrow> AdminRole list" where
  "api_roles (CustomersA a) = customers_roles a"
| "api_roles (PayoutsA a) = payouts_roles a"
| "api_roles (SettingsA a) = settings_roles a"
| "api_roles (UpstreamsA a) = upstreams_roles a"
| "api_roles (WalletsA a) = wallets_roles a"
| "api_roles (LedgerA a) = ledger_roles a"
| "api_roles (AlertsA a) = alerts_roles a"
| "api_roles (AuditA a) = audit_roles a"
| "api_roles (ProxyA a) = proxy_roles a"
| "api_roles (StatsA a) = everyone"
| "api_roles _ = []"

text \<open>The handlers marked \<open>Public\<close> and the controllers without a guard.\<close>

fun api_public :: "action \<Rightarrow> bool" where
  "api_public (AuthA (Login dto)) = True"
| "api_public (PortalA a) = True"
| "api_public (ProbeA a) = True"
| "api_public _ = False"

fun api_perform :: "api \<Rightarrow> request \<Rightarrow> uuid \<Rightarrow> action \<Rightarrow> auth_state \<Rightarrow> auth_state \<times> unit result" where
  "api_perform E rq admin (AuthA a) st = auth_perform E rq admin a st"
| "api_perform E rq admin (CustomersA a) st = customers_perform E admin a st"
| "api_perform E rq admin (PayoutsA a) st = payouts_perform E admin a st"
| "api_perform E rq admin (SettingsA a) st = settings_perform E admin a st"
| "api_perform E rq admin (UpstreamsA a) st = upstreams_perform E admin a st"
| "api_perform E rq admin (WalletsA a) st = wallets_perform E admin a st"
| "api_perform E rq admin (LedgerA a) st = ledger_perform E admin a st"
| "api_perform E rq admin (AlertsA a) st = alerts_perform E admin a st"
| "api_perform E rq admin (ProxyA a) st = proxy_perform E admin a st"
| "api_perform E rq admin (PortalA a) st = portal_perform E a st"
| "api_perform E rq admin _ st = reads st"

definition handle :: "api \<Rightarrow> request \<Rightarrow> action \<Rightarrow> auth_state \<Rightarrow> auth_state \<times> unit result" where
  "handle E rq a st =
     (case auth_guard (ap_services E) (ap_now E) (api_public a) rq st of
        (st1, Inl e) \<Rightarrow> (st1, Inl e)
      | (st1, Inr admin) \<Rightarrow>
          (case roles_guard (api_roles a) admin of
             Inl e \<Rightarrow> (st1, Inl e)
           | Inr _ \<Rightarrow> api_perform E rq (case admin of None \<Rightarrow> [] | Some e \<Rightarrow> se_id e) a st1))"

section \<open>Access control\<close>

lemma getSession_store: "getSession V now token st = (st1, r) \<Longrightarrow> fst st1 = fst st"
  by (auto simp: getSession_def Let_def split: prod.splits if_splits option.splits)

lemma auth_guard_store: "auth_guard V now p rq st = (st1, r) \<Longrightarrow> fst st1 = fst st"
  using getSession_store by (fastforce simp: auth_guard_def split: if_splits prod.splits sum.splits option.splits)

lemma auth_guard_admitted:
  assumes "auth_guard V now False rq st = (st1, Inr admin)"
  shows "\<exists>e. admin = Some e \<and> snd (getSession V now (rq_cookie rq) st) = Inr (Some e) \<and>
    (rq_method rq \<notin> {''GET'', ''HEAD'', ''OPTIONS''} \<longrightarrow> rq_csrf rq = Some (se_csrfToken e))"
  using assms by (auto simp: auth_guard_def split: prod.splits sum.splits option.splits if_splits)

lemma reading_actions:
  assumes "api_method a = ''GET'' \<or> VIEWER \<in> set (api_roles a)" and "a \<noteq> SettingsA SettingsList"
  shows "fst (fst (api_perform E rq admin a st)) = fst st"
proof (cases a)
  case (AuthA x)
  with assms show ?thesis by (cases x) (auto simp: reads_def)
next
  case (CustomersA x)
  with assms show ?thesis by (cases x) (auto simp: reads_def)
next
  case (PayoutsA x)
  with assms show ?thesis by (cases x) (auto simp: reads_def)
next
  case (SettingsA x)
  with assms show ?thesis by (cases x) auto
next
  case (UpstreamsA x)
  with assms show ?thesis by (cases x) (auto simp: reads_def)
next
  case (WalletsA x)
  with assms show ?thesis by (cases x) (auto simp: reads_def)
next
  case (LedgerA x)
  with assms show ?thesis by (cases x) (auto simp: reads_def)
next
  case (AlertsA x)
  with assms show ?thesis by (cases x) (auto simp: reads_def)
next
  case (ProxyA x)
  with assms show ?thesis by (cases x) (auto simp: reads_def)
qed (use assms in \<open>auto simp: reads_def\<close>)

text \<open>Actions that move money or decide where it goes.\<close>

fun owner_only :: "action \<Rightarrow> bool" where
  "owner_only (PayoutsA (PlanOperator asset)) = True"
| "owner_only (PayoutsA (Approve i code)) = True"
| "owner_only (PayoutsA (Execute i)) = True"
| "owner_only (SettingsA a) = (a \<noteq> SettingsList)"
| "owner_only (ProxyA a) = (a \<noteq> ProxyGet)"
| "owner_only _ = False"

lemma owner_roles: "owner_only a \<Longrightarrow> api_roles a = [OWNER]"
proof -
  have "x \<noteq> SettingsList \<Longrightarrow> settings_roles x = [OWNER]" "y \<noteq> ProxyGet \<Longrightarrow> proxy_roles y = [OWNER]" for x y
    by (cases x; simp) (cases y; simp)
  then show "owner_only a \<Longrightarrow> api_roles a = [OWNER]" by (cases a rule: owner_only.cases) simp_all
qed

lemma api_methods: "api_method a \<in> {''GET'', ''POST'', ''PUT'', ''PATCH''}"
proof (cases a)
  case (AuthA x)
  then show ?thesis by (cases x) auto
next
  case (CustomersA x)
  then show ?thesis by (cases x) auto
next
  case (PayoutsA x)
  then show ?thesis by (cases x) auto
next
  case (SettingsA x)
  then show ?thesis by (cases x) auto
next
  case (UpstreamsA x)
  then show ?thesis by (cases x) auto
next
  case (WalletsA x)
  then show ?thesis by (cases x) auto
next
  case (LedgerA x)
  then show ?thesis by (cases x) auto
next
  case (AlertsA x)
  then show ?thesis by (cases x) auto
next
  case (ProxyA x)
  then show ?thesis by (cases x) auto
qed auto

lemma role_lists:
  "customers_roles x1 \<noteq> []" "payouts_roles x2 \<noteq> []" "settings_roles x3 \<noteq> []" "upstreams_roles x4 \<noteq> []" "wallets_roles x5 \<noteq> []"
  "ledger_roles x6 \<noteq> []" "alerts_roles x7 \<noteq> []" "audit_roles x8 \<noteq> []" "proxy_roles x9 \<noteq> []"
  by (cases x1, auto) (cases x2, auto, cases x3, auto, cases x4, auto, cases x5, auto, cases x6, auto, cases x7, auto,
      auto simp: audit_roles_def split: audit_action.splits, cases x9, auto)

lemma no_roles: "api_roles a = [] \<Longrightarrow> (\<exists>x. a = AuthA x) \<or> a = EventsA \<or> (\<exists>x. a = PortalA x) \<or> (\<exists>x. a = ProbeA x)"
  by (cases a) (auto simp: role_lists)


section \<open>The exception filter\<close>

text \<open>The framework's exceptions carry a status and a response of their own, which are parameters; everything else is an
  internal error whose message stays inside.\<close>

fun is_http_exception :: "error \<Rightarrow> bool" where
  "is_http_exception (Error m) = False"
| "is_http_exception (UniqueConstraint m) = False"
| "is_http_exception (RecordNotFound m) = False"
| "is_http_exception (RpcError code m) = False"
| "is_http_exception _ = True"

definition exceptionFilter ::
  "(error \<Rightarrow> int) \<Rightarrow> (error \<Rightarrow> string + (string \<times> json) list) \<Rightarrow> instant \<Rightarrow> error \<Rightarrow> int \<times> json" where
  "exceptionFilter getStatus getResponse now e =
     (let status = (if is_http_exception e then getStatus e else 500);
          body = (if is_http_exception e then getResponse e else Inl ''Internal server error'');
          normalized = (case body of Inl m \<Rightarrow> [(''message'', JStr m)] | Inr members \<Rightarrow> members)
      in (status, make_obj [(''error'', make_obj ((''status'', JNum (show_int status)) # normalized)), (''timestamp'', JStr (toISOString now))]))"

lemma internal_errors_hidden:
  "\<not> is_http_exception e \<Longrightarrow> \<not> is_http_exception f \<Longrightarrow>
     exceptionFilter getStatus getResponse now e = exceptionFilter getStatus getResponse now f"
  by (simp add: exceptionFilter_def)

section \<open>Files of the administration UI\<close>

datatype reply = NotFound string | Asset string string | IndexHtml

text \<open>The table of content types; \<open>constructor\<close> and \<open>__proto__\<close> are inherited by every object.\<close>

definition content_type :: "string \<Rightarrow> string option" where
  "content_type extension = map_of
     [(''css'', ''text/css; charset=utf-8''), (''js'', ''text/javascript; charset=utf-8''), (''json'', ''application/json; charset=utf-8''),
      (''map'', ''application/json; charset=utf-8''), (''png'', ''image/png''), (''svg'', ''image/svg+xml''), (''webp'', ''image/webp''),
      (''woff2'', ''font/woff2''), (''constructor'', ''inherited''), (''__proto__'', ''inherited'')] extension"

definition asset_char :: "char \<Rightarrow> bool" where
  "asset_char c \<longleftrightarrow> is_letter c \<or> is_digit c \<or> c \<in> {CHR ''_'', CHR ''.'', CHR ''-''}"

definition asset_match :: "string \<Rightarrow> string option" where
  "asset_match path =
     (let name = drop 8 path in if take 8 path = ''/assets/'' \<and> name \<noteq> [] \<and> list_all asset_char name then Some name else None)"

definition adminFallback :: "(string \<Rightarrow> bool) \<Rightarrow> string \<Rightarrow> reply" where
  "adminFallback existsAsset url =
     (if startsWith url ''/api/'' \<or> startsWith url ''/health'' \<or> url = ''/metrics'' then NotFound ''Not found''
      else
        (let requestPath = hd (split_on (CHR ''?'') url) in
         if startsWith requestPath ''/assets/'' then
           (case asset_match requestPath of
              None \<Rightarrow> NotFound ''Asset not found''
            | Some name \<Rightarrow>
                (let extension = toLowerCase (last (split_on (CHR ''.'') name)) in
                 if extension \<noteq> [] \<and> content_type extension \<noteq> None \<and> existsAsset name
                 then Asset name (the (content_type extension)) else NotFound ''Asset not found''))
         else IndexHtml))"

text \<open>No request leaves the directory of the UI's files.  A file that is served is named by its last path segment alone, without a
  slash and neither the directory nor its parent, exists there and has one of the known types; paths of the API, the probes and
  the metrics never get a page.\<close>

theorem static_files_confined:
  "(case adminFallback existsAsset url of
      Asset name type \<Rightarrow> CHR ''/'' \<notin> set name \<and> name \<notin> {[], ''.'', ''..''} \<and> existsAsset name \<and>
        hd (split_on (CHR ''?'') url) = ''/assets/'' @ name \<and>
        content_type (toLowerCase (last (split_on (CHR ''.'') name))) = Some type
    | IndexHtml \<Rightarrow> \<not> startsWith url ''/api/'' \<and> \<not> startsWith url ''/health'' \<and> url \<noteq> ''/metrics''
    | NotFound m \<Rightarrow> m \<in> {''Not found'', ''Asset not found''})"
proof (cases "adminFallback existsAsset url")
  case (Asset name type)
  then have m: "asset_match (hd (split_on (CHR ''?'') url)) = Some name" and x: "existsAsset name"
    "toLowerCase (last (split_on (CHR ''.'') name)) \<noteq> []" "content_type (toLowerCase (last (split_on (CHR ''.'') name))) = Some type"
    by (auto simp: adminFallback_def Let_def split: if_splits option.splits)
  have "\<not> asset_char (CHR ''/'')" by code_simp
  moreover from m have n: "list_all asset_char name" "name \<noteq> []" and t: "take 8 (hd (split_on (CHR ''?'') url)) = ''/assets/''"
    "name = drop 8 (hd (split_on (CHR ''?'') url))" by (auto simp: asset_match_def Let_def split: if_splits)
  ultimately have "CHR ''/'' \<notin> set name" by (auto simp: list_all_iff)
  moreover have "toLowerCase (last (split_on (CHR ''.'') ''.'')) = [] \<and> toLowerCase (last (split_on (CHR ''.'') ''..'')) = []" by code_simp
  with x(2) have "name \<notin> {''.'', ''..''}" by auto
  moreover have "hd (split_on (CHR ''?'') url) = ''/assets/'' @ name" using t by (metis append_take_drop_id)
  ultimately show ?thesis using Asset x n(2) by simp
next
  case (NotFound m)
  then show ?thesis by (auto simp: adminFallback_def Let_def split: if_splits option.splits)
next
  case IndexHtml
  then show ?thesis by (auto simp: adminFallback_def Let_def split: if_splits option.splits)
qed

section \<open>Witness\<close>

definition api_session :: Auth.session where
  "api_session = \<lparr>se_id = ''a1'', se_email = ''root@x'', se_displayName = ''Root'', se_role = OWNER, se_sessionId = ''ses'', se_csrfToken = ''csrf'',
     se_createdAt = [], se_lastSeenAt = []\<rparr>"

definition api_alert :: alert where
  "api_alert = \<lparr>at_id = ''x'', at_dedupeKey = ''k'', at_severity = WARNING, at_status = OPEN, at_title = [], at_message = [],
     at_firstSeenAt = 0, at_lastSeenAt = 0, at_resolvedAt = None\<rparr>"

definition api_store :: store where
  "api_store = (admin_store 0)\<lparr>alerts := [api_alert]\<rparr>"

definition api_redis :: redis where
  "api_redis = redis_set_ex 0 (sessionKey example_services ''cookie'') (print_json (session_json api_session)) 1000 empty_redis"

definition api_request :: request where
  "api_request = \<lparr>rq_method = ''POST'', rq_cookie = Some ''cookie'', rq_csrf = Some ''csrf''\<rparr>"

definition example_api :: api where
  "example_api = \<lparr>ap_services = example_services, ap_decimal = decimal_exact, ap_now = 5, ap_random = example_random, ap_bytes = [], ap_byteList = [],
     ap_salt = [], ap_iv = [], ap_iv2 = [], ap_ivs = (\<lambda>_. []), ap_run = \<lparr>re_token = [], re_iv = [], re_lost = (\<lambda>_. False), re_end = 6\<rparr>,
     ap_scanning = False, ap_dial = (\<lambda>_ _. Inr ()), ap_ask = (\<lambda>_ _. Inr JNull), ap_proxy = Inr None, ap_ip = ''10.0.0.1''\<rparr>"


end
