(* ===== verification/Cli.thy ===== *)
theory Cli
  imports HttpText Upstreams LinePeer "HOL-Library.AList"
begin

text \<open>
  The command line tools (\<open>cli/bootstrap-admin.ts\<close>, \<open>cli/operational-self-test.ts\<close>): creating the first owner, and
  the check of wallets, pool accounts and pools before operation.  The environment, the arguments after the script's name
  and the password file are parameters, as are the answers of the two wallets.
\<close>

section \<open>The first owner\<close>

definition argument :: "string list \<Rightarrow> nat \<Rightarrow> string option" where
  "argument argv n = (if n < length argv then Some (argv ! n) else None)"

definition or_argument :: "string option \<Rightarrow> string option \<Rightarrow> string option" where
  "or_argument x y = (case x of Some v \<Rightarrow> Some v | None \<Rightarrow> y)"

definition bootstrap_email :: "raw_env \<Rightarrow> string list \<Rightarrow> string option" where
  "bootstrap_email env argv =
     map_option (\<lambda>e. toLowerCase (trim e)) (or_argument (env ''BOOTSTRAP_ADMIN_EMAIL'') (argument argv 0))"

definition bootstrap_password :: "(string \<Rightarrow> string result) \<Rightarrow> raw_env \<Rightarrow> string list \<Rightarrow> string option result" where
  "bootstrap_password readFile env argv =
     (case env ''BOOTSTRAP_ADMIN_PASSWORD'' of
        Some p \<Rightarrow> Inr (Some p)
      | None \<Rightarrow>
          (case env ''BOOTSTRAP_ADMIN_PASSWORD_FILE'' of
             Some f \<Rightarrow> if f \<noteq> [] then ebind (readFile f) (\<lambda>t. Inr (Some (trim t))) else Inr (argument argv 1)
           | None \<Rightarrow> Inr (argument argv 1)))"

definition upsert_owner :: "string \<Rightarrow> string \<Rightarrow> string \<Rightarrow> store \<Rightarrow> store" where
  "upsert_owner email displayName passwordHash s =
     (case find_admin_email email s of
        Some a \<Rightarrow> s\<lparr>admins := update_where (\<lambda>x. ad_email x = email)
            (\<lambda>x. x\<lparr>ad_displayName := displayName, ad_passwordHash := passwordHash, ad_role := OWNER\<rparr>) (admins s)\<rparr>
      | None \<Rightarrow>
          (let (i, s1) = new_id s
           in s1\<lparr>admins := admins s1 @ [\<lparr>ad_id = i, ad_email = email, ad_displayName = displayName, ad_passwordHash = passwordHash,
                ad_role = OWNER, ad_status = EntityStatus.ACTIVE, ad_totpSecretCiphertext = None, ad_totpEnabled = False,
                ad_failedLoginCount = 0, ad_lockedUntil = None, ad_lastLoginAt = None\<rparr>]\<rparr>))"

definition bootstrap_admin ::
  "crypto_service \<Rightarrow> (string \<Rightarrow> string result) \<Rightarrow> raw_env \<Rightarrow> string list \<Rightarrow> string \<Rightarrow> store \<Rightarrow> store \<times> unit result" where
  "bootstrap_admin C readFile env argv salt s =
     (case bootstrap_password readFile env argv of
        Inl e \<Rightarrow> (s, Inl e)
      | Inr password \<Rightarrow>
          (let email = bootstrap_email env argv;
               displayName = (case or_argument (env ''BOOTSTRAP_ADMIN_NAME'') (argument argv 2) of None \<Rightarrow> ''Owner'' | Some n \<Rightarrow> n)
           in if \<not> truthy email \<or> \<not> truthy password \<or> \<not> truthy (env ''DATABASE_URL'') \<or> js_length (the password) < 12
              then (s, Inl (Error ''Set DATABASE_URL, BOOTSTRAP_ADMIN_EMAIL and BOOTSTRAP_ADMIN_PASSWORD or BOOTSTRAP_ADMIN_PASSWORD_FILE (minimum 12 characters)''))
              else (upsert_owner (the email) displayName (hashSecret C salt (the password)) s, Inr ())))"

section \<open>The self-test\<close>

type_synonym wallet_status = "AssetCode \<times> string option"

definition statuses :: "'x result \<Rightarrow> 'x result \<Rightarrow> wallet_status list" where
  "statuses btcStatus xmrStatus =
     [(BTC, case btcStatus of Inl e \<Rightarrow> Some (error_message e) | Inr _ \<Rightarrow> None),
      (XMR, case xmrStatus of Inl e \<Rightarrow> Some (error_message e) | Inr _ \<Rightarrow> None)]"

definition account_ref :: "upstream \<Rightarrow> string" where
  "account_ref u = show_asset (up_asset u) @ '':'' @ up_accountKey u"

fun check_accounts :: "upstream list \<Rightarrow> (string \<times> upstream) list \<Rightarrow> (string \<times> upstream) list result" where
  "check_accounts [] accounts = Inr accounts"
| "check_accounts (u # us) accounts =
     (if \<not> truthy (up_receiveAddress u) then Inl (Error (up_name u @ '' has no receive address''))
      else if (case map_of accounts (account_ref u) of None \<Rightarrow> False | Some p \<Rightarrow> up_receiveAddress p \<noteq> up_receiveAddress u)
      then Inl (Error (up_name u @ '' disagrees with its pool account receive address''))
      else check_accounts us (AList.update (account_ref u) u accounts))"

fun check_addresses :: "wallets \<Rightarrow> upstream list \<Rightarrow> unit result" where
  "check_addresses w [] = Inr ()"
| "check_addresses w (u # us) =
     ebind (wa_validateAddress (forAsset w (up_asset u)) (the (up_receiveAddress u))) (\<lambda>valid.
       if \<not> valid then Inl (Error (up_name u @ '' has an invalid receive address'')) else check_addresses w us)"

fun test_pools :: "(uuid \<Rightarrow> store \<Rightarrow> store \<times> (bool \<times> string) result) \<Rightarrow> upstream list \<Rightarrow> store \<Rightarrow> store \<times> unit result" where
  "test_pools test [] s = (s, Inr ())"
| "test_pools test (u # us) s =
     (case test (up_id u) s of
        (s1, Inl e) \<Rightarrow> (s1, Inl e)
      | (s1, Inr (ok, message)) \<Rightarrow>
          if \<not> ok then (s1, Inl (Error (up_name u @ '': '' @ message))) else test_pools test us s1)"

definition failed_text :: "wallet_status \<Rightarrow> string" where
  "failed_text st = show_asset (fst st) @ '': '' @ the (snd st)"

definition self_test ::
  "services \<Rightarrow> wallet_status list \<Rightarrow> (upstream \<Rightarrow> gateway_proxy option \<Rightarrow> unit result) \<Rightarrow> (string \<Rightarrow> json \<Rightarrow> json result) \<Rightarrow>
   gateway_proxy option result \<Rightarrow> instant \<Rightarrow> store \<Rightarrow> store \<times> (nat \<times> nat \<times> nat) result" where
  "self_test V walletStatuses dial ask proxy now s =
     (let walletFailures = filter (\<lambda>st. snd st \<noteq> None) walletStatuses;
          records = filter up_enabled (upstreams s)
      in if walletFailures \<noteq> [] then (s, Inl (Error (''Wallet checks failed: '' @ join ''; '' (map failed_text walletFailures))))
         else case List.find (\<lambda>a. \<not> list_ex (\<lambda>u. up_asset u = a) records) [BTC, XMR] of
           Some a \<Rightarrow> (s, Inl (Error (''No enabled '' @ show_asset a @ '' upstream is configured'')))
         | None \<Rightarrow>
             (case check_accounts records [] of
                Inl e \<Rightarrow> (s, Inl e)
              | Inr accounts \<Rightarrow>
                  (case check_addresses (sv_wallets V) (map snd accounts) of
                     Inl e \<Rightarrow> (s, Inl e)
                   | Inr _ \<Rightarrow>
                       (case test_pools (test_upstream (sv_crypto V) dial ask proxy now) records s of
                          (s1, Inl e) \<Rightarrow> (s1, Inl e)
                        | (s1, Inr _) \<Rightarrow> (s1, Inr (length walletStatuses, length accounts, length records))))))"

section \<open>What a passed self-test means\<close>

definition accounts_ok :: "(string \<times> upstream) list \<Rightarrow> bool" where
  "accounts_ok accounts \<longleftrightarrow> (\<forall>k p. map_of accounts k = Some p \<longrightarrow> account_ref p = k)"

lemma check_accounts_ok:
  assumes "check_accounts us accounts = Inr result" and "accounts_ok accounts"
  shows "accounts_ok result \<and> (\<forall>k p. map_of accounts k = Some p \<longrightarrow> (\<exists>q. map_of result k = Some q \<and> up_receiveAddress q = up_receiveAddress p)) \<and>
    (\<forall>u \<in> set us. truthy (up_receiveAddress u) \<and> (\<exists>q. map_of result (account_ref u) = Some q \<and> up_receiveAddress q = up_receiveAddress u))"
  using assms
proof (induction us accounts rule: check_accounts.induct)
  case (2 u us accounts)
  from "2.prems"(1) have u: "truthy (up_receiveAddress u)"
    "\<And>p. map_of accounts (account_ref u) = Some p \<Longrightarrow> up_receiveAddress p = up_receiveAddress u"
    and rest: "check_accounts us (AList.update (account_ref u) u accounts) = Inr result"
    by (auto split: if_splits option.splits)
  have ok: "accounts_ok (AList.update (account_ref u) u accounts)" using "2.prems"(2) by (simp add: accounts_ok_def update_conv')
  have guards: "\<not> \<not> truthy (up_receiveAddress u)"
    "\<not> (case map_of accounts (account_ref u) of None \<Rightarrow> False | Some p \<Rightarrow> up_receiveAddress p \<noteq> up_receiveAddress u)"
    using u by (auto split: option.splits)
  note IH = "2.IH" [OF guards rest ok]
  have old: "\<exists>q. map_of result k = Some q \<and> up_receiveAddress q = up_receiveAddress p" if "map_of accounts k = Some p" for k p
  proof (cases "k = account_ref u")
    case True
    with IH have "\<exists>q. map_of result k = Some q \<and> up_receiveAddress q = up_receiveAddress u" by (simp add: update_conv')
    with u(2) that True show ?thesis by simp
  next
    case False
    with IH that show ?thesis by (simp add: update_conv')
  qed
  have "\<exists>q. map_of result (account_ref u) = Some q \<and> up_receiveAddress q = up_receiveAddress u" using IH by (simp add: update_conv')
  with IH old u(1) show ?case by simp
qed simp

lemma check_addresses_ok:
  "check_addresses w us = Inr () \<Longrightarrow> u \<in> set us \<Longrightarrow> wa_validateAddress (forAsset w (up_asset u)) (the (up_receiveAddress u)) = Inr True"
  by (induction us) (auto simp: ebind_eq_Inr split: if_splits)

lemma account_ref_asset: "account_ref u = account_ref v \<Longrightarrow> up_asset u = up_asset v \<and> up_accountKey u = up_accountKey v"
  by (cases "up_asset u"; cases "up_asset v") (auto simp: account_ref_def)

lemma test_pools_ok:
  assumes "test_pools test us s = (t, Inr ())" and "u \<in> set us"
  shows "\<exists>s1 s2 message. test (up_id u) s1 = (s2, Inr (True, message))"
  using assms by (induction us arbitrary: s) (auto split: prod.splits sum.splits if_splits)


section \<open>The owner can sign in\<close>

lemma upsert_owner_found:
  "\<exists>a. find_admin_email email (upsert_owner email name h s) = Some a \<and> ad_role a = OWNER \<and> ad_passwordHash a = h \<and>
     (find_admin_email email s = None \<longrightarrow> ad_status a = EntityStatus.ACTIVE \<and> \<not> ad_totpEnabled a \<and> ad_lockedUntil a = None) \<and>
     (\<forall>b. find_admin_email email s = Some b \<longrightarrow> ad_id a = ad_id b \<and> ad_status a = ad_status b \<and> ad_totpEnabled a = ad_totpEnabled b \<and>
        ad_lockedUntil a = ad_lockedUntil b)"
proof (cases "find_admin_email email s")
  case None
  have "List.find P (xs @ [x]) = (if P x then Some x else None)" if "List.find P xs = None" for P xs and x :: admin
    using that by (induction xs) (auto split: if_splits)
  with None show ?thesis by (simp add: upsert_owner_def find_admin_email_def new_id_def)
next
  case (Some b)
  have "List.find P (update_where P f xs) = map_option f (List.find P xs)" if "\<And>x. P (f x) = P x" for P and f :: "admin \<Rightarrow> admin" and xs
    using that by (induction xs) (auto simp: update_where_def)
  with Some show ?thesis by (simp add: upsert_owner_def find_admin_email_def)
qed

text \<open>After the bootstrap its owner can sign in.  Given that a hash verifies the password it was made from, a bootstrap that
  succeeds leaves an owner under the cleaned address with the password given; if the address is new, signing in with it and the
  password opens a session of an owner.  An existing account keeps its status, its lock and its second factor.\<close>

theorem bootstrap_then_login:
  assumes "bootstrap_admin (sv_crypto V) readFile env argv salt s = (t, Inr ())"
    and "\<forall>p. cl_argon_verify (cr_lib (sv_crypto V)) (cl_argon_hash (cr_lib (sv_crypto V)) salt p) p = Inr True"
  shows "\<exists>email p a. bootstrap_email env argv = Some email \<and> bootstrap_password readFile env argv = Inr (Some p) \<and> 12 \<le> js_length p \<and>
    find_admin_email email t = Some a \<and> ad_role a = OWNER \<and> verifySecret (sv_crypto V) (ad_passwordHash a) p \<and>
    (find_admin_email email s = None \<longrightarrow>
       (\<forall>now rnd ip r code. \<exists>e token. snd (login V now rnd \<lparr>lg_email = email, lg_password = p, lg_totpCode = code\<rparr> ip (t, r)) = Inr (e, token) \<and> se_role e = OWNER))"
proof -
  from assms(1) obtain email p name where e: "bootstrap_email env argv = Some email" and p: "bootstrap_password readFile env argv = Inr (Some p)"
    and l: "12 \<le> js_length p" and t: "t = upsert_owner email name (hashSecret (sv_crypto V) salt p) s"
    by (auto simp: bootstrap_admin_def Let_def truthy_def split: sum.splits if_splits option.splits)
  from upsert_owner_found [of email name "hashSecret (sv_crypto V) salt p" s, folded t] obtain a where
    a: "find_admin_email email t = Some a" "ad_role a = OWNER" "ad_passwordHash a = hashSecret (sv_crypto V) salt p"
    "find_admin_email email s = None \<longrightarrow> ad_status a = EntityStatus.ACTIVE \<and> \<not> ad_totpEnabled a \<and> ad_lockedUntil a = None"
    by (elim exE conjE)
  have v: "verifySecret (sv_crypto V) (ad_passwordHash a) p" by (simp add: a(3) verifySecret_def hashSecret_def assms(2))
  have clean: "toLowerCase (trim email) = email" using e clean_again by (auto simp: bootstrap_email_def)
  have "\<exists>e token. snd (login V now rnd \<lparr>lg_email = email, lg_password = p, lg_totpCode = code\<rparr> ip (t, r)) = Inr (e, token) \<and> se_role e = OWNER"
    if none: "find_admin_email email s = None" for now rnd ip r code
  proof -
    have f: "ad_status a = EntityStatus.ACTIVE" "\<not> ad_totpEnabled a" "ad_lockedUntil a = None" using a(4) none by blast+
    then have "second_factor V now a code True t = Inr (True, None)" "\<not> is_locked now a"
      by (simp_all add: second_factor_def is_locked_def)
    then have lg: "login V now rnd \<lparr>lg_email = email, lg_password = p, lg_totpCode = code\<rparr> ip (t, r) = open_session V now rnd ip a (t, r)"
      using v f(1) by (simp add: login_def clean a(1) Let_def consume_backup_def)
    obtain y where "snd (open_session V now rnd ip a (t, r)) = Inr y" using open_session_isr by blast
    then obtain st e token where o1: "open_session V now rnd ip a (t, r) = (st, Inr (e, token))"
      by (cases "open_session V now rnd ip a (t, r)"; cases y) simp
    from open_session_redis [OF o1] have "e = new_session now rnd a" by blast
    then show ?thesis using lg o1 a(2) by (simp add: new_session_def)
  qed
  with e p l a v show ?thesis by blast
qed

section \<open>Witnesses\<close>

definition boot_env :: raw_env where
  "boot_env = [''BOOTSTRAP_ADMIN_EMAIL'' \<mapsto> '' Root@X '', ''BOOTSTRAP_ADMIN_PASSWORD'' \<mapsto> ''correct horse'', ''DATABASE_URL'' \<mapsto> ''postgres'']"

theorem bootstrap_then_login_witness:
  "\<exists>t e token. bootstrap_admin (sv_crypto example_services) (\<lambda>_. Inl (Error [])) boot_env [] ''s'' (empty_store show_nat) = (t, Inr ()) \<and>
     snd (login example_services 7 example_random \<lparr>lg_email = ''root@x'', lg_password = ''correct horse'', lg_totpCode = None\<rparr> ''ip'' (t, empty_redis)) = Inr (e, token) \<and>
     se_role e = OWNER"
proof -
  have f: "bootstrap_password (\<lambda>_. Inl (Error [])) boot_env [] = Inr (Some ''correct horse'')" "truthy (boot_env ''DATABASE_URL'')"
    by (simp_all add: bootstrap_password_def boot_env_def truthy_def)
  have m: "bootstrap_email boot_env [] = Some ''root@x''"
  proof -
    have "toLowerCase (trim '' Root@X '') = ''root@x''" by code_simp
    then show ?thesis by (simp add: bootstrap_email_def boot_env_def or_argument_def)
  qed
  have "\<not> js_length ''correct horse'' < 12" by code_simp
  then obtain t where t: "bootstrap_admin (sv_crypto example_services) (\<lambda>_. Inl (Error [])) boot_env [] ''s'' (empty_store show_nat) = (t, Inr ())"
    using f m by (simp add: bootstrap_admin_def truthy_def)
  have "\<forall>p. cl_argon_verify (cr_lib (sv_crypto example_services)) (cl_argon_hash (cr_lib (sv_crypto example_services)) ''s'' p) p = Inr True"
    by (simp add: example_services_def example_crypto_def crypto_init_def example_crypto_lib_def)
  from bootstrap_then_login [OF t this] m f(1) have "find_admin_email ''root@x'' (empty_store show_nat) = None \<longrightarrow>
      (\<exists>e token. snd (login example_services 7 example_random \<lparr>lg_email = ''root@x'', lg_password = ''correct horse'', lg_totpCode = None\<rparr> ''ip'' (t, empty_redis)) = Inr (e, token) \<and>
        se_role e = OWNER)" by auto
  then show ?thesis using t by (simp add: find_admin_email_def empty_store_def)
qed

definition test_pool :: "string \<Rightarrow> AssetCode \<Rightarrow> PoolProtocol \<Rightarrow> upstream" where
  "test_pool i asset protocol = \<lparr>up_id = i, up_accountKey = ''main'', up_asset = asset, up_protocol = protocol, up_name = i, up_host = ''pool'', up_port = 3333,
     up_tls = False, up_priority = 1, up_enabled = True, up_usernameTemplate = ''acct'', up_passwordCiphertext = None,
     up_receiveAddress = Some ''addr123456'', up_connectionTimeoutMs = 10000, up_failbackCooldownSeconds = 60, up_lastHealthAt = None,
     up_lastHealthOk = None, up_lastHealthMessage = None\<rparr>"

definition test_store :: store where
  "test_store = (empty_store show_nat)\<lparr>upstreams := [test_pool ''b'' BTC BITCOIN_STRATUM_V1, test_pool ''m'' XMR MONERO_JSON_RPC, test_pool ''n'' XMR MONERO_JSON_RPC]\<rparr>"

definition pool_answer :: "string \<Rightarrow> json \<Rightarrow> json result" where
  "pool_answer name params = Inr (JObj [(''result'', if name = ''mining.subscribe'' then JArr [] else if name = ''mining.authorize'' then JBool True
     else JObj [(''id'', JStr ''1''), (''status'', JStr ''OK'')])])"

lemma test_store_passes:
  "snd (self_test example_services (statuses (Inr ()) (Inr ())) (\<lambda>_ _. Inr ()) pool_answer (Inr None) 5 test_store) = Inr (2, 2, 3)"
  by code_simp


end
