(* ===== verification/Format.thy ===== *)
theory Format
  imports HttpText Ledger
begin

text \<open>
  How the administration UI shows amounts, hash rates and the time left, and how its client reports errors
  (\<open>apps/admin/src\<close>: \<open>components/ui.tsx\<close>, \<open>pages/portal.tsx\<close>, \<open>api.ts\<close>).  The browser's number format is a parameter; rates are
  exact quotients.
\<close>

section \<open>Amounts\<close>

definition decimals :: "AssetCode \<Rightarrow> nat" where
  "decimals asset = (if asset = BTC then 8 else 12)"

definition strip_zeros :: "string \<Rightarrow> string" where
  "strip_zeros t = rev (dropWhile (\<lambda>c. c = CHR ''0'') (rev t))"

definition formatAtomic :: "int \<Rightarrow> AssetCode \<Rightarrow> string" where
  "formatAtomic amount asset =
     (let d = decimals asset;
          raw = padStart (d + 1) (CHR ''0'') (show_int amount);
          whole = take (length raw - d) raw;
          fraction = take 8 (strip_zeros (drop (length raw - d) raw))
      in whole @ (if fraction \<noteq> [] then ''.'' @ fraction else []) @ '' '' @ show_asset asset)"

section \<open>Hash rates\<close>

definition units :: "string list" where
  "units = [''H/s'', ''KH/s'', ''MH/s'', ''GH/s'', ''TH/s'', ''PH/s'', ''EH/s'']"

function scale :: "rat \<Rightarrow> nat \<Rightarrow> rat \<times> nat" where
  "scale current unit =
     (if abs current \<ge> 1000 \<and> unit < length units - 1 then scale (current / 1000) (unit + 1) else (current, unit))"
  by auto

termination by (relation "measure (\<lambda>(current, unit). length units - unit)") (auto simp: units_def)

declare scale.simps [simp del]

definition formatHashrate :: "(rat \<Rightarrow> string) \<Rightarrow> rat \<Rightarrow> string" where
  "formatHashrate number_format v = (case scale v 0 of (current, unit) \<Rightarrow> number_format current @ '' '' @ units ! unit)"

section \<open>The time left\<close>

definition countdown :: "instant \<Rightarrow> instant \<Rightarrow> string" where
  "countdown target now =
     (let seconds = max 0 ((target - now) div 1000);
          hours = seconds div 3600; minutes = seconds mod 3600 div 60; remainder = seconds mod 60
      in join '':'' (map (\<lambda>n. padStart 2 (CHR ''0'') (show_int n)) [hours, minutes, remainder]))"

section \<open>Errors of a request\<close>

definition api_error_message :: "int \<Rightarrow> json option \<Rightarrow> string" where
  "api_error_message status body =
     (let message = (case body of Some (JObj kvs) \<Rightarrow>
            (case map_of kvs ''error'' of Some (JObj e) \<Rightarrow>
               (case map_of e ''message'' of Some (JArr ms) \<Rightarrow> Some (join '', '' (map (\<lambda>m. case m of JStr t \<Rightarrow> t | _ \<Rightarrow> []) ms))
                | Some (JStr t) \<Rightarrow> Some t | _ \<Rightarrow> None)
             | _ \<Rightarrow> None)
          | _ \<Rightarrow> None)
      in case message of Some m \<Rightarrow> m | None \<Rightarrow> ''Request failed ('' @ show_int status @ '')'')"

section \<open>Reading an amount back\<close>

lemma read_nat_foldl: "foldl (\<lambda>n c. 10 * n + digit_value c) a cs = a * 10 ^ length cs + read_nat cs"
proof (induction cs rule: rev_induct)
  case (snoc c cs)
  then show ?case by (simp add: read_nat_def algebra_simps)
qed (simp add: read_nat_def)

lemma read_nat_append: "read_nat (xs @ ys) = read_nat xs * 10 ^ length ys + read_nat ys"
  using read_nat_foldl [of "read_nat xs" ys] by (simp add: read_nat_def)

lemma read_nat_zeros: "read_nat (replicate n (CHR ''0'') @ xs) = read_nat xs" "read_nat (replicate n (CHR ''0'')) = 0"
proof -
  have z: "read_nat (replicate n (CHR ''0'')) = 0" by (induction n) (simp_all add: read_nat_def digit_value_def)
  then show "read_nat (replicate n (CHR ''0'') @ xs) = read_nat xs" "read_nat (replicate n (CHR ''0'')) = 0" by (simp_all add: read_nat_append)
qed

lemma strip_zeros_snoc: "strip_zeros (t @ [c]) = (if c = CHR ''0'' then strip_zeros t else t @ [c])"
  by (simp add: strip_zeros_def)

lemma strip_zeros_split: "\<exists>n. t = strip_zeros t @ replicate n (CHR ''0'')"
proof (induction t rule: rev_induct)
  case (snoc c t)
  then obtain n where n: "t = strip_zeros t @ replicate n (CHR ''0'')" by blast
  show ?case
  proof (cases "c = CHR ''0''")
    case True
    have "t @ [c] = strip_zeros t @ replicate (Suc n) (CHR ''0'')" using n True by (metis append_assoc replicate_Suc replicate_append_same)
    then show ?thesis using True by (metis strip_zeros_snoc)
  next
    case False
    then show ?thesis by (intro exI [of _ 0]) (simp add: strip_zeros_snoc)
  qed
qed (simp add: strip_zeros_def)

lemma read_nat_bound: "list_all is_digit cs \<Longrightarrow> read_nat cs < 10 ^ length cs"
proof (induction cs rule: rev_induct)
  case (snoc c cs)
  then have "read_nat cs + 1 \<le> 10 ^ length cs" "digit_value c < 10" by (auto simp: is_digit_def digit_value_def)
  then have "10 * (read_nat cs + 1) \<le> 10 * 10 ^ length cs" by simp
  with \<open>digit_value c < 10\<close> show ?case by (simp add: read_nat_append) (simp add: read_nat_def)
qed (simp add: read_nat_def)

text \<open>C40: What the UI shows of an amount is the amount.  For a nonnegative amount the text is digits, at most eight decimals without a
  trailing point, and the asset; read back it is the amount exactly for Bitcoin, and for Monero the amount rounded down to
  eight of its twelve decimals.\<close>

theorem formatAtomic_reads_back:
  assumes "0 \<le> amount"
  shows "\<exists>w f. formatAtomic amount asset = w @ (if f \<noteq> [] then ''.'' @ f else []) @ '' '' @ show_asset asset \<and>
    w \<noteq> [] \<and> list_all is_digit w \<and> list_all is_digit f \<and> length f \<le> 8 \<and>
    (let shown = int (read_nat w) * 10 ^ decimals asset + int (read_nat f) * 10 ^ (decimals asset - length f)
     in shown \<le> amount \<and> amount < shown + 10 ^ (decimals asset - 8) \<and> (asset = BTC \<longrightarrow> shown = amount))"
proof -
  define d where "d = decimals asset"
  define raw where "raw = padStart (d + 1) (CHR ''0'') (show_int amount)"
  define w where "w = take (length raw - d) raw"
  define g where "g = drop (length raw - d) raw"
  define f where "f = take 8 (strip_zeros g)"
  have d: "8 \<le> d" "asset = BTC \<Longrightarrow> d = 8" by (simp_all add: d_def decimals_def)
  have dig: "list_all is_digit raw" using assms
    by (auto simp: raw_def padStart_def show_int_def list_all_iff show_nat_digits) (simp add: is_digit_def)
  have len: "d < length raw" by (simp add: raw_def length_padStart)
  have reading: "read_nat raw = nat amount" using assms by (simp add: raw_def padStart_def show_int_def read_nat_zeros)
  have raw: "raw = w @ g" "length g = d" using len by (simp_all add: w_def g_def)
  obtain n where n: "g = strip_zeros g @ replicate n (CHR ''0'')" using strip_zeros_split by blast
  define h where "h = drop 8 (strip_zeros g)"
  have h: "strip_zeros g = f @ h" "length f \<le> 8" "h \<noteq> [] \<longrightarrow> length f = 8" by (auto simp: f_def h_def)
  let ?k = "d - length f"
  have g: "g = f @ h @ replicate n (CHR ''0'')" using n h(1) by simp
  have k: "length (h @ replicate n (CHR ''0'')) = ?k" using raw(2) arg_cong [OF g, of length] by simp
  define rest where "rest = read_nat (h @ replicate n (CHR ''0''))"
  have parts: "nat amount = read_nat w * 10 ^ d + read_nat f * 10 ^ ?k + rest"
    using reading raw k unfolding raw(1) g by (simp add: read_nat_append rest_def)
  have digits: "list_all is_digit w" "list_all is_digit f" "list_all is_digit h" using dig unfolding raw(1) g by simp_all
  have rest: "rest < 10 ^ (d - 8) \<and> (d = 8 \<longrightarrow> rest = 0)"
  proof (cases "h = []")
    case True
    then show ?thesis by (simp add: rest_def read_nat_zeros)
  next
    case False
    then have "?k = d - 8" using h(3) by simp
    moreover have "list_all is_digit (h @ replicate n (CHR ''0''))" using digits(3) by (auto simp: list_all_iff is_digit_def)
    ultimately show ?thesis using read_nat_bound [of "h @ replicate n (CHR ''0'')"] k unfolding rest_def by auto
  qed
  define shown where "shown = int (read_nat w) * 10 ^ d + int (read_nat f) * 10 ^ ?k"
  have "amount = int (nat amount)" using assms by simp
  also have "\<dots> = shown + int rest" unfolding parts shown_def by simp
  finally have a: "amount = shown + int rest" .
  have "int rest < 10 ^ (d - 8)" using rest by (metis of_nat_less_iff of_nat_numeral of_nat_power)
  then have fin: "shown \<le> amount \<and> amount < shown + 10 ^ (d - 8) \<and> (asset = BTC \<longrightarrow> shown = amount)" using a rest d(2) by auto
  have "formatAtomic amount asset = w @ (if f \<noteq> [] then ''.'' @ f else []) @ '' '' @ show_asset asset"
    by (simp only: formatAtomic_def Let_def f_def g_def w_def raw_def d_def)
  moreover have "w \<noteq> []" using len by (auto simp: w_def)
  ultimately show ?thesis using digits h(2) fin unfolding d_def [symmetric] shown_def
    by (intro exI [of _ w] exI [of _ f]) (simp add: Let_def)
qed

theorem formatAtomic_reads_back_witness:
  "formatAtomic 150 BTC = ''0.0000015 BTC'' \<and>
   (\<exists>w f. formatAtomic 150 BTC = w @ (if f \<noteq> [] then ''.'' @ f else []) @ '' '' @ show_asset BTC \<and> length f \<le> 8)"
proof -
  have n: "(0 :: int) \<le> 150" by simp
  obtain w f where "formatAtomic 150 BTC = w @ (if f \<noteq> [] then ''.'' @ f else []) @ '' '' @ show_asset BTC" "length f \<le> 8"
    using formatAtomic_reads_back [OF n, of BTC] by (elim exE conjE)
  then have "\<exists>w f. formatAtomic 150 BTC = w @ (if f \<noteq> [] then ''.'' @ f else []) @ '' '' @ show_asset BTC \<and> length f \<le> 8" by blast
  moreover have "formatAtomic 150 BTC = ''0.0000015 BTC''" by code_simp
  ultimately show ?thesis by blast
qed

text \<open>A negative amount, as the balances of customers can be, is padded in front of its sign and cut in the wrong place.\<close>

lemma negative_amount_garbled: "formatAtomic (- 1000) BTC = ''0.000-1 BTC''"
  by code_simp

text \<open>Small amounts of Monero show zeros only, because the zeros are stripped before the digits are cut.\<close>

lemma small_monero_zeros: "formatAtomic 1234 XMR = ''0.00000000 XMR''"
  by code_simp

lemma scale_keeps: "scale v u = (c, k) \<Longrightarrow> u < length units \<Longrightarrow>
  u \<le> k \<and> k < length units \<and> v = c * 1000 ^ (k - u) \<and> (abs c < 1000 \<or> k = length units - 1) \<and> (u < k \<longrightarrow> 1 \<le> abs c)"
proof (induction v u rule: scale.induct)
  case (1 v u)
  show ?case
  proof (cases "abs v \<ge> 1000 \<and> u < length units - 1")
    case True
    with "1.prems"(1) have s: "scale (v / 1000) (u + 1) = (c, k)" by (simp add: scale.simps [of v u])
    have k: "u + 1 \<le> k" "k < length units" "v / 1000 = c * 1000 ^ (k - (u + 1))" "abs c < 1000 \<or> k = length units - 1" "u + 1 < k \<longrightarrow> 1 \<le> abs c"
      using "1.IH" [OF True s] True by auto
    have "k - u = Suc (k - (u + 1))" using k(1) by simp
    then have "v = c * 1000 ^ (k - u)" using k(3) by simp
    moreover have "1 \<le> abs c"
    proof (cases "u + 1 < k")
      case False
      with k(1,3) have "v / 1000 = c" by simp
      with True show ?thesis by (auto simp: abs_if split: if_splits)
    qed (use k(5) in simp)
    ultimately show ?thesis using k by simp
  next
    case False
    with "1.prems" show ?thesis by (auto simp: scale.simps [of v u] not_le)
  qed
qed

text \<open>The loop that picks the unit of a hash rate ends after at most six divisions, with a number below a thousand, or in the
  largest unit, and at least one unless the unit is the smallest; number and unit together are the rate.\<close>

theorem hashrate_unit:
  "\<exists>c k. formatHashrate number_format v = number_format c @ '' '' @ units ! k \<and> k \<le> 6 \<and> v = c * 1000 ^ k \<and>
     (abs c < 1000 \<or> k = 6) \<and> (0 < k \<longrightarrow> 1 \<le> abs c)"
proof -
  obtain c k where ck: "scale v 0 = (c, k)" by (cases "scale v 0")
  have n: "length units = 7" by (simp add: units_def)
  from scale_keeps [OF ck] n have f: "k < 7" "v = c * 1000 ^ k" "abs c < 1000 \<or> k = 6" "0 < k \<longrightarrow> 1 \<le> abs c" by simp_all
  have "formatHashrate number_format v = number_format c @ '' '' @ units ! k" by (simp add: formatHashrate_def ck)
  with f show ?thesis by (intro exI [of _ c] exI [of _ k]) simp
qed

end
